(* ===== verification/Go_Prelude.thy ===== *)
theory Go_Prelude
  imports Main "HOL-Library.Word" "HOL-Library.AList"
begin

text \<open>
  What every component of the model shares: Go's strings, its \<open>error\<close> values with
  \<open>errors.Is\<close>, \<open>fmt.Errorf("%w")\<close> and \<open>errors.Join\<close>, machine-width durations, instants, and
  Go maps as association lists.

  Strings are lists of bytes, so \<open>length\<close> is Go's \<open>len\<close>. \<open>strings.ToLower\<close> and
  \<open>strings.TrimSpace\<close> are modelled on ASCII bytes: a byte above 127 is neither folded nor
  trimmed, so what is proved of them is about ASCII input. An instant is an \<open>int\<close> of
  nanoseconds; a duration is an \<open>int\<close> too, but every product and sum of durations goes
  through \<open>wrap64\<close>, Go's two's complement \<open>int64\<close>.
\<close>

named_theorems go_text "string functions of the standard library"
named_theorems go_map "lookups in updated Go maps"

type_synonym str = string
type_synonym bytes = string
type_synonym time = int
type_synonym duration = int

section \<open>Machine integers\<close>

definition wrap64 :: "int \<Rightarrow> int" where
  "wrap64 x = (x + 2 ^ 63) mod 2 ^ 64 - 2 ^ 63"

definition int64_range :: "int \<Rightarrow> bool" where
  "int64_range x \<longleftrightarrow> - (2 ^ 63) \<le> x \<and> x < 2 ^ 63"

lemma wrap64_range: "int64_range (wrap64 x)"
proof -
  have "0 \<le> (x + 2 ^ 63) mod 2 ^ 64" and "(x + 2 ^ 63) mod 2 ^ 64 < 2 ^ 64"
    by simp_all
  then show ?thesis by (simp add: wrap64_def int64_range_def)
qed

lemma wrap64_id [simp]: "int64_range x \<Longrightarrow> wrap64 x = x"
  by (simp add: wrap64_def int64_range_def)

lemma wrap64_small: "\<lbrakk> 0 \<le> x; x < 2 ^ 63 \<rbrakk> \<Longrightarrow> wrap64 x = x"
  by (simp add: int64_range_def)

text \<open>The units of the \<open>time\<close> package, in nanoseconds.\<close>

definition nanosecond :: duration where "nanosecond = 1"
definition millisecond :: duration where "millisecond = 1000000"
definition second :: duration where "second = 1000000000"
definition minute :: duration where "minute = 60000000000"
definition hour :: duration where "hour = 3600000000000"

text \<open>\<open>t.Sub(u)\<close> saturates at the bounds of a duration.\<close>

definition time_sub :: "time \<Rightarrow> time \<Rightarrow> duration" where
  "time_sub t u = max (- (2 ^ 63)) (min (2 ^ 63 - 1) (t - u))"

section \<open>Errors\<close>

text \<open>
  The sentinels the packages declare with \<open>errors.New\<close>: two sentinels are equal only if they
  are the same variable, whatever their text.
\<close>

datatype outbox_sentinel = ErrMissingPort | ErrInvalidPolicy | ErrHandlerPanicked
  | OutboxErrDisabled | OutboxErrPoolRequired | OutboxErrUnknownDriver
  | ErrHandlerRequired | OutboxErrLoggerRequired | ErrNotShared

datatype idempotency_sentinel = ErrConflict | ErrInFlight | IdemErrIncomplete | ErrNotReserved
  | IdemErrDisabled | IdemErrPoolRequired | ErrCacheRequired | IdemErrUnknownDriver

datatype auth_sentinel = ErrInvalidCredentials | ErrTokenUnknown | ErrForbidden
  | AuthErrIncomplete | ErrSubjectTaken | AuthErrDisabled | AuthErrMissingDependency
  | AuthErrUnknownDriver

datatype scheduler_sentinel = ErrInvalidTask | SchedErrMissingPort | ErrNoJob
  | SchedErrDisabled | SchedErrPoolRequired | SchedErrLoggerRequired | SchedErrUnknownDriver

datatype notification_sentinel = NotifErrIncomplete | ErrUnknownChannel | ErrUndeliverable
  | NotifErrDisabled | NotifErrMissingDependency | NotifErrUnknownDriver | ErrUnknownBodyOption

datatype dynconf_sentinel = ErrReadOnly | ErrInvalidChange | ErrNotScalar
  | DynErrDisabled | DynErrPoolRequired | DynErrLoggerRequired | DynErrUnknownDriver

datatype storage_sentinel = ErrUnsafeName | ErrEmptyContent | StorageErrDisabled
  | StorageErrUnknownDriver

datatype audit_sentinel = AuditErrIncomplete | AuditErrDisabled | AuditErrPoolRequired
  | AuditErrLoggerRequired | AuditErrUnknownDriver

datatype infra_sentinel = ErrMissingID | ErrUnknownRelay | ErrNoBaseURL | ErrUnknownMode
  | BusErrDisabled | ErrInvalidCursor | ErrInvalidHash | ErrInvalidKey
  | ErrIdempotencyRequired | UserRegErrDisabled | UserRegErrMissingDependency
  | UserRegErrUnknownDriver

datatype context_sentinel = Canceled | DeadlineExceeded

datatype sentinel = Outbox outbox_sentinel | Idem idempotency_sentinel | Auth auth_sentinel
  | Sched scheduler_sentinel | Notif notification_sentinel | Dyn dynconf_sentinel
  | Stor storage_sentinel | Aud audit_sentinel | Infra infra_sentinel
  | Ctx context_sentinel | NoRows | RedisNil | NotExist

text \<open>
  \<open>Errorf parts\<close> is \<open>fmt.Errorf\<close>: literal text and the operands of its \<open>%w\<close> verbs, in order.
  \<open>Opaque\<close> is an error of code outside the repository, or an \<open>errors.New\<close> nobody compares.
\<close>

datatype err =
    Sentinel sentinel
  | Opaque str
  | Errorf "part list"
  | JoinErr "err list"
and part = Lit str | W err

text \<open>\<open>ctx.Err()\<close> at the moment of a call: nil, or why the context ended.\<close>

type_synonym ctx = "err option"

text \<open>\<open>errors.Is\<close>: the error itself, or one it wraps, at any depth.\<close>

fun errors_is :: "err \<Rightarrow> sentinel \<Rightarrow> bool" and part_is :: "part \<Rightarrow> sentinel \<Rightarrow> bool" where
  "errors_is (Sentinel s) t = (s = t)"
| "errors_is (Opaque m) t = False"
| "errors_is (Errorf ps) t = list_ex (\<lambda>p. part_is p t) ps"
| "errors_is (JoinErr es) t = list_ex (\<lambda>e. errors_is e t) es"
| "part_is (Lit m) t = False"
| "part_is (W e) t = errors_is e t"

text \<open>The text of the sentinels whose \<open>Error()\<close> the model reads.\<close>

primrec text_of_outbox :: "outbox_sentinel \<Rightarrow> str" where
  "text_of_outbox ErrMissingPort = ''missing port for the outbox dispatcher''"
| "text_of_outbox ErrInvalidPolicy = ''invalid dispatching policy''"
| "text_of_outbox ErrHandlerPanicked = ''the publisher panicked''"
| "text_of_outbox OutboxErrDisabled = ''outbox module disabled in config/modules.yaml''"
| "text_of_outbox OutboxErrPoolRequired = ''the postgres driver requires a database connection''"
| "text_of_outbox OutboxErrUnknownDriver = ''unknown outbox driver''"
| "text_of_outbox ErrHandlerRequired = ''the outbox dispatcher requires a publisher''"
| "text_of_outbox OutboxErrLoggerRequired = ''the outbox dispatcher requires a logger''"
| "text_of_outbox ErrNotShared = ''outbox driver not shared across processes''"

primrec text_of_idempotency :: "idempotency_sentinel \<Rightarrow> str" where
  "text_of_idempotency ErrConflict = ''idempotency key reused with a different request''"
| "text_of_idempotency ErrInFlight = ''identical request already in flight''"
| "text_of_idempotency IdemErrIncomplete = ''incomplete idempotency request''"
| "text_of_idempotency ErrNotReserved = ''no live reservation for this key''"
| "text_of_idempotency IdemErrDisabled = ''idempotency module disabled in config/modules.yaml''"
| "text_of_idempotency IdemErrPoolRequired = ''the postgres driver requires a database connection''"
| "text_of_idempotency ErrCacheRequired = ''the redis driver requires a cache connection''"
| "text_of_idempotency IdemErrUnknownDriver = ''unknown idempotency driver''"

primrec text_of_auth :: "auth_sentinel \<Rightarrow> str" where
  "text_of_auth ErrInvalidCredentials = ''invalid credentials''"
| "text_of_auth ErrTokenUnknown = ''unknown or expired token''"
| "text_of_auth ErrForbidden = ''permission denied''"
| "text_of_auth AuthErrIncomplete = ''incomplete request''"
| "text_of_auth ErrSubjectTaken = ''this subject is already registered''"
| "text_of_auth AuthErrDisabled = ''auth module disabled''"
| "text_of_auth AuthErrMissingDependency = ''mandatory dependency missing''"
| "text_of_auth AuthErrUnknownDriver = ''unknown auth driver''"

primrec text_of_scheduler :: "scheduler_sentinel \<Rightarrow> str" where
  "text_of_scheduler ErrInvalidTask = ''invalid scheduled task''"
| "text_of_scheduler SchedErrMissingPort = ''missing port for the scheduler''"
| "text_of_scheduler ErrNoJob = ''scheduled task without work''"
| "text_of_scheduler SchedErrDisabled = ''scheduler module disabled in config/modules.yaml''"
| "text_of_scheduler SchedErrPoolRequired = ''the advisory-lock driver requires a database connection''"
| "text_of_scheduler SchedErrLoggerRequired = ''the scheduler module requires a logger to report to''"
| "text_of_scheduler SchedErrUnknownDriver = ''unknown scheduler driver''"

fun sentinel_text :: "sentinel \<Rightarrow> str" where
  "sentinel_text (Outbox s) = text_of_outbox s"
| "sentinel_text (Idem s) = text_of_idempotency s"
| "sentinel_text (Auth s) = text_of_auth s"
| "sentinel_text (Sched s) = text_of_scheduler s"
| "sentinel_text (Ctx Canceled) = ''context canceled''"
| "sentinel_text (Ctx DeadlineExceeded) = ''context deadline exceeded''"
| "sentinel_text NoRows = ''no rows in result set''"
| "sentinel_text RedisNil = ''redis: nil''"
| "sentinel_text _ = ''error''"

text \<open>\<open>err.Error()\<close>.\<close>

fun join_lines :: "str list \<Rightarrow> str" where
  "join_lines [] = []"
| "join_lines [x] = x"
| "join_lines (x # y # zs) = x @ CHR 0x0A # join_lines (y # zs)"

fun err_text :: "err \<Rightarrow> str" and part_text :: "part \<Rightarrow> str" where
  "err_text (Sentinel s) = sentinel_text s"
| "err_text (Opaque m) = m"
| "err_text (Errorf ps) = concat (map part_text ps)"
| "err_text (JoinErr es) = join_lines (map err_text es)"
| "part_text (Lit m) = m"
| "part_text (W e) = err_text e"

text \<open>\<open>errors.Join\<close> drops the nil errors and is nil when nothing is left.\<close>

definition join_errors :: "err option list \<Rightarrow> err option" where
  "join_errors es =
     (let kept = List.map_filter (\<lambda>e. e) es in if kept = [] then None else Some (JoinErr kept))"

lemma join_errors_None_iff: "join_errors es = None \<longleftrightarrow> (\<forall>e \<in> set es. e = None)"
  by (induction es) (auto simp: join_errors_def Let_def List.map_filter_def)

section \<open>Text\<close>

definition is_space :: "char \<Rightarrow> bool" where
  "is_space c \<longleftrightarrow> of_char c \<in> {9, 10, 11, 12, 13, 32 :: nat}"

definition lower_char :: "char \<Rightarrow> char" where
  "lower_char c = (let n = of_char c :: nat in
     if 65 \<le> n \<and> n \<le> 90 then char_of (n + 32) else c)"

definition to_lower :: "str \<Rightarrow> str" where
  "to_lower s = map lower_char s"

definition trim_space :: "str \<Rightarrow> str" where
  "trim_space s = rev (dropWhile is_space (rev (dropWhile is_space s)))"

definition contains_any :: "str \<Rightarrow> str \<Rightarrow> bool" where
  "contains_any s cs \<longleftrightarrow> list_ex (\<lambda>c. c \<in> set cs) s"

text \<open>\<open>strings.Cut\<close> around the first occurrence of a one-byte separator.\<close>

fun cut :: "char \<Rightarrow> str \<Rightarrow> str \<times> str \<times> bool" where
  "cut c [] = ([], [], False)"
| "cut c (x # xs) =
     (if x = c then ([], xs, True)
      else (case cut c xs of (a, b, f) \<Rightarrow> (x # a, b, f)))"

text \<open>\<open>strings.Split\<close> around a one-byte separator.\<close>

fun split_char :: "char \<Rightarrow> str \<Rightarrow> str list" where
  "split_char c [] = [[]]"
| "split_char c (x # xs) =
     (if x = c then [] # split_char c xs
      else case split_char c xs of [] \<Rightarrow> [[x]] | seg # segs \<Rightarrow> (x # seg) # segs)"

lemma split_char_join: "concat (map (\<lambda>s. c # s) (split_char c s)) = c # s"
  by (induction s) (auto split: list.splits)

lemma split_char_segments: "seg \<in> set (split_char c s) \<Longrightarrow> c \<notin> set seg"
  by (induction s arbitrary: seg) (auto split: if_splits list.splits)

definition replace_char :: "char \<Rightarrow> str \<Rightarrow> str \<Rightarrow> str" where
  "replace_char c r s = concat (map (\<lambda>x. if x = c then r else [x]) s)"

definition has_prefix :: "str \<Rightarrow> str \<Rightarrow> bool" where
  "has_prefix s p \<longleftrightarrow> take (length p) s = p"

text \<open>The UTF-8 bytes of the dash some messages contain.\<close>

definition em_dash :: str where
  "em_dash = [CHR 0xE2, CHR 0x80, CHR 0x94]"

definition quote_text :: "str \<Rightarrow> str" where
  "quote_text s = ''\"'' @ s @ ''\"''"

lemma cut_found_iff: "snd (snd (cut c s)) \<longleftrightarrow> c \<in> set s"
  by (induction s) (auto split: prod.splits)

lemma cut_not_found: "c \<notin> set s \<Longrightarrow> cut c s = (s, [], False)"
  by (induction s) auto

lemma cut_append [simp]: "c \<notin> set a \<Longrightarrow> cut c (a @ c # b) = (a, b, True)"
  by (induction a) auto

lemma cut_found: "cut c s = (a, b, True) \<Longrightarrow> s = a @ c # b \<and> c \<notin> set a"
  by (induction s arbitrary: a) (auto split: if_splits prod.splits)

lemma lower_char_idem [simp]: "lower_char (lower_char c) = lower_char c"
  by (auto simp: lower_char_def Let_def)

lemma to_lower_idem [simp]: "to_lower (to_lower s) = to_lower s"
  by (simp add: to_lower_def)

lemma to_lower_empty_iff [simp]: "to_lower s = [] \<longleftrightarrow> s = []"
  by (simp add: to_lower_def)

lemma length_to_lower [simp]: "length (to_lower s) = length s"
  by (simp add: to_lower_def)

lemma is_space_lower [simp]: "is_space (lower_char c) \<longleftrightarrow> is_space c"
  by (auto simp: is_space_def lower_char_def Let_def)

lemma dropWhile_to_lower: "dropWhile is_space (to_lower s) = to_lower (dropWhile is_space s)"
  by (simp add: to_lower_def dropWhile_map comp_def)

lemma rev_to_lower: "rev (to_lower s) = to_lower (rev s)"
  by (simp add: to_lower_def rev_map)

lemma trim_to_lower: "trim_space (to_lower s) = to_lower (trim_space s)"
  by (simp add: trim_space_def dropWhile_to_lower rev_to_lower)

lemma dropWhile_idem: "dropWhile P (dropWhile P s) = dropWhile P s"
  by (induction s) auto

lemma dropWhile_rev_trim:
  "dropWhile P (rev (dropWhile P (rev (dropWhile P s)))) = rev (dropWhile P (rev (dropWhile P s)))"
proof (cases "rev (dropWhile P (rev (dropWhile P s)))")
  case Nil
  then show ?thesis by (simp only: dropWhile.simps)
next
  case (Cons x xs)
  obtain zs where "rev (dropWhile P s) = zs @ dropWhile P (rev (dropWhile P s))"
    by (metis takeWhile_dropWhile_id)
  then have "dropWhile P s = rev (dropWhile P (rev (dropWhile P s))) @ rev zs"
    by (metis rev_append rev_rev_ident)
  then have "hd (dropWhile P s) = x" and "dropWhile P s \<noteq> []"
    using Cons by auto
  then have "\<not> P x" by (metis hd_dropWhile)
  then show ?thesis using Cons by simp
qed

lemma trim_space_idem [simp]: "trim_space (trim_space s) = trim_space s"
  by (simp add: trim_space_def dropWhile_rev_trim dropWhile_idem)

text \<open>The normalisation the domains apply: \<open>strings.ToLower(strings.TrimSpace(raw))\<close>.\<close>

definition normalize :: "str \<Rightarrow> str" where
  "normalize raw = to_lower (trim_space raw)"

lemma normalize_idem [simp]: "normalize (normalize raw) = normalize raw"
  by (simp add: normalize_def trim_to_lower)

section \<open>Decimal numbers\<close>

definition digit :: "nat \<Rightarrow> char" where
  "digit d = char_of (48 + d)"

fun show_nat :: "nat \<Rightarrow> str" where
  "show_nat n = (if n < 10 then [digit n] else show_nat (n div 10) @ [digit (n mod 10)])"

lemma digit_chars [simp]:
  "digit 0 = CHR ''0''" "digit (Suc 0) = CHR ''1''" "digit 1 = CHR ''1''" "digit 2 = CHR ''2''"
  "digit 3 = CHR ''3''" "digit 4 = CHR ''4''" "digit 5 = CHR ''5''" "digit 6 = CHR ''6''"
  "digit 7 = CHR ''7''" "digit 8 = CHR ''8''" "digit 9 = CHR ''9''"
  by code_simp+

declare show_nat.simps [simp del]

definition show_int :: "int \<Rightarrow> str" where
  "show_int i = (if i < 0 then CHR ''-'' # show_nat (nat (- i)) else show_nat (nat i))"

definition digit_value :: "char \<Rightarrow> nat option" where
  "digit_value c = (let n = of_char c :: nat in if 48 \<le> n \<and> n \<le> 57 then Some (n - 48) else None)"

text \<open>The value of a list of digits, most significant first; \<open>None\<close> if one is not a digit.\<close>

fun read_digits :: "nat \<Rightarrow> str \<Rightarrow> nat option" where
  "read_digits acc [] = Some acc"
| "read_digits acc (c # cs) =
     (case digit_value c of None \<Rightarrow> None | Some d \<Rightarrow> read_digits (10 * acc + d) cs)"

lemma digit_value_digit [simp]: "d < 10 \<Longrightarrow> digit_value (digit d) = Some d"
  by (simp add: digit_value_def digit_def Let_def)

lemma read_digits_append:
  "read_digits acc (xs @ ys) = (case read_digits acc xs of None \<Rightarrow> None | Some a \<Rightarrow> read_digits a ys)"
  by (induction xs arbitrary: acc) (auto split: option.splits)

lemma read_show_nat: "read_digits 0 (show_nat n) = Some n"
proof (induction n rule: show_nat.induct)
  case (1 n)
  show ?case
  proof (cases "n < 10")
    case True
    then show ?thesis by (simp add: show_nat.simps [of n])
  next
    case False
    with 1 show ?thesis
      by (simp add: show_nat.simps [of n] read_digits_append)
  qed
qed

lemma show_nat_inject [simp]: "show_nat m = show_nat n \<longleftrightarrow> m = n"
  by (metis option.inject read_show_nat)

lemma show_nat_nonempty [simp]: "show_nat n \<noteq> []"
  by (subst show_nat.simps) simp

lemma set_show_nat: "c \<in> set (show_nat n) \<Longrightarrow> digit_value c \<noteq> None"
proof (induction n rule: show_nat.induct)
  case (1 n)
  then show ?case
    by (cases "n < 10") (auto simp: show_nat.simps [of n])
qed

text \<open>\<open>Duration.String\<close>: hours, minutes and seconds, or one smaller unit, without trailing zeros.\<close>

definition frac_text :: "nat \<Rightarrow> nat \<Rightarrow> str" where
  "frac_text u k =
     (let ds = show_nat (u mod 10 ^ k);
          padded = replicate (k - length ds) (digit 0) @ ds;
          kept = rev (dropWhile (\<lambda>c. c = digit 0) (rev padded))
      in if kept = [] then [] else CHR ''.'' # kept)"

definition duration_text :: "duration \<Rightarrow> str" where
  "duration_text d =
     (let u = nat (abs d); sign = (if d < 0 then ''-'' else []) in
      if u = 0 then ''0s''
      else if u < 1000 then sign @ show_nat u @ ''ns''
      else if u < 1000000 then
        sign @ show_nat (u div 1000) @ frac_text u 3 @ [CHR 0xC2, CHR 0xB5, CHR ''s'']
      else if u < 1000000000 then sign @ show_nat (u div 1000000) @ frac_text u 6 @ ''ms''
      else
        (let t = u div 1000000000; m = t div 60; h = m div 60;
             ss = show_nat (t mod 60) @ frac_text u 9 @ ''s''
         in if m = 0 then sign @ ss
            else if h = 0 then sign @ show_nat m @ ''m'' @ ss
            else sign @ show_nat h @ ''h'' @ show_nat (m mod 60) @ ''m'' @ ss))"

section \<open>Go maps\<close>

text \<open>
  A Go map is an association list with one pair per key. Its order stands for the iteration
  order, which Go leaves open: no theorem depends on it.
\<close>

type_synonym ('k, 'v) gomap = "('k \<times> 'v) list"

abbreviation map_get :: "('k, 'v) gomap \<Rightarrow> 'k \<Rightarrow> 'v option" where
  "map_get m k \<equiv> map_of m k"

abbreviation map_set :: "'k \<Rightarrow> 'v \<Rightarrow> ('k, 'v) gomap \<Rightarrow> ('k, 'v) gomap" where
  "map_set k v m \<equiv> AList.update k v m"

abbreviation map_del :: "'k \<Rightarrow> ('k, 'v) gomap \<Rightarrow> ('k, 'v) gomap" where
  "map_del k m \<equiv> AList.delete k m"

abbreviation is_map :: "('k, 'v) gomap \<Rightarrow> bool" where
  "is_map m \<equiv> distinct (map fst m)"

text \<open>Lookups stay lookups: the membership form of \<open>map_of\<close> is used by name only.\<close>

declare map_of_eq_Some_iff [simp del]
declare update_conv' [go_map] delete_conv' [go_map]
declare update_conv' [simp] delete_conv' [simp]

lemma is_map_set [simp, intro]: "is_map m \<Longrightarrow> is_map (map_set k v m)"
  by (simp add: distinct_update)

lemma map_set_fresh: "k \<notin> fst ` set m \<Longrightarrow> map_set k v m = m @ [(k, v)]"
  by (induction m) auto

lemma is_map_del [simp, intro]: "is_map m \<Longrightarrow> is_map (map_del k m)"
  by (simp add: distinct_delete)

lemma map_of_fold_set:
  "is_map m \<Longrightarrow> map_of (fold (\<lambda>(k, x) acc. map_set k (f k x) acc) m acc) i
     = (case map_of m i of Some x \<Rightarrow> Some (f i x) | None \<Rightarrow> map_of acc i)"
proof (induction m arbitrary: acc)
  case (Cons p m)
  obtain k x where p: "p = (k, x)" by (cases p)
  have "map_of m k = None" using Cons.prems p by (simp add: map_of_eq_None_iff)
  then show ?case using Cons.prems Cons.IH by (cases "i = k") (simp_all add: p split: option.split)
qed simp

lemma map_of_fold_default:
  "is_map m \<Longrightarrow> map_of (fold (\<lambda>(k, x) acc. if map_of acc k \<noteq> None then acc else map_set k (f k x) acc) m acc) i
     = (case map_of acc i of Some y \<Rightarrow> Some y
        | None \<Rightarrow> (case map_of m i of Some x \<Rightarrow> Some (f i x) | None \<Rightarrow> None))"
proof (induction m arbitrary: acc)
  case (Cons p m)
  obtain k x where p: "p = (k, x)" by (cases p)
  have "map_of m k = None" using Cons.prems p by (simp add: map_of_eq_None_iff)
  then show ?case
    using Cons.prems Cons.IH
    by (cases "i = k"; cases "map_of acc k") (simp_all add: p split: option.split)
qed (simp split: option.split)

lemma is_map_fold_set [intro]:
  "is_map acc \<Longrightarrow> is_map (fold (\<lambda>(k, x) acc. map_set k (f k x) acc) m acc)"
  by (induction m arbitrary: acc) (simp_all add: case_prod_beta)

lemma is_map_fold_default [intro]:
  "is_map acc \<Longrightarrow> is_map (fold (\<lambda>(k, x) acc. if map_of acc k \<noteq> None then acc else map_set k (f k x) acc) m acc)"
  by (induction m arbitrary: acc) (simp_all add: case_prod_beta)

lemma is_map_mem: "is_map m \<Longrightarrow> (k, v) \<in> set m \<longleftrightarrow> map_of m k = Some v"
  by (simp add: map_of_eq_Some_iff)

lemma map_of_filter_key:
  "is_map m \<Longrightarrow> map_of (filter (\<lambda>(k, v). P k v) m) k
     = (case map_of m k of Some v \<Rightarrow> if P k v then Some v else None | None \<Rightarrow> None)"
  by (induction m) (auto simp: map_of_eq_None_iff split: option.splits)

end
