(* ===== verification/Outbox_Domain.thy ===== *)
theory Outbox_Domain
  imports Go_Prelude
begin

text \<open>
  The vocabulary of the outbox (internal/core/outbox/domain): messages, the retry policy and
  \<open>NextAttempt\<close>, the pure computation of what becomes of a message after a failure.
\<close>

datatype status = StatusPending | StatusDone | StatusFailed

record new_message =
  nm_type :: str
  nm_aggregate_id :: str
  nm_payload :: bytes
  nm_trace_parent :: str
  nm_headers :: "(str, str) gomap option"  \<comment> \<open>\<open>None\<close> is Go's nil map\<close>

record message =
  msg_id :: str
  msg_type :: str
  msg_aggregate_id :: str
  msg_payload :: bytes
  msg_trace_parent :: str
  msg_headers :: "(str, str) gomap option"
  msg_status :: status
  msg_attempts :: int
  msg_created_at :: time
  msg_available_at :: time

record failed_attempt =
  fa_id :: str
  fa_attempts :: int
  fa_status :: status
  fa_available_at :: time
  fa_reason :: str

record retry_policy =
  max_attempts :: int
  base_backoff :: duration

definition maxShift :: int where
  "maxShift = 10"

text \<open>
  \<open>1 << shift\<close> panics in Go on a negative shift; the count of attempts starts at 0 and only
  grows, which is the invariant \<open>attempts_ok\<close> of the store.
\<close>

definition NextAttempt :: "message \<Rightarrow> retry_policy \<Rightarrow> time \<Rightarrow> str \<Rightarrow> failed_attempt" where
  "NextAttempt msg policy now reason =
     (let attempts = wrap64 (msg_attempts msg + 1);
          st = (if max_attempts policy \<le> attempts then StatusFailed else StatusPending);
          shift = min attempts maxShift
      in \<lparr> fa_id = msg_id msg, fa_attempts = attempts, fa_status = st,
           fa_available_at = now + wrap64 (base_backoff policy * 2 ^ nat shift),
           fa_reason = reason \<rparr>)"

definition IsDue :: "message \<Rightarrow> time \<Rightarrow> bool" where
  "IsDue m now \<longleftrightarrow> msg_status m = StatusPending \<and> \<not> now < msg_available_at m"

datatype event = EventPublished | EventRetryScheduled | EventExhausted | EventClaimFailed
  | EventResolveFailed | EventHandlerPanicked

record outcome =
  out_id :: str
  out_type :: str
  out_event :: event
  out_attempts :: int
  out_duration :: duration
  out_err :: "err option"

section \<open>The backoff\<close>

text \<open>The delay before the next try, as the policy computes it after the \<open>n\<close>-th failure.\<close>

definition backoff :: "retry_policy \<Rightarrow> int \<Rightarrow> duration" where
  "backoff policy n = wrap64 (base_backoff policy * 2 ^ nat (min n maxShift))"

text \<open>What a sane policy is: what \<open>validate\<close> accepts, and a step that ten doublings keep in range.\<close>

definition policy_ok :: "retry_policy \<Rightarrow> bool" where
  "policy_ok p \<longleftrightarrow> 0 < max_attempts p \<and> 0 < base_backoff p"

definition backoff_fits :: "retry_policy \<Rightarrow> bool" where
  "backoff_fits p \<longleftrightarrow> 0 < base_backoff p \<and> base_backoff p * 1024 < 2 ^ 63"

definition attempts_ok :: "message \<Rightarrow> bool" where
  "attempts_ok m \<longleftrightarrow> 0 \<le> msg_attempts m \<and> msg_attempts m < 2 ^ 63 - 1"

lemma attempts_wrap [simp]: "attempts_ok m \<Longrightarrow> wrap64 (msg_attempts m + 1) = msg_attempts m + 1"
  by (auto simp: attempts_ok_def intro: wrap64_small)

lemma NextAttempt_sel [simp]:
  "fa_id (NextAttempt m p now r) = msg_id m"
  "fa_reason (NextAttempt m p now r) = r"
  "fa_attempts (NextAttempt m p now r) = wrap64 (msg_attempts m + 1)"
  by (simp_all add: NextAttempt_def Let_def)

lemma NextAttempt_available:
  "fa_available_at (NextAttempt m p now r) = now + backoff p (wrap64 (msg_attempts m + 1))"
  by (simp add: NextAttempt_def Let_def backoff_def)

lemma NextAttempt_failed_iff:
  "fa_status (NextAttempt m p now r) = StatusFailed \<longleftrightarrow> max_attempts p \<le> wrap64 (msg_attempts m + 1)"
  by (simp add: NextAttempt_def Let_def)

lemma NextAttempt_not_done: "fa_status (NextAttempt m p now r) \<noteq> StatusDone"
  by (simp add: NextAttempt_def Let_def)

lemma pow_shift_le: "(2::int) ^ nat (min n maxShift) \<le> 1024"
proof -
  have "(2::int) ^ nat (min n maxShift) \<le> 2 ^ 10"
    by (rule power_increasing) (auto simp: maxShift_def)
  then show ?thesis by simp
qed

lemma backoff_exact:
  assumes "backoff_fits p"
  shows "backoff p n = base_backoff p * 2 ^ nat (min n maxShift)"
proof -
  have pos: "0 < base_backoff p" and fits: "base_backoff p * 1024 < 2 ^ 63"
    using assms by (auto simp: backoff_fits_def)
  have "base_backoff p * 2 ^ nat (min n maxShift) \<le> base_backoff p * 1024"
    using pos pow_shift_le by (simp add: mult_left_mono)
  with fits have "base_backoff p * 2 ^ nat (min n maxShift) < 2 ^ 63"
    by linarith
  with pos show ?thesis
    unfolding backoff_def by (intro wrap64_small) simp_all
qed

lemma backoff_bounds:
  assumes "backoff_fits p"
  shows "0 < backoff p n" and "backoff p n \<le> 1024 * base_backoff p"
proof -
  have pos: "0 < base_backoff p" using assms by (simp add: backoff_fits_def)
  show "0 < backoff p n" using pos by (simp add: backoff_exact [OF assms])
  have "base_backoff p * 2 ^ nat (min n maxShift) \<le> base_backoff p * 1024"
    using pos pow_shift_le by (simp add: mult_left_mono)
  then show "backoff p n \<le> 1024 * base_backoff p"
    by (simp add: backoff_exact [OF assms] mult.commute)
qed

lemma backoff_doubles:
  assumes "backoff_fits p" and "0 \<le> n" and "n < maxShift"
  shows "backoff p (n + 1) = 2 * backoff p n"
proof -
  have "nat (min (n + 1) maxShift) = Suc (nat (min n maxShift))"
    using assms(2,3) by (simp add: min_def nat_add_distrib)
  then show ?thesis
    by (simp only: backoff_exact [OF assms(1)] power_Suc mult.left_commute)
qed

text \<open>
  The property of the retry policy: the count grows by one, the message is abandoned exactly
  when the allowed attempts are used up, and the next try is always strictly later, by at
  most 1024 base steps.
\<close>


definition sample_message :: message where
  "sample_message = \<lparr> msg_id = ''mem-1'', msg_type = ''user.registered.v1'',
     msg_aggregate_id = ''u1'', msg_payload = ''{}'', msg_trace_parent = '''',
     msg_headers = None, msg_status = StatusPending, msg_attempts = 7,
     msg_created_at = 0, msg_available_at = 0 \<rparr>"

definition default_retry :: retry_policy where
  "default_retry = \<lparr> max_attempts = 8, base_backoff = second \<rparr>"


text \<open>The whole time a consumer outage may last before a message is given up: the sum of the
  delays after the first \<open>k\<close> failures.\<close>

fun outage_covered :: "retry_policy \<Rightarrow> nat \<Rightarrow> duration" where
  "outage_covered p 0 = 0"
| "outage_covered p (Suc k) = outage_covered p k + backoff p (int (Suc k))"

lemma outage_covered_sum:
  assumes "backoff_fits p" and "k \<le> 10"
  shows "outage_covered p k = base_backoff p * (2 ^ Suc k - 2)"
  using assms(2)
proof (induction k)
  case 0
  then show ?case by simp
next
  case (Suc k)
  have "nat (min (int (Suc k)) maxShift) = Suc k"
    using Suc.prems by (simp add: maxShift_def)
  then have "backoff p (int (Suc k)) = base_backoff p * 2 ^ Suc k"
    by (simp only: backoff_exact [OF assms(1)])
  then show ?case using Suc by (simp add: algebra_simps)
qed

end
