(* ===== verification/Outbox_Contract.thy ===== *)
theory Outbox_Contract
  imports Outbox_Domain
begin

text \<open>
  The contract of an outbox driver (internal/core/outbox/ports/ports.go) as locales: what the
  dispatcher may rely on whichever driver is wired. \<open>outbox_table\<close> states what every
  driver keeps; \<open>outbox_store\<close> adds the exclusivity of \<open>Claim\<close>, the sentence of ports.go that
  two calls never return the same message, and that resolving a stored message never fails.
\<close>

text \<open>What recording a failure writes into the stored message.\<close>

definition failed_message :: "failed_attempt \<Rightarrow> message \<Rightarrow> message" where
  "failed_message a m = m\<lparr> msg_attempts := fa_attempts a, msg_status := fa_status a,
     msg_available_at := fa_available_at a \<rparr>"

definition done_message :: "message \<Rightarrow> message" where
  "done_message m = m\<lparr> msg_status := StatusDone \<rparr>"

definition ids :: "message list \<Rightarrow> str list" where
  "ids ms = map msg_id ms"

lemma ids_simps [simp]: "ids [] = []" "ids (m # ms) = msg_id m # ids ms"
  "ids (xs @ ys) = ids xs @ ids ys" "set (ids ms) = msg_id ` set ms"
  by (simp_all add: ids_def)

locale outbox_table =
  fixes inv :: "'s \<Rightarrow> bool"
    and stored :: "'s \<Rightarrow> str \<Rightarrow> message option"
    and held :: "'s \<Rightarrow> str set"
    and claim :: "ctx \<Rightarrow> time \<Rightarrow> nat \<Rightarrow> 's \<Rightarrow> (err + message list) \<times> 's"
    and mark_done :: "str \<Rightarrow> 's \<Rightarrow> err option \<times> 's"
    and mark_failed :: "failed_attempt \<Rightarrow> 's \<Rightarrow> err option \<times> 's"
  assumes claim_keeps: "inv s \<Longrightarrow> claim c now n s = (r, s') \<Longrightarrow> inv s' \<and> stored s' = stored s"
    and claim_batch: "inv s \<Longrightarrow> claim c now n s = (Inr ms, s') \<Longrightarrow>
          length ms \<le> n \<and> distinct (ids ms)
          \<and> (\<forall>m \<in> set ms. stored s (msg_id m) = Some m \<and> IsDue m now)"
    and claim_error: "inv s \<Longrightarrow> claim c now n s = (Inl e, s') \<Longrightarrow> held s' = held s"
    and mark_done_ok: "inv s \<Longrightarrow> stored s i = Some m \<Longrightarrow> mark_done i s = (None, s') \<Longrightarrow>
          inv s' \<and> stored s' = (stored s)(i \<mapsto> done_message m) \<and> held s' = held s - {i}"
    and mark_done_error: "inv s \<Longrightarrow> mark_done i s = (Some e, s') \<Longrightarrow>
          inv s' \<and> stored s' = stored s \<and> held s' = held s"
    and mark_failed_ok: "inv s \<Longrightarrow> stored s (fa_id a) = Some m \<Longrightarrow> 0 \<le> fa_attempts a \<Longrightarrow>
          mark_failed a s = (None, s') \<Longrightarrow>
          inv s' \<and> stored s' = (stored s)(fa_id a \<mapsto> failed_message a m) \<and> held s' = held s - {fa_id a}"
    and mark_failed_error: "inv s \<Longrightarrow> mark_failed a s = (Some e, s') \<Longrightarrow>
          inv s' \<and> stored s' = stored s \<and> held s' = held s"
    and stored_attempts: "inv s \<Longrightarrow> stored s i = Some m \<Longrightarrow> msg_id m = i \<and> 0 \<le> msg_attempts m"

locale outbox_store = outbox_table inv stored held claim mark_done mark_failed
  for inv :: "'s \<Rightarrow> bool" and stored held claim mark_done mark_failed +
  assumes claim_excludes: "inv s \<Longrightarrow> claim c now n s = (Inr ms, s') \<Longrightarrow>
          held s' = held s \<union> set (ids ms) \<and> held s \<inter> set (ids ms) = {}"
    and mark_done_total: "inv s \<Longrightarrow> stored s i = Some m \<Longrightarrow> fst (mark_done i s) = None"
    and mark_failed_total: "inv s \<Longrightarrow> stored s (fa_id a) = Some m \<Longrightarrow> fst (mark_failed a s) = None"
begin

text \<open>Two successful claims with nothing resolved in between never share a message.\<close>

lemma claims_disjoint:
  assumes "inv s" and "claim c now n s = (Inr ms, s')" and "claim c' now' n' s' = (Inr ms', s'')"
  shows "set (ids ms) \<inter> set (ids ms') = {}"
proof -
  have "inv s'" and "held s' = held s \<union> set (ids ms)"
    using assms(1,2) claim_keeps claim_excludes by blast+
  moreover have "held s' \<inter> set (ids ms') = {}"
    using claim_excludes [OF \<open>inv s'\<close> assms(3)] by blast
  ultimately show ?thesis by blast
qed

end

end
