(* ===== verification/Outbox_Memory.thy ===== *)
theory Outbox_Memory
  imports Outbox_Contract
begin

text \<open>
  The in-memory outbox driver (internal/core/outbox/drivers/memory/memory.go). The mutex makes
  each method one atomic step, so a method is a function of the whole store. \<open>now\<close> is the
  instant the injected clock returns during the call; a limit is a \<open>nat\<close>, since
  \<open>NewDispatcher\<close> refuses a batch that is not positive.
\<close>

record mem_store =
  messages :: "(str, message) gomap"
  claimed :: "str set"
  order :: "str list"
  next_id :: "64 word"

definition new_mem_store :: mem_store where
  "new_mem_store = \<lparr> messages = [], claimed = {}, order = [], next_id = 0 \<rparr>"

definition mem_id :: "nat \<Rightarrow> str" where
  "mem_id n = ''mem-'' @ show_nat n"

definition Enqueue :: "ctx \<Rightarrow> time \<Rightarrow> new_message \<Rightarrow> mem_store \<Rightarrow> (err + str) \<times> mem_store" where
  "Enqueue c now msg s =
     (case c of
        Some e \<Rightarrow> (Inl (Errorf [Lit ''enqueueing cancelled: '', W e]), s)
      | None \<Rightarrow>
          (let n = next_id s + 1;
               i = mem_id (unat n);
               m = \<lparr> msg_id = i, msg_type = nm_type msg, msg_aggregate_id = nm_aggregate_id msg,
                     msg_payload = nm_payload msg, msg_trace_parent = nm_trace_parent msg,
                     msg_headers = nm_headers msg, msg_status = StatusPending, msg_attempts = 0,
                     msg_created_at = now, msg_available_at = now \<rparr>
           in (Inr i, s\<lparr> next_id := n, messages := map_set i m (messages s),
                         order := order s @ [i] \<rparr>)))"

fun claim_loop :: "time \<Rightarrow> nat \<Rightarrow> str list \<Rightarrow> mem_store \<Rightarrow> message list \<Rightarrow> message list \<times> mem_store" where
  "claim_loop now limit [] s out = (out, s)"
| "claim_loop now limit (i # js) s out =
     (if limit \<le> length out then (out, s)
      else case map_get (messages s) i of
        None \<Rightarrow> claim_loop now limit js s out
      | Some msg \<Rightarrow>
          if \<not> IsDue msg now then claim_loop now limit js s out
          else if i \<in> claimed s then claim_loop now limit js s out
          else claim_loop now limit js (s\<lparr> claimed := insert i (claimed s) \<rparr>) (out @ [msg]))"

definition Claim :: "ctx \<Rightarrow> time \<Rightarrow> nat \<Rightarrow> mem_store \<Rightarrow> (err + message list) \<times> mem_store" where
  "Claim c now limit s =
     (case c of
        Some e \<Rightarrow> (Inl (Errorf [Lit ''claiming cancelled: '', W e]), s)
      | None \<Rightarrow> (case claim_loop now limit (order s) s [] of (out, s') \<Rightarrow> (Inr out, s')))"

definition MarkDone :: "str \<Rightarrow> mem_store \<Rightarrow> err option \<times> mem_store" where
  "MarkDone i s =
     (case map_get (messages s) i of
        None \<Rightarrow> (Some (Opaque (''unknown message '' @ i)), s)
      | Some msg \<Rightarrow> (None, s\<lparr> messages := map_set i (msg\<lparr> msg_status := StatusDone \<rparr>) (messages s),
                              claimed := claimed s - {i} \<rparr>))"

definition MarkFailed :: "failed_attempt \<Rightarrow> mem_store \<Rightarrow> err option \<times> mem_store" where
  "MarkFailed a s =
     (case map_get (messages s) (fa_id a) of
        None \<Rightarrow> (Some (Opaque (''unknown message '' @ fa_id a)), s)
      | Some msg \<Rightarrow>
          (None, s\<lparr> messages := map_set (fa_id a)
                       (msg\<lparr> msg_attempts := fa_attempts a, msg_status := fa_status a,
                             msg_available_at := fa_available_at a \<rparr>) (messages s),
                    claimed := claimed s - {fa_id a} \<rparr>))"

definition PendingCount :: "mem_store \<Rightarrow> nat" where
  "PendingCount s = length (filter (\<lambda>(i, m). msg_status m = StatusPending) (messages s))"

section \<open>The invariant\<close>

text \<open>
  The identifiers are \<open>mem-1\<close> to \<open>mem-n\<close> in insertion order, each names one message stored
  under its own identifier, and only stored messages are claimed.
\<close>

definition mem_inv :: "mem_store \<Rightarrow> bool" where
  "mem_inv s \<longleftrightarrow> is_map (messages s)
     \<and> order s = map mem_id [1..<Suc (unat (next_id s))]
     \<and> fst ` set (messages s) = set (order s)
     \<and> claimed s \<subseteq> set (order s)
     \<and> (\<forall>(i, m) \<in> set (messages s). msg_id m = i \<and> 0 \<le> msg_attempts m)"

definition mem_get :: "mem_store \<Rightarrow> str \<Rightarrow> message option" where
  "mem_get s = map_get (messages s)"

lemma mem_id_inject [simp]: "mem_id m = mem_id n \<longleftrightarrow> m = n"
  by (simp add: mem_id_def)

lemma mem_inv_new: "mem_inv new_mem_store"
  by (simp add: mem_inv_def new_mem_store_def)

lemma mem_inv_order_distinct: "mem_inv s \<Longrightarrow> distinct (order s)"
  by (simp add: mem_inv_def distinct_map inj_on_def)

lemma mem_inv_stored: "mem_inv s \<Longrightarrow> mem_get s i = Some m \<Longrightarrow> msg_id m = i \<and> 0 \<le> msg_attempts m"
  by (auto simp: mem_inv_def mem_get_def dest: map_of_SomeD)

lemma mem_inv_dom: "mem_inv s \<Longrightarrow> dom (mem_get s) = set (order s)"
  by (simp add: mem_inv_def mem_get_def dom_map_of_conv_image_fst)

text \<open>Replacing a stored message by one with the same identifier keeps the invariant.\<close>

lemma mem_inv_update:
  assumes "mem_inv s" and "mem_get s i = Some m" and "msg_id m' = i" and "0 \<le> msg_attempts m'"
    and "C \<subseteq> claimed s"
  shows "mem_inv (s\<lparr> messages := map_set i m' (messages s), claimed := C \<rparr>)"
proof -
  have i: "i \<in> fst ` set (messages s)"
    using assms(2) by (force simp: mem_get_def dest: map_of_SomeD)
  have keys: "fst ` set (map_set i m' (messages s)) = fst ` set (messages s)"
    using i by (metis image_set insert_absorb dom_map_of_conv_image_fst dom_fun_upd option.distinct(1) update_conv')
  have "\<And>k v. (k, v) \<in> set (map_set i m' (messages s)) \<Longrightarrow> msg_id v = k \<and> 0 \<le> msg_attempts v"
  proof -
    fix k v
    assume "(k, v) \<in> set (map_set i m' (messages s))"
    moreover have "is_map (map_set i m' (messages s))"
      using assms(1) by (simp add: mem_inv_def)
    ultimately have "map_of (map_set i m' (messages s)) k = Some v"
      by (metis map_of_is_SomeI)
    then show "msg_id v = k \<and> 0 \<le> msg_attempts v"
      using assms by (auto simp: mem_get_def mem_inv_def split: if_splits dest: map_of_SomeD)
  qed
  then show ?thesis
    using assms keys by (auto simp: mem_inv_def)
qed

section \<open>What \<open>Claim\<close> returns\<close>

text \<open>The reference definition: the first \<open>limit\<close> due, unclaimed messages in insertion order.\<close>

definition eligible :: "time \<Rightarrow> mem_store \<Rightarrow> str \<Rightarrow> bool" where
  "eligible now s i \<longleftrightarrow>
     (case mem_get s i of None \<Rightarrow> False | Some m \<Rightarrow> IsDue m now \<and> i \<notin> claimed s)"

definition claim_spec :: "time \<Rightarrow> nat \<Rightarrow> str list \<Rightarrow> mem_store \<Rightarrow> message list" where
  "claim_spec now n js s = map (\<lambda>i. the (mem_get s i)) (take n (filter (eligible now s) js))"

lemma claim_spec_claimed:
  "i \<notin> set js \<Longrightarrow> claim_spec now n js (s\<lparr> claimed := insert i (claimed s) \<rparr>) = claim_spec now n js s"
proof -
  assume "i \<notin> set js"
  then have "filter (eligible now (s\<lparr> claimed := insert i (claimed s) \<rparr>)) js = filter (eligible now s) js"
    by (intro filter_cong) (auto simp: eligible_def mem_get_def split: option.splits)
  then show ?thesis by (simp add: claim_spec_def mem_get_def)
qed

lemma claim_loop_spec:
  assumes "distinct js" and "\<forall>i \<in> set js. \<forall>m. mem_get s i = Some m \<longrightarrow> msg_id m = i"
  shows "claim_loop now n js s out =
     (out @ claim_spec now (n - length out) js s,
      s\<lparr> claimed := claimed s \<union> set (ids (claim_spec now (n - length out) js s)) \<rparr>)"
  using assms
proof (induction js arbitrary: s out)
  case Nil
  then show ?case by (simp add: claim_spec_def)
next
  case (Cons i js)
  let ?s = "s\<lparr> claimed := insert i (claimed s) \<rparr>"
  have IH: "claim_loop now n js s out =
     (out @ claim_spec now (n - length out) js s,
      s\<lparr> claimed := claimed s \<union> set (ids (claim_spec now (n - length out) js s)) \<rparr>)"
    using Cons by auto
  show ?case
  proof (cases "n \<le> length out")
    case True
    then show ?thesis by (simp add: claim_spec_def)
  next
    case room: False
    show ?thesis
    proof (cases "eligible now s i")
      case False
      then have "claim_loop now n (i # js) s out = claim_loop now n js s out"
        using room by (auto simp: eligible_def mem_get_def split: option.splits)
      moreover have "claim_spec now (n - length out) (i # js) s = claim_spec now (n - length out) js s"
        using False by (simp add: claim_spec_def)
      ultimately show ?thesis using IH by simp
    next
      case True
      then obtain m where m: "mem_get s i = Some m" "IsDue m now" "i \<notin> claimed s"
        by (auto simp: eligible_def split: option.splits)
      have mi: "msg_id m = i" using Cons.prems(2) m(1) by auto
      have "claim_loop now n (i # js) s out = claim_loop now n js ?s (out @ [m])"
        using room m by (simp add: mem_get_def)
      also have "\<dots> = (out @ [m] @ claim_spec now (n - Suc (length out)) js ?s,
          ?s\<lparr> claimed := claimed ?s \<union> set (ids (claim_spec now (n - Suc (length out)) js ?s)) \<rparr>)"
        using Cons.IH [of ?s "out @ [m]"] Cons.prems by (simp add: mem_get_def)
      also have "claim_spec now (n - Suc (length out)) js ?s = claim_spec now (n - Suc (length out)) js s"
        using Cons.prems(1) by (simp add: claim_spec_claimed)
      finally have step: "claim_loop now n (i # js) s out =
          (out @ m # claim_spec now (n - Suc (length out)) js s,
           ?s\<lparr> claimed := claimed ?s \<union> set (ids (claim_spec now (n - Suc (length out)) js s)) \<rparr>)"
        by simp
      have "n - length out = Suc (n - Suc (length out))" using room by simp
      then have "claim_spec now (n - length out) (i # js) s = m # claim_spec now (n - Suc (length out)) js s"
        using True m(1) by (simp add: claim_spec_def)
      with step show ?thesis using mi by simp
    qed
  qed
qed

lemma claim_spec_ids:
  assumes "mem_inv s"
  shows "ids (claim_spec now n js s) = take n (filter (eligible now s) js)"
proof -
  have "\<And>i. eligible now s i \<Longrightarrow> msg_id (the (mem_get s i)) = i"
    using mem_inv_stored [OF assms] by (auto simp: eligible_def split: option.splits)
  then have "map (\<lambda>i. msg_id (the (mem_get s i))) (take n (filter (eligible now s) js))
      = take n (filter (eligible now s) js)"
    by (intro map_idI) (auto dest: in_set_takeD)
  then show ?thesis by (simp add: ids_def claim_spec_def comp_def)
qed

lemma claim_spec_elem:
  assumes "mem_inv s" and "m \<in> set (claim_spec now n js s)"
  shows "mem_get s (msg_id m) = Some m" and "IsDue m now" and "msg_id m \<notin> claimed s"
    and "msg_id m \<in> set js"
proof -
  obtain i where i: "i \<in> set (take n (filter (eligible now s) js))" "m = the (mem_get s i)"
    using assms(2) by (auto simp: claim_spec_def)
  then have e: "eligible now s i" "i \<in> set js" by (auto dest: in_set_takeD)
  then obtain m' where m': "mem_get s i = Some m'" "IsDue m' now" "i \<notin> claimed s"
    by (auto simp: eligible_def split: option.splits)
  have "m = m'" using i(2) m'(1) by simp
  moreover have "msg_id m' = i" using mem_inv_stored [OF assms(1) m'(1)] by simp
  ultimately show "mem_get s (msg_id m) = Some m" "IsDue m now" "msg_id m \<notin> claimed s" "msg_id m \<in> set js"
    using m' e by auto
qed

lemma Claim_None:
  assumes "mem_inv s"
  shows "Claim None now n s =
     (Inr (claim_spec now n (order s) s),
      s\<lparr> claimed := claimed s \<union> set (ids (claim_spec now n (order s) s)) \<rparr>)"
proof -
  have "claim_loop now n (order s) s [] =
     (claim_spec now n (order s) s,
      s\<lparr> claimed := claimed s \<union> set (ids (claim_spec now n (order s) s)) \<rparr>)"
    using claim_loop_spec [OF mem_inv_order_distinct [OF assms], of s now n "[]"]
      mem_inv_stored [OF assms] by simp
  then show ?thesis by (simp add: Claim_def)
qed

lemma Claim_Inr_iff: "fst (Claim c now n s) = Inr ms \<Longrightarrow> c = None"
  by (cases c) (simp_all add: Claim_def)

lemma Claim_keeps_inv:
  assumes "mem_inv s" and "Claim c now n s = (r, s')"
  shows "mem_inv s' \<and> mem_get s' = mem_get s"
proof (cases c)
  case None
  let ?ms = "claim_spec now n (order s) s"
  have "s' = s\<lparr> claimed := claimed s \<union> set (ids ?ms) \<rparr>"
    using assms None by (simp add: Claim_None)
  moreover have "set (ids ?ms) \<subseteq> set (order s)"
    using claim_spec_elem(4) [OF assms(1)] by auto
  ultimately show ?thesis using assms(1) by (auto simp: mem_inv_def mem_get_def)
qed (use assms in \<open>simp add: Claim_def\<close>)

interpretation mem: outbox_store mem_inv mem_get claimed Claim MarkDone MarkFailed
proof
  fix s c now n r s'
  assume "mem_inv s" "Claim c now n s = (r, s')"
  then show "mem_inv s' \<and> mem_get s' = mem_get s" by (rule Claim_keeps_inv)
next
  fix s c now n ms s'
  assume inv: "mem_inv s" and eq: "Claim c now n s = (Inr ms, s')"
  then have "c = None" using Claim_Inr_iff [of c now n s ms] by simp
  then have ms: "ms = claim_spec now n (order s) s"
    and s': "s' = s\<lparr> claimed := claimed s \<union> set (ids ms) \<rparr>"
    using inv eq by (auto simp: Claim_None)
  show "length ms \<le> n \<and> distinct (ids ms) \<and> (\<forall>m \<in> set ms. mem_get s (msg_id m) = Some m \<and> IsDue m now)"
    using claim_spec_elem [OF inv] mem_inv_order_distinct [OF inv]
    by (auto simp: ms claim_spec_ids [OF inv]) (simp add: claim_spec_def)
  show "claimed s' = claimed s \<union> set (ids ms) \<and> claimed s \<inter> set (ids ms) = {}"
    using claim_spec_elem(3) [OF inv] by (auto simp: s' ms)
next
  fix s c now n e s'
  assume "mem_inv s" "Claim c now n s = (Inl e, s')"
  then show "claimed s' = claimed s"
    by (cases c) (auto simp: Claim_def split: prod.splits)
next
  fix s i m s'
  assume "mem_inv s" "mem_get s i = Some m" "MarkDone i s = (None, s')"
  then show "mem_inv s' \<and> mem_get s' = (mem_get s)(i \<mapsto> done_message m) \<and> claimed s' = claimed s - {i}"
    using mem_inv_update [of s i m "done_message m" "claimed s - {i}"] mem_inv_stored [of s i m]
    by (auto simp: MarkDone_def mem_get_def done_message_def)
next
  fix s i e s'
  assume "mem_inv s" "MarkDone i s = (Some e, s')"
  then show "mem_inv s' \<and> mem_get s' = mem_get s \<and> claimed s' = claimed s"
    by (auto simp: MarkDone_def split: option.splits)
next
  fix s a m s'
  assume "mem_inv s" "mem_get s (fa_id a) = Some m" "0 \<le> fa_attempts a" "MarkFailed a s = (None, s')"
  then show "mem_inv s' \<and> mem_get s' = (mem_get s)(fa_id a \<mapsto> failed_message a m)
      \<and> claimed s' = claimed s - {fa_id a}"
    using mem_inv_update [of s "fa_id a" m "failed_message a m" "claimed s - {fa_id a}"]
      mem_inv_stored [of s "fa_id a" m]
    by (auto simp: MarkFailed_def mem_get_def failed_message_def)
next
  fix s a e s'
  assume "mem_inv s" "MarkFailed a s = (Some e, s')"
  then show "mem_inv s' \<and> mem_get s' = mem_get s \<and> claimed s' = claimed s"
    by (auto simp: MarkFailed_def split: option.splits)
next
  fix s i m
  assume "mem_inv s" "mem_get s i = Some m"
  then show "msg_id m = i \<and> 0 \<le> msg_attempts m" by (rule mem_inv_stored)
qed (auto simp: MarkDone_def MarkFailed_def mem_get_def)

section \<open>Enqueue\<close>

text \<open>The store has room for one more identifier before \<open>nextID\<close>, a \<open>uint64\<close>, wraps.\<close>

definition has_room :: "mem_store \<Rightarrow> bool" where
  "has_room s \<longleftrightarrow> next_id s \<noteq> - 1"

lemma next_id_Suc: "has_room s \<Longrightarrow> unat (next_id s + 1) = Suc (unat (next_id s))"
  unfolding has_room_def by (metis add.commute add_eq_0_iff2 unatSuc)

definition new_stored :: "str \<Rightarrow> time \<Rightarrow> new_message \<Rightarrow> message" where
  "new_stored i now msg = \<lparr> msg_id = i, msg_type = nm_type msg, msg_aggregate_id = nm_aggregate_id msg,
     msg_payload = nm_payload msg, msg_trace_parent = nm_trace_parent msg,
     msg_headers = nm_headers msg, msg_status = StatusPending, msg_attempts = 0,
     msg_created_at = now, msg_available_at = now \<rparr>"

lemma Enqueue_eq:
  assumes "mem_inv s" and "has_room s"
  shows "Enqueue None now msg s =
     (let i = mem_id (Suc (unat (next_id s))) in
      (Inr i, s\<lparr> next_id := next_id s + 1, messages := map_set i (new_stored i now msg) (messages s),
                 order := order s @ [i] \<rparr>))"
  by (simp add: Enqueue_def Let_def new_stored_def next_id_Suc [OF assms(2)])

lemma Enqueue_fresh:
  assumes "mem_inv s"
  shows "mem_id (Suc (unat (next_id s))) \<notin> set (order s)"
  using assms by (auto simp: mem_inv_def)

lemma Enqueue_keeps_inv:
  assumes "mem_inv s" and "has_room s"
  shows "mem_inv (snd (Enqueue None now msg s))"
proof -
  let ?i = "mem_id (Suc (unat (next_id s)))"
  have fresh: "?i \<notin> fst ` set (messages s)"
    using Enqueue_fresh [OF assms(1)] assms(1) by (simp add: mem_inv_def)
  then have "map_set ?i v (messages s) = messages s @ [(?i, v)]" for v
    by (rule map_set_fresh)
  then show ?thesis
    using assms by (auto simp: Enqueue_eq [OF assms] Let_def mem_inv_def next_id_Suc new_stored_def)
qed

end
