(* ===== verification/Outbox_Dispatcher.thy ===== *)
theory Outbox_Dispatcher
  imports Outbox_Memory
begin

text \<open>
  The dispatcher (internal/core/outbox/application/dispatcher.go): claim a batch, publish each
  message, record its fate. The ports are functions on a world of type \<open>'w\<close>: whatever the
  injected closures read and change. A handler may panic; \<open>publish\<close> recovers.
\<close>

section \<open>The dispatcher over any ports\<close>

datatype handled = Returned "err option" | Panicked str

record 'w ports =
  p_Claim :: "int \<Rightarrow> 'w \<Rightarrow> (err + message list) \<times> 'w"
  p_MarkDone :: "str \<Rightarrow> 'w \<Rightarrow> err option \<times> 'w"
  p_MarkFailed :: "failed_attempt \<Rightarrow> 'w \<Rightarrow> err option \<times> 'w"
  p_Handle :: "message \<Rightarrow> 'w \<Rightarrow> handled \<times> 'w"
  p_Report :: "outcome \<Rightarrow> 'w \<Rightarrow> 'w"
  p_Now :: "'w \<Rightarrow> time \<times> 'w"

record policy =
  batch_size :: int
  interval :: duration
  retry :: retry_policy

record 'w dispatcher =
  d_ports :: "'w ports"
  d_policy :: policy

text \<open>The ports as the caller gives them: a nil function is \<open>None\<close>.\<close>

record 'w given_ports =
  g_Claim :: "(int \<Rightarrow> 'w \<Rightarrow> (err + message list) \<times> 'w) option"
  g_MarkDone :: "(str \<Rightarrow> 'w \<Rightarrow> err option \<times> 'w) option"
  g_MarkFailed :: "(failed_attempt \<Rightarrow> 'w \<Rightarrow> err option \<times> 'w) option"
  g_Handle :: "(message \<Rightarrow> 'w \<Rightarrow> handled \<times> 'w) option"
  g_Report :: "(outcome \<Rightarrow> 'w \<Rightarrow> 'w) option"
  g_Now :: "('w \<Rightarrow> time \<times> 'w) option"

definition validate :: "policy \<Rightarrow> err option" where
  "validate p =
     (if batch_size p \<le> 0 then
        Some (Errorf [W (Sentinel (Outbox ErrInvalidPolicy)),
                      Lit ('': batch of '' @ show_int (batch_size p) @ '' message(s)'')])
      else if max_attempts (retry p) \<le> 0 then
        Some (Errorf [W (Sentinel (Outbox ErrInvalidPolicy)),
                      Lit ('': '' @ show_int (max_attempts (retry p)) @ '' allowed attempt(s)'')])
      else if base_backoff (retry p) \<le> 0 then
        Some (Errorf [W (Sentinel (Outbox ErrInvalidPolicy)),
                      Lit ('': base backoff of '' @ duration_text (base_backoff (retry p)))])
      else if interval p \<le> 0 then
        Some (Errorf [W (Sentinel (Outbox ErrInvalidPolicy)),
                      Lit ('': polling period of '' @ duration_text (interval p))])
      else None)"

fun NewDispatcher :: "'w given_ports \<Rightarrow> policy \<Rightarrow> err + 'w dispatcher" where
  "NewDispatcher g p =
     (case (g_Claim g, g_MarkDone g, g_MarkFailed g, g_Handle g, g_Report g, g_Now g) of
        (Some cl, Some md, Some mf, Some h, Some r, Some n) \<Rightarrow>
          (case validate p of
             Some e \<Rightarrow> Inl e
           | None \<Rightarrow> Inr \<lparr> d_ports = \<lparr> p_Claim = cl, p_MarkDone = md, p_MarkFailed = mf,
                                      p_Handle = h, p_Report = r, p_Now = n \<rparr>,
                           d_policy = p \<rparr>)
      | _ \<Rightarrow> Inl (Sentinel (Outbox ErrMissingPort)))"

definition publish :: "'w dispatcher \<Rightarrow> message \<Rightarrow> 'w \<Rightarrow> err option \<times> 'w" where
  "publish d msg w =
     (case p_Handle (d_ports d) msg w of
        (Panicked v, w') \<Rightarrow>
          (Some (Errorf [W (Sentinel (Outbox ErrHandlerPanicked)),
                         Lit ('' ('' @ msg_type msg @ ''): '' @ v)]), w')
      | (Returned (Some e), w') \<Rightarrow>
          (Some (Errorf [Lit (''publishing '' @ msg_id msg @ '' ('' @ msg_type msg @ ''): ''), W e]), w')
      | (Returned None, w') \<Rightarrow> (None, w'))"

definition report :: "'w dispatcher \<Rightarrow> message \<Rightarrow> outcome \<Rightarrow> 'w \<Rightarrow> 'w" where
  "report d msg oc w = p_Report (d_ports d) (oc\<lparr> out_id := msg_id msg, out_type := msg_type msg \<rparr>) w"

text \<open>A Go struct literal leaves the fields it does not name at their zero value.\<close>

definition outcome_of :: "event \<Rightarrow> int \<Rightarrow> duration \<Rightarrow> err option \<Rightarrow> outcome" where
  "outcome_of ev n dur e = \<lparr> out_id = [], out_type = [], out_event = ev, out_attempts = n,
     out_duration = dur, out_err = e \<rparr>"

definition reschedule :: "'w dispatcher \<Rightarrow> message \<Rightarrow> duration \<Rightarrow> err \<Rightarrow> 'w \<Rightarrow> 'w" where
  "reschedule d msg elapsed cause w =
     (case p_Now (d_ports d) w of (now, w1) \<Rightarrow>
        (let attempt = NextAttempt msg (retry (d_policy d)) now (err_text cause);
             ev = (if errors_is cause (Outbox ErrHandlerPanicked) then EventHandlerPanicked
                   else if fa_status attempt = StatusFailed then EventExhausted
                   else EventRetryScheduled)
         in case p_MarkFailed (d_ports d) attempt w1 of
              (Some e, w2) \<Rightarrow>
                report d msg (outcome_of EventResolveFailed (fa_attempts attempt) elapsed (Some e)) w2
            | (None, w2) \<Rightarrow>
                report d msg (outcome_of ev (fa_attempts attempt) elapsed (Some cause)) w2))"

definition deliver :: "'w dispatcher \<Rightarrow> message \<Rightarrow> 'w \<Rightarrow> 'w" where
  "deliver d msg w =
     (case p_Now (d_ports d) w of (started, w1) \<Rightarrow>
      case publish d msg w1 of (r, w2) \<Rightarrow>
      case p_Now (d_ports d) w2 of (finished, w3) \<Rightarrow>
        (let elapsed = time_sub finished started in
         case r of
           Some e \<Rightarrow> reschedule d msg elapsed e w3
         | None \<Rightarrow>
             (case p_MarkDone (d_ports d) (msg_id msg) w3 of
                (Some e, w4) \<Rightarrow>
                  report d msg (outcome_of EventResolveFailed (msg_attempts msg) elapsed (Some e)) w4
              | (None, w4) \<Rightarrow>
                  report d msg (outcome_of EventPublished (msg_attempts msg) elapsed None) w4)))"

definition DrainOnce :: "'w dispatcher \<Rightarrow> 'w \<Rightarrow> (err + nat) \<times> 'w" where
  "DrainOnce d w =
     (case p_Claim (d_ports d) (batch_size (d_policy d)) w of
        (Inl e, w1) \<Rightarrow>
          (Inl (Errorf [Lit ''claiming a batch from the outbox: '', W e]),
           p_Report (d_ports d) (outcome_of EventClaimFailed 0 0 (Some e)) w1)
      | (Inr ms, w1) \<Rightarrow> (Inr (length ms), fold (deliver d) ms w1))"

definition maxRounds :: nat where
  "maxRounds = 10"

text \<open>\<open>ctx_err\<close> is \<open>ctx.Err()\<close> of the context the worker runs under.\<close>

fun catch_up_rounds :: "nat \<Rightarrow> 'w dispatcher \<Rightarrow> ('w \<Rightarrow> err option) \<Rightarrow> 'w \<Rightarrow> 'w" where
  "catch_up_rounds 0 d ctx_err w = w"
| "catch_up_rounds (Suc k) d ctx_err w =
     (if ctx_err w \<noteq> None then w
      else case DrainOnce d w of
        (Inl e, w') \<Rightarrow> w'
      | (Inr n, w') \<Rightarrow> if int n < batch_size (d_policy d) then w' else catch_up_rounds k d ctx_err w')"

definition catchUp :: "'w dispatcher \<Rightarrow> ('w \<Rightarrow> err option) \<Rightarrow> 'w \<Rightarrow> 'w" where
  "catchUp d ctx_err w = catch_up_rounds maxRounds d ctx_err w"

text \<open>
  \<open>Run\<close> over the sequence of cases its \<open>select\<close> takes. The result is \<open>None\<close> while the loop is
  still running at the end of the sequence, \<open>Some r\<close> when \<open>Run\<close> returned \<open>r\<close>.
\<close>

datatype wakeup = CtxDone | Tick

fun Run :: "'w dispatcher \<Rightarrow> ('w \<Rightarrow> err option) \<Rightarrow> wakeup list \<Rightarrow> 'w \<Rightarrow> err option option \<times> 'w" where
  "Run d ctx_err [] w = (None, w)"
| "Run d ctx_err (CtxDone # us) w =
     (case ctx_err w of
        Some e \<Rightarrow> (if \<not> errors_is e (Ctx Canceled)
                   then (Some (Some (Errorf [Lit ''outbox dispatcher interrupted: '', W e])), w)
                   else (Some None, w))
      | None \<Rightarrow> (Some None, w))"
| "Run d ctx_err (Tick # us) w = Run d ctx_err us (catchUp d ctx_err w)"

lemma validate_None_iff:
  "validate p = None \<longleftrightarrow>
     0 < batch_size p \<and> 0 < max_attempts (retry p) \<and> 0 < base_backoff (retry p) \<and> 0 < interval p"
  by (auto simp: validate_def)

lemma validate_error: "validate p = Some e \<Longrightarrow> errors_is e (Outbox ErrInvalidPolicy)"
  by (auto simp: validate_def split: if_splits)

lemma NewDispatcher_Inr:
  "NewDispatcher g p = Inr d \<Longrightarrow> d_policy d = p \<and> validate p = None
     \<and> g = \<lparr> g_Claim = Some (p_Claim (d_ports d)), g_MarkDone = Some (p_MarkDone (d_ports d)),
            g_MarkFailed = Some (p_MarkFailed (d_ports d)), g_Handle = Some (p_Handle (d_ports d)),
            g_Report = Some (p_Report (d_ports d)), g_Now = Some (p_Now (d_ports d)) \<rparr>"
  by (cases g) (auto split: option.splits)

end
