(* ===== verification/Outbox_Fate.thy ===== *)
theory Outbox_Fate
  imports Outbox_Dispatcher
begin

text \<open>
  The dispatcher wired on a driver as internal/core/outbox/dispatcher.go wires it: the world is
  the driver's store, the outside (clock, context, publisher) and the trace of what was
  published and reported. The lemmas are proved once for every driver that keeps the
  contract \<open>outbox_table\<close>, then stated on the memory driver.
\<close>

section \<open>The wiring\<close>

text \<open>The outside: each reading of the context or of the clock, and each call of the publisher,
  may change its state \<open>'e\<close>.\<close>

record 'e environment =
  e_ctx :: "'e \<Rightarrow> ctx \<times> 'e"
  e_now :: "'e \<Rightarrow> time \<times> 'e"
  e_handle :: "message \<Rightarrow> 'e \<Rightarrow> handled \<times> 'e"

record ('s, 'e) world =
  w_store :: 's
  w_env :: 'e
  w_reports :: "outcome list"
  w_delivered :: "(message \<times> handled) list"

definition wired_ports ::
    "(ctx \<Rightarrow> time \<Rightarrow> nat \<Rightarrow> 's \<Rightarrow> (err + message list) \<times> 's) \<Rightarrow> (str \<Rightarrow> 's \<Rightarrow> err option \<times> 's) \<Rightarrow>
     (failed_attempt \<Rightarrow> 's \<Rightarrow> err option \<times> 's) \<Rightarrow> 'e environment \<Rightarrow> ('s, 'e) world given_ports" where
  "wired_ports claim mark_done mark_failed e =
     \<lparr> g_Claim = Some (\<lambda>n w. case e_ctx e (w_env w) of (c, v1) \<Rightarrow>
         case e_now e v1 of (now, v2) \<Rightarrow>
         case claim c now (nat n) (w_store w) of (r, s) \<Rightarrow> (r, w\<lparr> w_store := s, w_env := v2 \<rparr>)),
       g_MarkDone = Some (\<lambda>i w. case mark_done i (w_store w) of (r, s) \<Rightarrow> (r, w\<lparr> w_store := s \<rparr>)),
       g_MarkFailed = Some (\<lambda>a w. case mark_failed a (w_store w) of (r, s) \<Rightarrow> (r, w\<lparr> w_store := s \<rparr>)),
       g_Handle = Some (\<lambda>m w. case e_handle e m (w_env w) of (h, v) \<Rightarrow>
         (h, w\<lparr> w_env := v, w_delivered := w_delivered w @ [(m, h)] \<rparr>)),
       g_Report = Some (\<lambda>oc w. w\<lparr> w_reports := w_reports w @ [oc] \<rparr>),
       g_Now = Some (\<lambda>w. case e_now e (w_env w) of (now, v) \<Rightarrow> (now, w\<lparr> w_env := v \<rparr>)) \<rparr>"

section \<open>The fate of a message\<close>

text \<open>The failure \<open>publish\<close> hands to \<open>reschedule\<close>, from what the publisher did.\<close>

definition cause_of :: "message \<Rightarrow> handled \<Rightarrow> err option" where
  "cause_of m h =
     (case h of
        Panicked v \<Rightarrow> Some (Errorf [W (Sentinel (Outbox ErrHandlerPanicked)),
                                   Lit ('' ('' @ msg_type m @ ''): '' @ v)])
      | Returned (Some e) \<Rightarrow>
          Some (Errorf [Lit (''publishing '' @ msg_id m @ '' ('' @ msg_type m @ ''): ''), W e])
      | Returned None \<Rightarrow> None)"

definition failure_event :: "err \<Rightarrow> failed_attempt \<Rightarrow> event" where
  "failure_event c a =
     (if errors_is c (Outbox ErrHandlerPanicked) then EventHandlerPanicked
      else if fa_status a = StatusFailed then EventExhausted else EventRetryScheduled)"

text \<open>
  What the report \<open>oc\<close> says of the message and what the store holds afterwards agree: done and
  published, failed and rescheduled or given up, or untouched when the store refused.
\<close>

definition settled :: "retry_policy \<Rightarrow> message \<Rightarrow> handled \<Rightarrow> outcome \<Rightarrow> message option \<Rightarrow> bool" where
  "settled p m h oc after \<longleftrightarrow>
     out_id oc = msg_id m \<and> out_type oc = msg_type m \<and>
     (if out_event oc = EventResolveFailed then after = Some m \<and> out_err oc \<noteq> None
      else case cause_of m h of
        None \<Rightarrow> out_event oc = EventPublished \<and> out_attempts oc = msg_attempts m \<and> out_err oc = None
                 \<and> after = Some (done_message m)
      | Some c \<Rightarrow> \<exists>now. let a = NextAttempt m p now (err_text c) in
                 out_event oc = failure_event c a \<and> out_attempts oc = fa_attempts a
                 \<and> out_err oc = Some c \<and> after = Some (failed_message a m))"

type_synonym record3 = "message \<times> handled \<times> outcome"

definition released :: "record3 list \<Rightarrow> str set" where
  "released rs = {msg_id m | m h oc. (m, h, oc) \<in> set rs \<and> out_event oc \<noteq> EventResolveFailed}"

lemma released_simps [simp]:
  "released [] = {}"
  "released ((m, h, oc) # rs)
     = (if out_event oc = EventResolveFailed then {} else {msg_id m}) \<union> released rs"
  by (auto simp: released_def)

definition wired_to ::
    "(ctx \<Rightarrow> time \<Rightarrow> nat \<Rightarrow> 's \<Rightarrow> (err + message list) \<times> 's) \<Rightarrow> (str \<Rightarrow> 's \<Rightarrow> err option \<times> 's) \<Rightarrow>
     (failed_attempt \<Rightarrow> 's \<Rightarrow> err option \<times> 's) \<Rightarrow> policy \<Rightarrow> 'e environment \<Rightarrow>
     ('s, 'e) world dispatcher \<Rightarrow> bool" where
  "wired_to claim mark_done mark_failed p e d \<longleftrightarrow>
     NewDispatcher (wired_ports claim mark_done mark_failed e) p = Inr d"

text \<open>Everything a step on \<open>m\<close> may change: the trace grows by one publication and one report that
  agree with the store, and no other message is touched.\<close>

definition step_ok :: "('s \<Rightarrow> str \<Rightarrow> message option) \<Rightarrow> ('s \<Rightarrow> str set) \<Rightarrow> policy \<Rightarrow> 
    message \<Rightarrow> handled \<Rightarrow> outcome \<Rightarrow> ('s, 'e) world \<Rightarrow> ('s, 'e) world \<Rightarrow> bool" where
  "step_ok stored held p m h oc w w' \<longleftrightarrow>
     w_reports w' = w_reports w @ [oc]
     \<and> settled (retry p) m h oc (stored (w_store w') (msg_id m))
     \<and> (\<forall>i. i \<noteq> msg_id m \<longrightarrow> stored (w_store w') i = stored (w_store w) i)
     \<and> held (w_store w') = held (w_store w) - released [(m, h, oc)]"

text \<open>The whole batch, one message after the other.\<close>

definition batch_ok :: "('s \<Rightarrow> str \<Rightarrow> message option) \<Rightarrow> ('s \<Rightarrow> str set) \<Rightarrow> policy \<Rightarrow> 
    message list \<Rightarrow> record3 list \<Rightarrow> ('s, 'e) world \<Rightarrow> ('s, 'e) world \<Rightarrow> bool" where
  "batch_ok stored held p ms rs w w' \<longleftrightarrow>
     map fst rs = ms
     \<and> w_delivered w' = w_delivered w @ map (\<lambda>(m, h, oc). (m, h)) rs
     \<and> w_reports w' = w_reports w @ map (\<lambda>(m, h, oc). oc) rs
     \<and> (\<forall>(m, h, oc) \<in> set rs. settled (retry p) m h oc (stored (w_store w') (msg_id m)))
     \<and> (\<forall>i. i \<notin> set (ids ms) \<longrightarrow> stored (w_store w') i = stored (w_store w) i)
     \<and> held (w_store w') = held (w_store w) - released rs"

lemma batch_ok_ms: "batch_ok stored held p ms rs w w' \<Longrightarrow> set ms = fst ` set rs"
  unfolding batch_ok_def by (metis image_set)

lemma batch_ok_settled:
  "batch_ok stored held p ms rs w w' \<Longrightarrow> (m, h, oc) \<in> set rs \<Longrightarrow>
   settled (retry p) m h oc (stored (w_store w') (msg_id m))"
  unfolding batch_ok_def by fast

text \<open>A pending message has been tried less often than the policy allows.\<close>

definition bounded_attempts :: "policy \<Rightarrow> (str \<Rightarrow> message option) \<Rightarrow> bool" where
  "bounded_attempts p g \<longleftrightarrow>
     (\<forall>i m. g i = Some m \<and> msg_status m = StatusPending \<longrightarrow> msg_attempts m < max_attempts (retry p))"

context outbox_table begin

text \<open>A driver that refuses to resolve a message it stores.\<close>

definition refusing :: bool where
  "refusing \<longleftrightarrow>
     (\<exists>s i m. inv s \<and> stored s i = Some m \<and> fst (mark_done i s) \<noteq> None)
     \<or> (\<exists>s a m. inv s \<and> stored s (fa_id a) = Some m \<and> fst (mark_failed a s) \<noteq> None)"


lemma wired_sel:
  assumes "wired_to claim mark_done mark_failed p e d"
  shows "d_policy d = p" and "0 < batch_size p"
    and "p_Claim (d_ports d) n w = (case e_ctx e (w_env w) of (c, v1) \<Rightarrow>
         case e_now e v1 of (now, v2) \<Rightarrow>
         case claim c now (nat n) (w_store w) of (r, s) \<Rightarrow> (r, w\<lparr> w_store := s, w_env := v2 \<rparr>))"
    and "p_MarkDone (d_ports d) i w = (case mark_done i (w_store w) of (r, s) \<Rightarrow> (r, w\<lparr> w_store := s \<rparr>))"
    and "p_MarkFailed (d_ports d) a w = (case mark_failed a (w_store w) of (r, s) \<Rightarrow> (r, w\<lparr> w_store := s \<rparr>))"
    and "p_Handle (d_ports d) m w = (case e_handle e m (w_env w) of (h, v) \<Rightarrow>
         (h, w\<lparr> w_env := v, w_delivered := w_delivered w @ [(m, h)] \<rparr>))"
    and "p_Report (d_ports d) oc w = w\<lparr> w_reports := w_reports w @ [oc] \<rparr>"
    and "p_Now (d_ports d) w = (case e_now e (w_env w) of (now, v) \<Rightarrow> (now, w\<lparr> w_env := v \<rparr>))"
  using assms by (auto simp: wired_to_def wired_ports_def validate_None_iff split: option.splits)

lemma publish_wired:
  assumes "wired_to claim mark_done mark_failed p e d" and "publish d m w = (r, w')"
  obtains h v where "r = cause_of m h"
    and "w' = w\<lparr> w_env := v, w_delivered := w_delivered w @ [(m, h)] \<rparr>"
proof (cases "e_handle e m (w_env w)")
  case (Pair h v)
  with assms(2) have "r = cause_of m h" "w' = w\<lparr> w_env := v, w_delivered := w_delivered w @ [(m, h)] \<rparr>"
    by (auto simp: publish_def wired_sel(6) [OF assms(1)] cause_of_def split: handled.splits option.splits)
  then show ?thesis by (rule that)
qed

lemma reschedule_wired:
  assumes d: "wired_to claim mark_done mark_failed p e d" and s: "inv (w_store w)" "stored (w_store w) (msg_id m) = Some m"
    and fit: "attempts_ok m" and c: "cause_of m h = Some c"
  shows "w_delivered (reschedule d m t c w) = w_delivered w \<and> inv (w_store (reschedule d m t c w))
     \<and> (\<exists>oc. step_ok stored held p m h oc w (reschedule d m t c w)
     \<and> (out_event oc = EventResolveFailed \<longrightarrow> refusing))"
proof -
  obtain now v where n: "e_now e (w_env w) = (now, v)" by (cases "e_now e (w_env w)")
  let ?a = "NextAttempt m (retry p) now (err_text c)"
  obtain r s' where mf: "mark_failed ?a (w_store w) = (r, s')"
    by (cases "mark_failed ?a (w_store w)")
  have pos: "0 \<le> fa_attempts ?a"
    using fit by (simp add: attempts_ok_def)
  note eqs = reschedule_def report_def outcome_of_def wired_sel [OF d] n mf Let_def
  show ?thesis
  proof (cases r)
    case None
    then have "inv s' \<and> stored s' = (stored (w_store w))(msg_id m \<mapsto> failed_message ?a m)
        \<and> held s' = held (w_store w) - {msg_id m}"
      using mark_failed_ok [of "w_store w" ?a m s'] s mf pos by simp
    then show ?thesis
      using None c by (auto simp: eqs step_ok_def settled_def failure_event_def)
  next
    case (Some x)
    then have "inv s' \<and> stored s' = stored (w_store w) \<and> held s' = held (w_store w)"
      using mark_failed_error [OF s(1)] mf by blast
    moreover have "refusing"
      unfolding refusing_def using s mf Some by (metis NextAttempt_sel(1) fst_conv option.distinct(1))
    ultimately show ?thesis
      using Some s by (simp add: eqs step_ok_def settled_def)
  qed
qed

lemma deliver_wired:
  assumes d: "wired_to claim mark_done mark_failed p e d" and s: "inv (w_store w)" "stored (w_store w) (msg_id m) = Some m"
    and fit: "attempts_ok m"
  shows "\<exists>h oc. w_delivered (deliver d m w) = w_delivered w @ [(m, h)]
     \<and> inv (w_store (deliver d m w)) \<and> step_ok stored held p m h oc w (deliver d m w)
     \<and> (out_event oc = EventResolveFailed \<longrightarrow> refusing)"
proof -
  obtain t1 v1 where n1: "e_now e (w_env w) = (t1, v1)" by (cases "e_now e (w_env w)")
  let ?w1 = "w\<lparr> w_env := v1 \<rparr>"
  obtain r w2 where pb: "publish d m ?w1 = (r, w2)" by (cases "publish d m ?w1")
  obtain h v where r: "r = cause_of m h"
    and w2: "w2 = ?w1\<lparr> w_env := v, w_delivered := w_delivered w @ [(m, h)] \<rparr>"
    using publish_wired [OF d pb] by auto
  obtain t3 v3 where n3: "e_now e v = (t3, v3)" by (cases "e_now e v")
  let ?w3 = "w2\<lparr> w_env := v3 \<rparr>"
  note eqs = deliver_def wired_sel [OF d] n1 pb n3 Let_def
  show ?thesis
  proof (cases "cause_of m h")
    case (Some c)
    have "deliver d m w = reschedule d m (time_sub t3 t1) c ?w3"
      using Some r w2 by (simp add: eqs)
    moreover have "inv (w_store ?w3)" "stored (w_store ?w3) (msg_id m) = Some m"
      using s w2 by simp_all
    ultimately show ?thesis
      using reschedule_wired [OF d _ _ fit Some, of ?w3 "time_sub t3 t1"] w2
      by (auto simp: step_ok_def)
  next
    case None
    obtain x s' where md: "mark_done (msg_id m) (w_store w) = (x, s')"
      by (cases "mark_done (msg_id m) (w_store w)")
    note eqs = eqs report_def outcome_of_def
    show ?thesis
    proof (cases x)
      case N: None
      then have "inv s' \<and> stored s' = (stored (w_store w))(msg_id m \<mapsto> done_message m)
          \<and> held s' = held (w_store w) - {msg_id m}"
        using mark_done_ok [OF s] md by blast
      then show ?thesis
        using N None r w2 md by (intro exI [of _ h]) (simp add: eqs step_ok_def settled_def)
    next
      case (Some y)
      then have "inv s' \<and> stored s' = stored (w_store w) \<and> held s' = held (w_store w)"
        using mark_done_error [OF s(1)] md by blast
      moreover have "refusing"
        unfolding refusing_def using s md Some by (metis fst_conv option.distinct(1))
      ultimately show ?thesis
        using Some None r w2 md s by (intro exI [of _ h]) (simp add: eqs step_ok_def settled_def)
    qed
  qed
qed

lemma fold_deliver_wired:
  assumes "wired_to claim mark_done mark_failed p e d" and "inv (w_store w)" and "distinct (ids ms)"
    and "\<forall>m \<in> set ms. stored (w_store w) (msg_id m) = Some m \<and> attempts_ok m"
  shows "inv (w_store (fold (deliver d) ms w)) \<and> (\<exists>rs. batch_ok stored held p ms rs w (fold (deliver d) ms w)
     \<and> (\<forall>(m, h, oc) \<in> set rs. out_event oc = EventResolveFailed \<longrightarrow> refusing))"
  using assms
proof (induction ms arbitrary: w)
  case Nil
  then show ?case by (simp add: batch_ok_def)
next
  case (Cons m ms)
  let ?w1 = "deliver d m w"
  obtain h oc where del: "w_delivered ?w1 = w_delivered w @ [(m, h)]" and ok: "step_ok stored held p m h oc w ?w1"
    and inv1: "inv (w_store ?w1)" and ref1: "out_event oc = EventResolveFailed \<longrightarrow> refusing"
    using deliver_wired [OF Cons.prems(1,2), of m] Cons.prems(4) by auto
  have other: "\<forall>x \<in> set ms. msg_id x \<noteq> msg_id m"
    using Cons.prems(3) by (metis ids_simps(2,4) distinct.simps(2) imageI)
  have "\<forall>x \<in> set ms. stored (w_store ?w1) (msg_id x) = Some x \<and> attempts_ok x"
    using ok other Cons.prems(4) by (simp add: step_ok_def)
  then obtain rs where rs: "batch_ok stored held p ms rs ?w1 (fold (deliver d) ms ?w1)"
    and inv2: "inv (w_store (fold (deliver d) ms ?w1))"
    and ref2: "\<forall>(m, h, oc) \<in> set rs. out_event oc = EventResolveFailed \<longrightarrow> refusing"
    using Cons.IH [OF Cons.prems(1) inv1] Cons.prems(3) by auto
  have "settled (retry p) m h oc (stored (w_store (fold (deliver d) ms ?w1)) (msg_id m))"
    using rs ok Cons.prems(3) by (auto simp: batch_ok_def step_ok_def)
  then have "batch_ok stored held p (m # ms) ((m, h, oc) # rs) w (fold (deliver d) (m # ms) w)"
    using rs ok del by (auto simp: batch_ok_def step_ok_def)
  with inv2 ref1 ref2 show ?case by (intro conjI exI [of _ "(m, h, oc) # rs"]) auto
qed

lemma failed_message_bounded:
  assumes "attempts_ok m" and "msg_status (failed_message (NextAttempt m rp now r) m) = StatusPending"
  shows "msg_attempts (failed_message (NextAttempt m rp now r) m) < max_attempts rp"
  using assms by (simp add: failed_message_def NextAttempt_def Let_def split: if_splits)

lemma settled_bounded:
  assumes st: "settled (retry p) m h oc (Some x)" and fit: "attempts_ok m"
    and bnd: "msg_attempts m < max_attempts (retry p)" and x: "msg_status x = StatusPending"
  shows "msg_attempts x < max_attempts (retry p)"
proof (cases "x = m \<or> x = done_message m")
  case True
  then show ?thesis using bnd x by (auto simp: done_message_def)
next
  case False
  then obtain now r where "x = failed_message (NextAttempt m (retry p) now r) m"
    using st by (auto simp: settled_def Let_def split: if_splits option.splits)
  then show ?thesis using failed_message_bounded [OF fit] x by simp
qed

lemma batch_bounded:
  assumes ok: "batch_ok stored held p ms rs w w'" and inv: "inv (w_store w)"
    and ms: "\<forall>m \<in> set ms. stored (w_store w) (msg_id m) = Some m"
    and bnd: "bounded_attempts p (stored (w_store w))" and fits: "max_attempts (retry p) < 2 ^ 63"
    and pend: "\<forall>m \<in> set ms. msg_status m = StatusPending"
  shows "bounded_attempts p (stored (w_store w'))"
  unfolding bounded_attempts_def
proof (intro allI impI)
  fix i x
  assume x: "stored (w_store w') i = Some x \<and> msg_status x = StatusPending"
  show "msg_attempts x < max_attempts (retry p)"
  proof (cases "i \<in> set (ids ms)")
    case False
    then show ?thesis using ok x bnd by (auto simp: batch_ok_def bounded_attempts_def)
  next
    case True
    then obtain m where m: "m \<in> set ms" "msg_id m = i" by auto
    then have "m \<in> fst ` set rs" using batch_ok_ms [OF ok] by simp
    then obtain h oc where "(m, h, oc) \<in> set rs" by auto
    then have st: "settled (retry p) m h oc (Some x)"
      using batch_ok_settled [OF ok] x m(2) by metis
    have sm: "stored (w_store w) (msg_id m) = Some m" and pm: "msg_status m = StatusPending"
      using m ms pend by blast+
    have "0 \<le> msg_attempts m"
      using stored_attempts [OF inv sm] by simp
    moreover have "msg_attempts m < max_attempts (retry p)"
      using bnd sm pm unfolding bounded_attempts_def by blast
    ultimately have "attempts_ok m" using fits by (simp add: attempts_ok_def)
    then show ?thesis
      using settled_bounded [OF st] \<open>msg_attempts m < max_attempts (retry p)\<close> x by blast
  qed
qed

lemma DrainOnce_wired:
  assumes d: "wired_to claim mark_done mark_failed p e d" and s: "inv (w_store w)"
    and bnd: "bounded_attempts p (stored (w_store w))" and fits: "max_attempts (retry p) < 2 ^ 63"
    and eq: "DrainOnce d w = (Inr n, w')"
  obtains ms rs w1 c now where "batch_ok stored held p ms rs w1 w'"
    and "\<forall>(m, h, oc) \<in> set rs. out_event oc = EventResolveFailed \<longrightarrow> refusing"
    and "n = length ms" and "n \<le> nat (batch_size p)"
    and "stored (w_store w1) = stored (w_store w)"
    and "w_reports w1 = w_reports w" and "w_delivered w1 = w_delivered w"
    and "claim c now (nat (batch_size p)) (w_store w) = (Inr ms, w_store w1)"
    and "\<forall>m \<in> set ms. stored (w_store w) (msg_id m) = Some m \<and> IsDue m now"
    and "inv (w_store w')" and "bounded_attempts p (stored (w_store w'))"
proof -
  obtain c v1 where c: "e_ctx e (w_env w) = (c, v1)" by (cases "e_ctx e (w_env w)")
  obtain now v2 where nw: "e_now e v1 = (now, v2)" by (cases "e_now e v1")
  obtain r s' where cl: "claim c now (nat (batch_size p)) (w_store w) = (r, s')"
    by (cases "claim c now (nat (batch_size p)) (w_store w)")
  let ?w1 = "w\<lparr> w_store := s', w_env := v2 \<rparr>"
  obtain ms where r: "r = Inr ms" and n: "n = length ms" and w': "w' = fold (deliver d) ms ?w1"
    using eq c nw cl by (cases r) (auto simp: DrainOnce_def wired_sel [OF d])
  have b: "length ms \<le> nat (batch_size p)" "distinct (ids ms)"
    "\<forall>m \<in> set ms. stored (w_store w) (msg_id m) = Some m \<and> IsDue m now"
    using claim_batch [OF s] cl r by blast+
  have k: "inv s'" "stored s' = stored (w_store w)"
    using claim_keeps [OF s cl] by auto
  have fit: "\<forall>m \<in> set ms. attempts_ok m"
    using b bnd fits stored_attempts [OF s]
    by (force simp: attempts_ok_def bounded_attempts_def IsDue_def)
  obtain rs where rs: "batch_ok stored held p ms rs ?w1 w'" and "inv (w_store w')"
    and ref: "\<forall>(m, h, oc) \<in> set rs. out_event oc = EventResolveFailed \<longrightarrow> refusing"
    using fold_deliver_wired [OF d, of ?w1 ms] b k fit w' by auto
  moreover have "bounded_attempts p (stored (w_store w'))"
    using batch_bounded [OF rs] k b bnd fits by (auto simp: IsDue_def)
  ultimately show thesis
    using b k n cl r by (intro that [of ms rs ?w1 c now]) auto
qed

end

context outbox_store begin

lemma not_refusing: "\<not> refusing"
  unfolding refusing_def by (metis mark_done_total mark_failed_total)

text \<open>With a driver that keeps the whole contract, a batch that was claimed is released.\<close>

lemma drain_releases:
  assumes d: "wired_to claim mark_done mark_failed p e d" and s: "inv (w_store w)"
    and bnd: "bounded_attempts p (stored (w_store w))" and fits: "max_attempts (retry p) < 2 ^ 63"
  shows "inv (w_store (snd (DrainOnce d w))) \<and> bounded_attempts p (stored (w_store (snd (DrainOnce d w))))
    \<and> held (w_store (snd (DrainOnce d w))) = held (w_store w)"
proof (cases "DrainOnce d w")
  case (Pair r w')
  show ?thesis
  proof (cases r)
    case (Inl x)
    note facts = Pair Inl
    obtain c v1 where c: "e_ctx e (w_env w) = (c, v1)" by (cases "e_ctx e (w_env w)")
    obtain now v2 where nw: "e_now e v1 = (now, v2)" by (cases "e_now e v1")
    obtain r' s' where cl: "claim c now (nat (batch_size p)) (w_store w) = (r', s')"
      by (cases "claim c now (nat (batch_size p)) (w_store w)")
    note facts = facts c nw cl
    obtain y where y: "r' = Inl y"
      using facts by (cases r') (simp_all add: DrainOnce_def wired_sel [OF d])
    then have "w_store w' = s'"
      using facts by (auto simp: DrainOnce_def wired_sel [OF d])
    then show ?thesis
      using claim_keeps [OF s cl] claim_error [OF s cl [unfolded y]] bnd Pair by simp
  next
    case (Inr n)
    with Pair have "DrainOnce d w = (Inr n, w')" by simp
    from DrainOnce_wired [OF d s bnd fits this]
    obtain ms rs w1 c now where rs: "batch_ok stored held p ms rs w1 w'"
      and ref: "\<forall>(m, h, oc) \<in> set rs. out_event oc = EventResolveFailed \<longrightarrow> refusing"
      and cl: "claim c now (nat (batch_size p)) (w_store w) = (Inr ms, w_store w1)"
      and k: "inv (w_store w')" "bounded_attempts p (stored (w_store w'))" .
    have "released rs = msg_id ` fst ` set rs"
      using ref not_refusing by (force simp: released_def)
    also have "\<dots> = set (ids ms)"
      using batch_ok_ms [OF rs] by simp
    finally have "held (w_store w') = held (w_store w1) - set (ids ms)"
      using rs by (simp add: batch_ok_def)
    then show ?thesis
      using claim_excludes [OF s cl] k Pair by auto
  qed
qed

definition at_rest :: "policy \<Rightarrow> str set \<Rightarrow> ('s, 'e) world \<Rightarrow> bool" where
  "at_rest p H w \<longleftrightarrow> inv (w_store w) \<and> bounded_attempts p (stored (w_store w)) \<and> held (w_store w) = H"

lemma catch_up_at_rest:
  assumes "wired_to claim mark_done mark_failed p e d" and "max_attempts (retry p) < 2 ^ 63"
    and "at_rest p H w"
  shows "at_rest p H (catch_up_rounds k d cx w)"
  using assms(3)
proof (induction k arbitrary: w)
  case (Suc k)
  then have "at_rest p H (snd (DrainOnce d w))"
    using drain_releases [OF assms(1) _ _ assms(2)] by (auto simp: at_rest_def)
  then show ?case using Suc by (auto split: prod.splits sum.splits)
qed simp

lemma Run_at_rest:
  assumes "wired_to claim mark_done mark_failed p e d" and "max_attempts (retry p) < 2 ^ 63"
    and "at_rest p H w"
  shows "at_rest p H (snd (Run d cx us w))"
  using assms(3)
proof (induction us arbitrary: w)
  case (Cons u us)
  then show ?case
    using catch_up_at_rest [OF assms(1,2)]
    by (cases u) (auto simp: catchUp_def split: option.splits)
qed simp

end

end
