(* ===== verification/Outbox_Properties.thy ===== *)
theory Outbox_Properties
  imports Outbox_Fate
begin

text \<open>
  What the outbox guarantees with the memory driver: the properties of \<open>Enqueue\<close>, \<open>Claim\<close> and of the
  dispatcher wired on it, drawn from the contract the driver was shown to keep.
\<close>

section \<open>A concrete run, for the witnesses\<close>

definition good_event :: new_message where
  "good_event = \<lparr> nm_type = ''user.registered.v1'', nm_aggregate_id = ''u1'', nm_payload = ''{}'',
     nm_trace_parent = [], nm_headers = None \<rparr>"

definition bad_event :: new_message where
  "bad_event = good_event\<lparr> nm_type := ''poison'' \<rparr>"

definition demo_store :: mem_store where
  "demo_store = snd (Enqueue None 0 bad_event (snd (Enqueue None 0 good_event new_mem_store)))"

text \<open>The clock stands still, the context lives, the publisher panics on a poisoned message.\<close>

definition demo_env :: "unit environment" where
  "demo_env = \<lparr> e_ctx = (\<lambda>v. (None, v)), e_now = (\<lambda>v. (5, v)),
     e_handle = (\<lambda>m v. (if msg_type m = ''poison'' then Panicked ''nil map'' else Returned None, v)) \<rparr>"

definition demo_policy :: policy where
  "demo_policy = \<lparr> batch_size = 50, interval = 2 * second, retry = default_retry \<rparr>"

definition demo_world :: "(mem_store, unit) world" where
  "demo_world = \<lparr> w_store = demo_store, w_env = (), w_reports = [], w_delivered = [] \<rparr>"

definition demo_dispatcher :: "(mem_store, unit) world dispatcher" where
  "demo_dispatcher =
     projr (NewDispatcher (wired_ports Claim MarkDone MarkFailed demo_env) demo_policy)"

lemma demo_wired: "wired_to Claim MarkDone MarkFailed demo_policy demo_env demo_dispatcher"
  by (simp add: wired_to_def demo_dispatcher_def wired_ports_def validate_def demo_policy_def
      default_retry_def second_def)

lemma mem_id_small: "mem_id (Suc 0) = ''mem-1''" "mem_id 2 = ''mem-2''"
  by (simp_all add: mem_id_def show_nat.simps)

lemma demo_store_eq:
  "demo_store = \<lparr> messages = [(''mem-1'', new_stored ''mem-1'' 0 good_event),
                              (''mem-2'', new_stored ''mem-2'' 0 bad_event)],
     claimed = {}, order = [''mem-1'', ''mem-2''], next_id = 2 \<rparr>"
  by (simp add: demo_store_def Enqueue_def new_mem_store_def Let_def mem_id_small new_stored_def)

lemma demo_inv: "mem_inv demo_store"
  unfolding demo_store_def
  by (intro Enqueue_keeps_inv mem_inv_new)
     (simp_all add: has_room_def Enqueue_def new_mem_store_def Let_def)

lemma demo_bounded: "bounded_attempts demo_policy (mem_get demo_store)"
  by (auto simp: bounded_attempts_def demo_store_eq mem_get_def new_stored_def demo_policy_def
      default_retry_def split: if_splits)

lemma demo_drain: "fst (DrainOnce demo_dispatcher demo_world) = Inr 2"
  by (simp add: DrainOnce_def mem.wired_sel [OF demo_wired] demo_env_def demo_world_def
      demo_policy_def demo_store_eq Claim_def IsDue_def new_stored_def)

section \<open>Enqueue and Claim\<close>

text \<open>\<open>Enqueue\<close> stores the event under a fresh identifier, pending, with no attempt counted and
  due at once, after every message enqueued before it; it changes no other message and keeps the
  store's invariant. A cancelled context leaves the store as it was.\<close>

theorem Enqueue_stores_once:
  assumes "mem_inv s" and "has_room s"
  shows "\<exists>i s'. Enqueue None now msg s = (Inr i, s') \<and> mem_inv s' \<and> mem_get s i = None
     \<and> mem_get s' = (mem_get s)(i \<mapsto> new_stored i now msg) \<and> order s' = order s @ [i]
     \<and> (now \<le> t \<longrightarrow> eligible t s' i) \<and> claimed s' = claimed s
     \<and> Enqueue (Some e) now msg s = (Inl (Errorf [Lit ''enqueueing cancelled: '', W e]), s)"
proof -
  let ?i = "mem_id (Suc (unat (next_id s)))"
  let ?s = "snd (Enqueue None now msg s)"
  have fresh: "?i \<notin> set (order s)" by (rule Enqueue_fresh [OF assms(1)])
  have get: "mem_get s ?i = None"
    using fresh mem_inv_dom [OF assms(1)] by auto
  have eq: "Enqueue None now msg s = (Inr ?i, ?s)" and upd: "order ?s = order s @ [?i]"
    "claimed ?s = claimed s" "mem_get ?s = (mem_get s)(?i \<mapsto> new_stored ?i now msg)"
    by (simp_all add: Enqueue_eq [OF assms] Let_def mem_get_def fun_eq_iff)
  have "?i \<notin> claimed s" using fresh assms(1) by (auto simp: mem_inv_def)
  then have "now \<le> t \<longrightarrow> eligible t ?s ?i"
    by (simp add: eligible_def upd IsDue_def new_stored_def)
  then show ?thesis
    using eq upd get Enqueue_keeps_inv [OF assms, of now msg]
    by (intro exI [of _ ?i] exI [of _ ?s]) (simp add: Enqueue_def)
qed

theorem Enqueue_stores_once_witness:
  "\<exists>i s'. Enqueue None 7 good_event demo_store = (Inr i, s') \<and> mem_inv s' \<and> eligible 9 s' i"
proof -
  have "has_room demo_store" by (simp add: has_room_def demo_store_eq)
  from Enqueue_stores_once [OF demo_inv this, of 7 good_event 9 "Opaque []"]
  show ?thesis by auto
qed

text \<open>\<open>Claim\<close> returns exactly the first \<open>limit\<close> messages, in insertion order, that are pending,
  due and not already claimed, and claims them; it changes nothing else.\<close>

theorem Claim_returns_first_due:
  assumes "mem_inv s"
  shows "\<exists>ms s'. Claim None now limit s = (Inr ms, s')
     \<and> ids ms = take limit (filter (eligible now s) (order s))
     \<and> (\<forall>m \<in> set ms. mem_get s (msg_id m) = Some m \<and> IsDue m now)
     \<and> s' = s\<lparr> claimed := claimed s \<union> set (ids ms) \<rparr>"
proof -
  let ?ms = "claim_spec now limit (order s) s"
  have "\<forall>m \<in> set ?ms. mem_get s (msg_id m) = Some m \<and> IsDue m now"
    using claim_spec_elem [OF assms] by blast
  with Claim_None [OF assms, of now limit] claim_spec_ids [OF assms, of now limit "order s"]
  show ?thesis by (auto simp del: ids_simps)
qed

theorem Claim_returns_first_due_witness:
  "\<exists>ms s'. Claim None 5 1 demo_store = (Inr ms, s') \<and> ids ms = [''mem-1'']"
proof -
  have "take 1 (filter (eligible 5 demo_store) (order demo_store)) = [''mem-1'']"
    by (simp add: demo_store_eq eligible_def mem_get_def IsDue_def new_stored_def)
  with Claim_returns_first_due [OF demo_inv, of 5 1] show ?thesis by auto
qed

text \<open>two claims with no message resolved in between never return a common message, whatever
  their limits and their clocks: the sentence of ports.Claim.\<close>

theorem claims_are_exclusive:
  assumes "mem_inv s" and "Claim c now n s = (Inr ms, s')" and "Claim c' now' n' s' = (Inr ms', s'')"
  shows "set (ids ms) \<inter> set (ids ms') = {}"
  using assms by (rule mem.claims_disjoint)

theorem claims_are_exclusive_witness:
  "set (ids (projl (Inl (projr (fst (Claim None 5 1 demo_store)))))) \<inter>
   set (ids (projr (fst (Claim None 9 50 (snd (Claim None 5 1 demo_store)))))) = {}"
proof -
  have "Claim None 5 1 demo_store
      = (Inr (projr (fst (Claim None 5 1 demo_store))), snd (Claim None 5 1 demo_store))"
    by (simp add: Claim_None [OF demo_inv])
  moreover have "mem_inv (snd (Claim None 5 1 demo_store))"
    using Claim_keeps_inv [OF demo_inv] by (metis prod.collapse)
  then have "Claim None 9 50 (snd (Claim None 5 1 demo_store))
      = (Inr (projr (fst (Claim None 9 50 (snd (Claim None 5 1 demo_store))))),
         snd (Claim None 9 50 (snd (Claim None 5 1 demo_store))))"
    by (simp add: Claim_None)
  ultimately show ?thesis
    using claims_are_exclusive [OF demo_inv] by simp
qed

section \<open>The dispatcher\<close>

lemma drain_settles:
  assumes "wired_to Claim MarkDone MarkFailed p e d" and "max_attempts (retry p) < 2 ^ 63"
    and "mem_inv (w_store w)" and "bounded_attempts p (mem_get (w_store w))"
    and "DrainOnce d w = (Inr n, w')"
  shows "\<exists>ms rs now. n = length ms \<and> map fst rs = ms
     \<and> ids ms = take (nat (batch_size p)) (filter (eligible now (w_store w)) (order (w_store w)))
     \<and> w_delivered w' = w_delivered w @ map (\<lambda>(m, h, oc). (m, h)) rs
     \<and> w_reports w' = w_reports w @ map (\<lambda>(m, h, oc). oc) rs
     \<and> (\<forall>(m, h, oc) \<in> set rs. out_event oc \<noteq> EventResolveFailed
          \<and> settled (retry p) m h oc (mem_get (w_store w') (msg_id m)))
     \<and> (\<forall>i. i \<notin> set (ids ms) \<longrightarrow> mem_get (w_store w') i = mem_get (w_store w) i)
     \<and> mem_inv (w_store w') \<and> claimed (w_store w') = claimed (w_store w)"
proof -
  from mem.DrainOnce_wired [OF assms(1,3,4,2,5)]
  obtain ms rs w1 c now where ok: "batch_ok mem_get claimed p ms rs w1 w'"
    and ref: "\<forall>(m, h, oc) \<in> set rs. out_event oc = EventResolveFailed \<longrightarrow> mem.refusing"
    and n: "n = length ms" and eqs: "mem_get (w_store w1) = mem_get (w_store w)"
      "w_reports w1 = w_reports w" "w_delivered w1 = w_delivered w"
    and cl: "Claim c now (nat (batch_size p)) (w_store w) = (Inr ms, w_store w1)"
    and inv: "mem_inv (w_store w')" .
  have "c = None" using Claim_Inr_iff [of c] cl by (metis fst_conv)
  then have "ids ms = take (nat (batch_size p)) (filter (eligible now (w_store w)) (order (w_store w)))"
    using cl Claim_None [OF assms(3)] claim_spec_ids [OF assms(3)] by auto
  moreover have "\<forall>(m, h, oc) \<in> set rs. out_event oc \<noteq> EventResolveFailed"
    using ref mem.not_refusing by auto
  moreover have "claimed (w_store w') = claimed (w_store w)"
    using mem.drain_releases [OF assms(1,3,4,2)] assms(5) by simp
  ultimately show ?thesis
    using ok n eqs inv unfolding batch_ok_def
    by (intro exI [of _ ms] exI [of _ rs] exI [of _ now]) auto
qed

text \<open>C3: a successful \<open>DrainOnce\<close> claims a batch, publishes each of its messages exactly once and
  in order, and reports each exactly once; what the report says is what the store now holds
  (published and done, rescheduled, given up, or failed after a panic), no message outside the
  batch is touched, and nothing of the batch stays claimed.\<close>

theorem drain_settles_batch:
  assumes "wired_to Claim MarkDone MarkFailed p e d" and "max_attempts (retry p) < 2 ^ 63"
    and "mem_inv (w_store w)" and "bounded_attempts p (mem_get (w_store w))"
    and "DrainOnce d w = (Inr n, w')"
  shows "\<exists>ms rs now. n = length ms \<and> map fst rs = ms
     \<and> ids ms = take (nat (batch_size p)) (filter (eligible now (w_store w)) (order (w_store w)))
     \<and> w_delivered w' = w_delivered w @ map (\<lambda>(m, h, oc). (m, h)) rs
     \<and> w_reports w' = w_reports w @ map (\<lambda>(m, h, oc). oc) rs
     \<and> (\<forall>(m, h, oc) \<in> set rs. out_event oc \<noteq> EventResolveFailed
          \<and> settled (retry p) m h oc (mem_get (w_store w') (msg_id m)))
     \<and> (\<forall>i. i \<notin> set (ids ms) \<longrightarrow> mem_get (w_store w') i = mem_get (w_store w) i)
     \<and> mem_inv (w_store w') \<and> claimed (w_store w') = claimed (w_store w)"
  by (rule drain_settles [OF assms])

theorem drain_settles_batch_witness:
  "\<exists>rs. length rs = 2 \<and> (\<forall>(m, h, oc) \<in> set rs.
     settled default_retry m h oc (mem_get (w_store (snd (DrainOnce demo_dispatcher demo_world))) (msg_id m)))"
proof -
  have "DrainOnce demo_dispatcher demo_world = (Inr 2, snd (DrainOnce demo_dispatcher demo_world))"
    using demo_drain by (metis prod.collapse)
  moreover have "mem_inv (w_store demo_world)" "bounded_attempts demo_policy (mem_get (w_store demo_world))"
    "max_attempts (retry demo_policy) < 2 ^ 63" "retry demo_policy = default_retry"
    using demo_inv demo_bounded by (simp_all add: demo_world_def demo_policy_def default_retry_def)
  ultimately show ?thesis
    using drain_settles_batch [OF demo_wired, of demo_world 2] by fastforce
qed

text \<open>whatever the publisher does (fail, panic) and however the context and the clock behave, a
  run of the dispatcher over any sequence of ticks leaves no message claimed that was not
  claimed before, and no pending message beyond its allowed attempts: a poisoned message neither
  kills the worker nor stays claimed forever.\<close>

theorem Run_leaves_nothing_claimed:
  assumes "wired_to Claim MarkDone MarkFailed p e d" and "max_attempts (retry p) < 2 ^ 63"
    and "mem_inv (w_store w)" and "bounded_attempts p (mem_get (w_store w))"
  shows "mem_inv (w_store (snd (Run d cx us w)))
     \<and> claimed (w_store (snd (Run d cx us w))) = claimed (w_store w)
     \<and> bounded_attempts p (mem_get (w_store (snd (Run d cx us w))))"
  using mem.Run_at_rest [OF assms(1,2), of "claimed (w_store w)" w cx us] assms(3,4)
  by (simp add: mem.at_rest_def)

theorem Run_leaves_nothing_claimed_witness:
  "claimed (w_store (snd (Run demo_dispatcher (\<lambda>w. None) [Tick, Tick, CtxDone] demo_world))) = {}"
proof -
  have h: "mem_inv (w_store demo_world)" "bounded_attempts demo_policy (mem_get (w_store demo_world))"
    "max_attempts (retry demo_policy) < 2 ^ 63" "claimed (w_store demo_world) = {}"
    using demo_inv demo_bounded by (simp_all add: demo_world_def demo_policy_def default_retry_def demo_store_eq)
  show ?thesis
    using Run_leaves_nothing_claimed [OF demo_wired h(3,1,2), of "\<lambda>w. None" "[Tick, Tick, CtxDone]"] h(4)
    by (simp only: simp_thms)
qed

end
