(* ===== verification/Outbox_Runs.thy ===== *)
theory Outbox_Runs
  imports Outbox_Properties
begin

text \<open>
  Every sequence of calls on the memory store of the outbox (internal/core/outbox/drivers/memory): the store
  stays well formed and a message, once in it, keeps what it was enqueued with.
\<close>

text \<open>The calls of the four ports, with what the caller passes. An attempt that is marked has a count that the
  dispatcher computed, which is never negative, and an identifier is left for each message.\<close>

inductive store_run :: "mem_store \<Rightarrow> mem_store \<Rightarrow> bool" where
  unchanged: "store_run s s"
| enqueued: "store_run s s1 \<Longrightarrow> has_room s1 \<Longrightarrow> store_run s (snd (Enqueue c now msg s1))"
| handed_out: "store_run s s1 \<Longrightarrow> store_run s (snd (Claim c now limit s1))"
| settled: "store_run s s1 \<Longrightarrow> store_run s (snd (MarkDone i s1))"
| postponed: "store_run s s1 \<Longrightarrow> 0 \<le> fa_attempts a \<Longrightarrow> store_run s (snd (MarkFailed a s1))"

text \<open>What a message was enqueued with, under which identifier and when.\<close>

definition content_of :: "message \<Rightarrow> str \<times> str \<times> str \<times> bytes \<times> str \<times> (str, str) gomap option \<times> time" where
  "content_of m = (msg_id m, msg_type m, msg_aggregate_id m, msg_payload m, msg_trace_parent m, msg_headers m, msg_created_at m)"

definition keeps_messages :: "mem_store \<Rightarrow> mem_store \<Rightarrow> bool" where
  "keeps_messages s s' \<longleftrightarrow> unat (next_id s) \<le> unat (next_id s')
     \<and> (\<forall>i m. mem_get s i = Some m \<longrightarrow> (\<exists>m'. mem_get s' i = Some m' \<and> content_of m' = content_of m))"

lemma keeps_messages_trans: "keeps_messages s s1 \<Longrightarrow> keeps_messages s1 s2 \<Longrightarrow> keeps_messages s s2"
proof -
  assume one: "keeps_messages s s1" and two: "keeps_messages s1 s2"
  have "\<exists>m2. mem_get s2 i = Some m2 \<and> content_of m2 = content_of m" if m: "mem_get s i = Some m" for i m
  proof -
    from one m obtain m1 where "mem_get s1 i = Some m1" "content_of m1 = content_of m" unfolding keeps_messages_def by blast
    moreover from this two obtain m2 where "mem_get s2 i = Some m2" "content_of m2 = content_of m1"
      unfolding keeps_messages_def by blast
    ultimately show ?thesis by simp
  qed
  then show ?thesis using one two by (simp add: keeps_messages_def)
qed

lemma Enqueue_keeps: "mem_inv s \<Longrightarrow> has_room s \<Longrightarrow> mem_inv (snd (Enqueue c now msg s)) \<and> keeps_messages s (snd (Enqueue c now msg s))"
proof (cases c)
  case None
  assume inv: "mem_inv s" "has_room s"
  have "mem_get s (mem_id (Suc (unat (next_id s)))) = None"
    using Enqueue_fresh [OF inv(1)] mem_inv_dom [OF inv(1)] by auto
  then show ?thesis
    using Enqueue_keeps_inv [OF inv] None
    by (auto simp: Enqueue_eq [OF inv] Let_def keeps_messages_def mem_get_def next_id_Suc [OF inv(2)] update_conv')
qed (auto simp: Enqueue_def keeps_messages_def)

lemma Claim_next_id: "next_id (snd (Claim c now n s)) = next_id s"
proof -
  have "next_id (snd (claim_loop now n is s out)) = next_id s" for "is" out
    by (induction now n "is" s out rule: claim_loop.induct) (auto split: option.split)
  then show ?thesis by (auto simp: Claim_def split: option.split prod.split) (metis snd_conv)
qed

lemma Claim_keeps: "mem_inv s \<Longrightarrow> mem_inv (snd (Claim c now n s)) \<and> keeps_messages s (snd (Claim c now n s))"
  using Claim_keeps_inv [of s c now n "fst (Claim c now n s)" "snd (Claim c now n s)"] Claim_next_id [of c now n s]
  by (simp add: keeps_messages_def)

lemma MarkDone_keeps: "mem_inv s \<Longrightarrow> mem_inv (snd (MarkDone i s)) \<and> keeps_messages s (snd (MarkDone i s))"
proof (cases "mem_get s i")
  case (Some m)
  assume inv: "mem_inv s"
  then show ?thesis
    using mem_inv_update [of s i m "m\<lparr> msg_status := StatusDone \<rparr>" "claimed s - {i}"] mem_inv_stored [OF inv Some] Some
    by (auto simp: MarkDone_def mem_get_def keeps_messages_def content_of_def update_conv')
qed (auto simp: MarkDone_def mem_get_def keeps_messages_def)

lemma MarkFailed_keeps:
  "mem_inv s \<Longrightarrow> 0 \<le> fa_attempts a \<Longrightarrow> mem_inv (snd (MarkFailed a s)) \<and> keeps_messages s (snd (MarkFailed a s))"
proof (cases "mem_get s (fa_id a)")
  case (Some m)
  assume inv: "mem_inv s" "0 \<le> fa_attempts a"
  then show ?thesis
    using mem_inv_update [of s "fa_id a" m "m\<lparr> msg_attempts := fa_attempts a, msg_status := fa_status a,
        msg_available_at := fa_available_at a \<rparr>" "claimed s - {fa_id a}"] mem_inv_stored [OF inv(1) Some] Some
    by (auto simp: MarkFailed_def mem_get_def keeps_messages_def content_of_def update_conv')
qed (auto simp: MarkFailed_def mem_get_def keeps_messages_def)

lemma store_run_keeps: "store_run a b \<Longrightarrow> mem_inv a \<Longrightarrow> mem_inv b \<and> keeps_messages a b"
proof (induction rule: store_run.induct)
  case (unchanged s)
  then show ?case by (simp add: keeps_messages_def)
next
  case (enqueued s s1 c now msg)
  then show ?case using Enqueue_keeps [of s1 c now msg] keeps_messages_trans by blast
next
  case (handed_out s s1 c now limit)
  then show ?case using Claim_keeps [of s1 c now limit] keeps_messages_trans by blast
next
  case (settled s s1 i)
  then show ?case using MarkDone_keeps [of s1 i] keeps_messages_trans by blast
next
  case (postponed s s1 a)
  then show ?case using MarkFailed_keeps [of s1 a] keeps_messages_trans by blast
qed

lemma mem_inv_length: "mem_inv s \<Longrightarrow> length (messages s) = length (order s)"
proof -
  assume inv: "mem_inv s"
  have "distinct (map fst (messages s))" "set (map fst (messages s)) = set (order s)"
    using inv unfolding mem_inv_def by simp_all
  then show ?thesis using distinct_card [OF mem_inv_order_distinct [OF inv]] distinct_card [of "map fst (messages s)"]
    by (metis length_map)
qed

text \<open>C4: The memory store stays well formed whatever is called on it: started empty, after any sequence of
  the calls of its ports, failing ones included, its identifiers are those of its messages in the order of
  insertion, each message stands under its own, only stored messages are in flight; and whatever is called
  next, no message disappears, changes its content or its date, or gives its identifier to another one.\<close>

theorem store_stays_well_formed:
  assumes "store_run new_mem_store s" and "store_run s s'"
  shows "mem_inv s \<and> mem_inv s' \<and> keeps_messages s s' \<and> claimed s' \<subseteq> set (order s') \<and> PendingCount s' \<le> length (order s')"
proof -
  have s: "mem_inv s" using store_run_keeps [OF assms(1) mem_inv_new] by simp
  have s': "mem_inv s' \<and> keeps_messages s s'" using store_run_keeps [OF assms(2) s] .
  have "PendingCount s' \<le> length (messages s')" by (simp add: PendingCount_def)
  then have "PendingCount s' \<le> length (order s')" using s' mem_inv_length by metis
  moreover have "claimed s' \<subseteq> set (order s')" using s' unfolding mem_inv_def by blast
  ultimately show ?thesis using s s' by blast
qed

theorem store_stays_well_formed_witness:
  "\<exists>s'. s' = snd (MarkDone ''mem-1'' (snd (Claim None 5 1 demo_store))) \<and> mem_inv s' \<and> keeps_messages demo_store s'"
proof -
  have start: "store_run new_mem_store (snd (Enqueue None 0 good_event new_mem_store))"
    by (intro store_run.enqueued store_run.unchanged) (simp add: has_room_def new_mem_store_def)
  have "store_run new_mem_store demo_store"
    unfolding demo_store_def
    by (intro store_run.enqueued start) (simp add: has_room_def new_mem_store_def Enqueue_def Let_def)
  moreover have "store_run demo_store (snd (MarkDone ''mem-1'' (snd (Claim None 5 1 demo_store))))"
    by (intro store_run.settled store_run.handed_out store_run.unchanged)
  ultimately show ?thesis using store_stays_well_formed by blast
qed

end
