(* ===== verification/Outbox_Liveness.thy ===== *)
theory Outbox_Liveness
  imports Outbox_Properties
begin

text \<open>
  The dispatcher empties the outbox: each delivery spends one of the attempts the policy allows, so
  however the publisher behaves, no message stays pending forever.
\<close>

definition left :: "policy \<Rightarrow> message \<Rightarrow> nat" where
  "left p m = (if msg_status m = StatusPending then nat (max_attempts (retry p) - msg_attempts m) else 0)"

text \<open>The attempts left to all the messages of a store.\<close>

definition budget :: "policy \<Rightarrow> mem_store \<Rightarrow> nat" where
  "budget p s = (\<Sum>i \<in> set (order s). case mem_get s i of None \<Rightarrow> 0 | Some m \<Rightarrow> left p m)"

definition pending :: "mem_store \<Rightarrow> str \<Rightarrow> bool" where
  "pending s i \<longleftrightarrow> (\<exists>m. mem_get s i = Some m \<and> msg_status m = StatusPending)"

text \<open>The clock a drain reads is past the instant of every pending message.\<close>

definition clock_past :: "'e environment \<Rightarrow> (mem_store, 'e) world \<Rightarrow> bool" where
  "clock_past e w \<longleftrightarrow> (\<forall>i m. mem_get (w_store w) i = Some m \<and> msg_status m = StatusPending
     \<longrightarrow> msg_available_at m \<le> fst (e_now e (snd (e_ctx e (w_env w)))))"

lemma budget_zero:
  assumes "mem_inv s" and "bounded_attempts p (mem_get s)" and "budget p s = 0"
  shows "\<not> pending s i"
proof
  assume "pending s i"
  then obtain m where m: "mem_get s i = Some m" "msg_status m = StatusPending" by (auto simp: pending_def)
  then have "msg_attempts m < max_attempts (retry p)" using assms(2) unfolding bounded_attempts_def by blast
  moreover have "i \<in> set (order s)" using m(1) mem_inv_dom [OF assms(1)] by blast
  then have "left p m = 0" using assms(3) m(1) by (auto simp: budget_def)
  ultimately show False using m(2) by (simp add: left_def)
qed

lemma settled_spends:
  assumes "settled (retry p) m h oc (Some x)" and "out_event oc \<noteq> EventResolveFailed" and "attempts_ok m"
    and "msg_status m = StatusPending" and "msg_attempts m < max_attempts (retry p)"
  shows "left p x < left p m"
proof (cases "cause_of m h")
  case None
  then have "x = done_message m" using assms(1,2) by (simp add: settled_def)
  then show ?thesis using assms(4,5) by (simp add: left_def done_message_def)
next
  case (Some c)
  then obtain now where "x = failed_message (NextAttempt m (retry p) now (err_text c)) m"
    using assms(1,2) by (auto simp: settled_def Let_def)
  then show ?thesis using assms(3,4,5) by (auto simp: left_def failed_message_def NextAttempt_def Let_def attempts_ok_def)
qed

text \<open>The instant a drain reads, and the batch it claims then.\<close>

definition drain_time :: "'e environment \<Rightarrow> (mem_store, 'e) world \<Rightarrow> time" where
  "drain_time e w = fst (e_now e (snd (e_ctx e (w_env w))))"

lemma drain_claims:
  assumes "wired_to Claim MarkDone MarkFailed p e d" and "DrainOnce d w = (Inr n, w')"
  shows "\<exists>ms s'. Claim None (drain_time e w) (nat (batch_size p)) (w_store w) = (Inr ms, s') \<and> n = length ms"
proof -
  obtain c v1 where c: "e_ctx e (w_env w) = (c, v1)" by (cases "e_ctx e (w_env w)")
  obtain now v2 where nw: "e_now e v1 = (now, v2)" by (cases "e_now e v1")
  obtain r s' where cl: "Claim c now (nat (batch_size p)) (w_store w) = (r, s')"
    by (cases "Claim c now (nat (batch_size p)) (w_store w)")
  obtain ms where r: "r = Inr ms" and n: "n = length ms"
    using assms(2) c nw cl by (cases r) (auto simp: DrainOnce_def mem.wired_sel [OF assms(1)])
  have "c = None" using Claim_Inr_iff [of c] cl r by (metis fst_conv)
  then show ?thesis using cl r n c nw by (simp add: drain_time_def)
qed

text \<open>One drain: the attempts of its batch are spent, and an empty batch means nothing is pending.\<close>

lemma sum_spent:
  fixes f g :: "'a \<Rightarrow> nat"
  assumes "finite A" and "B \<subseteq> A" and "\<forall>i \<in> B. g i < f i" and "\<forall>i \<in> A - B. g i = f i"
  shows "(\<Sum>i \<in> A. g i) + card B \<le> (\<Sum>i \<in> A. f i)"
proof -
  have "card B = (\<Sum>i \<in> A. if i \<in> B then 1 else 0)"
    using assms(1,2) by (simp add: sum.If_cases Int_absorb1)
  then have "(\<Sum>i \<in> A. g i) + card B = (\<Sum>i \<in> A. g i + (if i \<in> B then 1 else 0))" by (simp only: sum.distrib)
  also have "\<dots> \<le> (\<Sum>i \<in> A. f i)"
  proof (rule sum_mono)
    fix i assume "i \<in> A"
    then show "g i + (if i \<in> B then 1 else 0) \<le> f i" using assms(3,4) by (cases "i \<in> B") (simp_all add: Suc_leI)
  qed
  finally show ?thesis .
qed

definition left_of :: "policy \<Rightarrow> mem_store \<Rightarrow> str \<Rightarrow> nat" where
  "left_of p s i = (case mem_get s i of None \<Rightarrow> 0 | Some m \<Rightarrow> left p m)"

lemma budget_dom: "mem_inv s \<Longrightarrow> budget p s = sum (left_of p s) (dom (mem_get s)) \<and> finite (dom (mem_get s))"
  by (simp add: budget_def left_of_def mem_inv_dom)

lemma drain_spends:
  assumes wired: "wired_to Claim MarkDone MarkFailed p e d" and fits: "max_attempts (retry p) < 2 ^ 63"
    and inv: "mem_inv (w_store w)" and bnd: "bounded_attempts p (mem_get (w_store w))" and free: "claimed (w_store w) = {}"
    and run: "DrainOnce d w = (Inr n, w')" and late: "clock_past e w"
  shows "mem_inv (w_store w') \<and> bounded_attempts p (mem_get (w_store w')) \<and> claimed (w_store w') = {}
     \<and> budget p (w_store w') + n \<le> budget p (w_store w) \<and> (n = 0 \<longrightarrow> budget p (w_store w) = 0)"
proof -
  obtain ms rs w1 c now where ok: "batch_ok mem_get claimed p ms rs w1 w'"
    and ref: "\<forall>(m, h, oc) \<in> set rs. out_event oc = EventResolveFailed \<longrightarrow> mem.refusing"
    and n: "n = length ms" and same: "mem_get (w_store w1) = mem_get (w_store w)"
    and cl: "Claim c now (nat (batch_size p)) (w_store w) = (Inr ms, w_store w1)"
    and stored: "\<forall>m \<in> set ms. mem_get (w_store w) (msg_id m) = Some m \<and> IsDue m now"
    and inv': "mem_inv (w_store w')" and bnd': "bounded_attempts p (mem_get (w_store w'))"
    by (rule mem.DrainOnce_wired [OF wired inv bnd fits run])
  have free': "claimed (w_store w') = {}" using mem.drain_releases [OF wired inv bnd fits] run free by simp
  have distinct: "distinct (ids ms)" using mem.claim_batch [OF inv cl] by blast
  have spent: "left_of p (w_store w') i < left_of p (w_store w) i \<and> i \<in> dom (mem_get (w_store w)) \<and> i \<in> dom (mem_get (w_store w'))"
    if i: "i \<in> set (ids ms)" for i
  proof -
    obtain m where m: "m \<in> set ms" "msg_id m = i" using i by auto
    then obtain h oc where r: "(m, h, oc) \<in> set rs" using batch_ok_ms [OF ok] by auto
    have no: "out_event oc \<noteq> EventResolveFailed" using ref r mem.not_refusing by auto
    have st: "settled (retry p) m h oc (mem_get (w_store w') i)" using batch_ok_settled [OF ok r] m(2) by simp
    then obtain x where x: "mem_get (w_store w') i = Some x"
      using no by (auto simp: settled_def Let_def split: option.splits)
    have sm: "mem_get (w_store w) i = Some m" "msg_status m = StatusPending" using stored m by (auto simp: IsDue_def)
    then have lt: "msg_attempts m < max_attempts (retry p)" using bnd unfolding bounded_attempts_def by blast
    then have "attempts_ok m" using fits mem_inv_stored [OF inv sm(1)] by (simp add: attempts_ok_def)
    then have "left p x < left p m" using settled_spends st no lt sm(2) x by metis
    then show ?thesis using sm(1) x by (simp add: left_of_def domI)
  qed
  have others: "mem_get (w_store w') i = mem_get (w_store w) i" if "i \<notin> set (ids ms)" for i
    using ok that same unfolding batch_ok_def by simp
  have dom: "dom (mem_get (w_store w')) = dom (mem_get (w_store w))"
  proof (rule set_eqI)
    fix i show "i \<in> dom (mem_get (w_store w')) \<longleftrightarrow> i \<in> dom (mem_get (w_store w))"
      using spent [of i] others [of i] by (cases "i \<in> set (ids ms)") (auto simp: dom_def)
  qed
  have "sum (left_of p (w_store w')) (dom (mem_get (w_store w))) + card (set (ids ms)) \<le> sum (left_of p (w_store w)) (dom (mem_get (w_store w)))"
  proof (rule sum_spent)
    show "finite (dom (mem_get (w_store w)))" using budget_dom [OF inv] by blast
    show "set (ids ms) \<subseteq> dom (mem_get (w_store w))" using spent by blast
    show "\<forall>i \<in> set (ids ms). left_of p (w_store w') i < left_of p (w_store w) i" using spent by blast
    show "\<forall>i \<in> dom (mem_get (w_store w)) - set (ids ms). left_of p (w_store w') i = left_of p (w_store w) i"
      using others by (simp add: left_of_def)
  qed
  moreover have "card (set (ids ms)) = n" using distinct n by (simp only: distinct_card) (simp add: ids_def)
  ultimately have less: "budget p (w_store w') + n \<le> budget p (w_store w)"
    using budget_dom [OF inv] budget_dom [OF inv'] dom by simp
  have "budget p (w_store w) = 0" if "n = 0"
  proof -
    obtain ms2 s' where cl2: "Claim None (drain_time e w) (nat (batch_size p)) (w_store w) = (Inr ms2, s')" and n2: "n = length ms2"
      using drain_claims [OF wired run] by blast
    have "ids ms2 = take (nat (batch_size p)) (filter (eligible (drain_time e w) (w_store w)) (order (w_store w)))"
      using Claim_None [OF inv] claim_spec_ids [OF inv] cl2 by auto
    moreover have "0 < nat (batch_size p)" using mem.wired_sel(2) [OF wired] by simp
    moreover have "ids ms2 = []" using n2 that by (simp add: ids_def)
    ultimately have "filter (eligible (drain_time e w) (w_store w)) (order (w_store w)) = []" by simp
    then have none: "\<not> eligible (drain_time e w) (w_store w) i" if "i \<in> dom (mem_get (w_store w))" for i
      using that mem_inv_dom [OF inv] by (simp add: filter_empty_conv)
    have "left_of p (w_store w) i = 0" if i: "i \<in> dom (mem_get (w_store w))" for i
    proof -
      obtain m where m: "mem_get (w_store w) i = Some m" using i by blast
      have "msg_status m \<noteq> StatusPending"
      proof
        assume pm: "msg_status m = StatusPending"
        then have "msg_available_at m \<le> drain_time e w" using late m unfolding clock_past_def drain_time_def by blast
        then have "eligible (drain_time e w) (w_store w) i" using m pm free by (simp add: eligible_def IsDue_def)
        then show False using none [OF i] by blast
      qed
      then show ?thesis using m by (simp add: left_of_def left_def)
    qed
    then show ?thesis using budget_dom [OF inv] by simp
  qed
  then show ?thesis using inv' bnd' free' less by blast
qed


text \<open>A publisher that panics on a message allowed one attempt: after one drain it is given up.\<close>

definition one_try :: policy where
  "one_try = demo_policy\<lparr> retry := \<lparr> max_attempts = 1, base_backoff = second \<rparr> \<rparr>"

definition one_try_dispatcher :: "(mem_store, unit) world dispatcher" where
  "one_try_dispatcher = projr (NewDispatcher (wired_ports Claim MarkDone MarkFailed demo_env) one_try)"

definition poison_store :: mem_store where
  "poison_store = snd (Enqueue None 0 bad_event new_mem_store)"

definition poison_world :: "(mem_store, unit) world" where
  "poison_world = demo_world\<lparr> w_store := poison_store \<rparr>"

lemma poison_store_eq:
  "poison_store = \<lparr> messages = [(''mem-1'', new_stored ''mem-1'' 0 bad_event)], claimed = {}, order = [''mem-1''], next_id = 1 \<rparr>"
  by (simp add: poison_store_def Enqueue_def new_mem_store_def Let_def mem_id_small new_stored_def)


end
