(* ===== verification/Idempotency_Contract.thy ===== *)
theory Idempotency_Contract
  imports Go_Prelude
begin

text \<open>
  Idempotency: the vocabulary (internal/core/idempotency/domain/key.go), the rule that decides
  what a reservation of a held key gets, and the contract of a driver
  (internal/core/idempotency/ports/ports.go) as a locale.
\<close>

datatype idem_status = StatusInFlight | IdemDone

record request =
  rq_key :: str
  rq_fingerprint :: str

definition IsComplete :: "request \<Rightarrow> bool" where
  "IsComplete r \<longleftrightarrow> rq_key r \<noteq> [] \<and> rq_fingerprint r \<noteq> []"

record reservation =
  Replayed :: bool
  Response :: "bytes option"   \<comment> \<open>\<open>None\<close> is a nil slice\<close>

definition no_reservation :: reservation where
  "no_reservation = \<lparr> Replayed = False, Response = None \<rparr>"

text \<open>
  \<open>Fingerprint\<close>: the JSON encoder and SHA-256 are parameters (\<open>marshal\<close> fails on what JSON cannot
  carry, \<open>show_go\<close> is the \<open>%#v\<close> rendering that replaces it then, \<open>b64\<close> the URL alphabet without padding).
\<close>

definition Fingerprint ::
    "('p \<Rightarrow> err + bytes) \<Rightarrow> ('p \<Rightarrow> str) \<Rightarrow> (bytes \<Rightarrow> bytes) \<Rightarrow> (bytes \<Rightarrow> str) \<Rightarrow> 'p \<Rightarrow> str" where
  "Fingerprint marshal show_go sha256 b64 payload =
     b64 (sha256 (case marshal payload of Inr raw \<Rightarrow> raw | Inl e \<Rightarrow> show_go payload))"

text \<open>The failures of the domain carry the key.\<close>

definition key_error :: "idempotency_sentinel \<Rightarrow> str \<Rightarrow> err" where
  "key_error s key = Errorf [W (Sentinel (Idem s)), Lit ('': key='' @ quote_text key)]"

lemma key_error_is [simp]: "errors_is (key_error s key) t \<longleftrightarrow> t = Idem s"
  by (auto simp: key_error_def)

section \<open>The contract\<close>

text \<open>A live entry, as a reservation sees it: fingerprint, status, memorised response.\<close>

record held =
  h_fingerprint :: str
  h_status :: idem_status
  h_response :: "bytes option"

definition granted :: "request \<Rightarrow> held" where
  "granted rq = \<lparr> h_fingerprint = rq_fingerprint rq, h_status = StatusInFlight, h_response = None \<rparr>"

text \<open>
  \<open>view s t k\<close> is the entry of \<open>k\<close> still live at \<open>t\<close>. A reservation is granted only when there is
  none, and the entry it leaves lives for \<open>ttl\<close>; a replay gives the response of an entry that is
  done and has the same fingerprint; completing keeps the entry and memorises the response as the
  driver stores it (\<open>kept\<close>), a done entry is never released,
  and nothing else is touched. \<open>'i\<close> is what a call reads of its context and connection.
\<close>

locale idempotency_store =
  fixes inv :: "'s \<Rightarrow> bool"
    and view :: "'s \<Rightarrow> time \<Rightarrow> str \<Rightarrow> held option"
    and ttl :: duration
    and kept :: "bytes option \<Rightarrow> bytes option"
    and reserve :: "'i \<Rightarrow> time \<Rightarrow> request \<Rightarrow> 's \<Rightarrow> (err + reservation) \<times> 's"
    and complete :: "'i \<Rightarrow> time \<Rightarrow> str \<Rightarrow> bytes option \<Rightarrow> 's \<Rightarrow> err option \<times> 's"
    and release :: "'i \<Rightarrow> time \<Rightarrow> str \<Rightarrow> 's \<Rightarrow> err option \<times> 's"
    and purge :: "'i \<Rightarrow> time \<Rightarrow> 's \<Rightarrow> (err + nat) \<times> 's"
  assumes reserve_inv: "inv s \<Longrightarrow> inv (snd (reserve io now rq s))"
    and complete_inv: "inv s \<Longrightarrow> inv (snd (complete io now k resp s))"
    and release_inv: "inv s \<Longrightarrow> inv (snd (release io now k s))"
    and purge_inv: "inv s \<Longrightarrow> inv (snd (purge io now s))"
    and reserve_granted: "inv s \<Longrightarrow> reserve io now rq s = (Inr res, s') \<Longrightarrow> \<not> Replayed res \<Longrightarrow>
          view s now (rq_key rq) = None
          \<and> (\<forall>t. now \<le> t \<and> t < now + ttl \<longrightarrow> view s' t (rq_key rq) = Some (granted rq))
          \<and> (\<forall>t k. k \<noteq> rq_key rq \<longrightarrow> view s' t k = view s t k)"
    and reserve_replayed: "inv s \<Longrightarrow> reserve io now rq s = (Inr res, s') \<Longrightarrow> Replayed res \<Longrightarrow>
          view s' = view s \<and> view s now (rq_key rq)
            = Some \<lparr> h_fingerprint = rq_fingerprint rq, h_status = IdemDone, h_response = Response res \<rparr>"
    and reserve_refused: "inv s \<Longrightarrow> reserve io now rq s = (Inl e, s') \<Longrightarrow> view s' = view s"
    and complete_ok: "inv s \<Longrightarrow> complete io now k resp s = (None, s') \<Longrightarrow>
          (\<exists>h. view s now k = Some h \<and>
            (\<forall>t. view s' t k = (case view s t k of None \<Rightarrow> None
                | Some x \<Rightarrow> Some \<lparr> h_fingerprint = h_fingerprint h, h_status = IdemDone, h_response = kept resp \<rparr>)))
          \<and> (\<forall>t k'. k' \<noteq> k \<longrightarrow> view s' t k' = view s t k')"
    and complete_refused: "inv s \<Longrightarrow> complete io now k resp s = (Some e, s') \<Longrightarrow> view s' = view s"
    and release_others: "inv s \<Longrightarrow> release io now k s = (r, s') \<Longrightarrow> k' \<noteq> k \<Longrightarrow> view s' t k' = view s t k'"
    and release_done: "inv s \<Longrightarrow> release io now k s = (r, s') \<Longrightarrow> view s now k = Some h \<Longrightarrow>
          h_status h = IdemDone \<Longrightarrow> view s' t k = view s t k"
    and purge_keeps: "inv s \<Longrightarrow> purge io now s = (pr, s') \<Longrightarrow> now \<le> t \<Longrightarrow> view s' t k = view s t k"
    and view_earlier: "inv s \<Longrightarrow> view s t k = Some h \<Longrightarrow> t' \<le> t \<Longrightarrow> view s t' k = Some h"
begin

text \<open>\<open>guarded s T k\<close>: whatever happens short of a release, \<open>k\<close> is held until \<open>T\<close>.\<close>

definition guarded :: "'s \<Rightarrow> time \<Rightarrow> str \<Rightarrow> bool" where
  "guarded s T k \<longleftrightarrow> (\<forall>t < T. view s t k \<noteq> None)"

lemma reserve_guards:
  assumes "inv s" and "reserve io now rq s = (Inr res, s')" and "\<not> Replayed res"
    and "now < T" and "T \<le> now + ttl"
  shows "guarded s' T (rq_key rq)"
proof -
  have inv': "inv s'" using reserve_inv [OF assms(1), of io now rq] assms(2) by simp
  have live: "view s' t (rq_key rq) = Some (granted rq)" if "now \<le> t" "t < T" for t
    using reserve_granted [OF assms(1-3)] that assms(5) by auto
  have "view s' t (rq_key rq) \<noteq> None" if "t < T" for t
  proof (cases "now \<le> t")
    case False
    then show ?thesis using view_earlier [OF inv' live [of now], of t] assms(4) by simp
  qed (use live that in simp)
  then show ?thesis by (simp add: guarded_def)
qed

lemma reserve_keeps_guard:
  assumes "inv s" and "guarded s T k" and "now < T"
  shows "guarded (snd (reserve io now rq s)) T k"
proof (cases "reserve io now rq s")
  case (Pair r s')
  have "rq_key rq \<noteq> k" if "r = Inr res" "\<not> Replayed res" for res
    using reserve_granted [OF assms(1) Pair [unfolded that(1)] that(2)] assms(2,3)
    by (auto simp: guarded_def)
  then show ?thesis
    using assms(1,2) Pair reserve_granted [of s io now rq _ s'] reserve_replayed [of s io now rq _ s']
      reserve_refused [of s io now rq _ s']
    by (cases r) (fastforce simp: guarded_def)+
qed

lemma complete_keeps_guard:
  assumes "inv s" and "guarded s T k"
  shows "guarded (snd (complete io now k' resp s)) T k"
proof (cases "complete io now k' resp s")
  case (Pair r s')
  then show ?thesis
    using assms complete_ok [of s io now k' resp s'] complete_refused [of s io now k' resp _ s']
    by (cases r; cases "k' = k") (fastforce simp: guarded_def)+
qed

lemma release_keeps_guard:
  assumes "inv s" and "guarded s T k" and "k' \<noteq> k"
  shows "guarded (snd (release io now k' s)) T k"
  using assms release_others [of s io now k'] by (cases "release io now k' s") (simp add: guarded_def)

text \<open>A guarded key is never granted again: replayed, in conflict or in flight.\<close>

lemma guarded_not_granted:
  assumes "inv s" and "guarded s T k" and "now < T" and "rq_key rq = k"
    and "reserve io now rq s = (Inr res, s')"
  shows "Replayed res"
proof (rule ccontr)
  assume "\<not> Replayed res"
  then have "view s now k = None" using reserve_granted [OF assms(1,5)] assms(4) by simp
  then show False using assms(2,3) by (auto simp: guarded_def)
qed

end

end
