(* ===== verification/Idempotency_Drivers.thy ===== *)
theory Idempotency_Drivers
  imports Idempotency_Contract
begin

text \<open>
  The three idempotency drivers (internal/core/idempotency/drivers/memory, postgres, redis), each
  shown to keep the contract \<open>idempotency_store\<close>. A method under the mutex, a single SQL
  statement and a sequence of Redis commands with nobody in between are atomic steps.
\<close>

section \<open>Memory\<close>

record entry =
  fingerprint :: str
  entry_status :: idem_status
  response :: "bytes option"
  expiresAt :: time

type_synonym idem_mem = "(str, entry) gomap"

definition new_idem_mem :: idem_mem where
  "new_idem_mem = []"

definition decide :: "entry \<Rightarrow> request \<Rightarrow> err + reservation" where
  "decide h rq =
     (if fingerprint h \<noteq> rq_fingerprint rq then Inl (key_error ErrConflict (rq_key rq))
      else if entry_status h = IdemDone then Inr \<lparr> Replayed = True, Response = response h \<rparr>
      else Inl (key_error ErrInFlight (rq_key rq)))"

definition mem_Reserve :: "duration \<Rightarrow> ctx \<Rightarrow> time \<Rightarrow> request \<Rightarrow> idem_mem \<Rightarrow> (err + reservation) \<times> idem_mem" where
  "mem_Reserve ttl c now rq s =
     (if \<not> IsComplete rq then (Inl (key_error IdemErrIncomplete (rq_key rq)), s)
      else case c of
        Some e \<Rightarrow> (Inl (Errorf [Lit ''reservation cancelled: '', W e]), s)
      | None \<Rightarrow>
          (let fresh = map_set (rq_key rq) \<lparr> fingerprint = rq_fingerprint rq, entry_status = StatusInFlight,
                 response = None, expiresAt = now + ttl \<rparr> s
           in case map_get s (rq_key rq) of
                Some h \<Rightarrow> if now < expiresAt h then (decide h rq, s) else (Inr no_reservation, fresh)
              | None \<Rightarrow> (Inr no_reservation, fresh)))"

definition mem_Complete :: "ctx \<Rightarrow> time \<Rightarrow> str \<Rightarrow> bytes option \<Rightarrow> idem_mem \<Rightarrow> err option \<times> idem_mem" where
  "mem_Complete c now key resp s =
     (case map_get s key of
        Some h \<Rightarrow> if \<not> now < expiresAt h then (Some (key_error ErrNotReserved key), s)
                  else (None, map_set key (h\<lparr> entry_status := IdemDone, response := resp \<rparr>) s)
      | None \<Rightarrow> (Some (key_error ErrNotReserved key), s))"

definition mem_Release :: "ctx \<Rightarrow> time \<Rightarrow> str \<Rightarrow> idem_mem \<Rightarrow> err option \<times> idem_mem" where
  "mem_Release c now key s =
     (case map_get s key of
        Some h \<Rightarrow> if entry_status h = StatusInFlight then (None, map_del key s) else (None, s)
      | None \<Rightarrow> (None, s))"

definition mem_Purge :: "ctx \<Rightarrow> time \<Rightarrow> idem_mem \<Rightarrow> (err + nat) \<times> idem_mem" where
  "mem_Purge c now s =
     (Inr (length (filter (\<lambda>(k, h). \<not> now < expiresAt h) s)), filter (\<lambda>(k, h). now < expiresAt h) s)"

definition held_of :: "entry \<Rightarrow> held" where
  "held_of h = \<lparr> h_fingerprint = fingerprint h, h_status = entry_status h, h_response = response h \<rparr>"

definition mem_view :: "idem_mem \<Rightarrow> time \<Rightarrow> str \<Rightarrow> held option" where
  "mem_view s t k = (case map_get s k of
     Some h \<Rightarrow> if t < expiresAt h then Some (held_of h) else None | None \<Rightarrow> None)"

lemma is_map_filter [simp, intro]: "is_map m \<Longrightarrow> is_map (filter P m)"
  by (induction m) auto

lemma mem_view_purge:
  assumes "is_map s" and "now \<le> t"
  shows "mem_view (filter (\<lambda>(k, h). now < expiresAt h) s) t k = mem_view s t k"
  using assms by (auto simp: mem_view_def map_of_filter_key split: option.splits)

interpretation idem_memory: idempotency_store is_map mem_view ttl id "mem_Reserve ttl" mem_Complete
  mem_Release mem_Purge for ttl
proof
  fix s c now rq res s'
  assume eq: "mem_Reserve ttl c now rq s = (Inr res, s')" and nr: "\<not> Replayed res"
  let ?e = "\<lparr> fingerprint = rq_fingerprint rq, entry_status = StatusInFlight, response = None, expiresAt = now + ttl \<rparr>"
  have "s' = map_set (rq_key rq) ?e s \<and> mem_view s now (rq_key rq) = None"
    using eq nr by (auto simp: mem_Reserve_def Let_def decide_def mem_view_def split: if_splits option.splits)
  then show "mem_view s now (rq_key rq) = None
      \<and> (\<forall>t. now \<le> t \<and> t < now + ttl \<longrightarrow> mem_view s' t (rq_key rq) = Some (granted rq))
      \<and> (\<forall>t k. k \<noteq> rq_key rq \<longrightarrow> mem_view s' t k = mem_view s t k)"
    by (simp add: mem_view_def held_of_def granted_def)
qed (auto simp: mem_Reserve_def mem_Complete_def mem_Release_def mem_Purge_def Let_def decide_def
      mem_view_def held_of_def no_reservation_def mem_view_purge map_of_filter_key fun_eq_iff
      split: if_splits option.splits)

section \<open>PostgreSQL\<close>

text \<open>A row of platform.idempotency_keys. Each operation is one statement (two for a reservation
  that is not granted) in autocommit; \<open>fault\<close> is what the connection reports, if it fails.\<close>

record key_row =
  kr_fingerprint :: str
  kr_status :: idem_status
  kr_response :: "bytes option"
  kr_expires_at :: time
  kr_completed_at :: "time option"

type_synonym idem_pg = "(str, key_row) gomap"

definition query_error :: "str \<Rightarrow> err \<Rightarrow> err" where
  "query_error what e = Errorf [Lit (what @ '': ''), W e]"

text \<open>The upsert: a row is inserted, or replaces one that has expired, and the key is returned; no
  row is returned otherwise.\<close>

definition reserve_query :: "time \<Rightarrow> duration \<Rightarrow> request \<Rightarrow> idem_pg \<Rightarrow> bool \<times> idem_pg" where
  "reserve_query now ttl rq s =
     (let fresh = \<lparr> kr_fingerprint = rq_fingerprint rq, kr_status = StatusInFlight, kr_response = None,
            kr_expires_at = now + ttl, kr_completed_at = None \<rparr>
      in case map_get s (rq_key rq) of
           None \<Rightarrow> (True, map_set (rq_key rq) fresh s)
         | Some r \<Rightarrow> if kr_expires_at r < now
                     then (True, map_set (rq_key rq) (fresh\<lparr> kr_completed_at := kr_completed_at r \<rparr>) s)
                     else (False, s))"

definition pg_inspect :: "err option \<Rightarrow> request \<Rightarrow> idem_pg \<Rightarrow> err + reservation" where
  "pg_inspect fault rq s =
     (case fault of
        Some e \<Rightarrow> Inl (query_error ''reading the idempotency key'' e)
      | None \<Rightarrow>
          (case map_get s (rq_key rq) of
             None \<Rightarrow> Inl (key_error ErrInFlight (rq_key rq))
           | Some r \<Rightarrow>
               if kr_fingerprint r \<noteq> rq_fingerprint rq then Inl (key_error ErrConflict (rq_key rq))
               else if kr_status r = IdemDone then Inr \<lparr> Replayed = True, Response = kr_response r \<rparr>
               else Inl (key_error ErrInFlight (rq_key rq))))"

text \<open>The two faults: of the upsert and of the second read.\<close>

definition pg_Reserve ::
    "duration \<Rightarrow> err option \<times> err option \<Rightarrow> time \<Rightarrow> request \<Rightarrow> idem_pg \<Rightarrow> (err + reservation) \<times> idem_pg" where
  "pg_Reserve ttl fault now rq s =
     (if \<not> IsComplete rq then (Inl (key_error IdemErrIncomplete (rq_key rq)), s)
      else case fst fault of
        Some e \<Rightarrow> (Inl (query_error ''reserving the idempotency key'' e), s)
      | None \<Rightarrow> (case reserve_query now ttl rq s of
          (True, s') \<Rightarrow> (Inr no_reservation, s')
        | (False, s') \<Rightarrow> (pg_inspect (snd fault) rq s', s')))"

definition pg_Complete ::
    "err option \<times> err option \<Rightarrow> time \<Rightarrow> str \<Rightarrow> bytes option \<Rightarrow> idem_pg \<Rightarrow> err option \<times> idem_pg" where
  "pg_Complete fault now key resp s =
     (case fst fault of
        Some e \<Rightarrow> (Some (query_error ''memorising the idempotent response'' e), s)
      | None \<Rightarrow>
          (case map_get s key of
             Some r \<Rightarrow>
               if kr_status r = StatusInFlight \<and> now < kr_expires_at r
               then (None, map_set key (r\<lparr> kr_status := IdemDone, kr_response := resp,
                       kr_completed_at := Some now \<rparr>) s)
               else (Some (key_error ErrNotReserved key), s)
           | None \<Rightarrow> (Some (key_error ErrNotReserved key), s)))"

definition pg_Release :: "err option \<times> err option \<Rightarrow> time \<Rightarrow> str \<Rightarrow> idem_pg \<Rightarrow> err option \<times> idem_pg" where
  "pg_Release fault now key s =
     (case fst fault of
        Some e \<Rightarrow> (Some (query_error ''releasing the idempotency key'' e), s)
      | None \<Rightarrow> (None, filter (\<lambda>(k, r). \<not> (k = key \<and> kr_status r = StatusInFlight)) s))"

definition pg_Purge :: "err option \<times> err option \<Rightarrow> time \<Rightarrow> idem_pg \<Rightarrow> (err + nat) \<times> idem_pg" where
  "pg_Purge fault now s =
     (case fst fault of
        Some e \<Rightarrow> (Inl (query_error ''purging the idempotency keys'' e), s)
      | None \<Rightarrow> (Inr (length (filter (\<lambda>(k, r). kr_expires_at r < now) s)),
                 filter (\<lambda>(k, r). \<not> kr_expires_at r < now) s))"

definition pg_view :: "idem_pg \<Rightarrow> time \<Rightarrow> str \<Rightarrow> held option" where
  "pg_view s t k = (case map_get s k of
     Some r \<Rightarrow> if t \<le> kr_expires_at r
       then Some \<lparr> h_fingerprint = kr_fingerprint r, h_status = kr_status r, h_response = kr_response r \<rparr> else None
   | None \<Rightarrow> None)"

interpretation idem_postgres: idempotency_store is_map pg_view ttl id "pg_Reserve ttl" pg_Complete
  pg_Release pg_Purge for ttl
proof
  fix s and c :: "err option \<times> err option" and now rq res s'
  assume eq: "pg_Reserve ttl c now rq s = (Inr res, s')" and nr: "\<not> Replayed res"
  then have "reserve_query now ttl rq s = (True, s')"
    by (auto simp: pg_Reserve_def pg_inspect_def split: if_splits option.splits prod.splits bool.splits)
  then show "pg_view s now (rq_key rq) = None
      \<and> (\<forall>t. now \<le> t \<and> t < now + ttl \<longrightarrow> pg_view s' t (rq_key rq) = Some (granted rq))
      \<and> (\<forall>t k. k \<noteq> rq_key rq \<longrightarrow> pg_view s' t k = pg_view s t k)"
    by (auto simp: reserve_query_def Let_def pg_view_def granted_def split: option.splits if_splits)
next
  fix s and c :: "err option \<times> err option" and now rq res s'
  assume eq: "pg_Reserve ttl c now rq s = (Inr res, s')" and nr: "Replayed res"
  then have i: "pg_inspect (snd c) rq s = Inr res" "reserve_query now ttl rq s = (False, s)" "s' = s"
    by (auto simp: pg_Reserve_def reserve_query_def no_reservation_def Let_def
        split: if_splits option.splits prod.splits bool.splits)
  then show "pg_view s' = pg_view s \<and> pg_view s now (rq_key rq)
      = Some \<lparr> h_fingerprint = rq_fingerprint rq, h_status = IdemDone, h_response = Response res \<rparr>"
    by (auto simp: pg_inspect_def reserve_query_def Let_def pg_view_def split: if_splits option.splits)
next
  fix s :: idem_pg and io :: "err option \<times> err option" and now rq
  assume "is_map s"
  then show "is_map (snd (pg_Reserve ttl io now rq s))"
    by (auto simp: pg_Reserve_def reserve_query_def Let_def split: option.splits prod.splits bool.splits if_splits)
qed (auto simp: pg_Reserve_def reserve_query_def pg_Complete_def pg_Release_def pg_Purge_def Let_def
      pg_view_def map_of_filter_key fun_eq_iff
      split: if_splits option.splits prod.splits bool.splits)

section \<open>Redis\<close>

text \<open>The JSON envelope; \<open>omitempty\<close> drops an empty response, which is read back as nil.\<close>

record envelope_json =
  Fingerprint_json :: str
  Status_json :: idem_status
  Response_json :: "bytes option"

definition omit_empty :: "bytes option \<Rightarrow> bytes option" where
  "omit_empty r = (if r = Some [] then None else r)"

text \<open>What a key holds: an envelope, or bytes that are not one.\<close>

datatype redis_value = Stored envelope_json | Unreadable

record redis_item =
  rd_value :: redis_value
  rd_expires :: time

type_synonym redis_db = "(str, redis_item) gomap"

text \<open>The commands: a key past its expiry is absent.\<close>

definition redis_get :: "time \<Rightarrow> str \<Rightarrow> redis_db \<Rightarrow> redis_value option" where
  "redis_get now k db = (case map_get db k of
     Some it \<Rightarrow> if now < rd_expires it then Some (rd_value it) else None | None \<Rightarrow> None)"

definition redis_setnx :: "time \<Rightarrow> str \<Rightarrow> redis_value \<Rightarrow> duration \<Rightarrow> redis_db \<Rightarrow> bool \<times> redis_db" where
  "redis_setnx now k v ttl db =
     (if redis_get now k db \<noteq> None then (False, db)
      else (True, map_set k \<lparr> rd_value = v, rd_expires = now + ttl \<rparr> db))"

definition redis_setxx_keepttl :: "time \<Rightarrow> str \<Rightarrow> redis_value \<Rightarrow> redis_db \<Rightarrow> bool \<times> redis_db" where
  "redis_setxx_keepttl now k v db =
     (case map_get db k of
        Some it \<Rightarrow> if now < rd_expires it then (True, map_set k (it\<lparr> rd_value := v \<rparr>) db) else (False, db)
      | None \<Rightarrow> (False, db))"

definition redis_key :: "str \<Rightarrow> str \<Rightarrow> str" where
  "redis_key ns k = ns @ '':'' @ k"

text \<open>\<open>fault n\<close> is what the connection reports for the \<open>n\<close>-th command of a call.\<close>

definition redis_read :: "str \<Rightarrow> err option \<Rightarrow> time \<Rightarrow> str \<Rightarrow> redis_db \<Rightarrow> err + envelope_json" where
  "redis_read ns fault now k db =
     (case fault of
        Some e \<Rightarrow> Inl (query_error ''reading the idempotency key'' e)
      | None \<Rightarrow>
          (case redis_get now (redis_key ns k) db of
             None \<Rightarrow> Inl (key_error ErrNotReserved k)
           | Some Unreadable \<Rightarrow> Inl (query_error ''unreadable idempotency record'' (Opaque ''json''))
           | Some (Stored v) \<Rightarrow> Inr v))"

definition redis_inspect :: "str \<Rightarrow> err option \<Rightarrow> time \<Rightarrow> request \<Rightarrow> redis_db \<Rightarrow> err + reservation" where
  "redis_inspect ns fault now rq db =
     (case redis_read ns fault now (rq_key rq) db of
        Inl e \<Rightarrow> if errors_is e (Idem ErrNotReserved) then Inl (key_error ErrInFlight (rq_key rq)) else Inl e
      | Inr v \<Rightarrow>
          if Fingerprint_json v \<noteq> rq_fingerprint rq then Inl (key_error ErrConflict (rq_key rq))
          else if Status_json v = IdemDone then Inr \<lparr> Replayed = True, Response = Response_json v \<rparr>
          else Inl (key_error ErrInFlight (rq_key rq)))"

definition redis_Reserve ::
    "str \<Rightarrow> duration \<Rightarrow> (nat \<Rightarrow> err option) \<Rightarrow> time \<Rightarrow> request \<Rightarrow> redis_db \<Rightarrow> (err + reservation) \<times> redis_db" where
  "redis_Reserve ns ttl fault now rq db =
     (if \<not> IsComplete rq then (Inl (key_error IdemErrIncomplete (rq_key rq)), db)
      else case fault 0 of
        Some e \<Rightarrow> (Inl (query_error ''reserving the idempotency key'' e), db)
      | None \<Rightarrow>
          (case redis_setnx now (redis_key ns (rq_key rq))
                  (Stored \<lparr> Fingerprint_json = rq_fingerprint rq, Status_json = StatusInFlight,
                            Response_json = None \<rparr>) ttl db of
             (True, db') \<Rightarrow> (Inr no_reservation, db')
           | (False, db') \<Rightarrow> (redis_inspect ns (fault 1) now rq db', db')))"

definition redis_Complete ::
    "str \<Rightarrow> (nat \<Rightarrow> err option) \<Rightarrow> time \<Rightarrow> str \<Rightarrow> bytes option \<Rightarrow> redis_db \<Rightarrow> err option \<times> redis_db" where
  "redis_Complete ns fault now k resp db =
     (case redis_read ns (fault 0) now k db of
        Inl e \<Rightarrow> (Some e, db)
      | Inr v \<Rightarrow>
          if Status_json v \<noteq> StatusInFlight then
            (Some (Errorf [W (Sentinel (Idem ErrNotReserved)), Lit ('': key='' @ quote_text k @ '' already resolved'')]), db)
          else case fault 1 of
            Some e \<Rightarrow> (Some (query_error ''memorising the idempotent response'' e), db)
          | None \<Rightarrow>
              (case redis_setxx_keepttl now (redis_key ns k)
                      (Stored \<lparr> Fingerprint_json = Fingerprint_json v, Status_json = IdemDone,
                                Response_json = omit_empty resp \<rparr>) db of
                 (True, db') \<Rightarrow> (None, db')
               | (False, db') \<Rightarrow> (Some (Errorf [W (Sentinel (Idem ErrNotReserved)),
                     Lit ('': key='' @ quote_text k @ '' expired during the operation'')]), db')))"

definition redis_Release ::
    "str \<Rightarrow> (nat \<Rightarrow> err option) \<Rightarrow> time \<Rightarrow> str \<Rightarrow> redis_db \<Rightarrow> err option \<times> redis_db" where
  "redis_Release ns fault now k db =
     (case redis_read ns (fault 0) now k db of
        Inl e \<Rightarrow> if errors_is e (Idem ErrNotReserved) then (None, db) else (Some e, db)
      | Inr v \<Rightarrow>
          if Status_json v \<noteq> StatusInFlight then (None, db)
          else case fault 1 of
            Some e \<Rightarrow> (Some (query_error ''releasing the idempotency key'' e), db)
          | None \<Rightarrow> (None, map_del (redis_key ns k) db))"

definition redis_Purge :: "(nat \<Rightarrow> err option) \<Rightarrow> time \<Rightarrow> redis_db \<Rightarrow> (err + nat) \<times> redis_db" where
  "redis_Purge fault now db = (Inr 0, db)"

definition redis_view :: "str \<Rightarrow> redis_db \<Rightarrow> time \<Rightarrow> str \<Rightarrow> held option" where
  "redis_view ns db t k =
     (case redis_get t (redis_key ns k) db of
        Some (Stored v) \<Rightarrow> Some \<lparr> h_fingerprint = Fingerprint_json v, h_status = Status_json v,
                              h_response = Response_json v \<rparr>
      | _ \<Rightarrow> None)"

lemma redis_key_inject [simp]: "redis_key ns a = redis_key ns b \<longleftrightarrow> a = b"
  by (simp add: redis_key_def)

lemma redis_get_set [simp]:
  "redis_get t k (map_set k it db) = (if t < rd_expires it then Some (rd_value it) else None)"
  "k \<noteq> k' \<Longrightarrow> redis_get t k (map_set k' it db) = redis_get t k db"
  "k \<noteq> k' \<Longrightarrow> redis_get t k (map_del k' db) = redis_get t k db"
  by (simp_all add: redis_get_def)

lemma redis_setnx_won: "redis_setnx now k v ttl db = (True, db') \<longleftrightarrow>
    redis_get now k db = None \<and> db' = map_set k \<lparr> rd_value = v, rd_expires = now + ttl \<rparr> db"
  by (auto simp: redis_setnx_def)

lemma redis_setnx_lost: "redis_setnx now k v ttl db = (False, db') \<longleftrightarrow> redis_get now k db \<noteq> None \<and> db' = db"
  by (auto simp: redis_setnx_def)

lemma redis_setxx_kept: "redis_setxx_keepttl now k v db = (True, db') \<longleftrightarrow>
    (\<exists>it. map_get db k = Some it \<and> now < rd_expires it \<and> db' = map_set k (it\<lparr> rd_value := v \<rparr>) db)"
  by (auto simp: redis_setxx_keepttl_def split: option.splits)

lemma redis_setxx_lost: "redis_setxx_keepttl now k v db = (False, db') \<Longrightarrow> db' = db"
  by (auto simp: redis_setxx_keepttl_def split: option.splits if_splits)

lemma redis_read_Inr: "redis_read ns f now k db = Inr v \<longleftrightarrow>
    f = None \<and> redis_get now (redis_key ns k) db = Some (Stored v)"
  by (auto simp: redis_read_def split: option.splits redis_value.splits)

lemma redis_Release_cases:
  "redis_Release ns f now k db = (r, db') \<Longrightarrow>
     db' = db \<or> (db' = map_del (redis_key ns k) db
       \<and> (\<exists>v. redis_get now (redis_key ns k) db = Some (Stored v) \<and> Status_json v = StatusInFlight))"
  by (auto simp: redis_Release_def redis_read_Inr split: sum.splits if_splits option.splits)

lemma redis_view_del [simp]: "k' \<noteq> k \<Longrightarrow> redis_view ns (map_del (redis_key ns k) db) t k' = redis_view ns db t k'"
  by (simp add: redis_view_def)

lemma redis_get_earlier: "redis_get t k db = Some v \<Longrightarrow> t' \<le> t \<Longrightarrow> redis_get t' k db = Some v"
  by (auto simp: redis_get_def split: option.splits if_splits)

lemma redis_Complete_ok:
  assumes "redis_Complete ns f now k resp db = (None, db')"
  obtains v it where "redis_get now (redis_key ns k) db = Some (Stored v)"
    and "map_get db (redis_key ns k) = Some it" and "now < rd_expires it" and "rd_value it = Stored v"
    and "db' = map_set (redis_key ns k) (it\<lparr> rd_value := Stored \<lparr> Fingerprint_json = Fingerprint_json v,
           Status_json = IdemDone, Response_json = omit_empty resp \<rparr> \<rparr>) db"
proof -
  obtain v where v: "redis_read ns (f 0) now k db = Inr v"
    and set: "redis_setxx_keepttl now (redis_key ns k) (Stored \<lparr> Fingerprint_json = Fingerprint_json v,
        Status_json = IdemDone, Response_json = omit_empty resp \<rparr>) db = (True, db')"
    using assms by (auto simp: redis_Complete_def split: sum.splits if_splits option.splits prod.splits bool.splits)
  then show thesis
    using that by (auto simp: redis_read_Inr redis_setxx_kept redis_get_def split: if_splits)
qed

lemma redis_Complete_refused: "redis_Complete ns f now k resp db = (Some e, db') \<Longrightarrow> db' = db"
  by (auto simp: redis_Complete_def dest: redis_setxx_lost
      split: sum.splits if_splits option.splits prod.splits bool.splits)

lemma redis_Reserve_cases:
  assumes "redis_Reserve ns ttl f now rq db = (r, db')"
  shows "(r = Inr no_reservation \<and> redis_get now (redis_key ns (rq_key rq)) db = None
       \<and> db' = map_set (redis_key ns (rq_key rq)) \<lparr> rd_value = Stored \<lparr> Fingerprint_json = rq_fingerprint rq,
           Status_json = StatusInFlight, Response_json = None \<rparr>, rd_expires = now + ttl \<rparr> db)
     \<or> (db' = db \<and> ((\<exists>e. r = Inl e) \<or> r = redis_inspect ns (f 1) now rq db))"
  using assms by (auto simp: redis_Reserve_def redis_setnx_won redis_setnx_lost
      split: if_splits option.splits prod.splits bool.splits)

lemma redis_inspect_Inr:
  "redis_inspect ns f now rq db = Inr res \<Longrightarrow> Replayed res
     \<and> redis_get now (redis_key ns (rq_key rq)) db = Some (Stored \<lparr> Fingerprint_json = rq_fingerprint rq,
         Status_json = IdemDone, Response_json = Response res \<rparr>)"
  by (auto simp: redis_inspect_def redis_read_Inr split: sum.splits if_splits)

interpretation idem_redis: idempotency_store is_map "redis_view ns" ttl omit_empty "redis_Reserve ns ttl"
  "redis_Complete ns" "redis_Release ns" redis_Purge for ns ttl
proof
  fix s :: redis_db and io now rq
  assume "is_map s"
  then show "is_map (snd (redis_Reserve ns ttl io now rq s))"
    using redis_Reserve_cases [of ns ttl io now rq s] by (cases "redis_Reserve ns ttl io now rq s") auto
next
  fix s :: redis_db and io now k resp
  assume m: "is_map s"
  show "is_map (snd (redis_Complete ns io now k resp s))"
  proof (cases "redis_Complete ns io now k resp s")
    case (Pair r s')
    show ?thesis
    proof (cases r)
      case None
      then show ?thesis using m Pair by (auto elim: redis_Complete_ok)
    qed (use m Pair redis_Complete_refused [of ns io now k resp s _ s'] in auto)
  qed
next
  fix s :: redis_db and io now k
  assume "is_map s"
  then show "is_map (snd (redis_Release ns io now k s))"
    using redis_Release_cases [of ns io now k s] by (cases "redis_Release ns io now k s") auto
next
  fix s :: redis_db and io now rq res s'
  assume eq: "redis_Reserve ns ttl io now rq s = (Inr res, s')" and nr: "\<not> Replayed res"
  let ?k = "redis_key ns (rq_key rq)"
  have "redis_get now ?k s = None \<and> s' = map_set ?k \<lparr> rd_value = Stored \<lparr> Fingerprint_json = rq_fingerprint rq,
      Status_json = StatusInFlight, Response_json = None \<rparr>, rd_expires = now + ttl \<rparr> s"
    using redis_Reserve_cases [OF eq] nr redis_inspect_Inr [of ns "io 1" now rq s res] by auto
  then show "redis_view ns s now (rq_key rq) = None
      \<and> (\<forall>t. now \<le> t \<and> t < now + ttl \<longrightarrow> redis_view ns s' t (rq_key rq) = Some (granted rq))
      \<and> (\<forall>t k. k \<noteq> rq_key rq \<longrightarrow> redis_view ns s' t k = redis_view ns s t k)"
    by (simp add: redis_view_def granted_def)
next
  fix s :: redis_db and io now rq res s'
  assume eq: "redis_Reserve ns ttl io now rq s = (Inr res, s')" and nr: "Replayed res"
  then have "s' = s" "redis_inspect ns (io 1) now rq s = Inr res"
    using redis_Reserve_cases [OF eq] by (auto simp: no_reservation_def)
  then show "redis_view ns s' = redis_view ns s \<and> redis_view ns s now (rq_key rq)
      = Some \<lparr> h_fingerprint = rq_fingerprint rq, h_status = IdemDone, h_response = Response res \<rparr>"
    using redis_inspect_Inr [of ns "io 1" now rq s res] by (simp add: redis_view_def)
next
  fix s :: redis_db and io now rq e s'
  assume "redis_Reserve ns ttl io now rq s = (Inl e, s')"
  then show "redis_view ns s' = redis_view ns s"
    using redis_Reserve_cases by fastforce
next
  fix s :: redis_db and io now k resp s'
  assume "redis_Complete ns io now k resp s = (None, s')"
  then obtain v it where "redis_get now (redis_key ns k) s = Some (Stored v)"
    and "map_get s (redis_key ns k) = Some it" "rd_value it = Stored v"
    and "s' = map_set (redis_key ns k) (it\<lparr> rd_value := Stored \<lparr> Fingerprint_json = Fingerprint_json v,
           Status_json = IdemDone, Response_json = omit_empty resp \<rparr> \<rparr>) s"
    by (rule redis_Complete_ok)
  then show "(\<exists>h. redis_view ns s now k = Some h \<and>
      (\<forall>t. redis_view ns s' t k = (case redis_view ns s t k of None \<Rightarrow> None
          | Some x \<Rightarrow> Some \<lparr> h_fingerprint = h_fingerprint h, h_status = IdemDone, h_response = omit_empty resp \<rparr>)))
      \<and> (\<forall>t k'. k' \<noteq> k \<longrightarrow> redis_view ns s' t k' = redis_view ns s t k')"
    by (simp add: redis_view_def) (simp add: redis_get_def)
next
  fix s :: redis_db and io now k resp e s'
  assume "redis_Complete ns io now k resp s = (Some e, s')"
  then show "redis_view ns s' = redis_view ns s" using redis_Complete_refused by metis
next
  fix s :: redis_db and io now k r s' k' t
  assume "redis_Release ns io now k s = (r, s')" and "k' \<noteq> k"
  then show "redis_view ns s' t k' = redis_view ns s t k'"
    using redis_Release_cases by fastforce
next
  fix s :: redis_db and io now k r s' h t
  assume "redis_Release ns io now k s = (r, s')" "redis_view ns s now k = Some h" "h_status h = IdemDone"
  then show "redis_view ns s' t k = redis_view ns s t k"
    using redis_Release_cases [of ns io now k s r s'] by (auto simp: redis_view_def split: option.splits)
next
  fix s :: redis_db and t k h t'
  assume h: "redis_view ns s t k = Some h" and t: "t' \<le> t"
  obtain v where v: "redis_get t (redis_key ns k) s = Some v"
    using h by (cases "redis_get t (redis_key ns k) s") (simp_all add: redis_view_def)
  show "redis_view ns s t' k = Some h"
    using h redis_get_earlier [OF v t] v by (simp add: redis_view_def)
qed (auto simp: redis_Purge_def)

text \<open>
  The drivers differ on one point: the memory driver lets a key that is already done be completed
  again and replaces its response; the two others refuse with \<open>ErrNotReserved\<close>.
\<close>

lemma Complete_on_done_key:
  assumes "map_get s k = Some h" and "entry_status h = IdemDone" and "now < expiresAt h"
    and "map_get p k = Some r" and "kr_status r = IdemDone"
  shows "fst (mem_Complete c now k resp s) = None"
    and "fst (pg_Complete (None, f) now k resp p) = Some (key_error ErrNotReserved k)"
  using assms by (simp_all add: mem_Complete_def pg_Complete_def)

end
