(* ===== verification/Messaging.thy ===== *)
theory Messaging
  imports Go_Prelude
begin

text \<open>
  The relay (internal/infrastructure/messaging): envelopes, the in-process bus and the retrying
  publisher. A handler is a function on a world \<open>'w\<close>.
\<close>

record envelope =
  env_ID :: str
  env_Type :: str
  env_AggregateID :: str
  env_Payload :: bytes
  env_TraceParent :: str
  env_OccurredAt :: time
  env_Headers :: "(str, str) gomap"

type_synonym 'w handler = "envelope \<Rightarrow> 'w \<Rightarrow> err option \<times> 'w"

section \<open>The in-process bus\<close>

record 'w inproc =
  handlers :: "(str, 'w handler list) gomap"

definition NewInproc :: "'w inproc" where
  "NewInproc = \<lparr> handlers = [] \<rparr>"

definition handlers_of :: "'w inproc \<Rightarrow> str \<Rightarrow> 'w handler list" where
  "handlers_of b t = (case map_get (handlers b) t of None \<Rightarrow> [] | Some hs \<Rightarrow> hs)"

definition Subscribe :: "str \<Rightarrow> 'w handler \<Rightarrow> 'w inproc \<Rightarrow> 'w inproc" where
  "Subscribe t h b = b\<lparr> handlers := map_set t (handlers_of b t @ [h]) (handlers b) \<rparr>"

fun run_handlers :: "'w handler list \<Rightarrow> envelope \<Rightarrow> err list \<Rightarrow> 'w \<Rightarrow> err list \<times> 'w" where
  "run_handlers [] env failures w = (failures, w)"
| "run_handlers (h # hs) env failures w =
     (case h env w of
        (Some e, w') \<Rightarrow> run_handlers hs env (failures @ [e]) w'
      | (None, w') \<Rightarrow> run_handlers hs env failures w')"

text \<open>\<open>warn\<close> is the log entry an event without consumer leaves.\<close>

definition Publish :: "'w inproc \<Rightarrow> (str \<Rightarrow> 'w \<Rightarrow> 'w) \<Rightarrow> envelope \<Rightarrow> 'w \<Rightarrow> err option \<times> 'w" where
  "Publish b warn env w =
     (let hs = handlers_of b (env_Type env) in
      if hs = [] then (None, warn (env_Type env) w)
      else case run_handlers hs env [] w of
        (failures, w') \<Rightarrow>
          (if failures \<noteq> [] then
             (Some (Errorf [Lit (''consumption of '' @ env_Type env @ '': ''), W (JoinErr failures)]), w')
           else (None, w')))"

text \<open>The world after every handler of the list has seen the envelope, in order.\<close>

definition seen_by_all :: "'w handler list \<Rightarrow> envelope \<Rightarrow> 'w \<Rightarrow> 'w" where
  "seen_by_all hs env w = fold (\<lambda>h w. snd (h env w)) hs w"

lemma run_handlers_world: "snd (run_handlers hs env fs w) = seen_by_all hs env w"
  by (induction hs env fs w rule: run_handlers.induct)
     (auto simp: seen_by_all_def split: option.splits prod.splits)

lemma run_handlers_failures:
  "\<exists>es. fst (run_handlers hs env fs w) = fs @ es \<and> (es = [] \<longleftrightarrow>
     (\<forall>i < length hs. fst ((hs ! i) env (seen_by_all (take i hs) env w)) = None))"
proof (induction hs arbitrary: fs w)
  case (Cons h hs)
  obtain r w' where h: "h env w = (r, w')" by (cases "h env w")
  let ?fs = "(case r of None \<Rightarrow> fs | Some e \<Rightarrow> fs @ [e])"
  obtain es where es: "fst (run_handlers hs env ?fs w') = ?fs @ es"
    and iff: "es = [] \<longleftrightarrow> (\<forall>i < length hs. fst ((hs ! i) env (seen_by_all (take i hs) env w')) = None)"
    using Cons.IH by blast
  have step: "fst (run_handlers (h # hs) env fs w) = ?fs @ es"
    using es h by (cases r) simp_all
  have all: "(\<forall>i < Suc (length hs). fst (((h # hs) ! i) env (seen_by_all (take i (h # hs)) env w)) = None)
      \<longleftrightarrow> r = None \<and> (\<forall>i < length hs. fst ((hs ! i) env (seen_by_all (take i hs) env w')) = None)"
    using h by (auto simp: less_Suc_eq_0_disj seen_by_all_def)
  show ?case
  proof (cases r)
    case None
    then show ?thesis using step iff all by (intro exI [of _ es]) simp
  next
    case (Some e)
    then show ?thesis using step all by (intro exI [of _ "e # es"]) simp
  qed
qed simp

lemma handlers_of_Subscribe:
  "handlers_of (Subscribe t h b) t' = (if t' = t then handlers_of b t @ [h] else handlers_of b t')"
  by (simp add: Subscribe_def handlers_of_def)

section \<open>The retrying publisher\<close>

definition publishAttempts :: nat where "publishAttempts = 3"
definition publishBackoff :: duration where "publishBackoff = 200 * millisecond"

text \<open>
  \<open>wait d w\<close> is the \<open>select\<close> between the end of the context and a timer of \<open>d\<close>: the error of the
  context when it ended first. \<open>i\<close> counts the tries already made, \<open>left\<close> those still allowed.
\<close>

fun retry_loop ::
    "'w handler \<Rightarrow> (duration \<Rightarrow> 'w \<Rightarrow> err option \<times> 'w) \<Rightarrow> duration \<Rightarrow> nat \<Rightarrow> nat \<Rightarrow> err option \<Rightarrow> envelope \<Rightarrow> 'w
     \<Rightarrow> (err option + err option) \<times> 'w" where
  "retry_loop pub wait d 0 i prev env w = (Inr prev, w)"
| "retry_loop pub wait d (Suc left) i prev env w =
     (case (if i > 0 then wait (wrap64 (d * 2 ^ (i - 1))) w else (None, w)) of
        (Some e, w1) \<Rightarrow> (Inl (Some e), w1)
      | (None, w1) \<Rightarrow>
          (case pub env w1 of
             (None, w2) \<Rightarrow> (Inl None, w2)
           | (Some e, w2) \<Rightarrow> retry_loop pub wait d left (Suc i) (Some e) env w2))"

definition WithRetry ::
    "'w handler \<Rightarrow> (duration \<Rightarrow> 'w \<Rightarrow> err option \<times> 'w) \<Rightarrow> nat \<Rightarrow> duration \<Rightarrow> envelope \<Rightarrow> 'w \<Rightarrow> err option \<times> 'w" where
  "WithRetry pub wait attempts d env w =
     (case retry_loop pub wait d attempts 0 None env w of
        (Inl r, w') \<Rightarrow> (r, w')
      | (Inr prev, w') \<Rightarrow>
          (Some (Errorf (Lit (''publication failed after '' @ show_nat attempts @ '' attempts: '')
             # (case prev of None \<Rightarrow> [] | Some e \<Rightarrow> [W e]))), w'))"

text \<open>The world in which the \<open>k\<close>-th try is made when all tries before it failed.\<close>

fun before_try :: "'w handler \<Rightarrow> (duration \<Rightarrow> 'w \<Rightarrow> err option \<times> 'w) \<Rightarrow> duration \<Rightarrow> envelope \<Rightarrow> nat \<Rightarrow> 'w \<Rightarrow> 'w" where
  "before_try pub wait d env 0 w = w"
| "before_try pub wait d env (Suc k) w =
     snd (wait (wrap64 (d * 2 ^ k)) (snd (pub env (before_try pub wait d env k w))))"

lemma retry_loop_result:
  assumes "\<And>t w. fst (wait t w) = None"
    and "w = (if i = 0 then w0 else snd (pub env (before_try pub wait d env (i - 1) w0)))"
    and "\<forall>j < i. fst (pub env (before_try pub wait d env j w0)) \<noteq> None"
  shows "(\<exists>k < i + left. (\<forall>j < k. fst (pub env (before_try pub wait d env j w0)) \<noteq> None)
       \<and> fst (pub env (before_try pub wait d env k w0)) = None
       \<and> retry_loop pub wait d left i prev env w = (Inl None, snd (pub env (before_try pub wait d env k w0))))
   \<or> ((\<forall>j < i + left. fst (pub env (before_try pub wait d env j w0)) \<noteq> None)
       \<and> (\<exists>p. retry_loop pub wait d left i prev env w
           = (Inr p, if i + left = 0 then w0 else snd (pub env (before_try pub wait d env (i + left - 1) w0)))))"
  using assms(2,3)
proof (induction left arbitrary: i prev w)
  case 0
  then show ?case by auto
next
  case (Suc left)
  let ?B = "\<lambda>k. before_try pub wait d env k w0"
  let ?w1 = "?B i"
  have w1: "(if i > 0 then wait (wrap64 (d * 2 ^ (i - 1))) w else (None, w)) = (None, ?w1)"
  proof (cases i)
    case (Suc j)
    have "wait (wrap64 (d * 2 ^ j)) w = (fst (wait (wrap64 (d * 2 ^ j)) w), snd (wait (wrap64 (d * 2 ^ j)) w))"
      by simp
    then show ?thesis using Suc Suc.prems(1) assms(1) by simp
  qed (use Suc.prems in simp)
  obtain r w2 where p: "pub env ?w1 = (r, w2)" by (cases "pub env ?w1")
  show ?case
  proof (cases r)
    case None
    have "retry_loop pub wait d (Suc left) i prev env w = (Inl None, w2)"
      using w1 p None by simp
    then show ?thesis using p None Suc.prems(2) by (intro disjI1 exI [of _ i]) simp
  next
    case (Some e)
    have step: "retry_loop pub wait d (Suc left) i prev env w = retry_loop pub wait d left (Suc i) (Some e) env w2"
      using w1 p Some by simp
    have "\<forall>j < Suc i. fst (pub env (?B j)) \<noteq> None"
      using Suc.prems(2) p Some by (auto simp: less_Suc_eq)
    from Suc.IH [OF _ this, of w2 "Some e"] p show ?thesis
      unfolding step by simp
  qed
qed

text \<open>when no wait is cut short, \<open>WithRetry\<close> returns success exactly when one of its first
  \<open>attempts\<close> tries succeeds: it stops at the first success, makes no try beyond the last allowed one,
  waits twice as long before each new try, and reports a failure when all of them failed.\<close>

theorem WithRetry_tries:
  assumes "\<And>t w. fst (wait t w) = None"
  shows "(\<exists>k < attempts. (\<forall>j < k. fst (pub env (before_try pub wait d env j w)) \<noteq> None)
       \<and> fst (pub env (before_try pub wait d env k w)) = None
       \<and> WithRetry pub wait attempts d env w = (None, snd (pub env (before_try pub wait d env k w))))
   \<or> ((\<forall>j < attempts. fst (pub env (before_try pub wait d env j w)) \<noteq> None)
       \<and> fst (WithRetry pub wait attempts d env w) \<noteq> None
       \<and> snd (WithRetry pub wait attempts d env w)
           = (if attempts = 0 then w else snd (pub env (before_try pub wait d env (attempts - 1) w))))"
proof -
  have "(\<exists>k < attempts. (\<forall>j < k. fst (pub env (before_try pub wait d env j w)) \<noteq> None)
       \<and> fst (pub env (before_try pub wait d env k w)) = None
       \<and> retry_loop pub wait d attempts 0 None env w
           = (Inl None, snd (pub env (before_try pub wait d env k w))))
   \<or> ((\<forall>j < attempts. fst (pub env (before_try pub wait d env j w)) \<noteq> None)
       \<and> (\<exists>p. retry_loop pub wait d attempts 0 None env w
           = (Inr p, if attempts = 0 then w else snd (pub env (before_try pub wait d env (attempts - 1) w)))))"
    using retry_loop_result [where wait = wait and w = w and ?w0.0 = w and i = 0 and left = attempts
        and pub = pub and env = env and d = d and prev = None] assms
    unfolding add_0_left by simp
  then show ?thesis by (elim disjE exE conjE) (auto simp: WithRetry_def)
qed

definition demo_envelope :: envelope where
  "demo_envelope = \<lparr> env_ID = ''m1'', env_Type = ''user.registered.v1'', env_AggregateID = ''u1'',
     env_Payload = [], env_TraceParent = [], env_OccurredAt = 0, env_Headers = [] \<rparr>"

theorem WithRetry_tries_witness:
  "WithRetry (\<lambda>env n. (if n < 2 then Some (Opaque ''down'') else None, n + 1)) (\<lambda>t n. (None, n))
     publishAttempts publishBackoff demo_envelope (0::nat) = (None, 3)"
proof -
  let ?pub = "\<lambda>(env::envelope) n. (if n < (2::nat) then Some (Opaque ''down'') else None, n + 1)"
  let ?wait = "\<lambda>(t::duration) (n::nat). (None :: err option, n)"
  have 2: "\<not> (\<forall>j < publishAttempts. fst (?pub demo_envelope (before_try ?pub ?wait publishBackoff demo_envelope j 0)) \<noteq> None)"
    by (intro notI, drule spec [of _ 2]) (simp add: publishAttempts_def numeral_2_eq_2)
  have 3: "before_try ?pub ?wait publishBackoff demo_envelope k 0 = k" for k
    by (induction k) simp_all
  obtain k where "k < publishAttempts" "fst (?pub demo_envelope (before_try ?pub ?wait publishBackoff demo_envelope k 0)) = None"
    and r: "WithRetry ?pub ?wait publishAttempts publishBackoff demo_envelope 0
       = (None, snd (?pub demo_envelope (before_try ?pub ?wait publishBackoff demo_envelope k 0)))"
    using WithRetry_tries [of ?wait publishAttempts ?pub demo_envelope publishBackoff 0] 2 by fastforce
  then have "k = 2" unfolding 3 by (auto simp: publishAttempts_def split: if_splits)
  then show ?thesis using r unfolding 3 by simp
qed

text \<open>a publication on the in-process bus reaches every handler subscribed to its type, in the
  order of subscription and whatever the others did: a consumer that fails does not keep the
  event from the next; it succeeds exactly when all of them succeed, and subscribing never
  removes a handler.\<close>

theorem Publish_reaches_all:
  "(let hs = handlers_of b (env_Type env) in
     hs \<noteq> [] \<longrightarrow> snd (Publish b warn env w) = seen_by_all hs env w
       \<and> (fst (Publish b warn env w) = None \<longleftrightarrow>
            (\<forall>i < length hs. fst ((hs ! i) env (seen_by_all (take i hs) env w)) = None)))
   \<and> handlers_of (Subscribe t h b) (env_Type env)
      = handlers_of b (env_Type env) @ (if t = env_Type env then [h] else [])"
proof
  let ?hs = "handlers_of b (env_Type env)"
  obtain fs w' where r: "run_handlers ?hs env [] w = (fs, w')" by (cases "run_handlers ?hs env [] w")
  have "w' = seen_by_all ?hs env w" using run_handlers_world [of ?hs env "[]" w] r by simp
  moreover have "fs = [] \<longleftrightarrow> (\<forall>i < length ?hs. fst ((?hs ! i) env (seen_by_all (take i ?hs) env w)) = None)"
    using run_handlers_failures [of ?hs env "[]" w] r by auto
  ultimately show "let hs = handlers_of b (env_Type env) in
     hs \<noteq> [] \<longrightarrow> snd (Publish b warn env w) = seen_by_all hs env w
       \<and> (fst (Publish b warn env w) = None \<longleftrightarrow>
            (\<forall>i < length hs. fst ((hs ! i) env (seen_by_all (take i hs) env w)) = None))"
    using r by (simp add: Publish_def Let_def)
qed (simp add: handlers_of_Subscribe)

theorem Publish_reaches_all_witness:
  "snd (Publish (Subscribe ''t'' (\<lambda>e n. (None, n + 2)) (Subscribe ''t'' (\<lambda>e n. (Some (Opaque []), n + 1)) NewInproc))
     (\<lambda>t n. n) (demo_envelope\<lparr> env_Type := ''t'' \<rparr>) (0::nat)) = 3"
proof -
  let ?h1 = "\<lambda>(e::envelope) n. (Some (Opaque []), n + (1::nat))"
  let ?h2 = "\<lambda>(e::envelope) n. (None :: err option, n + (2::nat))"
  let ?b = "Subscribe ''t'' ?h2 (Subscribe ''t'' ?h1 NewInproc)"
  have "handlers_of ?b ''t'' = [?h1, ?h2]"
    unfolding handlers_of_Subscribe by (simp add: handlers_of_def NewInproc_def)
  then show ?thesis
    using Publish_reaches_all [of ?b "demo_envelope\<lparr> env_Type := ''t'' \<rparr>" "\<lambda>t n. n" 0 "''t''" ?h1]
    by (simp add: Let_def seen_by_all_def)
qed

end
