(* ===== verification/Idempotency_Once.thy ===== *)
theory Idempotency_Once
  imports Idempotency_Drivers Messaging
begin

text \<open>
  The consumer's guard (internal/infrastructure/subscriber/once.go): a handler runs under a
  reservation of the envelope's identifier. First the function, then consumers that interleave
  their calls on one store, and what holds of every interleaving whichever driver is wired.
\<close>

record 'w guard =
  gd_Reserve :: "request \<Rightarrow> 'w \<Rightarrow> (err + reservation) \<times> 'w"
  gd_Complete :: "str \<Rightarrow> bytes option \<Rightarrow> 'w \<Rightarrow> err option \<times> 'w"
  gd_Release :: "str \<Rightarrow> 'w \<Rightarrow> err option \<times> 'w"

definition release_key :: "'w guard \<Rightarrow> str \<Rightarrow> 'w \<Rightarrow> err option \<times> 'w" where
  "release_key g key w =
     (case gd_Release g key w of
        (Some e, w') \<Rightarrow> (Some (Errorf [Lit (''release of key '' @ key @ '': ''), W e]), w')
      | (None, w') \<Rightarrow> (None, w'))"

definition request_of :: "envelope \<Rightarrow> request" where
  "request_of env = \<lparr> rq_key = env_ID env, rq_fingerprint = env_Type env \<rparr>"

definition Once :: "'w guard \<Rightarrow> 'w handler \<Rightarrow> 'w handler" where
  "Once g h env w =
     (if env_ID env = [] then
        (Some (Errorf [W (Sentinel (Infra ErrMissingID)), Lit ('': type='' @ quote_text (env_Type env))]), w)
      else case gd_Reserve g (request_of env) w of
        (Inl e, w1) \<Rightarrow>
          (if errors_is e (Idem ErrInFlight)
           then (Some (Errorf [Lit (''envelope '' @ env_ID env @ '' already being handled: ''), W e]), w1)
           else (Some (Errorf [Lit (''reservation of '' @ env_ID env @ '': ''), W e]), w1))
      | (Inr res, w1) \<Rightarrow>
          if Replayed res then (None, w1)
          else (case h env w1 of
            (Some e, w2) \<Rightarrow>
              (case release_key g (env_ID env) w2 of (re, w3) \<Rightarrow>
                 (join_errors [Some (Errorf [Lit (''handling of '' @ env_ID env @ '': ''), W e]), re], w3))
          | (None, w2) \<Rightarrow>
              (case gd_Complete g (env_ID env) None w2 of
                 (Some e, w3) \<Rightarrow>
                   (Some (Errorf [Lit (''envelope '' @ env_ID env @ '' handled but NOT marked: ''), W e]), w3)
               | (None, w3) \<Rightarrow> (None, w3))))"

text \<open>The guard on a store: the reservation is made at \<open>t1\<close>, the resolution at \<open>t2\<close>.\<close>

definition store_guard ::
    "('i \<Rightarrow> time \<Rightarrow> request \<Rightarrow> 's \<Rightarrow> (err + reservation) \<times> 's) \<Rightarrow>
     ('i \<Rightarrow> time \<Rightarrow> str \<Rightarrow> bytes option \<Rightarrow> 's \<Rightarrow> err option \<times> 's) \<Rightarrow>
     ('i \<Rightarrow> time \<Rightarrow> str \<Rightarrow> 's \<Rightarrow> err option \<times> 's) \<Rightarrow> 'i \<Rightarrow> time \<Rightarrow> time \<Rightarrow> ('s \<times> 'v) guard" where
  "store_guard reserve complete release io t1 t2 =
     \<lparr> gd_Reserve = (\<lambda>rq w. case reserve io t1 rq (fst w) of (r, s) \<Rightarrow> (r, (s, snd w))),
       gd_Complete = (\<lambda>k resp w. case complete io t2 k resp (fst w) of (r, s) \<Rightarrow> (r, (s, snd w))),
       gd_Release = (\<lambda>k w. case release io t2 k (fst w) of (r, s) \<Rightarrow> (r, (s, snd w))) \<rparr>"

section \<open>Interleaved consumers\<close>

text \<open>Where a consumer is in \<open>Once\<close>: idle, in its handler, about to complete, about to release.\<close>

datatype phase = Idle | Handling envelope | Completing envelope | Releasing envelope

record 's consumers =
  cs_store :: 's
  cs_now :: time
  cs_phase :: "nat \<Rightarrow> phase"
  cs_done :: "str list"   \<comment> \<open>identifiers whose handler succeeded, in order\<close>

text \<open>One atomic step of any consumer, at the current instant, with whatever its context and
  connection report.\<close>

inductive once_step ::
    "('i \<Rightarrow> time \<Rightarrow> request \<Rightarrow> 's \<Rightarrow> (err + reservation) \<times> 's) \<Rightarrow>
     ('i \<Rightarrow> time \<Rightarrow> str \<Rightarrow> bytes option \<Rightarrow> 's \<Rightarrow> err option \<times> 's) \<Rightarrow>
     ('i \<Rightarrow> time \<Rightarrow> str \<Rightarrow> 's \<Rightarrow> err option \<times> 's) \<Rightarrow> 's consumers \<Rightarrow> 's consumers \<Rightarrow> bool"
  for reserve complete release where
  tick: "cs_now c \<le> t \<Longrightarrow> once_step reserve complete release c (c\<lparr> cs_now := t \<rparr>)"
| take: "\<lbrakk> cs_phase c i = Idle; env_ID env \<noteq> [];
           reserve io (cs_now c) (request_of env) (cs_store c) = (Inr res, s'); \<not> Replayed res \<rbrakk> \<Longrightarrow>
    once_step reserve complete release c
      (c\<lparr> cs_store := s', cs_phase := (cs_phase c)(i := Handling env) \<rparr>)"
| pass: "\<lbrakk> cs_phase c i = Idle; reserve io (cs_now c) (request_of env) (cs_store c) = (r, s');
           \<forall>res. r = Inr res \<longrightarrow> Replayed res \<rbrakk> \<Longrightarrow>
    once_step reserve complete release c (c\<lparr> cs_store := s' \<rparr>)"
| succeed: "cs_phase c i = Handling env \<Longrightarrow>
    once_step reserve complete release c
      (c\<lparr> cs_phase := (cs_phase c)(i := Completing env), cs_done := cs_done c @ [env_ID env] \<rparr>)"
| fail: "cs_phase c i = Handling env \<Longrightarrow>
    once_step reserve complete release c (c\<lparr> cs_phase := (cs_phase c)(i := Releasing env) \<rparr>)"
| mark: "\<lbrakk> cs_phase c i = Completing env; complete io (cs_now c) (env_ID env) None (cs_store c) = (r, s') \<rbrakk> \<Longrightarrow>
    once_step reserve complete release c (c\<lparr> cs_store := s', cs_phase := (cs_phase c)(i := Idle) \<rparr>)"
| give: "\<lbrakk> cs_phase c i = Releasing env; release io (cs_now c) (env_ID env) (cs_store c) = (r, s') \<rbrakk> \<Longrightarrow>
    once_step reserve complete release c (c\<lparr> cs_store := s', cs_phase := (cs_phase c)(i := Idle) \<rparr>)"

text \<open>The key a consumer holds, if it is busy.\<close>

definition busy_key :: "phase \<Rightarrow> str option" where
  "busy_key p = (case p of Idle \<Rightarrow> None | Handling e \<Rightarrow> Some (env_ID e)
     | Completing e \<Rightarrow> Some (env_ID e) | Releasing e \<Rightarrow> Some (env_ID e))"

lemma busy_key_simps [simp]:
  "busy_key Idle = None" "busy_key (Handling e) = Some (env_ID e)"
  "busy_key (Completing e) = Some (env_ID e)" "busy_key (Releasing e) = Some (env_ID e)"
  by (simp_all add: busy_key_def)

text \<open>What the property promises of a moment: no key is held by two consumers, and no key was
  handled with success twice.\<close>

definition exactly_once :: "'s consumers \<Rightarrow> bool" where
  "exactly_once c \<longleftrightarrow>
     (\<forall>i j k. busy_key (cs_phase c i) = Some k \<and> busy_key (cs_phase c j) = Some k \<longrightarrow> i = j)
     \<and> distinct (cs_done c)"

definition fresh_consumers :: "'s \<Rightarrow> time \<Rightarrow> 's consumers" where
  "fresh_consumers s t = \<lparr> cs_store = s, cs_now = t, cs_phase = (\<lambda>i. Idle), cs_done = [] \<rparr>"

text \<open>A run: steps taken before the instant \<open>T\<close>.\<close>

inductive once_run ::
    "('i \<Rightarrow> time \<Rightarrow> request \<Rightarrow> 's \<Rightarrow> (err + reservation) \<times> 's) \<Rightarrow>
     ('i \<Rightarrow> time \<Rightarrow> str \<Rightarrow> bytes option \<Rightarrow> 's \<Rightarrow> err option \<times> 's) \<Rightarrow>
     ('i \<Rightarrow> time \<Rightarrow> str \<Rightarrow> 's \<Rightarrow> err option \<times> 's) \<Rightarrow> time \<Rightarrow> 's consumers \<Rightarrow> 's consumers \<Rightarrow> bool"
  for reserve complete release T where
  start: "once_run reserve complete release T c c"
| more: "\<lbrakk> once_run reserve complete release T c c'; once_step reserve complete release c' c'';
           cs_now c'' < T \<rbrakk> \<Longrightarrow> once_run reserve complete release T c c''"

context idempotency_store begin

definition once_inv :: "time \<Rightarrow> time \<Rightarrow> 's consumers \<Rightarrow> bool" where
  "once_inv T0 T c \<longleftrightarrow>
     inv (cs_store c) \<and> T0 \<le> cs_now c \<and> cs_now c < T \<and> exactly_once c
     \<and> (\<forall>i k. busy_key (cs_phase c i) = Some k \<longrightarrow> guarded (cs_store c) T k)
     \<and> (\<forall>k \<in> set (cs_done c). guarded (cs_store c) T k)
     \<and> (\<forall>i e. cs_phase c i = Handling e \<or> cs_phase c i = Releasing e \<longrightarrow> env_ID e \<notin> set (cs_done c))"

lemma once_inv_take:
  assumes I: "once_inv T0 T c" and T: "T \<le> T0 + ttl" and idle: "cs_phase c i = Idle"
    and res: "reserve io (cs_now c) (request_of env) (cs_store c) = (Inr res, s')" "\<not> Replayed res"
  shows "once_inv T0 T (c\<lparr> cs_store := s', cs_phase := (cs_phase c)(i := Handling env) \<rparr>)"
proof -
  have inv: "inv (cs_store c)" "T0 \<le> cs_now c" "cs_now c < T" using I by (auto simp: once_inv_def)
  have inv': "inv s'" using reserve_inv [OF inv(1)] res(1) by (metis snd_conv)
  have new: "guarded s' T (env_ID env)"
    using reserve_guards [OF inv(1) res inv(3)] T inv(2) by (simp add: request_of_def)
  have keep: "guarded s' T k" if "guarded (cs_store c) T k" for k
    using reserve_keeps_guard [OF inv(1) that inv(3), of io "request_of env"] res(1) by simp
  have free: "\<not> guarded (cs_store c) T (env_ID env)"
    using guarded_not_granted [OF inv(1) _ inv(3) _ res(1), of "env_ID env"] res(2)
    by (auto simp: request_of_def)
  then have other: "busy_key (cs_phase c j) \<noteq> Some (env_ID env)" "env_ID env \<notin> set (cs_done c)" for j
    using I by (auto simp: once_inv_def)
  have "exactly_once (c\<lparr> cs_store := s', cs_phase := (cs_phase c)(i := Handling env) \<rparr>)"
    using I other(1) by (auto simp: once_inv_def exactly_once_def)
  then show ?thesis
    using I inv inv' new keep other idle by (auto simp: once_inv_def)
qed

lemma once_inv_pass:
  assumes I: "once_inv T0 T c" and eq: "reserve io (cs_now c) (request_of env) (cs_store c) = (r, s')"
  shows "once_inv T0 T (c\<lparr> cs_store := s' \<rparr>)"
proof -
  have inv: "inv (cs_store c)" "cs_now c < T" using I by (auto simp: once_inv_def)
  have "inv s'" using reserve_inv [OF inv(1)] eq by (metis snd_conv)
  moreover have "guarded s' T k" if "guarded (cs_store c) T k" for k
    using reserve_keeps_guard [OF inv(1) that inv(2), of io "request_of env"] eq by simp
  ultimately show ?thesis using I by (auto simp: once_inv_def exactly_once_def)
qed

lemma once_inv_mark:
  assumes I: "once_inv T0 T c"
    and eq: "complete io (cs_now c) (env_ID env) resp (cs_store c) = (r, s')"
  shows "once_inv T0 T (c\<lparr> cs_store := s', cs_phase := (cs_phase c)(i := Idle) \<rparr>)"
proof -
  have inv: "inv (cs_store c)" using I by (auto simp: once_inv_def)
  have "inv s'" using complete_inv [OF inv] eq by (metis snd_conv)
  moreover have "guarded s' T k" if "guarded (cs_store c) T k" for k
    using complete_keeps_guard [OF inv that, of io "cs_now c" "env_ID env" resp] eq by simp
  ultimately show ?thesis using I by (auto simp: once_inv_def exactly_once_def split: if_splits)
qed

lemma once_inv_give:
  assumes I: "once_inv T0 T c" and ph: "cs_phase c i = Releasing env"
    and eq: "release io (cs_now c) (env_ID env) (cs_store c) = (r, s')"
  shows "once_inv T0 T (c\<lparr> cs_store := s', cs_phase := (cs_phase c)(i := Idle) \<rparr>)"
proof -
  have inv: "inv (cs_store c)" using I by (auto simp: once_inv_def)
  have inv': "inv s'" using release_inv [OF inv] eq by (metis snd_conv)
  have keep: "guarded s' T k" if "guarded (cs_store c) T k" "k \<noteq> env_ID env" for k
    using release_keeps_guard [OF inv that(1), of "env_ID env" io "cs_now c"] that(2) eq by simp
  have "k \<noteq> env_ID env" if "k \<in> set (cs_done c)" for k
    using I ph that by (auto simp: once_inv_def)
  moreover have "k \<noteq> env_ID env" if "busy_key (cs_phase c j) = Some k" "j \<noteq> i" for j k
    using I ph that by (auto simp: once_inv_def exactly_once_def)
  ultimately show ?thesis
    using I inv' keep by (auto simp: once_inv_def exactly_once_def split: if_splits)
qed

lemma once_inv_succeed:
  assumes I: "once_inv T0 T c" and ph: "cs_phase c i = Handling env"
  shows "once_inv T0 T (c\<lparr> cs_phase := (cs_phase c)(i := Completing env), cs_done := cs_done c @ [env_ID env] \<rparr>)"
proof -
  have busy: "busy_key (((cs_phase c)(i := Completing env)) j) = busy_key (cs_phase c j)" for j
    using ph by simp
  have "busy_key (cs_phase c i) = Some (env_ID env)" using ph by simp
  then have new: "env_ID env \<notin> set (cs_done c)" and own: "guarded (cs_store c) T (env_ID env)"
    using I ph unfolding once_inv_def by blast+
  have other: "env_ID e \<noteq> env_ID env" if "j \<noteq> i" "cs_phase c j = Handling e \<or> cs_phase c j = Releasing e" for j e
  proof
    assume "env_ID e = env_ID env"
    then have "busy_key (cs_phase c j) = Some (env_ID env)" "busy_key (cs_phase c i) = Some (env_ID env)"
      using that(2) ph by auto
    then show False using I that(1) unfolding once_inv_def exactly_once_def by blast
  qed
  have "exactly_once (c\<lparr> cs_phase := (cs_phase c)(i := Completing env), cs_done := cs_done c @ [env_ID env] \<rparr>)"
    using I new by (simp add: once_inv_def exactly_once_def busy del: fun_upd_apply)
  moreover have "env_ID e \<notin> set (cs_done c @ [env_ID env])"
    if "((cs_phase c)(i := Completing env)) j = Handling e \<or> ((cs_phase c)(i := Completing env)) j = Releasing e" for j e
    using that other [of j e] I by (auto simp: once_inv_def split: if_splits)
  ultimately show ?thesis
    using I own by (simp add: once_inv_def busy del: fun_upd_apply)
qed

lemma once_inv_fail:
  assumes I: "once_inv T0 T c" and ph: "cs_phase c i = Handling env"
  shows "once_inv T0 T (c\<lparr> cs_phase := (cs_phase c)(i := Releasing env) \<rparr>)"
proof -
  have busy: "busy_key (((cs_phase c)(i := Releasing env)) j) = busy_key (cs_phase c j)" for j
    using ph by simp
  have "env_ID e \<notin> set (cs_done c)"
    if "((cs_phase c)(i := Releasing env)) j = Handling e \<or> ((cs_phase c)(i := Releasing env)) j = Releasing e" for j e
    using that I ph by (auto simp: once_inv_def split: if_splits)
  then show ?thesis
    using I by (simp add: once_inv_def exactly_once_def busy del: fun_upd_apply)
qed

lemma once_inv_step:
  assumes "once_step reserve complete release c c'" and "once_inv T0 T c" and "cs_now c' < T" and "T \<le> T0 + ttl"
  shows "once_inv T0 T c'"
  using assms
proof (cases rule: once_step.cases)
  case (take i env io res s')
  then show ?thesis using once_inv_take assms by blast
next
  case (pass i io env r s')
  then show ?thesis using once_inv_pass assms by blast
next
  case (mark i env io r s')
  then show ?thesis using once_inv_mark assms by blast
next
  case (give i env io r s')
  then show ?thesis using once_inv_give assms by blast
next
  case (succeed i env)
  then show ?thesis using once_inv_succeed assms by blast
next
  case (fail i env)
  then show ?thesis using once_inv_fail assms by blast
qed (auto simp: once_inv_def exactly_once_def)

lemma once_run_inv:
  assumes "once_run reserve complete release T (fresh_consumers s T0) c"
    and "inv s" and "T0 < T" and "T \<le> T0 + ttl"
  shows "once_inv T0 T c"
  using assms(1)
proof (induction "fresh_consumers s T0" c rule: once_run.induct)
  case start
  then show ?case using assms(2,3) by (simp add: once_inv_def exactly_once_def fresh_consumers_def)
next
  case (more c' c'')
  then show ?case using once_inv_step assms(4) by blast
qed

lemma once_run_exactly_once:
  assumes "once_run reserve complete release T (fresh_consumers s T0) c"
    and "inv s" and "T0 < T" and "T \<le> T0 + ttl"
  shows "exactly_once c"
  using once_run_inv [OF assms] by (simp add: once_inv_def)

end

section \<open>What consumers may rely on\<close>

lemma once_run_step1:
  "once_step reserve complete release c c' \<Longrightarrow> cs_now c' < T \<Longrightarrow> once_run reserve complete release T c0 c \<Longrightarrow>
   once_run reserve complete release T c0 c'"
  by (rule once_run.more)

text \<open>A whole delivery is one of the interleavings: consumer 0 runs \<open>Once\<close> from start to end.\<close>

lemma Once_is_run:
  assumes eq: "Once (store_guard reserve complete release io t1 t2) h env (s, v) = (r, (s', v'))"
    and h: "\<And>x. fst (snd (h env x)) = fst x"
    and t: "t0 \<le> t1" "t1 \<le> t2" "t2 < T"
    and c: "c = \<lparr> cs_store = s, cs_now = t0, cs_phase = (\<lambda>i. Idle), cs_done = d \<rparr>"
  shows "\<exists>d'. once_run reserve complete release T c
      \<lparr> cs_store = s', cs_now = t2, cs_phase = (\<lambda>i. Idle), cs_done = d' \<rparr> \<and> (d' = d \<or> d' = d @ [env_ID env])"
proof -
  let ?run = "once_run reserve complete release T c"
  let ?c = "\<lambda>s t p d. \<lparr> cs_store = s, cs_now = t, cs_phase = (\<lambda>i. Idle)(0 := p), cs_done = d \<rparr>"
  have idle: "(\<lambda>i. Idle)(0 := Idle) = (\<lambda>i. Idle)" by auto
  have c0: "c = ?c s t0 Idle d" unfolding idle by (rule c)
  have tick: "?run (?c s t' p d)" if "?run (?c s t p d)" "t \<le> t'" "t' < T" for s t t' p d
    using once_run.more [OF that(1) once_step.tick [of "?c s t p d" t']] that(2,3) by simp
  have start: "?run (?c s t1 Idle d)"
    using tick [of s t0 Idle d t1] once_run.start [of reserve complete release T c] t unfolding c0 by simp
  show ?thesis
  proof (cases "env_ID env = []")
    case True
    then have "s' = s" using eq by (simp add: Once_def)
    then show ?thesis using tick [OF start t(2,3)] unfolding idle by auto
  next
    case id: False
    obtain x s1 where res: "reserve io t1 (request_of env) s = (x, s1)"
      by (cases "reserve io t1 (request_of env) s")
    show ?thesis
    proof (cases "\<exists>y. x = Inr y \<and> \<not> Replayed y")
      case False
      then have "s' = s1"
        using eq id res by (auto simp: Once_def store_guard_def split: sum.splits if_splits)
      moreover have "?run (?c s1 t1 Idle d)"
        using once_run.more [OF start once_step.pass [of "?c s t1 Idle d" 0 reserve io env x s1]] res False t
        by auto
      ultimately have "?run (?c s' t2 Idle d)" using tick [of s1 t1 Idle d t2] t by simp
      then show ?thesis unfolding idle by auto
    next
      case True
      then obtain y where y: "x = Inr y" "\<not> Replayed y" by blast
      have "?run (?c s1 t1 (Handling env) d)"
        using once_run.more [OF start once_step.take [of "?c s t1 Idle d" 0 env reserve io y s1]] res y id t
        by simp
      then have hd: "?run (?c s1 t2 (Handling env) d)" using tick t by blast
      obtain o1 w1 where hw: "h env (s1, v) = (o1, w1)" by (cases "h env (s1, v)")
      then have w1: "fst w1 = s1" using h [of "(s1, v)"] by simp
      show ?thesis
      proof (cases o1)
        case None
        obtain q s2 where cp: "complete io t2 (env_ID env) None s1 = (q, s2)"
          by (cases "complete io t2 (env_ID env) None s1")
        have "s' = s2"
          using eq id res y hw None w1 cp by (auto simp: Once_def store_guard_def split: option.splits)
        moreover have "?run (?c s1 t2 (Completing env) (d @ [env_ID env]))"
          using once_run.more [OF hd once_step.succeed [of "?c s1 t2 (Handling env) d" 0 env]] t by simp
        then have "?run (?c s2 t2 Idle (d @ [env_ID env]))"
          using once_run.more [OF _ once_step.mark [of "?c s1 t2 (Completing env) (d @ [env_ID env])" 0 env complete io q s2]]
            cp t by simp
        ultimately show ?thesis unfolding idle by auto
      next
        case (Some e)
        obtain q s2 where rl: "release io t2 (env_ID env) s1 = (q, s2)"
          by (cases "release io t2 (env_ID env) s1")
        have "s' = s2"
          using eq id res y hw Some w1 rl
          by (auto simp: Once_def store_guard_def release_key_def split: option.splits)
        moreover have "?run (?c s1 t2 (Releasing env) d)"
          using once_run.more [OF hd once_step.fail [of "?c s1 t2 (Handling env) d" 0 env]] t by simp
        then have "?run (?c s2 t2 Idle d)"
          using once_run.more [OF _ once_step.give [of "?c s1 t2 (Releasing env) d" 0 env release io q s2]]
            rl t by simp
        ultimately show ?thesis unfolding idle by auto
      qed
    qed
  qed
qed



text \<open>A handler that works on its own state only.\<close>

definition own_handler :: "(envelope \<Rightarrow> 'v \<Rightarrow> err option \<times> 'v) \<Rightarrow> ('s \<times> 'v) handler" where
  "own_handler g env w = (case g env (snd w) of (r, v) \<Rightarrow> (r, (fst w, v)))"

abbreviation deliver_once :: "duration \<Rightarrow> time \<Rightarrow> time \<Rightarrow> (envelope \<Rightarrow> 'v \<Rightarrow> err option \<times> 'v) \<Rightarrow>
    envelope \<Rightarrow> idem_mem \<times> 'v \<Rightarrow> err option \<times> (idem_mem \<times> 'v)" where
  "deliver_once ttl t1 t2 g env \<equiv>
     Once (store_guard (mem_Reserve ttl) mem_Complete mem_Release None t1 t2) (own_handler g) env"

lemma deliver_once_spec:
  assumes "env_ID env \<noteq> []" and "env_Type env \<noteq> []" and "mem_view s t1 (env_ID env) = None"
    and "t1 \<le> t2" and "t2 < t1 + ttl" and "g env (v :: 'v) = (r, v')"
  shows "\<exists>s'. snd (deliver_once ttl t1 t2 g env (s, v)) = (s', v')
     \<and> (case r of
          None \<Rightarrow> fst (deliver_once ttl t1 t2 g env (s, v)) = None
            \<and> (\<forall>t3 (g2 :: envelope \<Rightarrow> 'v \<Rightarrow> err option \<times> 'v) v2. t3 < t1 + ttl \<longrightarrow> deliver_once ttl t3 t3 g2 env (s', v2) = (None, (s', v2)))
        | Some e \<Rightarrow> (\<exists>e'. fst (deliver_once ttl t1 t2 g env (s, v)) = Some e' \<and> (\<forall>k. errors_is e k \<longrightarrow> errors_is e' k))
            \<and> (\<forall>t3. mem_view s' t3 (env_ID env) = None))
     \<and> (\<exists>e'. deliver_once ttl t1 t2 g (env\<lparr> env_ID := [] \<rparr>) (s, v) = (Some e', (s, v))
          \<and> errors_is e' (Infra ErrMissingID))"
proof -
  let ?k = "env_ID env"
  let ?e = "\<lparr> fingerprint = env_Type env, entry_status = StatusInFlight, response = None, expiresAt = t1 + ttl \<rparr>"
  let ?s1 = "map_set ?k ?e s"
  have res: "mem_Reserve ttl None t1 (request_of env) s = (Inr no_reservation, ?s1)"
    using assms(1-3) by (auto simp: mem_Reserve_def request_of_def IsComplete_def Let_def mem_view_def
        split: option.splits if_splits)
  have missing: "\<exists>e'. deliver_once ttl t1 t2 g (env\<lparr> env_ID := [] \<rparr>) (s, v) = (Some e', (s, v))
          \<and> errors_is e' (Infra ErrMissingID)"
    by (simp add: Once_def)
  show ?thesis
  proof (cases r)
    case None
    let ?s2 = "map_set ?k (?e\<lparr> entry_status := IdemDone, response := None \<rparr>) ?s1"
    have "mem_Complete None t2 ?k None ?s1 = (None, ?s2)"
      using assms(5) by (simp add: mem_Complete_def)
    then have first: "deliver_once ttl t1 t2 g env (s, v) = (None, (?s2, v'))"
      using assms(1,6) None res by (simp add: Once_def store_guard_def own_handler_def no_reservation_def)
    have "deliver_once ttl t3 t3 g2 env (?s2, v2) = (None, (?s2, v2))" if "t3 < t1 + ttl" for t3 v2 and g2 :: "envelope \<Rightarrow> 'v \<Rightarrow> err option \<times> 'v"
      using assms(1,2) that
      by (simp add: Once_def store_guard_def mem_Reserve_def request_of_def IsComplete_def decide_def Let_def)
    then show ?thesis using first missing None by auto
  next
    case (Some e)
    have "mem_Release None t2 ?k ?s1 = (None, map_del ?k ?s1)"
      by (simp add: mem_Release_def)
    then have "deliver_once ttl t1 t2 g env (s, v)
        = (Some (JoinErr [Errorf [Lit (''handling of '' @ env_ID env @ '': ''), W e]]), (map_del ?k ?s1, v'))"
      using assms(1,6) Some res
      by (simp add: Once_def store_guard_def own_handler_def no_reservation_def release_key_def join_errors_def
          List.map_filter_def)
    then show ?thesis using missing Some by (simp add: mem_view_def)
  qed
qed

text \<open>delivering an envelope nobody holds runs its handler once. If the handler succeeds the
  delivery succeeds, and a redelivery within the lifetime of the key succeeds without running any
  handler; if it fails, the failure is reported with its cause and the key is free again, so that a
  redelivery runs the handler anew. An envelope without identifier is refused before anything.\<close>

theorem Once_delivers:
  assumes "env_ID env \<noteq> []" and "env_Type env \<noteq> []" and "mem_view s t1 (env_ID env) = None"
    and "t1 \<le> t2" and "t2 < t1 + ttl" and "g env (v :: 'v) = (r, v')"
  shows "\<exists>s'. snd (deliver_once ttl t1 t2 g env (s, v)) = (s', v')
     \<and> (case r of
          None \<Rightarrow> fst (deliver_once ttl t1 t2 g env (s, v)) = None
            \<and> (\<forall>t3 (g2 :: envelope \<Rightarrow> 'v \<Rightarrow> err option \<times> 'v) v2. t3 < t1 + ttl \<longrightarrow> deliver_once ttl t3 t3 g2 env (s', v2) = (None, (s', v2)))
        | Some e \<Rightarrow> (\<exists>e'. fst (deliver_once ttl t1 t2 g env (s, v)) = Some e' \<and> (\<forall>k. errors_is e k \<longrightarrow> errors_is e' k))
            \<and> (\<forall>t3. mem_view s' t3 (env_ID env) = None))
     \<and> (\<exists>e'. deliver_once ttl t1 t2 g (env\<lparr> env_ID := [] \<rparr>) (s, v) = (Some e', (s, v))
          \<and> errors_is e' (Infra ErrMissingID))"
  using assms by (rule deliver_once_spec)

theorem Once_delivers_witness:
  "fst (deliver_once 100 5 6 (\<lambda>e n. (None, Suc n)) demo_envelope ([], 0)) = None"
proof -
  have "mem_view [] 5 (env_ID demo_envelope) = None" "env_ID demo_envelope \<noteq> []" "env_Type demo_envelope \<noteq> []"
    by (simp_all add: mem_view_def demo_envelope_def)
  then show ?thesis
    using Once_delivers [of demo_envelope "[]" 5 6 100 "\<lambda>e n. (None, Suc n)" 0 None "Suc 0"] by auto
qed

end
