(* ===== verification/Config_Module.thy ===== *)
theory Config_Module
  imports Go_Prelude Complex_Main
begin

text \<open>
  The module section of the configuration (internal/config/modules.go, catalog.go, helpers.go):
  typed readers of a module's options, the catalogue of modules and drivers, \<open>Resolve\<close> and
  \<open>validate\<close>. The YAML decoder is outside: an option is the \<open>any\<close> it produced.
\<close>

section \<open>Durations as text\<close>

text \<open>
  \<open>time.ParseDuration\<close>: an optional sign, then a sequence of decimal numbers each with a unit.
  The fraction is computed exactly where Go rounds a float64.
\<close>

definition unit_of :: "str \<Rightarrow> nat option" where
  "unit_of u =
     (if u = ''ns'' then Some 1
      else if u = ''us'' \<or> u = [CHR 0xC2, CHR 0xB5, CHR ''s''] \<or> u = [CHR 0xCE, CHR 0xBC, CHR ''s'']
        then Some 1000
      else if u = ''ms'' then Some 1000000
      else if u = ''s'' then Some 1000000000
      else if u = ''m'' then Some 60000000000
      else if u = ''h'' then Some 3600000000000
      else None)"

definition is_digit :: "char \<Rightarrow> bool" where
  "is_digit c \<longleftrightarrow> digit_value c \<noteq> None"

text \<open>A run of digits, its value and what follows; \<open>None\<close> above \<open>2^63\<close>.\<close>

definition leading_int :: "str \<Rightarrow> (nat \<times> str) option" where
  "leading_int s =
     (case read_digits 0 (takeWhile is_digit s) of
        Some v \<Rightarrow> if 2 ^ 63 < v then None else Some (v, dropWhile is_digit s)
      | None \<Rightarrow> None)"

text \<open>One number with its unit: its value in nanoseconds and the rest of the text.\<close>

definition parse_component :: "str \<Rightarrow> (nat \<times> str) option" where
  "parse_component s =
     (case leading_int s of
        None \<Rightarrow> None
      | Some (v, s1) \<Rightarrow>
          (let pre = length s \<noteq> length s1;
               dot = (s1 \<noteq> [] \<and> hd s1 = CHR ''.'');
               frac = (if dot then takeWhile is_digit (tl s1) else []);
               s2 = (if dot then dropWhile is_digit (tl s1) else s1);
               u = takeWhile (\<lambda>c. c \<noteq> CHR ''.'' \<and> \<not> is_digit c) s2;
               s3 = dropWhile (\<lambda>c. c \<noteq> CHR ''.'' \<and> \<not> is_digit c) s2
           in if \<not> pre \<and> frac = [] then None
              else case unit_of u of
                None \<Rightarrow> None
              | Some un \<Rightarrow>
                  (case read_digits 0 frac of
                     None \<Rightarrow> None
                   | Some f \<Rightarrow>
                       (let total = v * un + f * un div 10 ^ length frac in
                        if 2 ^ 63 < total then None else Some (total, s3)))))"

text \<open>Each component consumes at least one byte, so the length of the text is enough fuel.\<close>

fun parse_components :: "nat \<Rightarrow> nat \<Rightarrow> str \<Rightarrow> nat option" where
  "parse_components k d [] = Some d"
| "parse_components 0 d s = None"
| "parse_components (Suc k) d s =
     (if \<not> (hd s = CHR ''.'' \<or> is_digit (hd s)) then None
      else case parse_component s of
        None \<Rightarrow> None
      | Some (v, s') \<Rightarrow> if 2 ^ 63 < d + v then None else parse_components k (d + v) s')"

definition parse_duration :: "str \<Rightarrow> duration option" where
  "parse_duration s =
     (let neg = (s \<noteq> [] \<and> hd s = CHR ''-'');
          r = (if s \<noteq> [] \<and> (hd s = CHR ''-'' \<or> hd s = CHR ''+'') then tl s else s)
      in if r = ''0'' then Some 0
         else if r = [] then None
         else case parse_components (length r) 0 r of
           None \<Rightarrow> None
         | Some d \<Rightarrow> if neg then Some (- int d) else if 2 ^ 63 - 1 < d then None else Some (int d))"

lemma parse_components_bound:
  "parse_components k d s = Some v \<Longrightarrow> d \<le> 2 ^ 63 \<Longrightarrow> v \<le> 2 ^ 63"
  by (induction k d s rule: parse_components.induct) (auto split: if_splits option.splits)

lemma parse_duration_range: "parse_duration s = Some d \<Longrightarrow> int64_range d"
  using parse_components_bound [of "length (tl s)" 0 "tl s"] parse_components_bound [of "length s" 0 s]
  by (auto simp: parse_duration_def int64_range_def Let_def split: if_splits option.splits)

section \<open>Option values\<close>

text \<open>What the YAML decoder may leave in an \<open>any\<close>.\<close>

datatype val = VNil | VBool bool | VInt int | VInt64 int | VUint64 int | VFloat rat
  | VString str | VList "val list" | VMap "(str \<times> val) list"

text \<open>\<open>%T\<close>\<close>

primrec type_name :: "val \<Rightarrow> str" where
  "type_name VNil = ''<nil>''"
| "type_name (VBool b) = ''bool''"
| "type_name (VInt i) = ''int''"
| "type_name (VInt64 i) = ''int64''"
| "type_name (VUint64 i) = ''uint64''"
| "type_name (VFloat f) = ''float64''"
| "type_name (VString s) = ''string''"
| "type_name (VList l) = ''[]interface {}''"
| "type_name (VMap m) = ''map[string]interface {}''"

record module_config =
  enabled :: bool
  driver :: str
  options :: "(str, val) gomap"

type_synonym modules = "(str, module_config) gomap"

text \<open>The zero value of \<open>config.Module\<close>.\<close>

definition no_module :: module_config where
  "no_module = \<lparr> enabled = False, driver = [], options = [] \<rparr>"

definition present :: "module_config \<Rightarrow> str \<Rightarrow> val option" where
  "present m key = (case map_get (options m) key of Some VNil \<Rightarrow> None | r \<Rightarrow> r)"

text \<open>The failures the option readers build with \<open>fmt.Errorf\<close>.\<close>

definition option_error :: "str \<Rightarrow> str \<Rightarrow> err" where
  "option_error key what = Opaque (''options.'' @ key @ what)"

definition DurationOption :: "module_config \<Rightarrow> str \<Rightarrow> duration \<Rightarrow> err + duration" where
  "DurationOption m key fallback =
     (case present m key of
        None \<Rightarrow> Inr fallback
      | Some raw \<Rightarrow>
          (let parsed = (case raw of
              VString s \<Rightarrow> (case parse_duration s of
                  None \<Rightarrow> Inl (Errorf [Lit (''options.'' @ key @ ''='' @ quote_text s
                    @ '' is not a duration (e.g. \"24h\"): ''), W (Opaque ''time: invalid duration'')])
                | Some d \<Rightarrow> Inr d)
            | VInt i \<Rightarrow> Inr (wrap64 (i * second))
            | VInt64 i \<Rightarrow> Inr (wrap64 (i * second))
            | _ \<Rightarrow> Inl (option_error key ('' must be a duration or an integer of seconds, got '' @ type_name raw)))
           in case parsed of
                Inl e \<Rightarrow> Inl e
              | Inr d \<Rightarrow> if d \<le> 0 then Inl (option_error key ('' must be strictly positive, got '' @ duration_text d))
                         else Inr d))"

definition IntOption :: "module_config \<Rightarrow> str \<Rightarrow> int \<Rightarrow> err + int" where
  "IntOption m key fallback =
     (case present m key of
        None \<Rightarrow> Inr fallback
      | Some raw \<Rightarrow>
          (let typed = (case raw of
              VInt i \<Rightarrow> Inr i
            | VInt64 i \<Rightarrow> Inr i
            | _ \<Rightarrow> Inl (option_error key ('' must be an integer, got '' @ type_name raw)))
           in case typed of
                Inl e \<Rightarrow> Inl e
              | Inr v \<Rightarrow> if v \<le> 0 then Inl (option_error key ('' must be strictly positive, got '' @ show_int v))
                         else Inr v))"

definition MapOption :: "module_config \<Rightarrow> str \<Rightarrow> err + (str, val) gomap" where
  "MapOption m key =
     (case present m key of
        None \<Rightarrow> Inr []
      | Some (VMap nested) \<Rightarrow> Inr nested
      | Some raw \<Rightarrow> Inl (option_error key ('' must be a table of values, got '' @ type_name raw)))"

definition StringOption :: "module_config \<Rightarrow> str \<Rightarrow> str \<Rightarrow> err + str" where
  "StringOption m key fallback =
     (case present m key of
        None \<Rightarrow> Inr fallback
      | Some (VString t) \<Rightarrow> if t = [] then Inl (option_error key '' is present but empty'') else Inr t
      | Some raw \<Rightarrow> Inl (option_error key ('' must be a string, got '' @ type_name raw)))"

section \<open>The catalogue\<close>

record resources =
  SQL :: bool
  Cache :: bool
  Options :: "str list"

record driver_set =
  Default :: str
  Drivers :: "(str, resources) gomap"

type_synonym module_catalog = "(str, driver_set) gomap"

definition no_resources :: resources where
  "no_resources = \<lparr> SQL = False, Cache = False, Options = [] \<rparr>"

text \<open>\<open>sort.Strings\<close>: bytewise order, shorter prefixes first.\<close>

fun str_le :: "str \<Rightarrow> str \<Rightarrow> bool" where
  "str_le [] b = True"
| "str_le (x # xs) [] = False"
| "str_le (x # xs) (y # ys) =
     (let i = of_char x :: nat; j = of_char y :: nat in i < j \<or> (i = j \<and> str_le xs ys))"

fun insert_str :: "str \<Rightarrow> str list \<Rightarrow> str list" where
  "insert_str x [] = [x]"
| "insert_str x (y # ys) = (if str_le x y then x # y # ys else y # insert_str x ys)"

definition sort_strings :: "str list \<Rightarrow> str list" where
  "sort_strings xs = foldr insert_str xs []"

lemma set_insert_str [simp]: "set (insert_str x ys) = insert x (set ys)"
  by (induction ys) auto

lemma set_sort_strings [simp]: "set (sort_strings xs) = set xs"
  by (induction xs) (auto simp: sort_strings_def)

lemma sort_strings_empty_iff [simp]: "sort_strings xs = [] \<longleftrightarrow> xs = []"
  by (metis set_empty set_sort_strings)

text \<open>\<open>nil\<close> for a module the catalogue does not know.\<close>

definition AllowedDrivers :: "module_catalog \<Rightarrow> str \<Rightarrow> str list option" where
  "AllowedDrivers c name =
     (case map_get c name of
        None \<Rightarrow> None
      | Some ds \<Rightarrow> Some (sort_strings (map fst (Drivers ds))))"

definition DefaultDriver :: "module_catalog \<Rightarrow> str \<Rightarrow> str" where
  "DefaultDriver c name = (case map_get c name of None \<Rightarrow> [] | Some ds \<Rightarrow> Default ds)"

definition Requires :: "module_catalog \<Rightarrow> str \<Rightarrow> str \<Rightarrow> resources" where
  "Requires c name drv =
     (case map_get c name of
        None \<Rightarrow> no_resources
      | Some ds \<Rightarrow> (case map_get (Drivers ds) drv of None \<Rightarrow> no_resources | Some r \<Rightarrow> r))"

definition AllowedOptions :: "module_catalog \<Rightarrow> str \<Rightarrow> str \<Rightarrow> str list" where
  "AllowedOptions c name drv = sort_strings (Options (Requires c name drv))"

fun merge_entries :: "module_catalog \<Rightarrow> module_catalog \<Rightarrow> err + module_catalog" where
  "merge_entries merged [] = Inr merged"
| "merge_entries merged ((name, ds) # es) =
     (if map_get merged name \<noteq> None then
        Inl (Opaque (''catalogue: module '' @ quote_text name
          @ '' is declared twice '' @ em_dash @ '' two modules cannot carry the same name''))
      else merge_entries (map_set name ds merged) es)"

fun merge_catalogs :: "module_catalog \<Rightarrow> module_catalog list \<Rightarrow> err + module_catalog" where
  "merge_catalogs merged [] = Inr merged"
| "merge_catalogs merged (c # cs) =
     (case merge_entries merged c of Inl e \<Rightarrow> Inl e | Inr m \<Rightarrow> merge_catalogs m cs)"

definition MergeCatalogs :: "module_catalog list \<Rightarrow> err + module_catalog" where
  "MergeCatalogs cs = merge_catalogs [] cs"

section \<open>The modules of a configuration\<close>

definition Get :: "modules \<Rightarrow> str \<Rightarrow> module_config" where
  "Get m name = (case map_get m name of None \<Rightarrow> no_module | Some x \<Rightarrow> x)"

definition IsEnabled :: "modules \<Rightarrow> str \<Rightarrow> bool" where
  "IsEnabled m name = enabled (Get m name)"

definition DriverOf :: "modules \<Rightarrow> str \<Rightarrow> str" where
  "DriverOf m name = driver (Get m name)"

definition Resolve :: "module_catalog \<Rightarrow> modules \<Rightarrow> modules" where
  "Resolve c m =
     (let declared = fold (\<lambda>(name, x) acc.
            map_set name (if driver x = [] then x\<lparr> driver := DefaultDriver c name \<rparr> else x) acc) m []
      in fold (\<lambda>(name, ds) acc. if map_get acc name \<noteq> None then acc
            else map_set name \<lparr> enabled = False, driver = Default ds, options = [] \<rparr> acc) c declared)"

definition requires :: "module_catalog \<Rightarrow> (resources \<Rightarrow> bool) \<Rightarrow> modules \<Rightarrow> bool" where
  "requires c wanted m =
     list_ex (\<lambda>(name, x). IsEnabled m name \<and> wanted (Requires c name (DriverOf m name))) m"

definition RequiresSQL :: "module_catalog \<Rightarrow> modules \<Rightarrow> bool" where
  "RequiresSQL c m = requires c SQL m"

definition RequiresCache :: "module_catalog \<Rightarrow> modules \<Rightarrow> bool" where
  "RequiresCache c m = requires c Cache m"

fun join_items :: "str list \<Rightarrow> str" where
  "join_items [] = []"
| "join_items [x] = x"
| "join_items (x # y # zs) = x @ '', '' @ join_items (y # zs)"

definition unknownOptions :: "module_config \<Rightarrow> str \<Rightarrow> str \<Rightarrow> module_catalog \<Rightarrow> err list" where
  "unknownOptions m name drv c =
     (let allowed = AllowedOptions c name drv;
          offending = sort_strings (filter (\<lambda>k. k \<notin> set allowed) (map fst (options m)));
          expected = (if allowed \<noteq> [] then ''expected: '' @ join_items allowed
                      else ''this driver accepts no option'')
      in map (\<lambda>key. Opaque (''modules.'' @ name @ ''.options.'' @ key @ '' unknown to driver ''
                   @ quote_text drv @ '' ('' @ expected @ '')'')) offending)"

definition validate_module :: "module_catalog \<Rightarrow> str \<times> module_config \<Rightarrow> err list" where
  "validate_module c = (\<lambda>(name, x).
     (case AllowedDrivers c name of
        None \<Rightarrow> [Opaque (''modules.'' @ name @ '': unknown module '' @ em_dash
          @ '' no module of that name is mounted by the composition root'')]
      | Some allowed \<Rightarrow>
          if \<not> enabled x then []
          else (let drv = (if driver x = [] then DefaultDriver c name else driver x) in
                if drv \<notin> set allowed then
                  [Opaque (''modules.'' @ name @ ''.driver='' @ quote_text drv
                     @ '' unknown (expected: '' @ join_items allowed @ '')'')]
                else unknownOptions x name drv c)))"

definition validate_modules :: "module_catalog \<Rightarrow> modules \<Rightarrow> err list" where
  "validate_modules c m = concat (map (validate_module c) m)"

section \<open>Readers of options\<close>

lemma DurationOption_positive:
  "DurationOption m key fallback = Inr d \<Longrightarrow> 0 < fallback \<Longrightarrow> 0 < d"
  by (auto simp: DurationOption_def Let_def split: option.splits val.splits sum.splits if_splits)

lemma IntOption_positive: "IntOption m key fallback = Inr v \<Longrightarrow> 0 < fallback \<Longrightarrow> 0 < v"
  by (auto simp: IntOption_def Let_def split: option.splits val.splits sum.splits if_splits)

lemma StringOption_nonempty: "StringOption m key fallback = Inr t \<Longrightarrow> fallback \<noteq> [] \<Longrightarrow> t \<noteq> []"
  by (auto simp: StringOption_def split: option.splits val.splits if_splits)

text \<open>An integer of seconds is exact while its product fits in an \<open>int64\<close> of nanoseconds.\<close>

definition seconds_fit :: "int \<Rightarrow> bool" where
  "seconds_fit i \<longleftrightarrow> 0 < i \<and> i \<le> 9223372036"

lemma wrap_seconds: "seconds_fit i \<Longrightarrow> wrap64 (i * second) = i * second"
  by (auto simp: seconds_fit_def second_def intro!: wrap64_small)

text \<open>Above it wraps: a number of years becomes a third of a second, and passes the check.\<close>

lemma DurationOption_wraps:
  "DurationOption \<lparr> enabled = True, driver = ''memory'', options = [(''ttl'', VInt 18446744074)] \<rparr> ''ttl'' hour
     = Inr 290448384"
  by (simp add: DurationOption_def present_def second_def wrap64_def)

text \<open>What an integer of seconds is read as.\<close>

definition reads_seconds :: "int \<Rightarrow> err + duration \<Rightarrow> bool" where
  "reads_seconds i r \<longleftrightarrow>
     (if seconds_fit i then r = Inr (i * second)
      else if - 9223372036 \<le> i \<and> i \<le> 0 then isl r
      else isl r \<or> (0 < projr r \<and> int64_range (projr r)))"

lemma reads_seconds_option:
  assumes "present m key = Some (VInt i) \<or> present m key = Some (VInt64 i)"
  shows "reads_seconds i (DurationOption m key fallback)"
proof -
  have "0 < i * second" if "seconds_fit i" using that by (simp add: seconds_fit_def second_def)
  moreover have "wrap64 (i * second) = i * second" if "- 9223372036 \<le> i" "i \<le> 0"
    using that by (simp add: int64_range_def second_def)
  moreover have "i * second \<le> 0" if "i \<le> 0" using that by (simp add: second_def)
  ultimately show ?thesis
    using assms wrap_seconds [of i] wrap64_range [of "i * second"]
    by (auto simp: DurationOption_def Let_def reads_seconds_def)
qed

text \<open>a duration option is the fallback exactly when the key is absent or null; a text is read
  as \<open>time.ParseDuration\<close> reads it, an integer as that many seconds, exactly while the product fits
  in 64 bits; a value that is not strictly positive, is unreadable or has another type is an error
  and never the fallback.\<close>

theorem DurationOption_reads:
  "case present m key of
     None \<Rightarrow> DurationOption m key fallback = Inr fallback
   | Some (VString s) \<Rightarrow>
       (case parse_duration s of
          None \<Rightarrow> isl (DurationOption m key fallback)
        | Some d \<Rightarrow> int64_range d
            \<and> (if 0 < d then DurationOption m key fallback = Inr d else isl (DurationOption m key fallback)))
   | Some (VInt i) \<Rightarrow> reads_seconds i (DurationOption m key fallback)
   | Some (VInt64 i) \<Rightarrow> reads_seconds i (DurationOption m key fallback)
   | Some _ \<Rightarrow> isl (DurationOption m key fallback)"
proof (cases "present m key")
  case None
  then show ?thesis by (simp add: DurationOption_def)
next
  case (Some raw)
  show ?thesis
  proof (cases raw)
    case (VString s)
    then show ?thesis
      using Some parse_duration_range [of s] by (auto simp: DurationOption_def split: option.splits)
  qed (use Some reads_seconds_option [of m key] in \<open>auto simp: DurationOption_def Let_def\<close>)
qed

section \<open>Catalogues\<close>

lemma merge_entries_spec:
  assumes "is_map c" and "is_map merged"
  shows "case merge_entries merged c of
      Inr m \<Rightarrow> fst ` set c \<inter> fst ` set merged = {} \<and> is_map m
        \<and> (\<forall>k. map_of m k = (case map_of c k of Some v \<Rightarrow> Some v | None \<Rightarrow> map_of merged k))
    | Inl e \<Rightarrow> fst ` set c \<inter> fst ` set merged \<noteq> {}"
  using assms
proof (induction merged c rule: merge_entries.induct)
  case (2 merged name ds es)
  show ?case
  proof (cases "map_of merged name")
    case None
    let ?m = "map_set name ds merged"
    have fresh: "name \<notin> fst ` set merged" using None by (simp add: map_of_eq_None_iff)
    have keys: "fst ` set ?m = insert name (fst ` set merged)"
      by (simp add: map_set_fresh [OF fresh])
    have dis: "name \<notin> fst ` set es" "map_of es name = None"
      using 2(2) by (auto simp: map_of_eq_None_iff)
    have IH: "case merge_entries ?m es of
      Inr m \<Rightarrow> fst ` set es \<inter> fst ` set ?m = {} \<and> is_map m
        \<and> (\<forall>k. map_of m k = (case map_of es k of Some v \<Rightarrow> Some v | None \<Rightarrow> map_of ?m k))
    | Inl e \<Rightarrow> fst ` set es \<inter> fst ` set ?m \<noteq> {}"
      using 2 None by simp
    show ?thesis
      using IH None fresh dis unfolding keys
      by (auto split: sum.splits option.splits)
  next
    case (Some y)
    then have "name \<in> fst ` set merged" by (force dest: map_of_SomeD)
    then show ?thesis using Some by auto
  qed
qed auto

lemma merge_catalogs_spec:
  assumes "\<forall>c \<in> set cs. is_map c" and "is_map merged"
  shows "case merge_catalogs merged cs of
      Inr m \<Rightarrow> (\<forall>c \<in> set cs. fst ` set c \<inter> fst ` set merged = {})
        \<and> is_map m \<and> (\<forall>k. map_of merged k \<noteq> None \<longrightarrow> map_of m k = map_of merged k)
        \<and> (\<forall>c \<in> set cs. \<forall>k v. map_of c k = Some v \<longrightarrow> map_of m k = Some v)
        \<and> (\<forall>k v. map_of m k = Some v \<longrightarrow> map_of merged k = Some v \<or> (\<exists>c \<in> set cs. map_of c k = Some v))
    | Inl e \<Rightarrow> True"
  using assms
proof (induction cs arbitrary: merged)
  case (Cons c cs)
  note spec = merge_entries_spec [of c merged]
  show ?case
  proof (cases "merge_entries merged c")
    case (Inr m)
    then have m: "fst ` set c \<inter> fst ` set merged = {}" "is_map m"
      "\<And>k. map_of m k = (case map_of c k of Some v \<Rightarrow> Some v | None \<Rightarrow> map_of merged k)"
      using spec Cons.prems by auto
    have dom: "fst ` set m = fst ` set c \<union> fst ` set merged"
      by (auto simp: dom_map_of_conv_image_fst [symmetric] m(3) split: option.splits)
    have sep: "map_of c k = None \<or> map_of merged k = None" for k
      using m(1) by (metis disjoint_iff map_of_eq_None_iff)
    show ?thesis
    proof (cases "merge_catalogs m cs")
      case Res: (Inr r)
      have IH: "\<forall>c \<in> set cs. fst ` set c \<inter> fst ` set m = {}" "is_map r"
        "\<And>k. map_of m k \<noteq> None \<Longrightarrow> map_of r k = map_of m k"
        "\<And>c k v. c \<in> set cs \<Longrightarrow> map_of c k = Some v \<Longrightarrow> map_of r k = Some v"
        "\<And>k v. map_of r k = Some v \<Longrightarrow> map_of m k = Some v \<or> (\<exists>c \<in> set cs. map_of c k = Some v)"
        using Cons.IH [of m] Cons.prems(1) m(2) Res by auto
      have keep: "map_of r k = map_of merged k" if "map_of merged k \<noteq> None" for k
        using IH(3) [of k] m(3) [of k] sep [of k] that by auto
      have new: "map_of r k = Some v" if "map_of c k = Some v" for k v
        using IH(3) [of k] m(3) [of k] that by auto
      have orig: "map_of merged k = Some v \<or> (\<exists>c \<in> set (c # cs). map_of c k = Some v)"
        if "map_of r k = Some v" for k v
        using IH(5) [OF that] m(3) [of k] by (auto split: option.splits)
      have "\<forall>x \<in> set cs. fst ` set x \<inter> fst ` set merged = {}"
        using IH(1) unfolding dom by blast
      then have "\<forall>x \<in> set (c # cs). fst ` set x \<inter> fst ` set merged = {}"
        using m(1) by simp
      then show ?thesis using Inr Res IH(2,4) keep new orig by auto
    qed (simp add: Inr)
  qed simp
qed auto

text \<open>\<open>MergeCatalogs\<close> loses nothing and overwrites nothing: when it succeeds, every module of
  every catalogue is in the result with the drivers it declared, and nothing else is; two
  catalogues that both declare a module are refused.\<close>

theorem MergeCatalogs_union:
  assumes "\<forall>c \<in> set cs. is_map c" and "MergeCatalogs cs = Inr m"
  shows "is_map m \<and> (\<forall>k v. map_of m k = Some v \<longleftrightarrow> (\<exists>c \<in> set cs. map_of c k = Some v))"
  using merge_catalogs_spec [of cs "[]"] assms by (auto simp: MergeCatalogs_def)

definition demo_catalog :: module_catalog where
  "demo_catalog = [(''outbox'', \<lparr> Default = ''memory'', Drivers =
      [(''memory'', \<lparr> SQL = False, Cache = False, Options = [''batch_size''] \<rparr>),
       (''postgres'', \<lparr> SQL = True, Cache = False, Options = [''batch_size''] \<rparr>)] \<rparr>)]"

definition demo_catalog2 :: module_catalog where
  "demo_catalog2 = [(''audit'', \<lparr> Default = ''log'', Drivers = [(''log'', no_resources)] \<rparr>)]"

theorem MergeCatalogs_union_witness:
  "\<exists>m. MergeCatalogs [demo_catalog, demo_catalog2] = Inr m
     \<and> map_of m ''audit'' = Some \<lparr> Default = ''log'', Drivers = [(''log'', no_resources)] \<rparr>"
proof -
  have maps: "\<forall>c \<in> set [demo_catalog, demo_catalog2]. is_map c"
    by (simp add: demo_catalog_def demo_catalog2_def)
  have "MergeCatalogs [demo_catalog, demo_catalog2] = Inr (demo_catalog @ demo_catalog2)"
    by (simp add: MergeCatalogs_def demo_catalog_def demo_catalog2_def)
  with MergeCatalogs_union [OF maps this] show ?thesis
    by (auto simp: demo_catalog2_def)
qed

section \<open>Resolving and validating\<close>

lemma map_of_Resolve:
  assumes "is_map c" and "is_map m"
  shows "map_of (Resolve c m) name =
     (case map_of m name of
        Some x \<Rightarrow> Some (if driver x = [] then x\<lparr> driver := DefaultDriver c name \<rparr> else x)
      | None \<Rightarrow> (case map_of c name of
          Some ds \<Rightarrow> Some \<lparr> enabled = False, driver = Default ds, options = [] \<rparr>
        | None \<Rightarrow> None))"
  unfolding Resolve_def Let_def
  by (simp only: map_of_fold_default [OF assms(1)] map_of_fold_set [OF assms(2)])
     (simp split: option.split)

lemma is_map_Resolve: "is_map (Resolve c m)"
  unfolding Resolve_def Let_def by (intro is_map_fold_default is_map_fold_set) simp

text \<open>What a valid module section is, stated without the code's order of checks.\<close>

definition module_ok :: "module_catalog \<Rightarrow> str \<Rightarrow> module_config \<Rightarrow> bool" where
  "module_ok c name x \<longleftrightarrow>
     (case map_of c name of
        None \<Rightarrow> False
      | Some ds \<Rightarrow> enabled x \<longrightarrow>
          (let drv = (if driver x = [] then Default ds else driver x) in
           drv \<in> fst ` set (Drivers ds) \<and> fst ` set (options x) \<subseteq> set (Options (Requires c name drv))))"

lemma unknownOptions_empty:
  "unknownOptions x name drv c = [] \<longleftrightarrow> fst ` set (options x) \<subseteq> set (Options (Requires c name drv))"
  by (auto simp: unknownOptions_def Let_def AllowedOptions_def filter_empty_conv)

lemma validate_module_empty: "validate_module c (name, x) = [] \<longleftrightarrow> module_ok c name x"
  by (simp add: validate_module_def module_ok_def AllowedDrivers_def DefaultDriver_def Let_def
      unknownOptions_empty split: option.split)

lemma validate_modules_empty: "validate_modules c m = [] \<longleftrightarrow> (\<forall>(name, x) \<in> set m. module_ok c name x)"
  by (auto simp: validate_modules_def validate_module_empty)

text \<open>after \<open>Resolve\<close>, a module section that passes \<open>validate\<close> names only modules of the
  catalogue; every module of the catalogue has an entry, off unless it was declared; each enabled
  one runs a driver the catalogue knows for it and carries only options that driver reads, and an
  explicit driver is never replaced.\<close>

theorem resolved_modules_are_known:
  assumes "is_map c" and "is_map m" and "validate_modules c (Resolve c m) = []"
  shows "(\<forall>name. map_of (Resolve c m) name \<noteq> None \<longleftrightarrow> map_of c name \<noteq> None)
     \<and> (\<forall>name x. map_of m name = Some x \<longrightarrow> IsEnabled (Resolve c m) name = enabled x
          \<and> (driver x \<noteq> [] \<longrightarrow> DriverOf (Resolve c m) name = driver x))
     \<and> (\<forall>name. map_of m name = None \<longrightarrow> \<not> IsEnabled (Resolve c m) name)
     \<and> (\<forall>name. IsEnabled (Resolve c m) name \<longrightarrow> module_ok c name (Get (Resolve c m) name))"
proof (intro conjI allI impI)
  note look = map_of_Resolve [OF assms(1,2)]
  have ok: "map_of (Resolve c m) name = Some x \<Longrightarrow> module_ok c name x" for name x
    using assms(3) is_map_mem [OF is_map_Resolve] by (force simp: validate_modules_empty)
  fix name
  show "map_of (Resolve c m) name \<noteq> None \<longleftrightarrow> map_of c name \<noteq> None"
    using ok [of name] look [of name]
    by (cases "map_of m name"; cases "map_of c name") (auto simp: module_ok_def)
  show "map_of m name = None \<Longrightarrow> \<not> IsEnabled (Resolve c m) name"
    by (simp add: IsEnabled_def Get_def look no_module_def split: option.split)
  show "IsEnabled (Resolve c m) name \<Longrightarrow> module_ok c name (Get (Resolve c m) name)"
    using ok [of name] by (auto simp: IsEnabled_def Get_def no_module_def split: option.splits)
  fix x
  assume "map_of m name = Some x"
  then show "IsEnabled (Resolve c m) name = enabled x"
    and "driver x \<noteq> [] \<Longrightarrow> DriverOf (Resolve c m) name = driver x"
    by (simp_all add: IsEnabled_def DriverOf_def Get_def look)
qed

theorem resolved_modules_are_known_witness:
  "DriverOf (Resolve demo_catalog [(''outbox'', \<lparr> enabled = True, driver = ''postgres'', options = [] \<rparr>)]) ''outbox''
     = ''postgres''"
proof -
  let ?m = "[(''outbox'', \<lparr> enabled = True, driver = ''postgres'', options = [] \<rparr>)]"
  have "Resolve demo_catalog ?m = ?m"
    by (simp add: Resolve_def demo_catalog_def)
  moreover have "validate_modules demo_catalog ?m = []"
    by (simp add: validate_modules_empty module_ok_def demo_catalog_def)
  moreover have "is_map demo_catalog" "is_map ?m"
    by (simp_all add: demo_catalog_def)
  ultimately show ?thesis
    using resolved_modules_are_known [of demo_catalog ?m] by auto
qed

lemma Resolve_idempotent:
  assumes "is_map c" and "is_map m"
  shows "map_of (Resolve c (Resolve c m)) = map_of (Resolve c m)"
  by (rule ext) (auto simp: map_of_Resolve [OF assms(1) is_map_Resolve] map_of_Resolve [OF assms]
      DefaultDriver_def split: option.split)

text \<open>An enabled module that asks for SQL makes the whole configuration require it.\<close>

lemma requires_iff:
  assumes "is_map m"
  shows "requires c wanted m \<longleftrightarrow> (\<exists>name x. map_of m name = Some x \<and> enabled x \<and> wanted (Requires c name (driver x)))"
  using is_map_mem [OF assms]
  by (force simp: requires_def IsEnabled_def DriverOf_def Get_def list_ex_iff)

end
