(* ===== verification/Idempotency_Module.thy ===== *)
theory Idempotency_Module
  imports Idempotency_Once Config_Module
begin

text \<open>
  The idempotency module as it is mounted (internal/core/idempotency/module.go, catalog.go): the
  lifetime read from the options, the choice of the driver, the disabled module.
\<close>

definition idem_Name :: str where "idem_Name = ''idempotency''"
definition idem_driverMemory :: str where "idem_driverMemory = ''memory''"
definition idem_driverPostgres :: str where "idem_driverPostgres = ''postgres''"
definition idem_driverRedis :: str where "idem_driverRedis = ''redis''"
definition OptionTTL :: str where "OptionTTL = ''ttl''"
definition OptionNamespace :: str where "OptionNamespace = ''namespace''"
definition defaultTTL :: duration where "defaultTTL = 24 * hour"
definition defaultNamespace :: str where "defaultNamespace = ''idempotency''"

definition idem_Catalog :: module_catalog where
  "idem_Catalog = [(idem_Name, \<lparr> Default = idem_driverMemory, Drivers =
     [(idem_driverMemory, \<lparr> SQL = False, Cache = False, Options = [OptionTTL] \<rparr>),
      (idem_driverPostgres, \<lparr> SQL = True, Cache = False, Options = [OptionTTL] \<rparr>),
      (idem_driverRedis, \<lparr> SQL = False, Cache = True, Options = [OptionTTL, OptionNamespace] \<rparr>)] \<rparr>)]"

text \<open>What a call reads from outside, and the stores a mounted module may work on.\<close>

record idem_env =
  ie_ctx :: ctx
  ie_now :: time
  ie_faults :: "nat \<Rightarrow> err option"

record idem_state =
  is_memory :: idem_mem
  is_postgres :: idem_pg
  is_redis :: redis_db

record idem_module =
  im_Reserve :: "idem_env \<Rightarrow> request \<Rightarrow> idem_state \<Rightarrow> (err + reservation) \<times> idem_state"
  im_Complete :: "idem_env \<Rightarrow> str \<Rightarrow> bytes option \<Rightarrow> idem_state \<Rightarrow> err option \<times> idem_state"
  im_Release :: "idem_env \<Rightarrow> str \<Rightarrow> idem_state \<Rightarrow> err option \<times> idem_state"
  im_Purge :: "idem_env \<Rightarrow> idem_state \<Rightarrow> (err + nat) \<times> idem_state"

definition in_memory :: "(idem_mem \<Rightarrow> 'r \<times> idem_mem) \<Rightarrow> idem_state \<Rightarrow> 'r \<times> idem_state" where
  "in_memory f st = (case f (is_memory st) of (r, s) \<Rightarrow> (r, st\<lparr> is_memory := s \<rparr>))"

definition in_postgres :: "(idem_pg \<Rightarrow> 'r \<times> idem_pg) \<Rightarrow> idem_state \<Rightarrow> 'r \<times> idem_state" where
  "in_postgres f st = (case f (is_postgres st) of (r, s) \<Rightarrow> (r, st\<lparr> is_postgres := s \<rparr>))"

definition in_redis :: "(redis_db \<Rightarrow> 'r \<times> redis_db) \<Rightarrow> idem_state \<Rightarrow> 'r \<times> idem_state" where
  "in_redis f st = (case f (is_redis st) of (r, s) \<Rightarrow> (r, st\<lparr> is_redis := s \<rparr>))"

definition disabled_idem :: idem_module where
  "disabled_idem = \<lparr>
     im_Reserve = (\<lambda>e rq st. (Inl (Sentinel (Idem IdemErrDisabled)), st)),
     im_Complete = (\<lambda>e k resp st. (Some (Sentinel (Idem IdemErrDisabled)), st)),
     im_Release = (\<lambda>e k st. (Some (Sentinel (Idem IdemErrDisabled)), st)),
     im_Purge = (\<lambda>e st. (Inl (Sentinel (Idem IdemErrDisabled)), st)) \<rparr>"

definition fromMemory :: "duration \<Rightarrow> idem_module" where
  "fromMemory ttl = \<lparr>
     im_Reserve = (\<lambda>e rq. in_memory (mem_Reserve ttl (ie_ctx e) (ie_now e) rq)),
     im_Complete = (\<lambda>e k resp. in_memory (mem_Complete (ie_ctx e) (ie_now e) k resp)),
     im_Release = (\<lambda>e k. in_memory (mem_Release (ie_ctx e) (ie_now e) k)),
     im_Purge = (\<lambda>e. in_memory (mem_Purge (ie_ctx e) (ie_now e))) \<rparr>"

definition faults2 :: "idem_env \<Rightarrow> err option \<times> err option" where
  "faults2 e = (ie_faults e 0, ie_faults e 1)"

definition fromPostgres :: "duration \<Rightarrow> idem_module" where
  "fromPostgres ttl = \<lparr>
     im_Reserve = (\<lambda>e rq. in_postgres (pg_Reserve ttl (faults2 e) (ie_now e) rq)),
     im_Complete = (\<lambda>e k resp. in_postgres (pg_Complete (faults2 e) (ie_now e) k resp)),
     im_Release = (\<lambda>e k. in_postgres (pg_Release (faults2 e) (ie_now e) k)),
     im_Purge = (\<lambda>e. in_postgres (pg_Purge (faults2 e) (ie_now e))) \<rparr>"

definition idem_option_failure :: "err \<Rightarrow> err" where
  "idem_option_failure e = Errorf [Lit (''modules.'' @ idem_Name @ ''.''), W e]"

definition withRedis :: "module_config \<Rightarrow> bool \<Rightarrow> duration \<Rightarrow> err + idem_module" where
  "withRedis cfg cache ttl =
     (if \<not> cache then Inl (Sentinel (Idem ErrCacheRequired))
      else case StringOption cfg OptionNamespace defaultNamespace of
        Inl e \<Rightarrow> Inl (idem_option_failure e)
      | Inr ns \<Rightarrow> Inr \<lparr>
          im_Reserve = (\<lambda>e rq. in_redis (redis_Reserve ns ttl (ie_faults e) (ie_now e) rq)),
          im_Complete = (\<lambda>e k resp. in_redis (redis_Complete ns (ie_faults e) (ie_now e) k resp)),
          im_Release = (\<lambda>e k. in_redis (redis_Release ns (ie_faults e) (ie_now e) k)),
          im_Purge = (\<lambda>e. in_redis (redis_Purge (ie_faults e) (ie_now e))) \<rparr>)"

definition New_idem :: "module_config \<Rightarrow> bool \<Rightarrow> bool \<Rightarrow> err + idem_module" where
  "New_idem cfg pool cache =
     (if \<not> enabled cfg then Inr disabled_idem
      else case DurationOption cfg OptionTTL defaultTTL of
        Inl e \<Rightarrow> Inl (idem_option_failure e)
      | Inr ttl \<Rightarrow>
          if driver cfg = idem_driverMemory then Inr (fromMemory ttl)
          else if driver cfg = idem_driverPostgres then
            (if \<not> pool then Inl (Sentinel (Idem IdemErrPoolRequired)) else Inr (fromPostgres ttl))
          else if driver cfg = idem_driverRedis then withRedis cfg cache ttl
          else Inl (Errorf [W (Sentinel (Idem IdemErrUnknownDriver)), Lit ('': '' @ quote_text (driver cfg))]))"

text \<open>A driver that needs a connection it is not given refuses to start: what happens to a worker
  whose composition passes no connection to the module.\<close>

lemma New_idem_without_connections:
  assumes "enabled cfg" and "driver cfg \<noteq> idem_driverMemory"
  shows "isl (New_idem cfg False False)"
  using assms by (auto simp: New_idem_def withRedis_def split: sum.split)

text \<open>the module is mounted exactly when it is disabled, or its options are readable, its driver
  is one of the three and the connection this driver needs is given; a disabled module refuses
  every operation with \<open>ErrDisabled\<close> and touches nothing; the lifetime of a reservation is always
  strictly positive.\<close>

theorem New_idem_mounts:
  "(\<not> isl (New_idem cfg pool cache) \<longleftrightarrow>
      \<not> enabled cfg
      \<or> (\<not> isl (DurationOption cfg OptionTTL defaultTTL)
         \<and> (driver cfg = idem_driverMemory
            \<or> (driver cfg = idem_driverPostgres \<and> pool)
            \<or> (driver cfg = idem_driverRedis \<and> cache \<and> \<not> isl (StringOption cfg OptionNamespace defaultNamespace)))))
   \<and> (\<not> enabled cfg \<longrightarrow> New_idem cfg pool cache = Inr disabled_idem
        \<and> im_Reserve disabled_idem e rq st = (Inl (Sentinel (Idem IdemErrDisabled)), st)
        \<and> im_Complete disabled_idem e k resp st = (Some (Sentinel (Idem IdemErrDisabled)), st))
   \<and> (\<forall>ttl. DurationOption cfg OptionTTL defaultTTL = Inr ttl \<longrightarrow> 0 < ttl)"
proof (intro conjI)
  have drivers: "idem_driverMemory \<noteq> idem_driverPostgres" "idem_driverMemory \<noteq> idem_driverRedis"
    "idem_driverPostgres \<noteq> idem_driverRedis"
    by (simp_all add: idem_driverMemory_def idem_driverPostgres_def idem_driverRedis_def)
  show "\<not> isl (New_idem cfg pool cache) \<longleftrightarrow>
      \<not> enabled cfg
      \<or> (\<not> isl (DurationOption cfg OptionTTL defaultTTL)
         \<and> (driver cfg = idem_driverMemory
            \<or> (driver cfg = idem_driverPostgres \<and> pool)
            \<or> (driver cfg = idem_driverRedis \<and> cache \<and> \<not> isl (StringOption cfg OptionNamespace defaultNamespace))))"
    using drivers
    by (cases "DurationOption cfg OptionTTL defaultTTL"; cases "StringOption cfg OptionNamespace defaultNamespace")
       (auto simp: New_idem_def withRedis_def)
  show "\<forall>ttl. DurationOption cfg OptionTTL defaultTTL = Inr ttl \<longrightarrow> 0 < ttl"
    using DurationOption_positive [of cfg OptionTTL defaultTTL] by (auto simp: defaultTTL_def hour_def)
qed (simp add: New_idem_def disabled_idem_def)

theorem New_idem_mounts_witness:
  "New_idem \<lparr> enabled = False, driver = [], options = [] \<rparr> False False = Inr disabled_idem"
  using New_idem_mounts [of "\<lparr> enabled = False, driver = [], options = [] \<rparr>" False False] by simp

end
