(* ===== verification/Go_Runes.thy ===== *)
theory Go_Runes
  imports Go_Prelude
begin

text \<open>
  The runes of a Go string: \<open>range\<close> and \<open>[]rune\<close> decode UTF-8 and take an invalid byte for one
  replacement rune.
\<close>

section \<open>Runes\<close>

text \<open>\<open>len([]rune(s))\<close>: the number of runes Go decodes, an invalid byte counting for one.\<close>

definition cont :: "nat \<Rightarrow> nat \<Rightarrow> nat list \<Rightarrow> bool" where
  "cont lo hi bs = (case bs of [] \<Rightarrow> False | b # _ \<Rightarrow> lo \<le> b \<and> b \<le> hi)"

fun rune_width :: "nat list \<Rightarrow> nat" where
  "rune_width [] = 1"
| "rune_width (b # bs) =
     (if 0xC2 \<le> b \<and> b \<le> 0xDF \<and> cont 0x80 0xBF bs then 2
      else if (b = 0xE0 \<and> cont 0xA0 0xBF bs \<or> b = 0xED \<and> cont 0x80 0x9F bs
               \<or> 0xE1 \<le> b \<and> b \<le> 0xEF \<and> b \<noteq> 0xED \<and> cont 0x80 0xBF bs)
              \<and> cont 0x80 0xBF (tl bs) then 3
      else if (b = 0xF0 \<and> cont 0x90 0xBF bs \<or> b = 0xF4 \<and> cont 0x80 0x8F bs
               \<or> 0xF1 \<le> b \<and> b \<le> 0xF3 \<and> cont 0x80 0xBF bs)
              \<and> cont 0x80 0xBF (tl bs) \<and> cont 0x80 0xBF (tl (tl bs)) then 4
      else 1)"

lemma rune_width_pos: "0 < rune_width bs"
  by (cases bs) auto

function count_runes :: "nat list \<Rightarrow> nat" where
  "count_runes bs = (if bs = [] then 0 else Suc (count_runes (drop (rune_width bs) bs)))"
  by pat_completeness auto
termination
  by (relation "measure length") (auto simp: rune_width_pos)

declare count_runes.simps [simp del]

definition rune_count :: "str \<Rightarrow> nat" where
  "rune_count s = count_runes (map of_char s)"

lemma count_runes_le: "count_runes bs \<le> length bs"
proof (induction bs rule: count_runes.induct)
  case (1 bs)
  show ?case
  proof (cases "bs = []")
    case False
    then obtain n where "length bs = Suc n" by (cases bs) auto
    then show ?thesis
      using False 1 rune_width_pos [of bs] by (simp add: count_runes.simps [of bs])
  qed (simp add: count_runes.simps)
qed

lemma rune_count_le: "rune_count s \<le> length s"
  using count_runes_le [of "map of_char s"] by (simp add: rune_count_def)

text \<open>The runes themselves, each as its bytes; an invalid byte is the replacement rune U+FFFD.\<close>

definition rune_error :: "nat list" where
  "rune_error = [0xEF, 0xBF, 0xBD]"

definition first_rune :: "nat list \<Rightarrow> nat list" where
  "first_rune bs =
     (if rune_width bs = 1 \<and> bs \<noteq> [] \<and> 0x80 \<le> hd bs then rune_error else take (rune_width bs) bs)"

function runes_of :: "nat list \<Rightarrow> nat list list" where
  "runes_of bs = (if bs = [] then [] else first_rune bs # runes_of (drop (rune_width bs) bs))"
  by pat_completeness auto
termination
  by (relation "measure length") (auto simp: rune_width_pos)

declare runes_of.simps [simp del]

definition runes :: "str \<Rightarrow> nat list list" where
  "runes s = runes_of (map of_char s)"

text \<open>\<open>unicode.ToLower\<close> on the ASCII runes; the others are left as they are.\<close>

definition lower_rune :: "nat list \<Rightarrow> nat list" where
  "lower_rune r = (case r of [b] \<Rightarrow> if 65 \<le> b \<and> b \<le> 90 then [b + 32] else [b] | _ \<Rightarrow> r)"

lemma length_runes: "length (runes s) = rune_count s"
proof -
  have "length (runes_of bs) = count_runes bs" for bs
  proof (induction bs rule: runes_of.induct)
    case (1 bs)
    then show ?case by (simp add: runes_of.simps [of bs] count_runes.simps [of bs])
  qed
  then show ?thesis by (simp add: runes_def rune_count_def)
qed

end
