(* ===== verification/Auth_Domain.thy ===== *)
theory Auth_Domain
  imports Config_Module Go_Runes
begin

text \<open>
  The vocabulary of authentication (internal/core/auth/domain): subjects, identities, credentials,
  tokens and sessions, permissions and roles. The smart constructors are the only way the code
  builds these values, so what they accept is the invariant of each type.
\<close>

definition auth_incomplete :: "str \<Rightarrow> err" where
  "auth_incomplete what = Errorf [W (Sentinel (Auth AuthErrIncomplete)), Lit ('': '' @ what)]"

lemma auth_incomplete_is [simp]: "errors_is (auth_incomplete w) k \<longleftrightarrow> k = Auth AuthErrIncomplete"
  by (auto simp: auth_incomplete_def)

section \<open>Subjects\<close>

definition subjectMaxLen :: nat where "subjectMaxLen = 254"

record subject = sub_value :: str

definition NewSubject :: "str \<Rightarrow> err + subject" where
  "NewSubject raw =
     (let normalized = normalize raw in
      if normalized = [] then Inl (auth_incomplete ''the subject is mandatory'')
      else if length normalized > subjectMaxLen then Inl (auth_incomplete ''the subject is too long'')
      else if contains_any normalized (CHR 0x09 # CHR 0x0A # '' '') then
        Inl (auth_incomplete ''the subject cannot contain a space'')
      else Inr \<lparr> sub_value = normalized \<rparr>)"

definition subject_IsZero :: "subject \<Rightarrow> bool" where
  "subject_IsZero s \<longleftrightarrow> sub_value s = []"

definition Masked :: "subject \<Rightarrow> str" where
  "Masked s =
     (if length (sub_value s) \<le> 2 then ''***''
      else case cut CHR ''@'' (sub_value s) of (local_part, domain_part, found) \<Rightarrow>
        if found \<and> local_part \<noteq> [] then take 1 local_part @ ''***@'' @ domain_part
        else take 1 (sub_value s) @ ''***'')"

text \<open>Spelling the subject differently changes nothing, and what is built is a fixed point.\<close>

lemma NewSubject_normalized:
  assumes "NewSubject raw = Inr s"
  shows "sub_value s = normalize raw" and "sub_value s \<noteq> []" and "length (sub_value s) \<le> subjectMaxLen"
    and "NewSubject (sub_value s) = Inr s"
  using assms by (auto simp: NewSubject_def Let_def split: if_splits)

lemma NewSubject_error: "NewSubject raw = Inl e \<Longrightarrow> errors_is e (Auth AuthErrIncomplete)"
  by (auto simp: NewSubject_def Let_def split: if_splits)

section \<open>Identities and credentials\<close>

record identity =
  id_ID :: str
  id_Subject :: subject
  id_Roles :: "str list"
  id_Active :: bool
  id_CreatedAt :: time

fun normalizeRoles :: "str list \<Rightarrow> str list" where
  "normalizeRoles [] = []"
| "normalizeRoles (r # rs) =
     (let trimmed = normalize r in if trimmed \<noteq> [] then trimmed # normalizeRoles rs else normalizeRoles rs)"

definition NewIdentity :: "str \<Rightarrow> subject \<Rightarrow> str list \<Rightarrow> time \<Rightarrow> err + identity" where
  "NewIdentity i subj roles now =
     (if i = [] then Inl (auth_incomplete ''the identifier is mandatory'')
      else if subject_IsZero subj then Inl (auth_incomplete ''the subject is mandatory'')
      else Inr \<lparr> id_ID = i, id_Subject = subj, id_Roles = normalizeRoles roles, id_Active = True,
                 id_CreatedAt = now \<rparr>)"

definition WithRoles :: "str list \<Rightarrow> identity \<Rightarrow> identity" where
  "WithRoles roles i = i\<lparr> id_Roles := normalizeRoles roles \<rparr>"

definition Deactivated :: "identity \<Rightarrow> identity" where
  "Deactivated i = i\<lparr> id_Active := False \<rparr>"

definition Reactivated :: "identity \<Rightarrow> identity" where
  "Reactivated i = i\<lparr> id_Active := True \<rparr>"

lemma set_normalizeRoles: "set (normalizeRoles rs) = normalize ` set rs - {[]}"
  by (induction rs) (auto simp: Let_def)

lemma normalizeRoles_idem [simp]: "normalizeRoles (normalizeRoles rs) = normalizeRoles rs"
  by (induction rs) (auto simp: Let_def)

record credential =
  cr_identity :: identity
  cr_secretHash :: str

definition NewCredential :: "identity \<Rightarrow> str \<Rightarrow> err + credential" where
  "NewCredential i h =
     (if id_ID i = [] then Inl (auth_incomplete ''the identity is mandatory'')
      else if h = [] then Inl (auth_incomplete ''the secret digest is mandatory'')
      else Inr \<lparr> cr_identity = i, cr_secretHash = h \<rparr>)"

text \<open>What prints a credential never shows the digest.\<close>

definition credential_String :: "credential \<Rightarrow> str" where
  "credential_String c = ''Credential{identity: '' @ id_ID (cr_identity c) @ '', secretHash: ***}''"

section \<open>Tokens and sessions\<close>

definition tokenMinLen :: nat where "tokenMinLen = 43"

record token = tok_value :: str

definition NewToken :: "str \<Rightarrow> err + token" where
  "NewToken raw =
     (if length raw < tokenMinLen then
        Inl (auth_incomplete (''a token must be at least '' @ show_nat tokenMinLen @ '' characters long''))
      else Inr \<lparr> tok_value = raw \<rparr>)"

definition token_IsZero :: "token \<Rightarrow> bool" where
  "token_IsZero t \<longleftrightarrow> tok_value t = []"

text \<open>\<open>subtle.ConstantTimeCompare\<close>: the value of the comparison, not its time.\<close>

definition token_Equals :: "token \<Rightarrow> token \<Rightarrow> bool" where
  "token_Equals a b \<longleftrightarrow> tok_value a = tok_value b"

record session =
  ses_Token :: token
  ses_Identity :: str
  ses_IssuedAt :: time
  ses_ExpiresAt :: time

definition NewSession :: "token \<Rightarrow> str \<Rightarrow> time \<Rightarrow> duration \<Rightarrow> err + session" where
  "NewSession t i now ttl =
     (if token_IsZero t then Inl (auth_incomplete ''the token is mandatory'')
      else if i = [] then Inl (auth_incomplete ''the identity is mandatory'')
      else if ttl \<le> 0 then Inl (auth_incomplete ''the session lifetime must be strictly positive'')
      else Inr \<lparr> ses_Token = t, ses_Identity = i, ses_IssuedAt = now, ses_ExpiresAt = now + ttl \<rparr>)"

definition Expired :: "session \<Rightarrow> time \<Rightarrow> bool" where
  "Expired s now \<longleftrightarrow> \<not> now < ses_ExpiresAt s"

lemma NewSession_sel: "NewSession t i now ttl = Inr x \<Longrightarrow>
    ses_Token x = t \<and> ses_Identity x = i \<and> ses_ExpiresAt x = now + ttl \<and> 0 < ttl \<and> i \<noteq> []"
  by (auto simp: NewSession_def split: if_splits)

lemma NewToken_Inr: "NewToken raw = Inr t \<longleftrightarrow> tokenMinLen \<le> length raw \<and> t = \<lparr> tok_value = raw \<rparr>"
  by (auto simp: NewToken_def)

lemma NewToken_not_zero: "NewToken raw = Inr t \<Longrightarrow> \<not> token_IsZero t"
  by (auto simp: NewToken_Inr token_IsZero_def tokenMinLen_def)

section \<open>Permissions and roles\<close>

definition is_lower :: "char \<Rightarrow> bool" where
  "is_lower c \<longleftrightarrow> (let n = of_char c :: nat in 97 \<le> n \<and> n \<le> 122)"

text \<open>One segment: \<open>[a-z][a-z0-9_]*\<close>. The whole: three of them joined by dots.\<close>

definition segment_ok :: "str \<Rightarrow> bool" where
  "segment_ok s \<longleftrightarrow> s \<noteq> [] \<and> is_lower (hd s)
     \<and> list_all (\<lambda>c. is_lower c \<or> is_digit c \<or> c = CHR ''_'') (tl s)"

definition permissionShape :: "str \<Rightarrow> bool" where
  "permissionShape s \<longleftrightarrow> (let segs = split_char CHR ''.'' s in length segs = 3 \<and> list_all segment_ok segs)"

record permission = per_value :: str

definition NewPermission :: "str \<Rightarrow> err + permission" where
  "NewPermission raw =
     (let normalized = normalize raw in
      if \<not> permissionShape normalized then
        Inl (auth_incomplete (''permission '' @ quote_text raw @ '' '' @ em_dash
          @ '' expected `domain.resource.action` in lowercase''))
      else Inr \<lparr> per_value = normalized \<rparr>)"

definition permission_IsZero :: "permission \<Rightarrow> bool" where
  "permission_IsZero p \<longleftrightarrow> per_value p = []"

lemma NewPermission_value: "NewPermission raw = Inr p \<Longrightarrow>
    per_value p = normalize raw \<and> permissionShape (per_value p) \<and> \<not> permission_IsZero p"
  by (auto simp: NewPermission_def Let_def permission_IsZero_def permissionShape_def split: if_splits)

text \<open>A permission has exactly the three segments \<open>domain.resource.action\<close>.\<close>

lemma permissionShape_three:
  assumes "permissionShape s"
  shows "\<exists>a b c. s = a @ ''.'' @ b @ ''.'' @ c \<and> segment_ok a \<and> segment_ok b \<and> segment_ok c"
proof -
  obtain a b c where "split_char CHR ''.'' s = [a, b, c]" and "segment_ok a" "segment_ok b" "segment_ok c"
    using assms by (auto simp: permissionShape_def Let_def numeral_3_eq_3 length_Suc_conv)
  then show ?thesis
    using split_char_join [of "CHR ''.''" s] by (intro exI [of _ a] exI [of _ b] exI [of _ c]) simp
qed

record role =
  role_Name :: str
  role_Permissions :: "permission list"

text \<open>The duplicates go through a map, and the kept permissions are sorted.\<close>

definition NewRole :: "str \<Rightarrow> permission list \<Rightarrow> err + role" where
  "NewRole nm permissions =
     (let trimmed = normalize nm in
      if trimmed = [] then Inl (auth_incomplete ''the role name is mandatory'')
      else if list_ex permission_IsZero permissions then
        Inl (auth_incomplete (''role '' @ quote_text trimmed @ '' carries a permission that was never built''))
      else Inr \<lparr> role_Name = trimmed,
                 role_Permissions = map (\<lambda>v. \<lparr> per_value = v \<rparr>) (sort_strings (remdups (map per_value permissions))) \<rparr>)"

definition role_Grants :: "role \<Rightarrow> permission \<Rightarrow> bool" where
  "role_Grants r p \<longleftrightarrow> list_ex (\<lambda>g. g = p) (role_Permissions r)"

lemma NewRole_grants:
  assumes "NewRole nm ps = Inr r"
  shows "role_Name r = normalize nm" and "role_Grants r p \<longleftrightarrow> p \<in> set ps"
proof -
  have "p \<in> (\<lambda>v. \<lparr> per_value = v \<rparr>) ` per_value ` set ps \<longleftrightarrow> p \<in> set ps"
    by (auto simp: image_iff) (metis permission.surjective old.unit.exhaust)+
  then show "role_Grants r p \<longleftrightarrow> p \<in> set ps"
    using assms by (auto simp: NewRole_def role_Grants_def Let_def list_ex_iff split: if_splits)
qed (use assms in \<open>auto simp: NewRole_def Let_def split: if_splits\<close>)

end
