(* ===== verification/Auth_Store.thy ===== *)
theory Auth_Store
  imports Auth_Domain
begin

text \<open>
  The store of the auth module: the contract the use cases rely on, as a locale
  (the secondary ports of internal/core/auth/ports/ports.go), and the in-memory driver
  (internal/core/auth/drivers/memory) that keeps it.
\<close>

section \<open>The memory driver\<close>

record auth_store =
  bySubject :: "(str, str) gomap"
  credentials :: "(str, credential) gomap"
  roles :: "(str, role) gomap"
  sessions :: "(str, session) gomap"

definition new_auth_store :: auth_store where
  "new_auth_store = \<lparr> bySubject = [], credentials = [], roles = [], sessions = [] \<rparr>"

definition auth_err :: "auth_sentinel \<Rightarrow> err" where
  "auth_err k = Sentinel (Auth k)"

lemma auth_err_is [simp]: "errors_is (auth_err k) t \<longleftrightarrow> t = Auth k"
  by (auto simp: auth_err_def)

definition SaveIdentity :: "credential \<Rightarrow> auth_store \<Rightarrow> err option \<times> auth_store" where
  "SaveIdentity c s =
     (let subj = sub_value (id_Subject (cr_identity c)); i = id_ID (cr_identity c) in
      if map_get (bySubject s) subj \<noteq> None then (Some (auth_err ErrSubjectTaken), s)
      else (None, s\<lparr> bySubject := map_set subj i (bySubject s), credentials := map_set i c (credentials s) \<rparr>))"

definition FindBySubject :: "subject \<Rightarrow> auth_store \<Rightarrow> err + credential" where
  "FindBySubject subj s =
     (case map_get (bySubject s) (sub_value subj) of
        None \<Rightarrow> Inl (auth_err ErrInvalidCredentials)
      | Some i \<Rightarrow> (case map_get (credentials s) i of
          None \<Rightarrow> Inl (auth_err ErrInvalidCredentials)
        | Some c \<Rightarrow> Inr c))"

definition FindIdentity :: "str \<Rightarrow> auth_store \<Rightarrow> err + identity" where
  "FindIdentity i s =
     (case map_get (credentials s) i of
        None \<Rightarrow> Inl (auth_err ErrTokenUnknown)
      | Some c \<Rightarrow> Inr (cr_identity c))"

definition UpdateIdentity :: "identity \<Rightarrow> auth_store \<Rightarrow> err option \<times> auth_store" where
  "UpdateIdentity i s =
     (case map_get (credentials s) (id_ID i) of
        None \<Rightarrow> (Some (auth_err ErrInvalidCredentials), s)
      | Some c \<Rightarrow> (case NewCredential i (cr_secretHash c) of
          Inl e \<Rightarrow> (Some (Errorf [Lit ''updating the identity: '', W e]), s)
        | Inr u \<Rightarrow> (None, s\<lparr> credentials := map_set (id_ID i) u (credentials s) \<rparr>)))"

definition Count :: "auth_store \<Rightarrow> nat" where
  "Count s = length (credentials s)"

definition SaveRole :: "role \<Rightarrow> auth_store \<Rightarrow> err option \<times> auth_store" where
  "SaveRole r s = (None, s\<lparr> roles := map_set (role_Name r) r (roles s) \<rparr>)"

definition rebind :: "credential \<Rightarrow> str list \<Rightarrow> credential" where
  "rebind c rs =
     (case NewCredential (WithRoles rs (cr_identity c)) (cr_secretHash c) of Inl e \<Rightarrow> c | Inr u \<Rightarrow> u)"

definition store_AssignRoles :: "str \<Rightarrow> str list \<Rightarrow> auth_store \<Rightarrow> err option \<times> auth_store" where
  "store_AssignRoles i rs s =
     (case map_get (credentials s) i of
        None \<Rightarrow> (Some (auth_err ErrInvalidCredentials), s)
      | Some c \<Rightarrow> (None, s\<lparr> credentials := map_set i (rebind c rs) (credentials s) \<rparr>))"

definition store_Grants :: "str \<Rightarrow> permission \<Rightarrow> auth_store \<Rightarrow> bool" where
  "store_Grants i p s =
     (case map_get (credentials s) i of
        None \<Rightarrow> False
      | Some c \<Rightarrow> if \<not> id_Active (cr_identity c) then False
          else list_ex (\<lambda>nm. case map_get (roles s) nm of None \<Rightarrow> False | Some r \<Rightarrow> role_Grants r p)
                 (id_Roles (cr_identity c)))"

definition SaveSession :: "session \<Rightarrow> auth_store \<Rightarrow> err option \<times> auth_store" where
  "SaveSession x s = (None, s\<lparr> sessions := map_set (tok_value (ses_Token x)) x (sessions s) \<rparr>)"

definition FindSession :: "token \<Rightarrow> auth_store \<Rightarrow> err + session" where
  "FindSession t s =
     (case map_get (sessions s) (tok_value t) of
        None \<Rightarrow> Inl (auth_err ErrTokenUnknown) | Some x \<Rightarrow> Inr x)"

definition DeleteSession :: "token \<Rightarrow> auth_store \<Rightarrow> err option \<times> auth_store" where
  "DeleteSession t s = (None, s\<lparr> sessions := map_del (tok_value t) (sessions s) \<rparr>)"

definition PurgeExpired :: "time \<Rightarrow> auth_store \<Rightarrow> nat \<times> auth_store" where
  "PurgeExpired now s =
     (length (filter (\<lambda>(k, x). Expired x now) (sessions s)),
      s\<lparr> sessions := filter (\<lambda>(k, x). \<not> Expired x now) (sessions s) \<rparr>)"

section \<open>The contract\<close>

text \<open>
  What the use cases rely on, whatever keeps the identities, the roles and the sessions: a
  credential is found under its subject and its identifier, and stays what was last written;
  a session is found until it is deleted; a grant is an active identity with a role that holds
  the permission. \<open>cred\<close>, \<open>sess\<close> and \<open>rol\<close> abstract the store.
\<close>

locale auth_contract =
  fixes inv :: "'s \<Rightarrow> bool"
    and cred :: "'s \<Rightarrow> str \<Rightarrow> credential option"
    and sess :: "'s \<Rightarrow> str \<Rightarrow> session option"
    and rol :: "'s \<Rightarrow> str \<Rightarrow> role option"
    and save_identity :: "credential \<Rightarrow> 's \<Rightarrow> err option \<times> 's"
    and find_by_subject :: "subject \<Rightarrow> 's \<Rightarrow> err + credential"
    and find_identity :: "str \<Rightarrow> 's \<Rightarrow> err + identity"
    and update_identity :: "identity \<Rightarrow> 's \<Rightarrow> err option \<times> 's"
    and bind_roles :: "str \<Rightarrow> str list \<Rightarrow> 's \<Rightarrow> err option \<times> 's"
    and grants :: "str \<Rightarrow> permission \<Rightarrow> 's \<Rightarrow> bool"
    and save_session :: "session \<Rightarrow> 's \<Rightarrow> err option \<times> 's"
    and find_session :: "token \<Rightarrow> 's \<Rightarrow> err + session"
    and delete_session :: "token \<Rightarrow> 's \<Rightarrow> err option \<times> 's"
    and save_role :: "role \<Rightarrow> 's \<Rightarrow> err option \<times> 's"
  assumes unique_subject: "inv s \<Longrightarrow> cred s i = Some c \<Longrightarrow> cred s j = Some d \<Longrightarrow>
        id_Subject (cr_identity c) = id_Subject (cr_identity d) \<Longrightarrow> i = j"
    and own_id: "inv s \<Longrightarrow> cred s i = Some c \<Longrightarrow> id_ID (cr_identity c) = i \<and> i \<noteq> [] \<and> cr_secretHash c \<noteq> []"
    and by_subject: "inv s \<Longrightarrow> find_by_subject subj s = Inr c \<longleftrightarrow>
        cred s (id_ID (cr_identity c)) = Some c \<and> id_Subject (cr_identity c) = subj"
    and by_subject_error: "inv s \<Longrightarrow> find_by_subject subj s = Inl e \<Longrightarrow> e = Sentinel (Auth ErrInvalidCredentials)"
    and by_id: "find_identity i s = Inr idn \<longleftrightarrow> (\<exists>c. cred s i = Some c \<and> cr_identity c = idn)"
    and save_taken: "inv s \<Longrightarrow> cred s i = Some d \<Longrightarrow> id_Subject (cr_identity d) = id_Subject (cr_identity c) \<Longrightarrow>
        save_identity c s = (Some (Sentinel (Auth ErrSubjectTaken)), s)"
    and save_new: "inv s \<Longrightarrow> \<forall>i d. cred s i = Some d \<longrightarrow> id_Subject (cr_identity d) \<noteq> id_Subject (cr_identity c) \<Longrightarrow>
        cred s (id_ID (cr_identity c)) = None \<Longrightarrow> id_ID (cr_identity c) \<noteq> [] \<Longrightarrow> cr_secretHash c \<noteq> [] \<Longrightarrow>
        save_identity c s = (r, s') \<Longrightarrow>
        r = None \<and> inv s' \<and> cred s' = (cred s)(id_ID (cr_identity c) \<mapsto> c) \<and> sess s' = sess s \<and> rol s' = rol s"
    and update_known: "inv s \<Longrightarrow> cred s (id_ID idn) = Some c \<Longrightarrow> id_Subject idn = id_Subject (cr_identity c) \<Longrightarrow>
        update_identity idn s = (r, s') \<Longrightarrow>
        r = None \<and> inv s' \<and> cred s' = (cred s)(id_ID idn \<mapsto> c\<lparr> cr_identity := idn \<rparr>) \<and> sess s' = sess s \<and> rol s' = rol s"
    and bind_known: "inv s \<Longrightarrow> cred s i = Some c \<Longrightarrow> bind_roles i rs s = (r, s') \<Longrightarrow>
        r = None \<and> inv s' \<and> sess s' = sess s \<and> rol s' = rol s
        \<and> cred s' = (cred s)(i \<mapsto> c\<lparr> cr_identity := WithRoles rs (cr_identity c) \<rparr>)"
    and bind_unknown: "cred s i = None \<Longrightarrow> bind_roles i rs s = (Some (Sentinel (Auth ErrInvalidCredentials)), s)"
    and grants_iff: "grants i p s \<longleftrightarrow> (\<exists>c. cred s i = Some c \<and> id_Active (cr_identity c)
        \<and> (\<exists>nm \<in> set (id_Roles (cr_identity c)). \<exists>r. rol s nm = Some r \<and> role_Grants r p))"
    and save_session_ok: "inv s \<Longrightarrow> save_session x s = (r, s') \<Longrightarrow>
        r = None \<and> inv s' \<and> sess s' = (sess s)(tok_value (ses_Token x) \<mapsto> x) \<and> cred s' = cred s \<and> rol s' = rol s"
    and find_session_iff: "find_session t s = Inr x \<longleftrightarrow> sess s (tok_value t) = Some x"
    and delete_session_ok: "inv s \<Longrightarrow> delete_session t s = (r, s') \<Longrightarrow>
        r = None \<and> inv s' \<and> sess s' = (sess s)(tok_value t := None) \<and> cred s' = cred s \<and> rol s' = rol s"
    and save_role_ok: "inv s \<Longrightarrow> save_role ro s = (r, s') \<Longrightarrow>
        r = None \<and> inv s' \<and> rol s' = (rol s)(role_Name ro \<mapsto> ro) \<and> cred s' = cred s \<and> sess s' = sess s"

section \<open>The memory driver keeps it\<close>

definition auth_inv :: "auth_store \<Rightarrow> bool" where
  "auth_inv s \<longleftrightarrow>
     (\<forall>subj i. map_get (bySubject s) subj = Some i \<longrightarrow>
        (\<exists>c. map_get (credentials s) i = Some c \<and> sub_value (id_Subject (cr_identity c)) = subj))
     \<and> (\<forall>i c. map_get (credentials s) i = Some c \<longrightarrow>
        id_ID (cr_identity c) = i \<and> i \<noteq> [] \<and> cr_secretHash c \<noteq> []
        \<and> map_get (bySubject s) (sub_value (id_Subject (cr_identity c))) = Some i)"

lemma auth_inv_new: "auth_inv new_auth_store"
  by (simp add: auth_inv_def new_auth_store_def)

lemma subject_eq: "sub_value a = sub_value b \<Longrightarrow> a = b" for a b :: subject
  by (cases a, cases b) simp

lemma credential_rewrite: "\<lparr> cr_identity = x, cr_secretHash = cr_secretHash c \<rparr> = c\<lparr> cr_identity := x \<rparr>"
  for c :: credential
  by (cases c) simp

lemma auth_inv_cred: "auth_inv s \<Longrightarrow> map_get (credentials s) i = Some c \<Longrightarrow>
    id_ID (cr_identity c) = i \<and> i \<noteq> [] \<and> cr_secretHash c \<noteq> []
    \<and> map_get (bySubject s) (sub_value (id_Subject (cr_identity c))) = Some i"
  by (simp add: auth_inv_def)

lemma auth_inv_subject: "auth_inv s \<Longrightarrow> map_get (bySubject s) subj = Some i \<Longrightarrow>
    \<exists>c. map_get (credentials s) i = Some c \<and> sub_value (id_Subject (cr_identity c)) = subj"
  by (simp add: auth_inv_def)

lemma auth_inv_replace:
  assumes "auth_inv s" and "map_get (credentials s) i = Some c"
    and "id_ID (cr_identity d) = i" and "cr_secretHash d \<noteq> []"
    and "id_Subject (cr_identity d) = id_Subject (cr_identity c)"
  shows "auth_inv (s\<lparr> credentials := map_set i d (credentials s) \<rparr>)"
  using assms by (auto simp: auth_inv_def) fastforce

interpretation memory: auth_contract auth_inv "\<lambda>s. map_get (credentials s)" "\<lambda>s. map_get (sessions s)"
  "\<lambda>s. map_get (roles s)" SaveIdentity FindBySubject FindIdentity UpdateIdentity store_AssignRoles store_Grants
  SaveSession FindSession DeleteSession SaveRole
proof
  fix s i j c d
  assume inv: "auth_inv s" and c: "map_get (credentials s) i = Some c" and d: "map_get (credentials s) j = Some d"
    and eq: "id_Subject (cr_identity c) = id_Subject (cr_identity d)"
  show "i = j" using auth_inv_cred [OF inv c] auth_inv_cred [OF inv d] eq by simp
next
  fix s i c
  assume "auth_inv s" "map_get (credentials s) i = Some c"
  then show "id_ID (cr_identity c) = i \<and> i \<noteq> [] \<and> cr_secretHash c \<noteq> []"
    using auth_inv_cred by blast
next
  fix s subj c
  assume inv: "auth_inv s"
  show "FindBySubject subj s = Inr c \<longleftrightarrow>
      map_get (credentials s) (id_ID (cr_identity c)) = Some c \<and> id_Subject (cr_identity c) = subj"
  proof
    assume "FindBySubject subj s = Inr c"
    then obtain i where i: "map_get (bySubject s) (sub_value subj) = Some i" "map_get (credentials s) i = Some c"
      by (auto simp: FindBySubject_def split: option.splits)
    then have "sub_value (id_Subject (cr_identity c)) = sub_value subj"
      using inv by (force simp: auth_inv_def)
    then show "map_get (credentials s) (id_ID (cr_identity c)) = Some c \<and> id_Subject (cr_identity c) = subj"
      using auth_inv_cred [OF inv i(2)] i subject_eq by metis
  next
    assume "map_get (credentials s) (id_ID (cr_identity c)) = Some c \<and> id_Subject (cr_identity c) = subj"
    then show "FindBySubject subj s = Inr c"
      using auth_inv_cred [OF inv, of "id_ID (cr_identity c)" c] by (auto simp: FindBySubject_def)
  qed
next
  fix s subj e
  assume "FindBySubject subj s = Inl e"
  then show "e = Sentinel (Auth ErrInvalidCredentials)"
    by (auto simp: FindBySubject_def auth_err_def split: option.splits)
next
  fix s i d and c :: credential
  assume inv: "auth_inv s" and d: "map_get (credentials s) i = Some d"
    and eq: "id_Subject (cr_identity d) = id_Subject (cr_identity c)"
  show "SaveIdentity c s = (Some (Sentinel (Auth ErrSubjectTaken)), s)"
    using auth_inv_cred [OF inv d] eq by (simp add: SaveIdentity_def Let_def auth_err_def)
next
  fix s and c :: credential and r s'
  assume inv: "auth_inv s"
    and new: "\<forall>i d. map_get (credentials s) i = Some d \<longrightarrow> id_Subject (cr_identity d) \<noteq> id_Subject (cr_identity c)"
    and fresh: "map_get (credentials s) (id_ID (cr_identity c)) = None"
    and ok: "id_ID (cr_identity c) \<noteq> []" "cr_secretHash c \<noteq> []"
    and eq: "SaveIdentity c s = (r, s')"
  let ?u = "sub_value (id_Subject (cr_identity c))" and ?i = "id_ID (cr_identity c)"
  have free: "map_get (bySubject s) ?u = None"
  proof (rule ccontr)
    assume "map_get (bySubject s) ?u \<noteq> None"
    then obtain i d where "map_get (credentials s) i = Some d" "sub_value (id_Subject (cr_identity d)) = ?u"
      using auth_inv_subject [OF inv] by blast
    then show False using new subject_eq by blast
  qed
  then have s': "r = None" "s' = s\<lparr> bySubject := map_set ?u ?i (bySubject s), credentials := map_set ?i c (credentials s) \<rparr>"
    using eq by (auto simp: SaveIdentity_def Let_def)
  have "auth_inv s'"
    using inv fresh free ok unfolding s'(2) auth_inv_def
    by (auto split: if_splits) (metis option.distinct(1))+
  then show "r = None \<and> auth_inv s' \<and> map_get (credentials s') = (map_get (credentials s))(?i \<mapsto> c)
      \<and> map_get (sessions s') = map_get (sessions s) \<and> map_get (roles s') = map_get (roles s)"
    by (simp add: s' fun_eq_iff)
next
  fix s x c r s'
  assume inv: "auth_inv s" and c: "map_get (credentials s) (id_ID x) = Some c"
    and eqs: "id_Subject x = id_Subject (cr_identity c)" and eq: "UpdateIdentity x s = (r, s')"
  have k: "id_ID x \<noteq> []" "cr_secretHash c \<noteq> []" using auth_inv_cred [OF inv c] by auto
  then have s': "r = None" "s' = s\<lparr> credentials := map_set (id_ID x) (c\<lparr> cr_identity := x \<rparr>) (credentials s) \<rparr>"
    using eq c by (auto simp: UpdateIdentity_def NewCredential_def credential_rewrite)
  have "auth_inv s'" unfolding s'(2)
    by (rule auth_inv_replace [OF inv c]) (use k eqs in auto)
  then show "r = None \<and> auth_inv s' \<and> map_get (credentials s') = (map_get (credentials s))(id_ID x \<mapsto> c\<lparr> cr_identity := x \<rparr>)
      \<and> map_get (sessions s') = map_get (sessions s) \<and> map_get (roles s') = map_get (roles s)"
    by (simp add: s' fun_eq_iff)
next
  fix s i c rs r s'
  assume inv: "auth_inv s" and c: "map_get (credentials s) i = Some c" and eq: "store_AssignRoles i rs s = (r, s')"
  have k: "id_ID (cr_identity c) = i" "i \<noteq> []" "cr_secretHash c \<noteq> []" using auth_inv_cred [OF inv c] by auto
  then have rb: "rebind c rs = c\<lparr> cr_identity := WithRoles rs (cr_identity c) \<rparr>"
    by (simp add: rebind_def NewCredential_def WithRoles_def credential_rewrite)
  then have s': "r = None" "s' = s\<lparr> credentials := map_set i (c\<lparr> cr_identity := WithRoles rs (cr_identity c) \<rparr>) (credentials s) \<rparr>"
    using eq c by (auto simp: store_AssignRoles_def)
  have "auth_inv s'" unfolding s'(2)
    by (rule auth_inv_replace [OF inv c]) (use k in \<open>auto simp: WithRoles_def\<close>)
  then show "r = None \<and> auth_inv s' \<and> map_get (sessions s') = map_get (sessions s) \<and> map_get (roles s') = map_get (roles s)
      \<and> map_get (credentials s') = (map_get (credentials s))(i \<mapsto> c\<lparr> cr_identity := WithRoles rs (cr_identity c) \<rparr>)"
    by (simp add: s' fun_eq_iff)
next
  fix i p s
  show "store_Grants i p s \<longleftrightarrow> (\<exists>c. map_get (credentials s) i = Some c \<and> id_Active (cr_identity c)
        \<and> (\<exists>nm \<in> set (id_Roles (cr_identity c)). \<exists>r. map_get (roles s) nm = Some r \<and> role_Grants r p))"
    by (auto simp: store_Grants_def list_ex_iff split: option.splits)
qed (auto simp: FindIdentity_def store_AssignRoles_def SaveSession_def FindSession_def DeleteSession_def SaveRole_def
      auth_err_def auth_inv_def split: option.splits)

end
