(* ===== verification/Go_Base64.thy ===== *)
theory Go_Base64
  imports Go_Prelude
begin

text \<open>
  \<open>base64.RawURLEncoding\<close>: the URL alphabet, without padding. The decoder skips line breaks and
  does not check the bits left over in the last group, as Go's does.
\<close>

definition b64_char :: "nat \<Rightarrow> char" where
  "b64_char n =
     (if n < 26 then char_of (65 + n) else if n < 52 then char_of (71 + n)
      else if n < 62 then char_of (n - 4) else if n = 62 then CHR ''-'' else CHR ''_'')"

definition b64_value :: "char \<Rightarrow> nat option" where
  "b64_value c =
     (let n = of_char c :: nat in
      if 65 \<le> n \<and> n \<le> 90 then Some (n - 65) else if 97 \<le> n \<and> n \<le> 122 then Some (n - 71)
      else if 48 \<le> n \<and> n \<le> 57 then Some (n + 4) else if n = 45 then Some 62
      else if n = 95 then Some 63 else None)"

definition byte :: "char \<Rightarrow> nat" where
  "byte c = of_char c"

fun b64_encode :: "bytes \<Rightarrow> str" where
  "b64_encode [] = []"
| "b64_encode [a] = [b64_char (byte a div 4), b64_char (byte a mod 4 * 16)]"
| "b64_encode [a, b] = [b64_char (byte a div 4), b64_char (byte a mod 4 * 16 + byte b div 16),
     b64_char (byte b mod 16 * 4)]"
| "b64_encode (a # b # c # bs) =
     b64_char (byte a div 4) # b64_char (byte a mod 4 * 16 + byte b div 16)
     # b64_char (byte b mod 16 * 4 + byte c div 64) # b64_char (byte c mod 64) # b64_encode bs"

fun b64_groups :: "nat list \<Rightarrow> bytes option" where
  "b64_groups [] = Some []"
| "b64_groups [a] = None"
| "b64_groups [a, b] = Some [char_of (a * 4 + b div 16)]"
| "b64_groups [a, b, c] = Some [char_of (a * 4 + b div 16), char_of (b mod 16 * 16 + c div 4)]"
| "b64_groups (a # b # c # d # ns) =
     (case b64_groups ns of None \<Rightarrow> None
      | Some bs \<Rightarrow> Some (char_of (a * 4 + b div 16) # char_of (b mod 16 * 16 + c div 4)
                     # char_of (c mod 4 * 64 + d) # bs))"

fun all_some :: "'a option list \<Rightarrow> 'a list option" where
  "all_some [] = Some []"
| "all_some (None # xs) = None"
| "all_some (Some x # xs) = (case all_some xs of None \<Rightarrow> None | Some ys \<Rightarrow> Some (x # ys))"

definition b64_decode :: "str \<Rightarrow> bytes option" where
  "b64_decode s =
     (case all_some (map b64_value (filter (\<lambda>c. c \<noteq> CHR 0x0A \<and> c \<noteq> CHR 0x0D) s)) of
        None \<Rightarrow> None | Some ns \<Rightarrow> b64_groups ns)"

lemma byte_lt: "byte c < 256"
  unfolding byte_def by (rule nat_of_char_less_256)

lemma sextet [simp]:
  "byte a div 4 < 64" "byte a mod 4 * 16 + byte b div 16 < 64" "byte b mod 16 * 4 + byte c div 64 < 64"
  "byte a mod 4 * 16 < 64" "byte b mod 16 * 4 < 64"
proof -
  have b: "byte x div 16 < 16" "byte x div 64 < 4" "byte x div 4 < 64" "byte x mod 4 < 4" "byte x mod 16 < 16" for x
    using byte_lt [of x] by (simp_all add: less_mult_imp_div_less)
  show "byte a div 4 < 64" by (rule b)
  show "byte a mod 4 * 16 + byte b div 16 < 64" using b(1) [of b] b(4) [of a] by linarith
  show "byte b mod 16 * 4 + byte c div 64 < 64" using b(2) [of c] b(5) [of b] by linarith
  show "byte a mod 4 * 16 < 64" using b(4) [of a] by linarith
  show "byte b mod 16 * 4 < 64" using b(5) [of b] by linarith
qed

lemma regroup [simp]:
  "byte a div 4 * 4 + (byte a mod 4 * 16 + byte b div 16) div 16 = byte a"
  "(byte a mod 4 * 16 + byte b div 16) mod 16 * 16 + (byte b mod 16 * 4 + byte c div 64) div 4 = byte b"
  "(byte b mod 16 * 4 + byte c div 64) mod 4 * 64 + byte c mod 64 = byte c"
  "byte a div 4 * 4 + byte a mod 4 * 16 div 16 = byte a"
  "(byte a mod 4 * 16 + byte b div 16) mod 16 * 16 + byte b mod 16 * 4 div 4 = byte b"
proof -
  have b: "byte x div 16 < 16" "byte x div 64 < 4" for x
    using byte_lt [of x] by (simp_all add: less_mult_imp_div_less)
  show "byte a div 4 * 4 + (byte a mod 4 * 16 + byte b div 16) div 16 = byte a"
    using b(1) [of b] by (simp add: div_add1_eq)
  show "(byte a mod 4 * 16 + byte b div 16) mod 16 * 16 + (byte b mod 16 * 4 + byte c div 64) div 4 = byte b"
    using b(1) [of b] b(2) [of c] by (simp add: mod_add_eq [symmetric] div_add1_eq)
  show "(byte b mod 16 * 4 + byte c div 64) mod 4 * 64 + byte c mod 64 = byte c"
    using b(2) [of c] by simp
  show "byte a div 4 * 4 + byte a mod 4 * 16 div 16 = byte a" by simp
  show "(byte a mod 4 * 16 + byte b div 16) mod 16 * 16 + byte b mod 16 * 4 div 4 = byte b"
    using b(1) [of b] by simp
qed

lemma byte_nibble [simp]:
  "byte b div 16 div 16 = 0" "byte b div 16 mod 16 = byte b div 16"
proof -
  have "byte b div 16 < 16" using byte_lt [of b] by (simp add: less_mult_imp_div_less)
  then show "byte b div 16 div 16 = 0" "byte b div 16 mod 16 = byte b div 16" by simp_all
qed

lemma byte_pair [simp]:
  "byte c div 64 div 4 = 0" "byte c div 64 mod 4 = byte c div 64"
proof -
  have "byte c div 64 < 4" using byte_lt [of c] by (simp add: less_mult_imp_div_less)
  then show "byte c div 64 div 4 = 0" "byte c div 64 mod 4 = byte c div 64" by simp_all
qed

lemma char_of_byte [simp]: "char_of (byte c) = c"
  by (simp add: byte_def)

lemma b64_value_char [simp]: "n < 64 \<Longrightarrow> b64_value (b64_char n) = Some n"
  by (auto simp: b64_value_def b64_char_def Let_def)

lemma b64_char_not_newline [simp]:
  assumes "n < 64" shows "b64_char n \<noteq> CHR 0x0A" and "b64_char n \<noteq> CHR 0x0D"
proof -
  have "b64_value (b64_char n) \<noteq> None" using assms by simp
  moreover have "b64_value CHR 0x0A = None" "b64_value CHR 0x0D = None"
    by (simp_all add: b64_value_def)
  ultimately show "b64_char n \<noteq> CHR 0x0A" and "b64_char n \<noteq> CHR 0x0D" by metis+
qed

lemma b64_values:
  "map b64_value (filter (\<lambda>c. c \<noteq> CHR 0x0A \<and> c \<noteq> CHR 0x0D) (b64_encode bs)) = map b64_value (b64_encode bs)"
  by (induction bs rule: b64_encode.induct) simp_all

lemma b64_decode_encode [simp]: "b64_decode (b64_encode bs) = Some bs"
proof -
  have "\<exists>ns. all_some (map b64_value (b64_encode bs)) = Some ns \<and> b64_groups ns = Some bs"
  proof (induction bs rule: b64_encode.induct)
    case (2 a)
    then show ?case by simp
  next
    case (3 a b)
    then show ?case by (simp add: div_mult_mod_eq)
  next
    case (4 a b c bs)
    then obtain ns where "all_some (map b64_value (b64_encode bs)) = Some ns" "b64_groups ns = Some bs"
      by blast
    then show ?case by (simp add: div_mult_mod_eq)
  qed simp
  then show ?thesis by (auto simp: b64_decode_def b64_values)
qed

lemma b64_encode_inject: "b64_encode a = b64_encode b \<longleftrightarrow> a = b"
  by (metis b64_decode_encode option.inject)

lemma length_b64_encode: "length (b64_encode bs) = (4 * length bs + 2) div 3"
  by (induction bs rule: b64_encode.induct) simp_all

lemma b64_encode_empty [simp]: "b64_encode bs = [] \<longleftrightarrow> bs = []"
  by (cases bs rule: b64_encode.cases) simp_all

text \<open>\<open>base64.StdEncoding\<close>: the other two signs, and padding to a multiple of four. Line breaks are
  skipped wherever they are.\<close>

definition std_value :: "char \<Rightarrow> nat option" where
  "std_value c =
     (if c = CHR ''+'' then Some 62 else if c = CHR ''/'' then Some 63
      else if c = CHR ''-'' \<or> c = CHR ''_'' then None else b64_value c)"

definition std_decode :: "str \<Rightarrow> bytes option" where
  "std_decode s =
     (let t = filter (\<lambda>c. c \<noteq> CHR 0x0A \<and> c \<noteq> CHR 0x0D) s;
          body = takeWhile (\<lambda>c. c \<noteq> CHR ''='') t; pad = dropWhile (\<lambda>c. c \<noteq> CHR ''='') t
      in if length t mod 4 \<noteq> 0 \<or> pad \<notin> {[], ''='', ''==''} then None
         else case all_some (map std_value body) of None \<Rightarrow> None | Some ns \<Rightarrow> b64_groups ns)"

end
