(* ===== verification/Auth_Application.thy ===== *)
theory Auth_Application
  imports Auth_Store Go_Base64
begin

text \<open>
  The use cases of authentication (internal/core/auth/application) over any ports, their wiring
  (\<open>assemble\<close> of internal/core/auth/module.go) and what they guarantee over any store that keeps
  the contract \<open>auth_contract\<close>.
\<close>

section \<open>The use cases\<close>

record 'w auth_deps =
  a_SaveIdentity :: "credential \<Rightarrow> 'w \<Rightarrow> err option \<times> 'w"
  a_FindBySubject :: "subject \<Rightarrow> 'w \<Rightarrow> err + credential"
  a_FindIdentity :: "str \<Rightarrow> 'w \<Rightarrow> err + identity"
  a_UpdateIdentity :: "identity \<Rightarrow> 'w \<Rightarrow> err option \<times> 'w"
  a_SaveSession :: "session \<Rightarrow> 'w \<Rightarrow> err option \<times> 'w"
  a_FindSession :: "token \<Rightarrow> 'w \<Rightarrow> err + session"
  a_DeleteSession :: "token \<Rightarrow> 'w \<Rightarrow> err option \<times> 'w"
  a_Grants :: "str \<Rightarrow> permission \<Rightarrow> 'w \<Rightarrow> bool"
  a_SaveRole :: "role \<Rightarrow> 'w \<Rightarrow> err option \<times> 'w"
  a_BindRoles :: "str \<Rightarrow> str list \<Rightarrow> 'w \<Rightarrow> err option \<times> 'w"
  a_HashSecret :: "str \<Rightarrow> 'w \<Rightarrow> (err + str) \<times> 'w"
  a_VerifySecret :: "str \<Rightarrow> str \<Rightarrow> err + bool"
  a_Now :: "'w \<Rightarrow> time \<times> 'w"
  a_NewToken :: "'w \<Rightarrow> (err + token) \<times> 'w"
  a_NewIdentityID :: "'w \<Rightarrow> str \<times> 'w"
  a_SessionTTL :: duration

definition wrapped :: "str \<Rightarrow> err \<Rightarrow> err" where
  "wrapped what e = Errorf [Lit (what @ '': ''), W e]"

lemma wrapped_is [simp]: "errors_is (wrapped what e) k \<longleftrightarrow> errors_is e k"
  by (simp add: wrapped_def)

definition secretMinLen :: nat where "secretMinLen = 12"

definition Register :: "'w auth_deps \<Rightarrow> str \<Rightarrow> str \<Rightarrow> 'w \<Rightarrow> (err + identity) \<times> 'w" where
  "Register d rawSubject secret w =
     (case NewSubject rawSubject of
        Inl e \<Rightarrow> (Inl (wrapped ''subject'' e), w)
      | Inr subj \<Rightarrow>
          if rune_count secret < secretMinLen then
            (Inl (auth_incomplete (''the secret must be at least '' @ show_nat secretMinLen @ '' characters long'')), w)
          else case a_HashSecret d secret w of
            (Inl e, w1) \<Rightarrow> (Inl (wrapped ''hashing the secret'' e), w1)
          | (Inr h, w1) \<Rightarrow>
            (case a_NewIdentityID d w1 of (i, w2) \<Rightarrow>
             case a_Now d w2 of (now, w3) \<Rightarrow>
             case NewIdentity i subj [] now of
               Inl e \<Rightarrow> (Inl (wrapped ''creating the identity'' e), w3)
             | Inr idn \<Rightarrow>
               (case NewCredential idn h of
                  Inl e \<Rightarrow> (Inl (wrapped ''assembling the credential'' e), w3)
                | Inr c \<Rightarrow>
                  (case a_SaveIdentity d c w3 of
                     (Some e, w4) \<Rightarrow> (Inl (wrapped ''saving the identity'' e), w4)
                   | (None, w4) \<Rightarrow> (Inr idn, w4)))))"

definition unmasked :: "err \<Rightarrow> err" where
  "unmasked e =
     (if errors_is e (Auth ErrInvalidCredentials) then Sentinel (Auth ErrInvalidCredentials)
      else wrapped ''authentication'' e)"

definition issue :: "'w auth_deps \<Rightarrow> str \<Rightarrow> 'w \<Rightarrow> (err + session) \<times> 'w" where
  "issue d i w =
     (case a_NewToken d w of
        (Inl e, w1) \<Rightarrow> (Inl (wrapped ''producing the token'' e), w1)
      | (Inr t, w1) \<Rightarrow>
          (case a_Now d w1 of (now, w2) \<Rightarrow>
           case NewSession t i now (a_SessionTTL d) of
             Inl e \<Rightarrow> (Inl (wrapped ''opening the session'' e), w2)
           | Inr x \<Rightarrow>
               (case a_SaveSession d x w2 of
                  (Some e, w3) \<Rightarrow> (Inl (wrapped ''saving the session'' e), w3)
                | (None, w3) \<Rightarrow> (Inr x, w3))))"

definition Authenticate :: "'w auth_deps \<Rightarrow> str \<Rightarrow> str \<Rightarrow> 'w \<Rightarrow> (err + session) \<times> 'w" where
  "Authenticate d rawSubject secret w =
     (case NewSubject rawSubject of
        Inl e \<Rightarrow> (Inl (Sentinel (Auth ErrInvalidCredentials)), w)
      | Inr subj \<Rightarrow>
          (case a_FindBySubject d subj w of
             Inl e \<Rightarrow> (Inl (unmasked e), w)
           | Inr c \<Rightarrow>
               if \<not> id_Active (cr_identity c) then (Inl (Sentinel (Auth ErrInvalidCredentials)), w)
               else case a_VerifySecret d secret (cr_secretHash c) of
                 Inl e \<Rightarrow> (Inl (wrapped ''comparing the secret'' e), w)
               | Inr matches \<Rightarrow>
                   if \<not> matches then (Inl (Sentinel (Auth ErrInvalidCredentials)), w)
                   else issue d (id_ID (cr_identity c)) w))"

definition Verify :: "'w auth_deps \<Rightarrow> token \<Rightarrow> 'w \<Rightarrow> (err + identity) \<times> 'w" where
  "Verify d t w =
     (if token_IsZero t then (Inl (Sentinel (Auth ErrTokenUnknown)), w)
      else case a_FindSession d t w of
        Inl e \<Rightarrow> (Inl (Sentinel (Auth ErrTokenUnknown)), w)
      | Inr x \<Rightarrow>
          (case a_Now d w of (now, w1) \<Rightarrow>
             if Expired x now then (Inl (Sentinel (Auth ErrTokenUnknown)), w1)
             else case a_FindIdentity d (ses_Identity x) w1 of
               Inl e \<Rightarrow> (Inl (Sentinel (Auth ErrTokenUnknown)), w1)
             | Inr idn \<Rightarrow>
                 if \<not> id_Active idn then (Inl (Sentinel (Auth ErrTokenUnknown)), w1) else (Inr idn, w1)))"

definition Revoke :: "'w auth_deps \<Rightarrow> token \<Rightarrow> 'w \<Rightarrow> err option \<times> 'w" where
  "Revoke d t w =
     (if token_IsZero t then (Some (Sentinel (Auth AuthErrIncomplete)), w) else a_DeleteSession d t w)"

definition Authorize :: "'w auth_deps \<Rightarrow> str \<Rightarrow> permission \<Rightarrow> 'w \<Rightarrow> err option" where
  "Authorize d i p w =
     (if i = [] \<or> permission_IsZero p then Some (Sentinel (Auth AuthErrIncomplete))
      else if \<not> a_Grants d i p w then Some (Sentinel (Auth ErrForbidden))
      else None)"

definition setActive :: "'w auth_deps \<Rightarrow> (identity \<Rightarrow> identity) \<Rightarrow> str \<Rightarrow> 'w \<Rightarrow> err option \<times> 'w" where
  "setActive d transition i w =
     (if i = [] then (Some (auth_incomplete ''the identity is mandatory''), w)
      else case a_FindIdentity d i w of
        Inl e \<Rightarrow> (Some (wrapped ''identity'' e), w)
      | Inr idn \<Rightarrow>
          (case a_UpdateIdentity d (transition idn) w of
             (Some e, w1) \<Rightarrow> (Some (wrapped ''updating the identity'' e), w1)
           | (None, w1) \<Rightarrow> (None, w1)))"

definition Deactivate :: "'w auth_deps \<Rightarrow> str \<Rightarrow> 'w \<Rightarrow> err option \<times> 'w" where
  "Deactivate d = setActive d Deactivated"

definition Reactivate :: "'w auth_deps \<Rightarrow> str \<Rightarrow> 'w \<Rightarrow> err option \<times> 'w" where
  "Reactivate d = setActive d Reactivated"

fun build_permissions :: "str \<Rightarrow> str list \<Rightarrow> permission list \<Rightarrow> err + permission list" where
  "build_permissions nm [] acc = Inr acc"
| "build_permissions nm (c # cs) acc =
     (case NewPermission c of
        Inl e \<Rightarrow> Inl (Errorf [Lit (''role '' @ quote_text nm @ '': ''), W e])
      | Inr p \<Rightarrow> build_permissions nm cs (acc @ [p]))"

definition DefineRole :: "'w auth_deps \<Rightarrow> str \<Rightarrow> str list \<Rightarrow> 'w \<Rightarrow> err option \<times> 'w" where
  "DefineRole d nm raw w =
     (case build_permissions nm raw [] of
        Inl e \<Rightarrow> (Some e, w)
      | Inr ps \<Rightarrow>
          (case NewRole nm ps of
             Inl e \<Rightarrow> (Some (wrapped ''defining the role'' e), w)
           | Inr r \<Rightarrow>
               (case a_SaveRole d r w of
                  (Some e, w1) \<Rightarrow> (Some (wrapped ''saving the role'' e), w1)
                | (None, w1) \<Rightarrow> (None, w1))))"

definition AssignRoles :: "'w auth_deps \<Rightarrow> str \<Rightarrow> str list \<Rightarrow> 'w \<Rightarrow> err option \<times> 'w" where
  "AssignRoles d i rs w =
     (if i = [] then (Some (auth_incomplete ''the identity is mandatory''), w)
      else case a_BindRoles d i rs w of
        (Some e, w1) \<Rightarrow> (Some (wrapped ''assigning the roles'' e), w1)
      | (None, w1) \<Rightarrow> (None, w1))"

lemma build_permissions_Inr:
  "build_permissions nm cs acc = Inr ps \<Longrightarrow>
     per_value ` set ps = per_value ` set acc \<union> normalize ` set cs \<and> (\<forall>c \<in> set cs. permissionShape (normalize c))"
  by (induction nm cs acc arbitrary: ps rule: build_permissions.induct)
     (auto dest!: NewPermission_value split: sum.splits)

section \<open>The wiring\<close>

text \<open>The outside: the clock, the entropy behind tokens and identifiers, the hashing of secrets.\<close>

record 'e auth_env =
  ae_now :: "'e \<Rightarrow> time \<times> 'e"
  ae_rand :: "nat \<Rightarrow> 'e \<Rightarrow> (err + bytes) \<times> 'e"
  ae_hash :: "str \<Rightarrow> 'e \<Rightarrow> (err + str) \<times> 'e"
  ae_verify :: "str \<Rightarrow> str \<Rightarrow> err + bool"

record ('s, 'e) auth_world =
  aw_store :: 's
  aw_env :: 'e

definition on_store :: "('s \<Rightarrow> 'r \<times> 's) \<Rightarrow> ('s, 'e) auth_world \<Rightarrow> 'r \<times> ('s, 'e) auth_world" where
  "on_store f w = (case f (aw_store w) of (r, s) \<Rightarrow> (r, w\<lparr> aw_store := s \<rparr>))"

definition on_env :: "('e \<Rightarrow> 'r \<times> 'e) \<Rightarrow> ('s, 'e) auth_world \<Rightarrow> 'r \<times> ('s, 'e) auth_world" where
  "on_env f w = (case f (aw_env w) of (r, v) \<Rightarrow> (r, w\<lparr> aw_env := v \<rparr>))"

text \<open>\<open>ae_rand\<close> is \<open>crypto/rand.Read\<close> of that many bytes; a token and an identifier are the
  encoding of what it gives, and an identifier is empty when it fails.\<close>

definition tokenBytes :: nat where
  "tokenBytes = 32"

definition randomToken :: "(nat \<Rightarrow> 'e \<Rightarrow> (err + bytes) \<times> 'e) \<Rightarrow> 'e \<Rightarrow> (err + token) \<times> 'e" where
  "randomToken entropy v =
     (case entropy tokenBytes v of
        (Inl e, v') \<Rightarrow> (Inl (wrapped ''entropy unavailable'' e), v')
      | (Inr raw, v') \<Rightarrow>
          (case NewToken (b64_encode raw) of Inl e \<Rightarrow> (Inl (wrapped ''token'' e), v') | Inr t \<Rightarrow> (Inr t, v')))"

definition randomIdentityID :: "(nat \<Rightarrow> 'e \<Rightarrow> (err + bytes) \<times> 'e) \<Rightarrow> 'e \<Rightarrow> str \<times> 'e" where
  "randomIdentityID entropy v =
     (case entropy tokenBytes v of (Inl _, v') \<Rightarrow> ([], v') | (Inr raw, v') \<Rightarrow> (b64_encode raw, v'))"

text \<open>Thirty-two bytes are long enough for \<open>NewToken\<close>: the draw fails only when the entropy does.\<close>

lemma randomToken_drawn:
  assumes "entropy tokenBytes v = (Inr raw, v')" and "length raw = tokenBytes"
  shows "randomToken entropy v = (Inr \<lparr> tok_value = b64_encode raw \<rparr>, v')"
  using assms by (simp add: randomToken_def NewToken_def tokenMinLen_def tokenBytes_def length_b64_encode)

lemma randomToken_not_zero: "randomToken entropy v = (Inr t, v') \<Longrightarrow> \<not> token_IsZero t"
  using NewToken_not_zero by (auto simp: randomToken_def split: sum.splits prod.splits)

record 's auth_ops =
  o_SaveIdentity :: "credential \<Rightarrow> 's \<Rightarrow> err option \<times> 's"
  o_FindBySubject :: "subject \<Rightarrow> 's \<Rightarrow> err + credential"
  o_FindIdentity :: "str \<Rightarrow> 's \<Rightarrow> err + identity"
  o_UpdateIdentity :: "identity \<Rightarrow> 's \<Rightarrow> err option \<times> 's"
  o_AssignRoles :: "str \<Rightarrow> str list \<Rightarrow> 's \<Rightarrow> err option \<times> 's"
  o_Grants :: "str \<Rightarrow> permission \<Rightarrow> 's \<Rightarrow> bool"
  o_SaveSession :: "session \<Rightarrow> 's \<Rightarrow> err option \<times> 's"
  o_FindSession :: "token \<Rightarrow> 's \<Rightarrow> err + session"
  o_DeleteSession :: "token \<Rightarrow> 's \<Rightarrow> err option \<times> 's"
  o_SaveRole :: "role \<Rightarrow> 's \<Rightarrow> err option \<times> 's"

definition assemble :: "'s auth_ops \<Rightarrow> 'e auth_env \<Rightarrow> duration \<Rightarrow> ('s, 'e) auth_world auth_deps" where
  "assemble ops e ttl =
     \<lparr> a_SaveIdentity = (\<lambda>c. on_store (o_SaveIdentity ops c)),
       a_FindBySubject = (\<lambda>subj w. o_FindBySubject ops subj (aw_store w)),
       a_FindIdentity = (\<lambda>i w. o_FindIdentity ops i (aw_store w)),
       a_UpdateIdentity = (\<lambda>i. on_store (o_UpdateIdentity ops i)),
       a_SaveSession = (\<lambda>x. on_store (o_SaveSession ops x)),
       a_FindSession = (\<lambda>t w. o_FindSession ops t (aw_store w)),
       a_DeleteSession = (\<lambda>t. on_store (o_DeleteSession ops t)),
       a_Grants = (\<lambda>i p w. o_Grants ops i p (aw_store w)),
       a_SaveRole = (\<lambda>r. on_store (o_SaveRole ops r)),
       a_BindRoles = (\<lambda>i rs. on_store (o_AssignRoles ops i rs)),
       a_HashSecret = (\<lambda>plain. on_env (ae_hash e plain)),
       a_VerifySecret = ae_verify e,
       a_Now = on_env (ae_now e),
       a_NewToken = on_env (randomToken (ae_rand e)),
       a_NewIdentityID = on_env (randomIdentityID (ae_rand e)),
       a_SessionTTL = ttl \<rparr>"

text \<open>What a credential lets in: found under the spelling given, active, and the secret matches.\<close>

definition accepts :: "'e auth_env \<Rightarrow> (str \<Rightarrow> credential option) \<Rightarrow> str \<Rightarrow> str \<Rightarrow> str \<Rightarrow> bool" where
  "accepts e creds raw secret i \<longleftrightarrow>
     (\<exists>c. NewSubject raw = Inr (id_Subject (cr_identity c)) \<and> creds i = Some c
        \<and> id_Active (cr_identity c) \<and> ae_verify e secret (cr_secretHash c) = Inr True)"

context auth_contract begin

definition ops :: "'s auth_ops" where
  "ops = \<lparr> o_SaveIdentity = save_identity, o_FindBySubject = find_by_subject, o_FindIdentity = find_identity,
     o_UpdateIdentity = update_identity, o_AssignRoles = bind_roles, o_Grants = grants,
     o_SaveSession = save_session, o_FindSession = find_session, o_DeleteSession = delete_session,
     o_SaveRole = save_role \<rparr>"

lemma ops_sel:
  "o_SaveIdentity ops = save_identity" "o_FindBySubject ops = find_by_subject"
  "o_FindIdentity ops = find_identity" "o_UpdateIdentity ops = update_identity"
  "o_AssignRoles ops = bind_roles" "o_Grants ops = grants" "o_SaveSession ops = save_session"
  "o_FindSession ops = find_session" "o_DeleteSession ops = delete_session" "o_SaveRole ops = save_role"
  by (simp_all add: ops_def)

lemmas wiring = assemble_def on_store_def on_env_def ops_sel

lemma Verify_spec:
  assumes "inv (aw_store w)" and "ae_now e (aw_env w) = (now, v)"
  shows "Verify (assemble ops e ttl) t w = (Inr idn, w') \<longleftrightarrow>
     w' = w\<lparr> aw_env := v \<rparr> \<and> \<not> token_IsZero t
     \<and> (\<exists>x c. sess (aw_store w) (tok_value t) = Some x \<and> \<not> Expired x now
          \<and> cred (aw_store w) (ses_Identity x) = Some c \<and> id_Active (cr_identity c) \<and> idn = cr_identity c)"
proof -
  let ?fs = "find_session t (aw_store w)"
  show ?thesis
  proof (cases ?fs)
    case (Inl y)
    then have "\<not> (\<exists>x. sess (aw_store w) (tok_value t) = Some x)"
      using find_session_iff [of t "aw_store w"] by auto
    then show ?thesis using Inl by (auto simp: Verify_def wiring)
  next
    case (Inr x)
    then have x: "sess (aw_store w) (tok_value t) = Some x" using find_session_iff by blast
    show ?thesis
    proof (cases "find_identity (ses_Identity x) (aw_store w)")
      case F: (Inl y)
      then have "cred (aw_store w) (ses_Identity x) = None"
        using by_id [of "ses_Identity x" "aw_store w"] by (cases "cred (aw_store w) (ses_Identity x)") auto
      then show ?thesis using F Inr x assms(2) by (auto simp: Verify_def wiring)
    next
      case F: (Inr y)
      then obtain c where "cred (aw_store w) (ses_Identity x) = Some c" "cr_identity c = y"
        using by_id [of "ses_Identity x" "aw_store w"] by auto
      then show ?thesis using F Inr x assms(2) by (auto simp: Verify_def wiring)
    qed
  qed
qed

lemma Verify_error: "Verify d t w = (Inl x, w') \<Longrightarrow> x = Sentinel (Auth ErrTokenUnknown)"
  by (auto simp: Verify_def split: if_splits sum.splits prod.splits)

lemma Verify_store: "aw_store (snd (Verify (assemble ops e ttl) t w)) = aw_store w"
  by (simp add: Verify_def wiring split: sum.split prod.split)

lemma issue_Inr:
  assumes "inv (aw_store w)" and "issue (assemble ops e ttl) i w = (Inr x, w')"
  shows "\<exists>v1 v2 now. randomToken (ae_rand e) (aw_env w) = (Inr (ses_Token x), v1) \<and> ae_now e v1 = (now, v2)
     \<and> aw_env w' = v2 \<and> NewSession (ses_Token x) i now ttl = Inr x \<and> inv (aw_store w')
     \<and> sess (aw_store w') = (sess (aw_store w))(tok_value (ses_Token x) \<mapsto> x)
     \<and> cred (aw_store w') = cred (aw_store w) \<and> rol (aw_store w') = rol (aw_store w)"
proof -
  obtain t v1 where t: "randomToken (ae_rand e) (aw_env w) = (Inr t, v1)"
    using assms(2) by (cases "randomToken (ae_rand e) (aw_env w)")
      (auto simp: issue_def wiring split: sum.splits)
  obtain now v2 where n: "ae_now e v1 = (now, v2)" by (cases "ae_now e v1")
  obtain r s' where sv: "save_session x (aw_store w) = (r, s')" by (cases "save_session x (aw_store w)")
  have ns: "NewSession t i now ttl = Inr x" and w': "w' = w\<lparr> aw_env := v2, aw_store := s' \<rparr>"
    using assms(2) t n sv by (auto simp: issue_def wiring split: sum.splits option.splits prod.splits)
  have "ses_Token x = t" using NewSession_sel [OF ns] by simp
  then show ?thesis using t n ns w' save_session_ok [OF assms(1) sv] by simp
qed

lemma Authenticate_Inr:
  assumes inv: "inv (aw_store w)" and eq: "Authenticate (assemble ops e ttl) raw secret w = (Inr x, w')"
  shows "accepts e (cred (aw_store w)) raw secret (ses_Identity x)
     \<and> issue (assemble ops e ttl) (ses_Identity x) w = (Inr x, w')"
proof -
  obtain subj where subj: "NewSubject raw = Inr subj"
    using eq by (cases "NewSubject raw") (auto simp: Authenticate_def)
  obtain c where f: "find_by_subject subj (aw_store w) = Inr c"
    using eq subj by (cases "find_by_subject subj (aw_store w)") (auto simp: Authenticate_def wiring)
  then have c: "cred (aw_store w) (id_ID (cr_identity c)) = Some c" "id_Subject (cr_identity c) = subj"
    using by_subject [OF inv] by blast+
  have act: "id_Active (cr_identity c)" and v: "ae_verify e secret (cr_secretHash c) = Inr True"
    and iss: "issue (assemble ops e ttl) (id_ID (cr_identity c)) w = (Inr x, w')"
    using eq subj f by (auto simp: Authenticate_def wiring split: if_splits sum.splits)
  have "ses_Identity x = id_ID (cr_identity c)"
    using issue_Inr [OF inv iss] NewSession_sel by blast
  then show ?thesis using c act v iss subj by (auto simp: accepts_def)
qed

text \<open>What lets nobody in is refused with one and the same error.\<close>

lemma Authenticate_refused:
  assumes inv: "inv (aw_store w)"
    and no: "\<forall>c i. NewSubject raw = Inr (id_Subject (cr_identity c)) \<and> cred (aw_store w) i = Some c \<longrightarrow>
        \<not> id_Active (cr_identity c) \<or> ae_verify e secret (cr_secretHash c) = Inr False"
  shows "Authenticate (assemble ops e ttl) raw secret w = (Inl (Sentinel (Auth ErrInvalidCredentials)), w)"
proof (cases "NewSubject raw")
  case (Inl x)
  then show ?thesis by (simp add: Authenticate_def)
next
  case (Inr subj)
  show ?thesis
  proof (cases "find_by_subject subj (aw_store w)")
    case F: (Inl x)
    then show ?thesis
      using Inr by_subject_error [OF inv F] by (simp add: Authenticate_def wiring unmasked_def)
  next
    case F: (Inr c)
    then have "cred (aw_store w) (id_ID (cr_identity c)) = Some c" "id_Subject (cr_identity c) = subj"
      using by_subject [OF inv] by blast+
    then show ?thesis using no F Inr by (auto simp: Authenticate_def wiring)
  qed
qed

lemma Authenticate_accepted:
  assumes inv: "inv (aw_store w)" and ok: "accepts e (cred (aw_store w)) raw secret i"
  shows "Authenticate (assemble ops e ttl) raw secret w = issue (assemble ops e ttl) i w"
proof -
  obtain c where c: "NewSubject raw = Inr (id_Subject (cr_identity c))" "cred (aw_store w) i = Some c"
    "id_Active (cr_identity c)" "ae_verify e secret (cr_secretHash c) = Inr True"
    using ok by (auto simp: accepts_def)
  have "id_ID (cr_identity c) = i" using own_id [OF inv c(2)] by simp
  moreover then have "find_by_subject (id_Subject (cr_identity c)) (aw_store w) = Inr c"
    using by_subject [OF inv] c(2) by simp
  ultimately show ?thesis using c by (simp add: Authenticate_def wiring)
qed

lemma setActive_spec:
  assumes inv: "inv (aw_store w)" and tr: "tr = Deactivated \<or> tr = Reactivated"
  shows "case cred (aw_store w) i of
      Some c \<Rightarrow> (case setActive (assemble ops e ttl) tr i w of (r, w') \<Rightarrow>
          r = None \<and> inv (aw_store w') \<and> aw_env w' = aw_env w
          \<and> cred (aw_store w') = (cred (aw_store w))(i \<mapsto> c\<lparr> cr_identity := tr (cr_identity c) \<rparr>)
          \<and> sess (aw_store w') = sess (aw_store w) \<and> rol (aw_store w') = rol (aw_store w))
    | None \<Rightarrow> (case setActive (assemble ops e ttl) tr i w of (r, w') \<Rightarrow> r \<noteq> None \<and> w' = w)"
proof (cases "cred (aw_store w) i")
  case None
  then have "\<exists>x. find_identity i (aw_store w) = Inl x"
    using by_id [of i "aw_store w"] by (cases "find_identity i (aw_store w)") auto
  then show ?thesis using None by (auto simp: setActive_def wiring)
next
  case (Some c)
  have k: "id_ID (cr_identity c) = i" "i \<noteq> []" using own_id [OF inv Some] by auto
  have f: "find_identity i (aw_store w) = Inr (cr_identity c)" using by_id Some by blast
  obtain r s' where u: "update_identity (tr (cr_identity c)) (aw_store w) = (r, s')"
    by (cases "update_identity (tr (cr_identity c)) (aw_store w)")
  have "id_ID (tr (cr_identity c)) = i" "id_Subject (tr (cr_identity c)) = id_Subject (cr_identity c)"
    using k tr by (auto simp: Deactivated_def Reactivated_def)
  then have "r = None \<and> inv s' \<and> cred s' = (cred (aw_store w))(i \<mapsto> c\<lparr> cr_identity := tr (cr_identity c) \<rparr>)
      \<and> sess s' = sess (aw_store w) \<and> rol s' = rol (aw_store w)"
    using update_known [OF inv _ _ u] Some by simp
  then show ?thesis using Some k f u by (simp add: setActive_def wiring)
qed

lemma Register_Inr:
  assumes inv: "inv (aw_store w)" and eq: "Register (assemble ops e ttl) raw secret w = (Inr idn, w')"
    and fresh: "\<And>v. cred (aw_store w) (fst (randomIdentityID (ae_rand e) v)) = None"
  shows "\<exists>h v1. ae_hash e secret (aw_env w) = (Inr h, v1) \<and> h \<noteq> [] \<and> id_ID idn \<noteq> []
     \<and> NewSubject raw = Inr (id_Subject idn) \<and> id_Active idn \<and> id_Roles idn = [] \<and> secretMinLen \<le> rune_count secret
     \<and> (\<forall>i d. cred (aw_store w) i = Some d \<longrightarrow> id_Subject (cr_identity d) \<noteq> id_Subject idn)
     \<and> inv (aw_store w') \<and> cred (aw_store w') = (cred (aw_store w))(id_ID idn \<mapsto> \<lparr> cr_identity = idn, cr_secretHash = h \<rparr>)
     \<and> sess (aw_store w') = sess (aw_store w) \<and> rol (aw_store w') = rol (aw_store w)"
proof -
  obtain subj where subj: "NewSubject raw = Inr subj" and len: "secretMinLen \<le> rune_count secret"
    using eq by (cases "NewSubject raw") (auto simp: Register_def split: if_splits)
  obtain h v1 where h: "ae_hash e secret (aw_env w) = (Inr h, v1)"
    using eq subj len by (cases "ae_hash e secret (aw_env w)") (auto simp: Register_def wiring split: sum.splits)
  obtain i v2 where i: "randomIdentityID (ae_rand e) v1 = (i, v2)" by (cases "randomIdentityID (ae_rand e) v1")
  obtain now v3 where n: "ae_now e v2 = (now, v3)" by (cases "ae_now e v2")
  let ?c = "\<lparr> cr_identity = idn, cr_secretHash = h \<rparr>"
  obtain r s' where sv: "save_identity ?c (aw_store w) = (r, s')" by (cases "save_identity ?c (aw_store w)")
  have "NewIdentity i subj [] now = Inr idn \<and> NewCredential idn h = Inr ?c"
    using eq subj len h i n
    by (auto simp: Register_def wiring NewCredential_def split: sum.splits option.splits prod.splits if_splits)
  then have idn: "NewIdentity i subj [] now = Inr idn" and cr: "NewCredential idn h = Inr ?c" by auto
  have r: "r = None" and w': "w' = w\<lparr> aw_env := v3, aw_store := s' \<rparr>"
    using eq subj len h i n idn cr sv by (auto simp: Register_def wiring split: option.splits)
  have x: "id_ID idn = i" "id_Subject idn = subj" "id_Active idn" "id_Roles idn = []" "i \<noteq> []" "h \<noteq> []"
    using idn cr by (auto simp: NewIdentity_def NewCredential_def split: if_splits)
  have new: "\<forall>j d. cred (aw_store w) j = Some d \<longrightarrow> id_Subject (cr_identity d) \<noteq> id_Subject (cr_identity ?c)"
    using save_taken [OF inv, of _ _ ?c] sv r by fastforce
  have "cred (aw_store w) (id_ID (cr_identity ?c)) = None"
    using fresh [of v1] i x by simp
  then have "inv s' \<and> cred s' = (cred (aw_store w))(id_ID idn \<mapsto> ?c) \<and> sess s' = sess (aw_store w) \<and> rol s' = rol (aw_store w)"
    using save_new [OF inv new _ _ _ sv] x by simp
  then show ?thesis using h x subj len new w' by auto
qed

end

end
