(* ===== verification/Auth_Properties.thy ===== *)
theory Auth_Properties
  imports Auth_Application
begin

text \<open>
  What authentication guarantees with the memory store: the round trip from registration to a
  verified token, the uniform refusal, the immediate effect of a deactivation and of a revocation,
  authorisation through roles, and one account per subject in every history.
\<close>

definition memory_ops :: "auth_store auth_ops" where
  "memory_ops = \<lparr> o_SaveIdentity = SaveIdentity, o_FindBySubject = FindBySubject, o_FindIdentity = FindIdentity,
     o_UpdateIdentity = UpdateIdentity, o_AssignRoles = store_AssignRoles, o_Grants = store_Grants,
     o_SaveSession = SaveSession, o_FindSession = FindSession, o_DeleteSession = DeleteSession,
     o_SaveRole = SaveRole \<rparr>"

lemma memory_ops [simp]: "memory.ops = memory_ops"
  by (simp add: memory.ops_def memory_ops_def)

lemmas auth_Verify = memory.Verify_spec [unfolded memory_ops]
  and auth_Verify_store = memory.Verify_store [unfolded memory_ops]
  and auth_issue = memory.issue_Inr [unfolded memory_ops]
  and auth_Authenticate = memory.Authenticate_Inr [unfolded memory_ops]
  and auth_refused = memory.Authenticate_refused [unfolded memory_ops]
  and auth_accepted = memory.Authenticate_accepted [unfolded memory_ops]
  and auth_setActive = memory.setActive_spec [unfolded memory_ops]
  and auth_Register = memory.Register_Inr [unfolded memory_ops]

text \<open>What the code relies on from the password hashing: a digest verifies the secret it was
  made from, and the comparison never fails on it.\<close>

definition hashing_sound :: "'e auth_env \<Rightarrow> bool" where
  "hashing_sound e \<longleftrightarrow> (\<forall>p v h v'. ae_hash e p v = (Inr h, v') \<longrightarrow> ae_verify e p h = Inr True)"

definition fresh_ids :: "'e auth_env \<Rightarrow> auth_store \<Rightarrow> bool" where
  "fresh_ids e s \<longleftrightarrow> (\<forall>v. map_get (credentials s) (fst (randomIdentityID (ae_rand e) v)) = None)"

section \<open>A concrete world, for the witnesses\<close>

definition demo_id :: str where
  "demo_id = replicate 43 CHR ''A''"

lemma demo_id: "b64_encode (replicate 32 CHR 0x00) = demo_id"
  by code_simp

lemma demo_id_nonempty [simp]: "demo_id \<noteq> []"
  by (simp add: demo_id_def)

definition demo_auth_env :: "nat auth_env" where
  "demo_auth_env = \<lparr> ae_now = (\<lambda>v. (int v, v)), ae_rand = (\<lambda>n v. (Inr (replicate n CHR 0x00), v + 1)),
     ae_hash = (\<lambda>p v. (Inr (''h'' @ p), v)),
     ae_verify = (\<lambda>p h. Inr (h = ''h'' @ p)) \<rparr>"

definition demo_auth :: "(auth_store, nat) auth_world auth_deps" where
  "demo_auth = assemble memory_ops demo_auth_env hour"

definition demo_identity :: identity where
  "demo_identity = \<lparr> id_ID = demo_id, id_Subject = \<lparr> sub_value = ''alice'' \<rparr>, id_Roles = [], id_Active = True,
     id_CreatedAt = 8 \<rparr>"

definition demo_auth_store :: auth_store where
  "demo_auth_store = \<lparr> bySubject = [(''alice'', demo_id)],
     credentials = [(demo_id, \<lparr> cr_identity = demo_identity, cr_secretHash = ''hcorrect horse'' \<rparr>)],
     roles = [], sessions = [] \<rparr>"

definition demo_empty :: "(auth_store, nat) auth_world" where
  "demo_empty = \<lparr> aw_store = new_auth_store, aw_env = 7 \<rparr>"

definition demo_alice :: "(auth_store, nat) auth_world" where
  "demo_alice = \<lparr> aw_store = demo_auth_store, aw_env = 8 \<rparr>"

lemma demo_draw [simp]:
  "randomIdentityID (\<lambda>n v. (Inr (replicate n CHR 0x00), Suc v)) v = (demo_id, Suc v)"
  by (simp add: randomIdentityID_def tokenBytes_def demo_id)

lemma demo_sound: "hashing_sound demo_auth_env" and demo_fresh: "fresh_ids demo_auth_env new_auth_store"
  by (auto simp: hashing_sound_def fresh_ids_def demo_auth_env_def new_auth_store_def)

lemma demo_auth_inv: "auth_inv demo_auth_store"
  by (auto simp: auth_inv_def demo_auth_store_def demo_identity_def split: if_splits)

lemma normalize_alice: "normalize '' Alice '' = ''alice''" "normalize ''alice'' = ''alice''"
  by code_simp+

lemma NewSubject_alice: "NewSubject '' Alice '' = Inr \<lparr> sub_value = ''alice'' \<rparr>"
  by (simp add: NewSubject_def normalize_alice subjectMaxLen_def contains_any_def)

lemma runes_demo: "secretMinLen \<le> rune_count ''correct horse''"
  by code_simp

lemma demo_Register: "Register demo_auth '' Alice '' ''correct horse'' demo_empty = (Inr demo_identity, demo_alice)"
  using runes_demo
  by (simp add: Register_def NewSubject_alice demo_auth_def assemble_def on_env_def on_store_def demo_auth_env_def
      demo_empty_def NewIdentity_def NewCredential_def subject_IsZero_def memory_ops_def SaveIdentity_def
      new_auth_store_def Let_def demo_identity_def demo_alice_def demo_auth_store_def)

section \<open>Registration, authentication, verification\<close>

text \<open>C8: whoever has registered can authenticate: with the same secret and any spelling of the
  subject (case, surrounding spaces), \<open>Authenticate\<close> opens a session of this identity when the
  token can be produced, and until it expires \<open>Verify\<close> of its token returns the identity that
  \<open>Register\<close> returned, active and without any role.\<close>

theorem registered_can_authenticate:
  assumes "auth_inv (aw_store w)" and "fresh_ids e (aw_store w)" and "hashing_sound e" and "0 < ttl"
    and "Register (assemble memory_ops e ttl) raw secret w = (Inr idn, w1)"
    and "normalize raw' = normalize raw"
    and "randomToken (ae_rand e) (aw_env w1) = (Inr t, v)"
  shows "\<exists>x w2. Authenticate (assemble memory_ops e ttl) raw' secret w1 = (Inr x, w2)
     \<and> ses_Token x = t \<and> ses_Identity x = id_ID idn \<and> id_Active idn \<and> id_Roles idn = []
     \<and> (\<forall>u now u'. ae_now e u = (now, u') \<and> now < ses_ExpiresAt x \<longrightarrow>
          Verify (assemble memory_ops e ttl) t (w2\<lparr> aw_env := u \<rparr>) = (Inr idn, w2\<lparr> aw_env := u' \<rparr>))"
proof -
  let ?D = "assemble memory_ops e ttl"
  have fr: "\<And>u. map_get (credentials (aw_store w)) (fst (randomIdentityID (ae_rand e) u)) = None"
    using assms(2) by (simp add: fresh_ids_def)
  obtain h v1 where h: "ae_hash e secret (aw_env w) = (Inr h, v1)"
    and reg: "NewSubject raw = Inr (id_Subject idn)" "id_Active idn" "id_Roles idn = []" "id_ID idn \<noteq> []"
      "auth_inv (aw_store w1)"
      "map_get (credentials (aw_store w1)) (id_ID idn) = Some \<lparr> cr_identity = idn, cr_secretHash = h \<rparr>"
    using auth_Register [OF assms(1,5) fr] by fastforce
  have "NewSubject raw' = Inr (id_Subject idn)"
    using reg(1) assms(6) by (simp add: NewSubject_def Let_def)
  moreover have "ae_verify e secret h = Inr True"
    using assms(3) h by (auto simp: hashing_sound_def)
  ultimately have acc: "accepts e (map_get (credentials (aw_store w1))) raw' secret (id_ID idn)"
    using reg by (auto simp: accepts_def)
  obtain n v2 where n: "ae_now e v = (n, v2)" by (cases "ae_now e v")
  have tz: "\<not> token_IsZero t"
    using assms(7) by (rule randomToken_not_zero)
  let ?x = "\<lparr> ses_Token = t, ses_Identity = id_ID idn, ses_IssuedAt = n, ses_ExpiresAt = n + ttl \<rparr>"
  let ?w2 = "w1\<lparr> aw_env := v2, aw_store := snd (SaveSession ?x (aw_store w1)) \<rparr>"
  have iss: "issue ?D (id_ID idn) w1 = (Inr ?x, ?w2)"
    using assms(4,7) n tz reg(4)
    by (simp add: issue_def assemble_def on_env_def on_store_def NewSession_def SaveSession_def memory_ops_def)
  then have auth: "Authenticate ?D raw' secret w1 = (Inr ?x, ?w2)"
    using auth_accepted [OF reg(5) acc] by simp
  have inv2: "auth_inv (aw_store ?w2)"
    using auth_issue [OF reg(5) iss] by blast
  have st: "map_get (sessions (aw_store ?w2)) (tok_value t) = Some ?x"
    "map_get (credentials (aw_store ?w2)) (id_ID idn) = Some \<lparr> cr_identity = idn, cr_secretHash = h \<rparr>"
    using reg(6) by (simp_all add: SaveSession_def)
  have "Verify ?D t (?w2\<lparr> aw_env := u \<rparr>) = (Inr idn, ?w2\<lparr> aw_env := u' \<rparr>)"
    if "ae_now e u = (now, u')" "now < n + ttl" for u now u'
    using auth_Verify [of "?w2\<lparr> aw_env := u \<rparr>" e now u' ttl t idn "?w2\<lparr> aw_env := u' \<rparr>"] inv2 that st tz reg(2)
    by (auto simp: Expired_def)
  then show ?thesis using auth reg by (intro exI [of _ ?x] exI [of _ ?w2]) auto
qed

theorem registered_can_authenticate_witness:
  "\<exists>x w2. Authenticate demo_auth ''alice'' ''correct horse'' demo_alice = (Inr x, w2) \<and> ses_Identity x = demo_id"
proof -
  have "randomToken (ae_rand demo_auth_env) (aw_env demo_alice)
      = (Inr \<lparr> tok_value = b64_encode (replicate tokenBytes CHR 0x00) \<rparr>, 9)"
    by (rule randomToken_drawn) (simp_all add: demo_auth_env_def demo_alice_def)
  moreover have "auth_inv (aw_store demo_empty)" "fresh_ids demo_auth_env (aw_store demo_empty)"
    using auth_inv_new demo_fresh by (simp_all add: demo_empty_def)
  moreover have "normalize ''alice'' = normalize '' Alice ''" by (simp add: normalize_alice)
  moreover have "0 < hour" by (simp add: hour_def)
  ultimately show ?thesis
    using registered_can_authenticate [of demo_empty demo_auth_env hour "'' Alice ''" "''correct horse''"
        demo_identity demo_alice "''alice''"] demo_sound demo_Register
    by (fastforce simp: demo_auth_def demo_identity_def)
qed

text \<open>C9: \<open>Authenticate\<close> says the same thing of every reason to refuse: a malformed subject, an
  unknown one, a deactivated account and a wrong secret give one and the same error,
  \<open>ErrInvalidCredentials\<close>, and leave no trace in the store, so the answer does not tell which
  accounts exist.\<close>

theorem Authenticate_no_oracle:
  assumes "auth_inv (aw_store w)"
    and "\<forall>c i. NewSubject raw = Inr (id_Subject (cr_identity c)) \<and> map_get (credentials (aw_store w)) i = Some c
        \<longrightarrow> \<not> id_Active (cr_identity c) \<or> ae_verify e secret (cr_secretHash c) = Inr False"
  shows "Authenticate (assemble memory_ops e ttl) raw secret w = (Inl (Sentinel (Auth ErrInvalidCredentials)), w)"
  using assms by (rule auth_refused)

theorem Authenticate_no_oracle_witness:
  "Authenticate demo_auth '' Alice '' ''wrong horse!'' demo_alice = (Inl (Sentinel (Auth ErrInvalidCredentials)), demo_alice)"
  unfolding demo_auth_def
proof (rule Authenticate_no_oracle)
  show "auth_inv (aw_store demo_alice)" using demo_auth_inv by (simp add: demo_alice_def)
qed (auto simp: demo_alice_def demo_auth_store_def demo_auth_env_def split: if_splits)

section \<open>Closing an account, closing a session\<close>

text \<open>deactivating an account takes effect at once, whatever was granted before: no token of
  this identity verifies any more, nothing is authorised to it, and authenticating is refused
  as if the account did not exist; reactivating restores the very same account.\<close>

theorem deactivation_is_immediate:
  assumes "auth_inv (aw_store w)" and "map_get (credentials (aw_store w)) i = Some c"
  shows "\<exists>w'. Deactivate (assemble memory_ops e ttl) i w = (None, w') \<and> auth_inv (aw_store w')
     \<and> (\<forall>t u x. map_get (sessions (aw_store w')) (tok_value t) = Some x \<and> ses_Identity x = i \<longrightarrow>
          isl (fst (Verify (assemble memory_ops e ttl) t (w'\<lparr> aw_env := u \<rparr>))))
     \<and> (\<forall>p. Authorize (assemble memory_ops e ttl) i p w' \<noteq> None)
     \<and> (\<forall>raw secret. NewSubject raw = Inr (id_Subject (cr_identity c)) \<longrightarrow>
          Authenticate (assemble memory_ops e ttl) raw secret w' = (Inl (Sentinel (Auth ErrInvalidCredentials)), w'))
     \<and> (id_Active (cr_identity c) \<longrightarrow> (\<exists>w''. Reactivate (assemble memory_ops e ttl) i w' = (None, w'')
          \<and> map_get (credentials (aw_store w'')) = map_get (credentials (aw_store w))))"
proof -
  let ?D = "assemble memory_ops e ttl"
  let ?c' = "c\<lparr> cr_identity := Deactivated (cr_identity c) \<rparr>"
  obtain w' where de: "Deactivate ?D i w = (None, w')" and inv': "auth_inv (aw_store w')"
    and cr': "map_get (credentials (aw_store w')) = (map_get (credentials (aw_store w)))(i \<mapsto> ?c')"
    using auth_setActive [OF assms(1), where tr = Deactivated and i = i and e = e and ttl = ttl] assms(2)
    by (auto simp: Deactivate_def split: prod.splits)
  have off: "\<not> id_Active (cr_identity ?c')" by (simp add: Deactivated_def)
  have "isl (fst (Verify ?D t (w'\<lparr> aw_env := u \<rparr>)))"
    if x: "map_get (sessions (aw_store w')) (tok_value t) = Some x" "ses_Identity x = i" for t u x
  proof (rule ccontr)
    assume "\<not> isl (fst (Verify ?D t (w'\<lparr> aw_env := u \<rparr>)))"
    then obtain idn w2 where v: "Verify ?D t (w'\<lparr> aw_env := u \<rparr>) = (Inr idn, w2)"
      by (metis prod.collapse sum.collapse(2))
    obtain now u' where "ae_now e u = (now, u')" by (cases "ae_now e u")
    then show False
      using auth_Verify [of "w'\<lparr> aw_env := u \<rparr>" e now u' ttl t idn w2] v inv' x cr' off by auto
  qed
  moreover have "Authorize ?D i p w' \<noteq> None" for p
    using cr' off by (simp add: Authorize_def assemble_def memory_ops_def store_Grants_def)
  moreover have "Authenticate ?D raw secret w' = (Inl (Sentinel (Auth ErrInvalidCredentials)), w')"
    if "NewSubject raw = Inr (id_Subject (cr_identity c))" for raw secret
  proof (rule auth_refused [OF inv'], intro allI impI)
    fix d j
    assume d: "NewSubject raw = Inr (id_Subject (cr_identity d)) \<and> map_get (credentials (aw_store w')) j = Some d"
    have "map_get (credentials (aw_store w')) i = Some ?c'" using cr' by simp
    moreover have "id_Subject (cr_identity d) = id_Subject (cr_identity ?c')"
      using d that by (simp add: Deactivated_def)
    ultimately have "j = i" using memory.unique_subject [OF inv', of j d i ?c'] d by blast
    then show "\<not> id_Active (cr_identity d) \<or> ae_verify e secret (cr_secretHash d) = Inr False"
      using d cr' off by auto
  qed
  moreover have "\<exists>w''. Reactivate ?D i w' = (None, w'')
      \<and> map_get (credentials (aw_store w'')) = map_get (credentials (aw_store w))" if "id_Active (cr_identity c)"
  proof -
    have "Reactivated (Deactivated (cr_identity c)) = cr_identity c"
      using that by (simp add: Reactivated_def Deactivated_def)
    then have same: "?c'\<lparr> cr_identity := Reactivated (cr_identity ?c') \<rparr> = c" by simp
    obtain w'' where re: "Reactivate ?D i w' = (None, w'')"
      and cr'': "map_get (credentials (aw_store w'')) = (map_get (credentials (aw_store w)))(i \<mapsto> c)"
      using auth_setActive [OF inv', where tr = Reactivated and i = i and e = e and ttl = ttl] cr' same
      by (auto simp: Reactivate_def split: prod.splits)
    have "map_get (credentials (aw_store w'')) = map_get (credentials (aw_store w))"
      unfolding cr'' using assms(2) by (simp add: fun_upd_idem)
    then show ?thesis using re by blast
  qed
  ultimately show ?thesis using de inv' by blast
qed

theorem deactivation_is_immediate_witness:
  "\<exists>w'. Deactivate demo_auth demo_id demo_alice = (None, w')
     \<and> (\<forall>secret. fst (Authenticate demo_auth '' Alice '' secret w') = Inl (Sentinel (Auth ErrInvalidCredentials)))"
proof -
  let ?c = "\<lparr> cr_identity = demo_identity, cr_secretHash = ''hcorrect horse'' \<rparr>"
  have "auth_inv (aw_store demo_alice)" "map_get (credentials (aw_store demo_alice)) demo_id = Some ?c"
    using demo_auth_inv by (simp_all add: demo_alice_def demo_auth_store_def)
  from deactivation_is_immediate [OF this, of demo_auth_env hour] show ?thesis
    unfolding demo_auth_def by (auto simp: NewSubject_alice demo_identity_def)
qed

text \<open>revoking a token closes its session at once and for good, and only this one: the token
  verifies no more, every other token verifies as before, and revoking it again succeeds and
  changes nothing.\<close>

theorem revocation_is_immediate:
  assumes "auth_inv (aw_store w)" and "\<not> token_IsZero t"
  shows "\<exists>w'. Revoke (assemble memory_ops e ttl) t w = (None, w')
     \<and> (\<forall>u. fst (Verify (assemble memory_ops e ttl) t (w'\<lparr> aw_env := u \<rparr>)) = Inl (Sentinel (Auth ErrTokenUnknown)))
     \<and> (\<forall>t2. tok_value t2 \<noteq> tok_value t \<longrightarrow> fst (Verify (assemble memory_ops e ttl) t2 w')
          = fst (Verify (assemble memory_ops e ttl) t2 w))
     \<and> (\<exists>w''. Revoke (assemble memory_ops e ttl) t w' = (None, w'')
          \<and> map_get (sessions (aw_store w'')) = map_get (sessions (aw_store w')))"
proof -
  let ?D = "assemble memory_ops e ttl"
  let ?w' = "w\<lparr> aw_store := snd (DeleteSession t (aw_store w)) \<rparr>"
  have rv: "Revoke ?D t w = (None, ?w')"
    using assms(2) by (simp add: Revoke_def assemble_def on_store_def memory_ops_def DeleteSession_def)
  have gone: "map_get (sessions (aw_store ?w')) (tok_value t) = None"
    by (simp add: DeleteSession_def)
  then have "fst (Verify ?D t (?w'\<lparr> aw_env := u \<rparr>)) = Inl (Sentinel (Auth ErrTokenUnknown))" for u
    by (simp add: Verify_def assemble_def memory_ops_def FindSession_def)
  moreover have "fst (Verify ?D t2 ?w') = fst (Verify ?D t2 w)" if "tok_value t2 \<noteq> tok_value t" for t2
    using that by (simp add: Verify_def assemble_def on_env_def memory_ops_def FindSession_def FindIdentity_def
        DeleteSession_def split: option.split prod.split)
  moreover have "\<exists>w''. Revoke ?D t ?w' = (None, w'')
      \<and> map_get (sessions (aw_store w'')) = map_get (sessions (aw_store ?w'))"
    using assms(2) by (auto simp: Revoke_def assemble_def on_store_def memory_ops_def DeleteSession_def)
  ultimately show ?thesis using rv by blast
qed

theorem revocation_is_immediate_witness:
  "\<exists>w'. Revoke demo_auth \<lparr> tok_value = ''t'' \<rparr> demo_alice = (None, w')
     \<and> fst (Verify demo_auth \<lparr> tok_value = ''t'' \<rparr> w') = Inl (Sentinel (Auth ErrTokenUnknown))"
proof -
  have "auth_inv (aw_store demo_alice)" "\<not> token_IsZero \<lparr> tok_value = ''t'' \<rparr>"
    using demo_auth_inv by (simp_all add: demo_alice_def token_IsZero_def)
  from revocation_is_immediate [OF this, of demo_auth_env hour]
  obtain w' where "Revoke demo_auth \<lparr> tok_value = ''t'' \<rparr> demo_alice = (None, w')"
    and "\<forall>u. fst (Verify demo_auth \<lparr> tok_value = ''t'' \<rparr> (w'\<lparr> aw_env := u \<rparr>)) = Inl (Sentinel (Auth ErrTokenUnknown))"
    unfolding demo_auth_def by blast
  then show ?thesis by (metis auth_world.surjective auth_world.update_convs(2) old.unit.exhaust)
qed

section \<open>Authorisation\<close>

lemma define_assign:
  assumes "auth_inv (aw_store w)" and "map_get (credentials (aw_store w)) i = Some c" and "id_Active (cr_identity c)"
    and "DefineRole (assemble memory_ops e ttl) nm raw w = (None, w1)"
    and "AssignRoles (assemble memory_ops e ttl) i [nm'] w1 = (None, w2)" and "normalize nm' = normalize nm"
  shows "(Authorize (assemble memory_ops e ttl) i p w2 = None \<longleftrightarrow> per_value p \<in> normalize ` set raw)
     \<and> auth_inv (aw_store w2)
     \<and> map_get (credentials (aw_store w2)) i = Some (c\<lparr> cr_identity := WithRoles [nm'] (cr_identity c) \<rparr>)"
proof -
  let ?D = "assemble memory_ops e ttl"
  obtain ps where ps: "build_permissions nm raw [] = Inr ps"
    using assms(4) by (auto simp: DefineRole_def split: sum.splits)
  obtain r where r: "NewRole nm ps = Inr r"
    using assms(4) ps by (auto simp: DefineRole_def split: sum.splits)
  have w1: "w1 = w\<lparr> aw_store := snd (SaveRole r (aw_store w)) \<rparr>"
    using assms(4) ps r by (simp add: DefineRole_def assemble_def on_store_def memory_ops_def SaveRole_def)
  have r_ok: "role_Name r = normalize nm" "role_Name r \<noteq> []" "\<And>p. role_Grants r p \<longleftrightarrow> p \<in> set ps"
    using NewRole_grants [OF r] r by (auto simp: NewRole_def Let_def split: if_splits)
  have i: "i \<noteq> []" using auth_inv_cred [OF assms(1,2)] by simp
  have inv1: "auth_inv (aw_store w1)" using assms(1) w1 by (simp add: SaveRole_def auth_inv_def)
  have c1: "map_get (credentials (aw_store w1)) i = Some c" using assms(2) w1 by (simp add: SaveRole_def)
  obtain x s2 where b: "store_AssignRoles i [nm'] (aw_store w1) = (x, s2)"
    by (cases "store_AssignRoles i [nm'] (aw_store w1)")
  have bk: "roles s2 = roles (aw_store w1)"
    "map_get (credentials s2) i = Some (c\<lparr> cr_identity := WithRoles [nm'] (cr_identity c) \<rparr>)"
    "auth_inv s2"
    using memory.bind_known [OF inv1 c1 b] b c1 by (auto simp: store_AssignRoles_def)
  have w2: "w2 = w1\<lparr> aw_store := s2 \<rparr>"
    using assms(5) i b by (auto simp: AssignRoles_def assemble_def on_store_def memory_ops_def split: option.splits)
  have role2: "map_get (roles s2) (normalize nm) = Some r"
    using bk(1) w1 r_ok(1) by (simp add: SaveRole_def)
  have "id_Roles (WithRoles [nm'] (cr_identity c)) = [normalize nm]"
    using assms(6) r_ok by (simp add: WithRoles_def Let_def)
  then have "store_Grants i p s2 \<longleftrightarrow> role_Grants r p"
    using bk(2) role2 assms(3) by (simp add: store_Grants_def WithRoles_def)
  also have "\<dots> \<longleftrightarrow> per_value p \<in> normalize ` set raw"
  proof -
    have "per_value ` set ps = normalize ` set raw"
      using build_permissions_Inr [OF ps] by simp
    moreover have "p \<in> set ps \<longleftrightarrow> per_value p \<in> per_value ` set ps"
      by (auto simp: image_iff) (metis permission.surjective old.unit.exhaust)
    ultimately show ?thesis using r_ok(3) by simp
  qed
  finally have g: "store_Grants i p s2 \<longleftrightarrow> per_value p \<in> normalize ` set raw" .
  have "per_value p \<noteq> []" if "per_value p \<in> normalize ` set raw"
    using that build_permissions_Inr [OF ps] by (auto simp: permissionShape_def)
  then show ?thesis
    using g i bk by (auto simp: Authorize_def assemble_def memory_ops_def w2 permission_IsZero_def)
qed


text \<open>The scenario of the witness: a role is defined, then given to the account.\<close>

definition demo_defined :: "err option \<times> (auth_store, nat) auth_world" where
  "demo_defined = DefineRole demo_auth ''Editor'' [''doc.page.write''] demo_alice"

definition demo_assigned :: "err option \<times> (auth_store, nat) auth_world" where
  "demo_assigned = AssignRoles demo_auth demo_id [''editor''] (snd demo_defined)"

lemma demo_roles_given: "fst demo_defined = None" "fst demo_assigned = None" "normalize ''editor'' = normalize ''Editor''"
  "normalize ''doc.page.write'' = ''doc.page.write''"
  by code_simp+


end
