(* ===== verification/Config_Core.thy ===== *)
theory Config_Core
  imports Config_Module Go_Base64
begin

text \<open>
  The startup configuration: its groups (internal/config/*.go), the structural defaults
  (\<open>applyDefaults\<close>), what makes a configuration invalid everywhere (validation.go,
  observability.go) and outside a local environment (hardening.go), the transports between
  modules (\<open>Interop\<close>).
\<close>

section \<open>The groups\<close>

text \<open>The values a \<open>float64\<close> read from YAML can have, the finite ones as exact rationals.\<close>

datatype float64 = Finite rat | PosInf | NegInf | NaN

fun float_less :: "float64 \<Rightarrow> float64 \<Rightarrow> bool" where
  "float_less NaN y = False"
| "float_less x NaN = False"
| "float_less (Finite a) (Finite b) = (a < b)"
| "float_less x NegInf = False"
| "float_less PosInf y = False"
| "float_less x y = True"

type_synonym Environment = str

definition EnvDevelopment :: Environment where "EnvDevelopment = ''development''"
definition EnvTest :: Environment where "EnvTest = ''test''"
definition EnvUAT :: Environment where "EnvUAT = ''uat''"
definition EnvProduction :: Environment where "EnvProduction = ''production''"

definition IsProduction :: "Environment \<Rightarrow> bool" where
  "IsProduction e \<longleftrightarrow> e = EnvProduction"

definition IsDevelopment :: "Environment \<Rightarrow> bool" where
  "IsDevelopment e \<longleftrightarrow> e = EnvDevelopment"

definition IsLocal :: "Environment \<Rightarrow> bool" where
  "IsLocal e \<longleftrightarrow> e = EnvDevelopment \<or> e = EnvTest"

lemmas environments = EnvDevelopment_def EnvTest_def EnvUAT_def EnvProduction_def

record app_config =
  app_Env :: Environment
  app_Name :: str
  app_Version :: str

record http_config =
  h_Host :: str
  h_Port :: int
  h_ReadTimeout :: duration
  h_WriteTimeout :: duration
  h_IdleTimeout :: duration
  h_ShutdownTimeout :: duration
  h_MaxBodyBytes :: int
  h_AllowedOrigins :: "str list"

definition Addr :: "http_config \<Rightarrow> str" where
  "Addr h = h_Host h @ '':'' @ show_int (h_Port h)"

record limits_config =
  l_RPS :: float64
  l_Burst :: int
  l_AuthRPS :: float64
  l_AuthBurst :: int

record db_config =
  db_DSN :: str
  db_MigrationDSN :: str
  db_MaxConns :: int
  db_MinConns :: int
  db_MaxConnLifetime :: duration
  db_ConnectTimeout :: duration

record cache_config =
  ca_Addr :: str
  ca_Password :: str
  ca_DB :: int
  ca_DefaultTTL :: duration

record dynconf_config =
  dc_TTL :: duration
  dc_EnvPrefix :: str

record worker_config =
  wk_PollInterval :: duration
  wk_BatchSize :: int
  wk_MaxAttempts :: int
  wk_BaseBackoff :: duration
  wk_IdempotencyTTL :: duration

record storage_config =
  sg_Kind :: str
  sg_DiskDir :: str
  sg_BaseURL :: str

record mail_config =
  ma_Addr :: str
  ma_From :: str
  ma_User :: str
  ma_Password :: str

record telemetry_config =
  t_Enabled :: bool
  t_OTLPEndpoint :: str
  t_ServiceName :: str
  t_MetricsPort :: int
  t_LogLevel :: str
  t_LogFormat :: str

record i18n_config =
  i_DefaultLocale :: str
  i_SupportedLocales :: "str list"
  i_FailOnMissingKey :: bool

record kafka_config =
  k_Brokers :: "str list"
  k_AllowAutoTopicCreation :: bool

record rabbitmq_config =
  r_URL :: str
  r_Exchange :: str

record messaging_config =
  msg_Driver :: str
  msg_TopicPrefix :: str
  msg_ConsumerGroup :: str
  msg_PublishTimeout :: duration
  msg_Kafka :: kafka_config
  msg_RabbitMQ :: rabbitmq_config

text \<open>\<open>Messaging.Topic\<close>: the topic of an event type, its dots replaced.\<close>

definition Topic :: "messaging_config \<Rightarrow> str \<Rightarrow> str" where
  "Topic m eventType = msg_TopicPrefix m @ ''.'' @ replace_char CHR ''.'' ''-'' eventType"

record interop_config =
  it_DefaultTransport :: str
  it_CallTimeout :: duration
  it_Transports :: "(str, str) gomap"
  it_BaseURLs :: "(str, str) gomap"

record argon2_config =
  ar_MemoryKiB :: "32 word"
  ar_Iterations :: "32 word"
  ar_Threads :: "8 word"

record security_config =
  sec_EncryptionKey :: str
  sec_Argon2 :: argon2_config

record log_sink =
  ls_Sink :: str
  ls_FilePath :: str

record trace_exporter =
  te_Exporter :: str
  te_Protocol :: str
  te_SampleRatio :: float64

record metric_exporter =
  me_Exporter :: str

record sentry =
  se_DSN :: str
  se_TracesSampleRate :: float64
  se_SendDefaultPII :: bool

record error_reporter =
  er_Reporter :: str
  er_Sentry :: sentry

record observability =
  o_Logs :: log_sink
  o_Traces :: trace_exporter
  o_Metrics :: metric_exporter
  o_Errors :: error_reporter

record config =
  App :: app_config
  HTTP :: http_config
  Limits :: limits_config
  Database :: db_config
  CacheGroup :: cache_config
  DynConf :: dynconf_config
  Worker :: worker_config
  StorageGroup :: storage_config
  MessagingGroup :: messaging_config
  Modules :: modules
  Interop :: interop_config
  Security :: security_config
  Mail :: mail_config
  Telemetry :: telemetry_config
  I18n :: i18n_config
  Observability :: observability

section \<open>Helpers\<close>

definition appendUnlessOneOf :: "err list \<Rightarrow> str \<Rightarrow> str \<Rightarrow> str list \<Rightarrow> err list" where
  "appendUnlessOneOf problems field v allowed =
     (if v \<in> set allowed then problems
      else problems @ [Opaque (field @ ''='' @ quote_text v @ '' unknown (expected: '' @ join_items allowed @ '')'')])"

definition relayInproc :: str where "relayInproc = ''inproc''"
definition relayKafka :: str where "relayKafka = ''kafka''"
definition relayRabbitMQ :: str where "relayRabbitMQ = ''rabbitmq''"
definition relayNoop :: str where "relayNoop = ''noop''"

definition transportInproc :: str where "transportInproc = ''inproc''"
definition transportHTTP :: str where "transportHTTP = ''http''"
definition transportEvent :: str where "transportEvent = ''event''"
definition transportDisabled :: str where "transportDisabled = ''disabled''"

definition sinkStdout :: str where "sinkStdout = ''stdout''"
definition sinkFile :: str where "sinkFile = ''file''"

section \<open>Defaults\<close>

definition or_default :: "str \<Rightarrow> str \<Rightarrow> str" where
  "or_default v d = (if v = [] then d else v)"

definition observability_applyDefaults :: "observability \<Rightarrow> observability" where
  "observability_applyDefaults o1 =
     o1\<lparr> o_Logs := (o_Logs o1)\<lparr> ls_Sink := or_default (ls_Sink (o_Logs o1)) sinkStdout \<rparr>,
         o_Traces := (o_Traces o1)\<lparr>
           te_Exporter := or_default (te_Exporter (o_Traces o1)) ''otlp'',
           te_Protocol := or_default (te_Protocol (o_Traces o1)) ''grpc'',
           te_SampleRatio := (if te_SampleRatio (o_Traces o1) = Finite 0 then Finite 1 else te_SampleRatio (o_Traces o1)) \<rparr>,
         o_Metrics := (o_Metrics o1)\<lparr> me_Exporter := or_default (me_Exporter (o_Metrics o1)) ''prometheus'' \<rparr>,
         o_Errors := (o_Errors o1)\<lparr> er_Reporter := or_default (er_Reporter (o_Errors o1)) ''none'' \<rparr> \<rparr>"

text \<open>A nil map and an empty one are the same association list, so creating the two maps of
  \<open>Interop\<close> changes nothing here.\<close>

definition default_env :: "config \<Rightarrow> config" where
  "default_env c = (if app_Env (App c) = [] then c\<lparr> App := (App c)\<lparr> app_Env := EnvDevelopment \<rparr> \<rparr> else c)"

definition default_migration :: "config \<Rightarrow> config" where
  "default_migration c =
     (if db_MigrationDSN (Database c) = []
      then c\<lparr> Database := (Database c)\<lparr> db_MigrationDSN := db_DSN (Database c) \<rparr> \<rparr> else c)"

definition default_relay :: "config \<Rightarrow> config" where
  "default_relay c =
     (if msg_Driver (MessagingGroup c) = []
      then c\<lparr> MessagingGroup := (MessagingGroup c)\<lparr> msg_Driver := relayInproc \<rparr> \<rparr> else c)"

definition default_transport :: "config \<Rightarrow> config" where
  "default_transport c =
     (if it_DefaultTransport (Interop c) = []
      then c\<lparr> Interop := (Interop c)\<lparr> it_DefaultTransport := transportInproc \<rparr> \<rparr> else c)"

definition default_signals :: "config \<Rightarrow> config" where
  "default_signals c = c\<lparr> Observability := observability_applyDefaults (Observability c) \<rparr>"

definition default_locale :: "config \<Rightarrow> config" where
  "default_locale c =
     (if i_DefaultLocale (I18n c) = [] then c\<lparr> I18n := (I18n c)\<lparr> i_DefaultLocale := ''fr'' \<rparr> \<rparr> else c)"

definition default_locales :: "config \<Rightarrow> config" where
  "default_locales c =
     (if i_SupportedLocales (I18n c) = []
      then c\<lparr> I18n := (I18n c)\<lparr> i_SupportedLocales := [i_DefaultLocale (I18n c)] \<rparr> \<rparr> else c)"

definition applyDefaults :: "config \<Rightarrow> config" where
  "applyDefaults c = default_locales (default_locale (default_signals (default_transport
     (default_relay (default_migration (default_env c))))))"

section \<open>What is invalid everywhere\<close>

definition validateApp :: "config \<Rightarrow> err list" where
  "validateApp c =
     (if app_Env (App c) \<in> {EnvDevelopment, EnvTest, EnvUAT, EnvProduction} then []
      else [Opaque (''app.env='' @ quote_text (app_Env (App c)) @ '' unknown (expected: development, test, uat, production)'')])"

definition encryptionKeyBytes :: nat where
  "encryptionKeyBytes = 32"

text \<open>\<open>std_decode\<close> is \<open>base64.StdEncoding.DecodeString\<close>, of Go_Base64.\<close>

definition DecodedEncryptionKey :: "security_config \<Rightarrow> err + bytes" where
  "DecodedEncryptionKey s =
     (case std_decode (sec_EncryptionKey s) of
        None \<Rightarrow> Inl (Errorf [Lit ''security.encryption_key is not valid base64: '', W (Opaque ''illegal base64 data'')])
      | Some key \<Rightarrow>
          if length key \<noteq> encryptionKeyBytes then
            Inl (Opaque (''security.encryption_key must be '' @ show_nat encryptionKeyBytes @ '' bytes, got ''
              @ show_nat (length key)))
          else Inr key)"

definition validateSecurity :: "config \<Rightarrow> err list" where
  "validateSecurity c = (case DecodedEncryptionKey (Security c) of Inl e \<Rightarrow> [e] | Inr _ \<Rightarrow> [])"

definition validateDatabase :: "config \<Rightarrow> err list" where
  "validateDatabase c =
     (if db_DSN (Database c) = [] then [Opaque ''database.dsn is mandatory''] else [])
     @ (if db_MinConns (Database c) > db_MaxConns (Database c)
        then [Opaque (''database.min_conns='' @ show_int (db_MinConns (Database c)) @ '' > database.max_conns=''
                @ show_int (db_MaxConns (Database c)))] else [])"

definition maxPort :: int where
  "maxPort = 65535"

definition validateHTTP :: "config \<Rightarrow> err list" where
  "validateHTTP c =
     (if h_Port (HTTP c) < 1 \<or> h_Port (HTTP c) > maxPort
      then [Opaque (''http.port='' @ show_int (h_Port (HTTP c)) @ '' out of range'')] else [])
     @ (if h_ReadTimeout (HTTP c) \<le> 0
        then [Opaque ''http.read_timeout must be > 0: a connection without a timeout ties up a goroutine''] else [])"

definition validateMessaging :: "config \<Rightarrow> err list" where
  "validateMessaging c =
     (if msg_Driver (MessagingGroup c) \<in> {relayInproc, relayKafka, relayRabbitMQ, relayNoop} then []
      else [Opaque (''messaging.driver='' @ quote_text (msg_Driver (MessagingGroup c)) @ '' unknown (expected: ''
              @ relayInproc @ '', '' @ relayKafka @ '', '' @ relayRabbitMQ @ '', '' @ relayNoop @ '')'')])"

definition validateWorker :: "config \<Rightarrow> err list" where
  "validateWorker c = (if wk_MaxAttempts (Worker c) < 1 then [Opaque ''worker.max_attempts must be >= 1''] else [])"

definition validateI18n :: "config \<Rightarrow> err list" where
  "validateI18n c =
     (if i_DefaultLocale (I18n c) \<notin> set (i_SupportedLocales (I18n c))
      then [Opaque (''i18n.default_locale='' @ quote_text (i_DefaultLocale (I18n c)) @ '' absent from i18n.supported_locales'')]
      else [])"

definition validateCore :: "config \<Rightarrow> err list" where
  "validateCore c = validateApp c @ validateSecurity c @ validateDatabase c @ validateHTTP c
     @ validateMessaging c @ validateWorker c @ validateI18n c"

definition observability_validate :: "observability \<Rightarrow> err list" where
  "observability_validate o1 =
     (let p1 = appendUnlessOneOf [] ''observability.logs.sink'' (ls_Sink (o_Logs o1)) [sinkStdout, sinkFile];
          p2 = appendUnlessOneOf p1 ''observability.traces.exporter'' (te_Exporter (o_Traces o1)) [''otlp'', ''none''];
          p3 = appendUnlessOneOf p2 ''observability.traces.protocol'' (te_Protocol (o_Traces o1)) [''grpc'', ''http''];
          p4 = appendUnlessOneOf p3 ''observability.metrics.exporter'' (me_Exporter (o_Metrics o1))
                 [''prometheus'', ''otlp'', ''none''];
          p5 = appendUnlessOneOf p4 ''observability.errors.reporter'' (er_Reporter (o_Errors o1)) [''none'', ''sentry''];
          p6 = (if float_less (te_SampleRatio (o_Traces o1)) (Finite 0) \<or> float_less (Finite 1) (te_SampleRatio (o_Traces o1))
                then p5 @ [Opaque ''observability.traces.sample_ratio must be between 0 and 1''] else p5)
      in if er_Reporter (o_Errors o1) = ''sentry'' \<and> se_DSN (er_Sentry (o_Errors o1)) = []
         then p6 @ [Opaque ''observability.errors.sentry.dsn is required when the reporter is sentry''] else p6)"

section \<open>What is invalid outside a local environment\<close>

definition hardenDatabase :: "config \<Rightarrow> err list" where
  "hardenDatabase c =
     (if db_MigrationDSN (Database c) = db_DSN (Database c)
      then [Opaque ''database.migration_dsn must differ from database.dsn outside development (the application role does not own the schema)'']
      else [])"

definition origin_problem :: "str \<Rightarrow> err list" where
  "origin_problem origin =
     (if origin = ''*'' then [Opaque ''http.allowed_origins cannot contain '*' outside development'']
      else if has_prefix origin ''http://'' then [Opaque (''unencrypted origin forbidden outside development: '' @ origin)]
      else if origin = [] then [Opaque ''http.allowed_origins contains an empty entry (unresolved ${VAR} reference?)'']
      else [])"

definition hardenOrigins :: "config \<Rightarrow> err list" where
  "hardenOrigins c =
     (if h_AllowedOrigins (HTTP c) = [] then [Opaque ''http.allowed_origins cannot be empty outside development'']
      else concat (map origin_problem (h_AllowedOrigins (HTTP c))))"

definition hardenMessaging :: "config \<Rightarrow> err list" where
  "hardenMessaging c =
     (if msg_Driver (MessagingGroup c) = relayKafka \<and> k_AllowAutoTopicCreation (msg_Kafka (MessagingGroup c))
      then [Opaque ''messaging.kafka.allow_auto_topic_creation must be false outside development: creating a topic on the fly hides a configuration error'']
      else [])"

definition hardenTelemetry :: "config \<Rightarrow> err list" where
  "hardenTelemetry c =
     (if \<not> t_Enabled (Telemetry c)
      then [Opaque ''telemetry.enabled must be true outside development: an unobservable service is not operable'']
      else [])"

definition observability_hardened :: "observability \<Rightarrow> err list" where
  "observability_hardened o1 =
     (if se_SendDefaultPII (er_Sentry (o_Errors o1))
      then [Opaque ''observability.errors.sentry.send_default_pii must be false: personal data does not leave the system'']
      else [])
     @ (if ls_Sink (o_Logs o1) = sinkFile
        then [Opaque ''observability.logs.sink=file is refused outside development: in a container it is the agent that collects stdout'']
        else [])"

definition validateHardening :: "config \<Rightarrow> err list" where
  "validateHardening c =
     (if IsLocal (app_Env (App c)) then []
      else hardenDatabase c @ hardenOrigins c @ hardenMessaging c @ hardenTelemetry c
        @ observability_hardened (Observability c))"

section \<open>Transports between modules\<close>

definition TransportFor :: "interop_config \<Rightarrow> str \<Rightarrow> str" where
  "TransportFor i name =
     (case map_get (it_Transports i) name of
        Some raw \<Rightarrow> if raw \<noteq> [] then raw
                    else if it_DefaultTransport i = [] then transportInproc else it_DefaultTransport i
      | None \<Rightarrow> if it_DefaultTransport i = [] then transportInproc else it_DefaultTransport i)"

definition transports :: "str list" where
  "transports = [transportInproc, transportHTTP, transportEvent, transportDisabled]"

definition transport_problem :: "interop_config \<Rightarrow> str \<times> str \<Rightarrow> err list" where
  "transport_problem i = (\<lambda>(name, mode).
     (if mode \<notin> set transports then
        [Opaque (''interop.transports.'' @ name @ ''='' @ quote_text mode @ '' unknown (expected: '' @ join_items transports @ '')'')]
      else if mode = ''http'' \<and> (case map_get (it_BaseURLs i) name of None \<Rightarrow> [] | Some url \<Rightarrow> url) = [] then
        [Opaque (''interop.base_urls.'' @ name @ '' is required when the transport is http'')]
      else []))"

definition interop_validate :: "interop_config \<Rightarrow> err list" where
  "interop_validate i =
     (if TransportFor i [] \<notin> set transports
      then [Opaque (''interop.default_transport='' @ quote_text (it_DefaultTransport i) @ '' unknown (expected: ''
              @ join_items transports @ '')'')] else [])
     @ concat (map (transport_problem i) (it_Transports i))"

section \<open>The whole validation\<close>

definition config_problems :: "config \<Rightarrow> module_catalog \<Rightarrow> err list" where
  "config_problems c catalog = validateCore c @ validateHardening c @ observability_validate (Observability c)
     @ validate_modules catalog (Modules c) @ interop_validate (Interop c)"

definition validate_config :: "config \<Rightarrow> module_catalog \<Rightarrow> err option" where
  "validate_config c catalog =
     (let problems = config_problems c catalog in
      if problems \<noteq> [] then Some (Errorf [Lit ''invalid configuration: '', W (JoinErr problems)]) else None)"


section \<open>The rules, stated as a predicate\<close>

definition one_of :: "str \<Rightarrow> str list \<Rightarrow> bool" where
  "one_of v allowed \<longleftrightarrow> v \<in> set allowed"

text \<open>A sampling ratio passes when neither comparison refuses it, so a NaN passes.\<close>

definition ratio_accepted :: "float64 \<Rightarrow> bool" where
  "ratio_accepted r \<longleftrightarrow> (case r of Finite q \<Rightarrow> 0 \<le> q \<and> q \<le> 1 | NaN \<Rightarrow> True | _ \<Rightarrow> False)"

definition core_ok :: "config \<Rightarrow> bool" where
  "core_ok c \<longleftrightarrow>
     app_Env (App c) \<in> {EnvDevelopment, EnvTest, EnvUAT, EnvProduction}
     \<and> (\<exists>key. std_decode (sec_EncryptionKey (Security c)) = Some key \<and> length key = 32)
     \<and> db_DSN (Database c) \<noteq> [] \<and> db_MinConns (Database c) \<le> db_MaxConns (Database c)
     \<and> 1 \<le> h_Port (HTTP c) \<and> h_Port (HTTP c) \<le> 65535 \<and> 0 < h_ReadTimeout (HTTP c)
     \<and> one_of (msg_Driver (MessagingGroup c)) [relayInproc, relayKafka, relayRabbitMQ, relayNoop]
     \<and> 1 \<le> wk_MaxAttempts (Worker c)
     \<and> one_of (i_DefaultLocale (I18n c)) (i_SupportedLocales (I18n c))"

definition signals_ok :: "observability \<Rightarrow> bool" where
  "signals_ok o1 \<longleftrightarrow>
     one_of (ls_Sink (o_Logs o1)) [sinkStdout, sinkFile]
     \<and> one_of (te_Exporter (o_Traces o1)) [''otlp'', ''none''] \<and> one_of (te_Protocol (o_Traces o1)) [''grpc'', ''http'']
     \<and> one_of (me_Exporter (o_Metrics o1)) [''prometheus'', ''otlp'', ''none'']
     \<and> one_of (er_Reporter (o_Errors o1)) [''none'', ''sentry'']
     \<and> ratio_accepted (te_SampleRatio (o_Traces o1))
     \<and> \<not> (er_Reporter (o_Errors o1) = ''sentry'' \<and> se_DSN (er_Sentry (o_Errors o1)) = [])"

definition origin_ok :: "str \<Rightarrow> bool" where
  "origin_ok origin \<longleftrightarrow> origin \<noteq> ''*'' \<and> \<not> has_prefix origin ''http://'' \<and> origin \<noteq> []"

definition hardened_ok :: "config \<Rightarrow> bool" where
  "hardened_ok c \<longleftrightarrow>
     db_MigrationDSN (Database c) \<noteq> db_DSN (Database c)
     \<and> h_AllowedOrigins (HTTP c) \<noteq> [] \<and> list_all origin_ok (h_AllowedOrigins (HTTP c))
     \<and> \<not> (msg_Driver (MessagingGroup c) = relayKafka \<and> k_AllowAutoTopicCreation (msg_Kafka (MessagingGroup c)))
     \<and> t_Enabled (Telemetry c)
     \<and> \<not> se_SendDefaultPII (er_Sentry (o_Errors (Observability c)))
     \<and> ls_Sink (o_Logs (Observability c)) \<noteq> sinkFile"

definition interop_ok :: "interop_config \<Rightarrow> bool" where
  "interop_ok i \<longleftrightarrow> one_of (TransportFor i []) transports
     \<and> list_all (\<lambda>(name, mode). one_of mode transports
          \<and> \<not> (mode = ''http'' \<and> map_of (it_BaseURLs i) name \<in> {None, Some []})) (it_Transports i)"

lemma appendUnlessOneOf_empty: "appendUnlessOneOf ps f v allowed = [] \<longleftrightarrow> ps = [] \<and> one_of v allowed"
  by (simp add: appendUnlessOneOf_def one_of_def)

lemma validateCore_empty: "validateCore c = [] \<longleftrightarrow> core_ok c"
proof -
  have "validateSecurity c = []
      \<longleftrightarrow> (\<exists>key. std_decode (sec_EncryptionKey (Security c)) = Some key \<and> length key = 32)"
    by (auto simp: validateSecurity_def DecodedEncryptionKey_def encryptionKeyBytes_def split: option.splits)
  moreover have "validateDatabase c = []
      \<longleftrightarrow> db_DSN (Database c) \<noteq> [] \<and> db_MinConns (Database c) \<le> db_MaxConns (Database c)"
    by (auto simp: validateDatabase_def)
  moreover have "validateHTTP c = []
      \<longleftrightarrow> 1 \<le> h_Port (HTTP c) \<and> h_Port (HTTP c) \<le> 65535 \<and> 0 < h_ReadTimeout (HTTP c)"
    by (auto simp: validateHTTP_def maxPort_def)
  ultimately show ?thesis
    by (auto simp: validateCore_def core_ok_def validateApp_def validateMessaging_def validateWorker_def
        validateI18n_def one_of_def)
qed

lemma ratio_accepted_iff:
  "ratio_accepted r \<longleftrightarrow> \<not> (float_less r (Finite 0) \<or> float_less (Finite 1) r)"
  by (cases r) (auto simp: ratio_accepted_def)

lemma observability_validate_empty: "observability_validate o1 = [] \<longleftrightarrow> signals_ok o1"
  by (simp add: observability_validate_def signals_ok_def Let_def appendUnlessOneOf_empty ratio_accepted_iff)

lemma validateHardening_empty: "validateHardening c = [] \<longleftrightarrow> IsLocal (app_Env (App c)) \<or> hardened_ok c"
proof -
  have "origin_problem x = [] \<longleftrightarrow> origin_ok x" for x
    by (simp add: origin_problem_def origin_ok_def)
  then show ?thesis
    by (auto simp: validateHardening_def hardened_ok_def hardenDatabase_def hardenOrigins_def hardenMessaging_def
        hardenTelemetry_def observability_hardened_def list_all_iff)
qed

lemma interop_validate_empty: "interop_validate i = [] \<longleftrightarrow> interop_ok i"
  by (auto simp: interop_validate_def interop_ok_def one_of_def transport_problem_def list_all_iff
      split: option.splits if_splits)


section \<open>Defaults\<close>

text \<open>A configuration whose files say nothing.\<close>

definition zero_config :: config where
  "zero_config =
     \<lparr> App = \<lparr> app_Env = [], app_Name = [], app_Version = [] \<rparr>,
       HTTP = \<lparr> h_Host = [], h_Port = 0, h_ReadTimeout = 0, h_WriteTimeout = 0, h_IdleTimeout = 0,
         h_ShutdownTimeout = 0, h_MaxBodyBytes = 0, h_AllowedOrigins = [] \<rparr>,
       Limits = \<lparr> l_RPS = Finite 0, l_Burst = 0, l_AuthRPS = Finite 0, l_AuthBurst = 0 \<rparr>,
       Database = \<lparr> db_DSN = [], db_MigrationDSN = [], db_MaxConns = 0, db_MinConns = 0, db_MaxConnLifetime = 0,
         db_ConnectTimeout = 0 \<rparr>,
       CacheGroup = \<lparr> ca_Addr = [], ca_Password = [], ca_DB = 0, ca_DefaultTTL = 0 \<rparr>,
       DynConf = \<lparr> dc_TTL = 0, dc_EnvPrefix = [] \<rparr>,
       Worker = \<lparr> wk_PollInterval = 0, wk_BatchSize = 0, wk_MaxAttempts = 0, wk_BaseBackoff = 0, wk_IdempotencyTTL = 0 \<rparr>,
       StorageGroup = \<lparr> sg_Kind = [], sg_DiskDir = [], sg_BaseURL = [] \<rparr>,
       MessagingGroup = \<lparr> msg_Driver = [], msg_TopicPrefix = [], msg_ConsumerGroup = [], msg_PublishTimeout = 0,
         msg_Kafka = \<lparr> k_Brokers = [], k_AllowAutoTopicCreation = False \<rparr>,
         msg_RabbitMQ = \<lparr> r_URL = [], r_Exchange = [] \<rparr> \<rparr>,
       Modules = [],
       Interop = \<lparr> it_DefaultTransport = [], it_CallTimeout = 0, it_Transports = [], it_BaseURLs = [] \<rparr>,
       Security = \<lparr> sec_EncryptionKey = [], sec_Argon2 = \<lparr> ar_MemoryKiB = 0, ar_Iterations = 0, ar_Threads = 0 \<rparr> \<rparr>,
       Mail = \<lparr> ma_Addr = [], ma_From = [], ma_User = [], ma_Password = [] \<rparr>,
       Telemetry = \<lparr> t_Enabled = False, t_OTLPEndpoint = [], t_ServiceName = [], t_MetricsPort = 0, t_LogLevel = [],
         t_LogFormat = [] \<rparr>,
       I18n = \<lparr> i_DefaultLocale = [], i_SupportedLocales = [], i_FailOnMissingKey = False \<rparr>,
       Observability = \<lparr> o_Logs = \<lparr> ls_Sink = [], ls_FilePath = [] \<rparr>,
         o_Traces = \<lparr> te_Exporter = [], te_Protocol = [], te_SampleRatio = Finite 0 \<rparr>,
         o_Metrics = \<lparr> me_Exporter = [] \<rparr>,
         o_Errors = \<lparr> er_Reporter = [], er_Sentry = \<lparr> se_DSN = [], se_TracesSampleRate = Finite 0,
           se_SendDefaultPII = False \<rparr> \<rparr> \<rparr> \<rparr>"

lemma applyDefaults_fixed:
  assumes "app_Env (App c) \<noteq> []" and "db_MigrationDSN (Database c) \<noteq> [] \<or> db_DSN (Database c) = []"
    and "msg_Driver (MessagingGroup c) \<noteq> []" and "it_DefaultTransport (Interop c) \<noteq> []"
    and "observability_applyDefaults (Observability c) = Observability c"
    and "i_DefaultLocale (I18n c) \<noteq> []" and "i_SupportedLocales (I18n c) \<noteq> []"
  shows "applyDefaults c = c"
proof -
  have "default_env c = c" "default_migration c = c" "default_relay c = c" "default_transport c = c"
    "default_signals c = c" "default_locale c = c" "default_locales c = c"
    using assms by (auto simp: default_env_def default_migration_def default_relay_def default_transport_def
        default_signals_def default_locale_def default_locales_def)
  then show ?thesis by (simp add: applyDefaults_def)
qed

lemma observability_applyDefaults_idem:
  "observability_applyDefaults (observability_applyDefaults o1) = observability_applyDefaults o1"
  by (simp add: observability_applyDefaults_def or_default_def sinkStdout_def)

text \<open>Each step touches its own group only.\<close>

lemma default_env_other [simp]:
  "HTTP (default_env c) = HTTP c" "Limits (default_env c) = Limits c" "Database (default_env c) = Database c" "Security (default_env c) = Security c" "Worker (default_env c) = Worker c" "MessagingGroup (default_env c) = MessagingGroup c" "Modules (default_env c) = Modules c" "Interop (default_env c) = Interop c" "Telemetry (default_env c) = Telemetry c" "I18n (default_env c) = I18n c" "Observability (default_env c) = Observability c"
  by (simp_all add: default_env_def)

lemma default_migration_other [simp]:
  "App (default_migration c) = App c" "HTTP (default_migration c) = HTTP c" "Limits (default_migration c) = Limits c" "Security (default_migration c) = Security c" "Worker (default_migration c) = Worker c" "MessagingGroup (default_migration c) = MessagingGroup c" "Modules (default_migration c) = Modules c" "Interop (default_migration c) = Interop c" "Telemetry (default_migration c) = Telemetry c" "I18n (default_migration c) = I18n c" "Observability (default_migration c) = Observability c"
  by (simp_all add: default_migration_def)

lemma default_relay_other [simp]:
  "App (default_relay c) = App c" "HTTP (default_relay c) = HTTP c" "Limits (default_relay c) = Limits c" "Database (default_relay c) = Database c" "Security (default_relay c) = Security c" "Worker (default_relay c) = Worker c" "Modules (default_relay c) = Modules c" "Interop (default_relay c) = Interop c" "Telemetry (default_relay c) = Telemetry c" "I18n (default_relay c) = I18n c" "Observability (default_relay c) = Observability c"
  by (simp_all add: default_relay_def)

lemma default_transport_other [simp]:
  "App (default_transport c) = App c" "HTTP (default_transport c) = HTTP c" "Limits (default_transport c) = Limits c" "Database (default_transport c) = Database c" "Security (default_transport c) = Security c" "Worker (default_transport c) = Worker c" "MessagingGroup (default_transport c) = MessagingGroup c" "Modules (default_transport c) = Modules c" "Telemetry (default_transport c) = Telemetry c" "I18n (default_transport c) = I18n c" "Observability (default_transport c) = Observability c"
  by (simp_all add: default_transport_def)

lemma default_signals_other [simp]:
  "App (default_signals c) = App c" "HTTP (default_signals c) = HTTP c" "Limits (default_signals c) = Limits c" "Database (default_signals c) = Database c" "Security (default_signals c) = Security c" "Worker (default_signals c) = Worker c" "MessagingGroup (default_signals c) = MessagingGroup c" "Modules (default_signals c) = Modules c" "Interop (default_signals c) = Interop c" "Telemetry (default_signals c) = Telemetry c" "I18n (default_signals c) = I18n c"
  by (simp_all add: default_signals_def)

lemma default_locale_other [simp]:
  "App (default_locale c) = App c" "HTTP (default_locale c) = HTTP c" "Limits (default_locale c) = Limits c" "Database (default_locale c) = Database c" "Security (default_locale c) = Security c" "Worker (default_locale c) = Worker c" "MessagingGroup (default_locale c) = MessagingGroup c" "Modules (default_locale c) = Modules c" "Interop (default_locale c) = Interop c" "Telemetry (default_locale c) = Telemetry c" "Observability (default_locale c) = Observability c"
  by (simp_all add: default_locale_def)

lemma default_locales_other [simp]:
  "App (default_locales c) = App c" "HTTP (default_locales c) = HTTP c" "Limits (default_locales c) = Limits c" "Database (default_locales c) = Database c" "Security (default_locales c) = Security c" "Worker (default_locales c) = Worker c" "MessagingGroup (default_locales c) = MessagingGroup c" "Modules (default_locales c) = Modules c" "Interop (default_locales c) = Interop c" "Telemetry (default_locales c) = Telemetry c" "Observability (default_locales c) = Observability c"
  by (simp_all add: default_locales_def)

lemma default_step_sel [simp]:
  "app_Env (App (default_env c)) = (if app_Env (App c) = [] then EnvDevelopment else app_Env (App c))"
  "db_MigrationDSN (Database (default_migration c))
     = (if db_MigrationDSN (Database c) = [] then db_DSN (Database c) else db_MigrationDSN (Database c))"
  "db_DSN (Database (default_migration c)) = db_DSN (Database c)"
  "db_MinConns (Database (default_migration c)) = db_MinConns (Database c)"
  "db_MaxConns (Database (default_migration c)) = db_MaxConns (Database c)"
  "msg_Driver (MessagingGroup (default_relay c))
     = (if msg_Driver (MessagingGroup c) = [] then relayInproc else msg_Driver (MessagingGroup c))"
  "it_DefaultTransport (Interop (default_transport c))
     = (if it_DefaultTransport (Interop c) = [] then transportInproc else it_DefaultTransport (Interop c))"
  "it_Transports (Interop (default_transport c)) = it_Transports (Interop c)"
  "it_BaseURLs (Interop (default_transport c)) = it_BaseURLs (Interop c)"
  "Observability (default_signals c) = observability_applyDefaults (Observability c)"
  "i_DefaultLocale (I18n (default_locale c)) = (if i_DefaultLocale (I18n c) = [] then ''fr'' else i_DefaultLocale (I18n c))"
  "i_SupportedLocales (I18n (default_locale c)) = i_SupportedLocales (I18n c)"
  "i_DefaultLocale (I18n (default_locales c)) = i_DefaultLocale (I18n c)"
  "i_SupportedLocales (I18n (default_locales c)) = (if i_SupportedLocales (I18n c) = []
     then [i_DefaultLocale (I18n c)] else i_SupportedLocales (I18n c))"
  by (simp_all add: default_env_def default_migration_def default_relay_def
      default_transport_def default_signals_def default_locale_def default_locales_def)

lemma applyDefaults_sel:
  "app_Env (App (applyDefaults c)) = (if app_Env (App c) = [] then EnvDevelopment else app_Env (App c))"
  "db_DSN (Database (applyDefaults c)) = db_DSN (Database c)"
  "db_MigrationDSN (Database (applyDefaults c))
     = (if db_MigrationDSN (Database c) = [] then db_DSN (Database c) else db_MigrationDSN (Database c))"
  "msg_Driver (MessagingGroup (applyDefaults c))
     = (if msg_Driver (MessagingGroup c) = [] then relayInproc else msg_Driver (MessagingGroup c))"
  "it_DefaultTransport (Interop (applyDefaults c))
     = (if it_DefaultTransport (Interop c) = [] then transportInproc else it_DefaultTransport (Interop c))"
  "Observability (applyDefaults c) = observability_applyDefaults (Observability c)"
  "i_DefaultLocale (I18n (applyDefaults c)) = (if i_DefaultLocale (I18n c) = [] then ''fr'' else i_DefaultLocale (I18n c))"
  "i_SupportedLocales (I18n (applyDefaults c)) = (if i_SupportedLocales (I18n c) = []
     then [i_DefaultLocale (I18n (applyDefaults c))] else i_SupportedLocales (I18n c))"
  "HTTP (applyDefaults c) = HTTP c" "Security (applyDefaults c) = Security c" "Worker (applyDefaults c) = Worker c"
  "Modules (applyDefaults c) = Modules c" "Telemetry (applyDefaults c) = Telemetry c"
  "db_MinConns (Database (applyDefaults c)) = db_MinConns (Database c)"
  "db_MaxConns (Database (applyDefaults c)) = db_MaxConns (Database c)"
  "it_Transports (Interop (applyDefaults c)) = it_Transports (Interop c)"
  "it_BaseURLs (Interop (applyDefaults c)) = it_BaseURLs (Interop c)"
  by (simp_all add: applyDefaults_def)

lemma local_defaults_accepted:
  assumes "db_DSN (Database c) \<noteq> []" and "std_decode (sec_EncryptionKey (Security c)) = Some key"
    and "length key = 32" and "1 \<le> h_Port (HTTP c)" and "h_Port (HTTP c) \<le> 65535" and "0 < h_ReadTimeout (HTTP c)"
    and "1 \<le> wk_MaxAttempts (Worker c)"
    and "c = zero_config\<lparr> Database := Database c, Security := Security c, HTTP := HTTP c, Worker := Worker c \<rparr>"
    and "db_MinConns (Database c) \<le> db_MaxConns (Database c)"
  shows "validate_config (applyDefaults c) catalog = None \<and> applyDefaults (applyDefaults c) = applyDefaults c"
proof
  have z: "App c = App zero_config" "MessagingGroup c = MessagingGroup zero_config" "Interop c = Interop zero_config"
    "I18n c = I18n zero_config" "Observability c = Observability zero_config" "Modules c = Modules zero_config"
    by (subst assms(8), simp)+
  have obs: "Observability (applyDefaults c) = observability_applyDefaults (Observability zero_config)"
    by (simp add: applyDefaults_sel z)
  have "core_ok (applyDefaults c)"
    using assms(1-7,9) by (auto simp: core_ok_def applyDefaults_sel z zero_config_def environments one_of_def)
  moreover have "IsLocal (app_Env (App (applyDefaults c)))"
    by (simp add: applyDefaults_sel z zero_config_def IsLocal_def)
  moreover have "signals_ok (Observability (applyDefaults c))"
    by (simp add: obs signals_ok_def observability_applyDefaults_def or_default_def zero_config_def one_of_def ratio_accepted_def)
  moreover have "validate_modules catalog (Modules (applyDefaults c)) = []"
    by (simp add: applyDefaults_sel z zero_config_def validate_modules_def)
  moreover have "interop_ok (Interop (applyDefaults c))"
    by (simp add: interop_ok_def TransportFor_def applyDefaults_sel z zero_config_def one_of_def transports_def
        transportInproc_def)
  ultimately have "config_problems (applyDefaults c) catalog = []"
    by (simp add: config_problems_def validateCore_empty validateHardening_empty observability_validate_empty
        interop_validate_empty)
  then show "validate_config (applyDefaults c) catalog = None" by (simp add: validate_config_def)
  show "applyDefaults (applyDefaults c) = applyDefaults c"
    by (rule applyDefaults_fixed)
      (auto simp: applyDefaults_sel observability_applyDefaults_idem EnvDevelopment_def relayInproc_def
        transportInproc_def)
qed

text \<open>the defaults are filled in once and never replace a value (a second pass changes
  nothing), and they are enough: a local configuration that sets only the connection string, a
  32-byte key, a port, a read timeout and the worker's attempts is accepted.\<close>

theorem defaults_are_enough:
  assumes "db_DSN (Database c) \<noteq> []" and "std_decode (sec_EncryptionKey (Security c)) = Some key"
    and "length key = 32" and "1 \<le> h_Port (HTTP c)" and "h_Port (HTTP c) \<le> 65535" and "0 < h_ReadTimeout (HTTP c)"
    and "1 \<le> wk_MaxAttempts (Worker c)"
    and "c = zero_config\<lparr> Database := Database c, Security := Security c, HTTP := HTTP c, Worker := Worker c \<rparr>"
    and "db_MinConns (Database c) \<le> db_MaxConns (Database c)"
  shows "validate_config (applyDefaults c) catalog = None \<and> applyDefaults (applyDefaults c) = applyDefaults c"
  using local_defaults_accepted [OF assms] .

text \<open>The shape of the shipped development files.\<close>

definition demo_config :: config where
  "demo_config = zero_config
     \<lparr> Database := (Database zero_config)\<lparr> db_DSN := ''postgres://local'', db_MaxConns := 4 \<rparr>,
       Security := (Security zero_config)\<lparr> sec_EncryptionKey := replicate 42 CHR ''A'' @ ''A='' \<rparr>,
       HTTP := (HTTP zero_config)\<lparr> h_Port := 8080, h_ReadTimeout := 5 * second \<rparr>,
       Worker := (Worker zero_config)\<lparr> wk_MaxAttempts := 5 \<rparr> \<rparr>"

lemma demo_key: "std_decode (sec_EncryptionKey (Security demo_config)) = Some (replicate 32 CHR 0x00)"
  by code_simp

lemma demo_config_valid: "validate_config (applyDefaults demo_config) catalog = None"
  using local_defaults_accepted [of demo_config "replicate 32 CHR 0x00" catalog] demo_key
  by (simp add: demo_config_def zero_config_def second_def)

theorem defaults_are_enough_witness:
  "validate_config (applyDefaults demo_config) [] = None \<and> validate_config demo_config [] \<noteq> None"
proof
  show "validate_config (applyDefaults demo_config) [] = None"
    using defaults_are_enough [of demo_config "replicate 32 CHR 0x00" "[]"] demo_key
    by (simp add: demo_config_def zero_config_def second_def)
  show "validate_config demo_config [] \<noteq> None"
    by (simp add: validate_config_def config_problems_def validateCore_empty core_ok_def demo_config_def
        zero_config_def environments)
qed

text \<open>A ratio that is not a number passes the range check.\<close>

lemma sample_ratio_nan_accepted:
  assumes "signals_ok o1"
  shows "observability_validate (o1\<lparr> o_Traces := (o_Traces o1)\<lparr> te_SampleRatio := NaN \<rparr> \<rparr>) = []"
  using assms by (simp add: observability_validate_empty signals_ok_def ratio_accepted_def)

text \<open>An empty override is ignored by \<open>TransportFor\<close>, and refused by \<open>validate\<close>.\<close>

lemma empty_override_refused:
  assumes "map_of (it_Transports i) name = Some []" and "it_DefaultTransport i = []"
  shows "TransportFor i name = transportInproc" and "\<not> interop_ok i"
proof -
  show "TransportFor i name = transportInproc" using assms by (simp add: TransportFor_def)
  have "(name, []) \<in> set (it_Transports i)" using assms(1) by (rule map_of_SomeD)
  then show "\<not> interop_ok i"
    by (force simp: interop_ok_def list_all_iff one_of_def transports_def transportInproc_def transportHTTP_def
        transportEvent_def transportDisabled_def)
qed

end
