(* ===== verification/Auth_Module.thy ===== *)
theory Auth_Module
  imports Auth_Properties Config_Core
begin

text \<open>
  The composition of authentication (internal/core/auth/module.go, catalog.go), the bootstrap of
  the first administrator (bootstrap.go), and the permissions of the published contract
  (internal/contracts/auth/contract.go).
\<close>

section \<open>The module\<close>

definition auth_Name :: str where "auth_Name = ''auth''"
definition auth_driverMemory :: str where "auth_driverMemory = ''memory''"
definition OptionSessionTTL :: str where "OptionSessionTTL = ''session_ttl''"
definition defaultSessionTTL :: duration where "defaultSessionTTL = 12 * hour"

record 'w auth_module =
  am_Register :: "str \<Rightarrow> str \<Rightarrow> 'w \<Rightarrow> (err + identity) \<times> 'w"
  am_Authenticate :: "str \<Rightarrow> str \<Rightarrow> 'w \<Rightarrow> (err + session) \<times> 'w"
  am_Verify :: "token \<Rightarrow> 'w \<Rightarrow> (err + identity) \<times> 'w"
  am_Authorize :: "str \<Rightarrow> permission \<Rightarrow> 'w \<Rightarrow> err option"
  am_Revoke :: "token \<Rightarrow> 'w \<Rightarrow> err option \<times> 'w"
  am_DefineRole :: "str \<Rightarrow> str list \<Rightarrow> 'w \<Rightarrow> err option \<times> 'w"
  am_AssignRoles :: "str \<Rightarrow> str list \<Rightarrow> 'w \<Rightarrow> err option \<times> 'w"
  am_Deactivate :: "str \<Rightarrow> 'w \<Rightarrow> err option \<times> 'w"
  am_Reactivate :: "str \<Rightarrow> 'w \<Rightarrow> err option \<times> 'w"

text \<open>The last part of \<open>assemble\<close>: the use cases over their dependencies.\<close>

definition module_of :: "'w auth_deps \<Rightarrow> 'w auth_module" where
  "module_of d =
     \<lparr> am_Register = Register d, am_Authenticate = Authenticate d, am_Verify = Verify d, am_Authorize = Authorize d,
       am_Revoke = Revoke d, am_DefineRole = DefineRole d, am_AssignRoles = AssignRoles d,
       am_Deactivate = Deactivate d, am_Reactivate = Reactivate d \<rparr>"

abbreviation auth_disabled :: err where
  "auth_disabled \<equiv> Sentinel (Auth AuthErrDisabled)"

definition Disabled :: "'w auth_module" where
  "Disabled =
     \<lparr> am_Register = (\<lambda>_ _ w. (Inl auth_disabled, w)), am_Authenticate = (\<lambda>_ _ w. (Inl auth_disabled, w)),
       am_Verify = (\<lambda>_ w. (Inl auth_disabled, w)), am_Authorize = (\<lambda>_ _ _. Some auth_disabled),
       am_Revoke = (\<lambda>_ w. (Some auth_disabled, w)), am_DefineRole = (\<lambda>_ _ w. (Some auth_disabled, w)),
       am_AssignRoles = (\<lambda>_ _ w. (Some auth_disabled, w)), am_Deactivate = (\<lambda>_ w. (Some auth_disabled, w)),
       am_Reactivate = (\<lambda>_ w. (Some auth_disabled, w)) \<rparr>"

text \<open>The effects given to \<open>New\<close>, each possibly nil, and \<open>crypto/rand\<close>.\<close>

record 'e given_auth =
  gd_HashSecret :: "(str \<Rightarrow> 'e \<Rightarrow> (err + str) \<times> 'e) option"
  gd_VerifySecret :: "(str \<Rightarrow> str \<Rightarrow> err + bool) option"
  gd_Now :: "('e \<Rightarrow> time \<times> 'e) option"
  gd_Rand :: "nat \<Rightarrow> 'e \<Rightarrow> (err + bytes) \<times> 'e"

text \<open>\<open>validate\<close> walks a map: the missing dependency it names is the first in an order Go does not
  fix, here the order of the list.\<close>

fun first_missing :: "(str \<times> bool) list \<Rightarrow> err option" where
  "first_missing [] = None"
| "first_missing ((name, absent) # rest) =
     (if absent then Some (Errorf [W (Sentinel (Auth AuthErrMissingDependency)), Lit ('': '' @ name)])
      else first_missing rest)"

definition auth_validate :: "((str \<times> bool) list \<Rightarrow> (str \<times> bool) list) \<Rightarrow> 'e given_auth \<Rightarrow> err option" where
  "auth_validate iteration d =
     first_missing (iteration [(''HashSecret'', Option.is_none (gd_HashSecret d)),
       (''VerifySecret'', Option.is_none (gd_VerifySecret d)), (''Now'', Option.is_none (gd_Now d))])"

definition env_of :: "'e given_auth \<Rightarrow> 'e auth_env" where
  "env_of d = \<lparr> ae_now = the (gd_Now d), ae_rand = gd_Rand d, ae_hash = the (gd_HashSecret d),
     ae_verify = the (gd_VerifySecret d) \<rparr>"

text \<open>The module works on a store of its own, empty when it is built (\<open>memory.New\<close>).\<close>

definition New_auth ::
    "((str \<times> bool) list \<Rightarrow> (str \<times> bool) list) \<Rightarrow> module_config \<Rightarrow> 'e given_auth \<Rightarrow>
     err + (auth_store, 'e) auth_world auth_module" where
  "New_auth iteration cfg deps =
     (if \<not> enabled cfg then Inr Disabled
      else case auth_validate iteration deps of
        Some e \<Rightarrow> Inl e
      | None \<Rightarrow>
          (case DurationOption cfg OptionSessionTTL defaultSessionTTL of
             Inl e \<Rightarrow> Inl (Errorf [Lit (''modules.'' @ auth_Name @ ''.''), W e])
           | Inr ttl \<Rightarrow>
               (let drv = (if driver cfg = [] then auth_driverMemory else driver cfg) in
                if drv = auth_driverMemory then Inr (module_of (assemble memory_ops (env_of deps) ttl))
                else Inl (Errorf [W (Sentinel (Auth AuthErrUnknownDriver)), Lit ('': '' @ quote_text drv)]))))"

definition auth_Catalog :: module_catalog where
  "auth_Catalog = [(auth_Name, \<lparr> Default = auth_driverMemory,
     Drivers = [(auth_driverMemory, \<lparr> SQL = False, Cache = False, Options = [OptionSessionTTL] \<rparr>)] \<rparr>)]"

section \<open>The published permissions\<close>

definition PermissionIdentityCreate :: str where "PermissionIdentityCreate = ''auth.identity.create''"
definition PermissionIdentityRoles :: str where "PermissionIdentityRoles = ''auth.identity.roles''"
definition PermissionIdentityClose :: str where "PermissionIdentityClose = ''auth.identity.close''"
definition PermissionRoleWrite :: str where "PermissionRoleWrite = ''auth.role.write''"

definition admin_permissions :: "str list" where
  "admin_permissions = [PermissionIdentityCreate, PermissionIdentityRoles, PermissionIdentityClose, PermissionRoleWrite]"

lemmas permission_names = PermissionIdentityCreate_def PermissionIdentityRoles_def PermissionIdentityClose_def
  PermissionRoleWrite_def

lemma admin_permissions_normal: "normalize ` set admin_permissions = set admin_permissions"
  by code_simp

section \<open>Bootstrap\<close>

definition BootstrapRole :: str where "BootstrapRole = ''admin''"
definition BootstrapSubject :: str where "BootstrapSubject = ''admin@local''"
definition bootstrapSecretBytes :: nat where "bootstrapSecretBytes = 24"

record bootstrap_report =
  br_Created :: bool
  br_Subject :: str
  br_Secret :: str

definition no_report :: bootstrap_report where
  "no_report = \<lparr> br_Created = False, br_Subject = [], br_Secret = [] \<rparr>"

definition randomSecret :: "(nat \<Rightarrow> 'e \<Rightarrow> (err + bytes) \<times> 'e) \<Rightarrow> 'e \<Rightarrow> (err + str) \<times> 'e" where
  "randomSecret entropy v =
     (case entropy bootstrapSecretBytes v of
        (Inl e, v') \<Rightarrow> (Inl (wrapped ''entropy unavailable'' e), v')
      | (Inr raw, v') \<Rightarrow> (Inr (b64_encode raw), v'))"

definition grantAdmin :: "'w auth_module \<Rightarrow> str \<Rightarrow> 'w \<Rightarrow> err option \<times> 'w" where
  "grantAdmin md i w =
     (case am_DefineRole md BootstrapRole admin_permissions w of
        (Some e, w1) \<Rightarrow> (Some (wrapped (''defining role '' @ quote_text BootstrapRole) e), w1)
      | (None, w1) \<Rightarrow>
          (case am_AssignRoles md i [BootstrapRole] w1 of
             (Some e, w2) \<Rightarrow> (Some (wrapped (''assigning role '' @ quote_text BootstrapRole) e), w2)
           | (None, w2) \<Rightarrow> (None, w2)))"

definition Bootstrap ::
    "('w \<Rightarrow> (err + str) \<times> 'w) \<Rightarrow> 'w auth_module \<Rightarrow> Environment \<Rightarrow> 'w \<Rightarrow> (err + bootstrap_report) \<times> 'w" where
  "Bootstrap draw md env w =
     (if \<not> IsLocal env then (Inr no_report, w)
      else case draw w of
        (Inl e, w1) \<Rightarrow> (Inl e, w1)
      | (Inr secret, w1) \<Rightarrow>
          (case am_Register md BootstrapSubject secret w1 of
             (Inl e, w2) \<Rightarrow>
               if errors_is e (Auth ErrSubjectTaken) \<or> errors_is e (Auth AuthErrDisabled) then (Inr no_report, w2)
               else (Inl (wrapped (''bootstrapping account '' @ quote_text BootstrapSubject) e), w2)
           | (Inr idn, w2) \<Rightarrow>
               (case grantAdmin md (id_ID idn) w2 of
                  (Some e, w3) \<Rightarrow> (Inl e, w3)
                | (None, w3) \<Rightarrow>
                    (Inr \<lparr> br_Created = True, br_Subject = BootstrapSubject, br_Secret = secret \<rparr>, w3))))"

text \<open>Registering a subject somebody already has never succeeds and leaves the store alone.\<close>

lemma Register_taken:
  assumes "auth_inv (aw_store w)" and "map_get (credentials (aw_store w)) i = Some c"
    and "NewSubject raw = Inr (id_Subject (cr_identity c))"
    and "Register (assemble memory_ops e ttl) raw secret w = (r, w')"
  shows "isl r \<and> aw_store w' = aw_store w"
proof -
  have "map_get (bySubject (aw_store w)) (sub_value (id_Subject (cr_identity c))) = Some i"
    using auth_inv_cred [OF assms(1,2)] by simp
  then have "SaveIdentity d (aw_store w) = (Some (auth_err ErrSubjectTaken), aw_store w)"
    if "id_Subject (cr_identity d) = id_Subject (cr_identity c)" for d
    using that by (simp add: SaveIdentity_def)
  then show ?thesis
    using assms(3,4)
    by (auto simp: Register_def assemble_def on_env_def on_store_def memory_ops_def NewIdentity_def NewCredential_def
        Let_def split: if_splits prod.splits sum.splits option.splits)
qed

lemma Bootstrap_again:
  assumes "auth_inv (aw_store w)" and "map_get (credentials (aw_store w)) i = Some c"
    and "NewSubject BootstrapSubject = Inr (id_Subject (cr_identity c))"
    and "Bootstrap (on_env (randomSecret (ae_rand e))) (module_of (assemble memory_ops e ttl)) env w = (Inr r, w')"
  shows "r = no_report \<and> aw_store w' = aw_store w"
proof -
  have taken: "isl x \<and> aw_store w2 = aw_store w"
    if "Register (assemble memory_ops e ttl) BootstrapSubject secret (w\<lparr> aw_env := v \<rparr>) = (x, w2)" for secret v x w2
    using Register_taken [OF _ _ assms(3) that, of i] assms(1,2) by simp
  show ?thesis
    using assms(4) by (auto simp: Bootstrap_def on_env_def module_of_def dest: taken split: if_splits sum.splits prod.splits)
qed

lemma normalize_bootstrap: "normalize BootstrapRole = BootstrapRole"
  by code_simp

text \<open>C12: bootstrapping acts in a local environment only. When it reports an account, the secret it
  returns opens a session under the bootstrap subject in any spelling, and the account is
  authorised for exactly the four permissions of the administration; a later boot reports nothing
  and changes no account.\<close>

theorem bootstrap_opens_administration:
  assumes "auth_inv (aw_store w)" and "fresh_ids e (aw_store w)" and "hashing_sound e"
    and "Bootstrap (on_env (randomSecret (ae_rand e))) (module_of (assemble memory_ops e ttl)) env w = (Inr r, w1)"
    and "br_Created r"
  shows "IsLocal env \<and> br_Subject r = BootstrapSubject
     \<and> (\<exists>i. (\<forall>raw. normalize raw = normalize BootstrapSubject \<longrightarrow>
              Authenticate (assemble memory_ops e ttl) raw (br_Secret r) w1 = issue (assemble memory_ops e ttl) i w1)
          \<and> (\<forall>p. Authorize (assemble memory_ops e ttl) i p w1 = None \<longleftrightarrow> per_value p \<in> set admin_permissions))
     \<and> (\<forall>env2 v r2 w2. Bootstrap (on_env (randomSecret (ae_rand e))) (module_of (assemble memory_ops e ttl)) env2
            (w1\<lparr> aw_env := v \<rparr>) = (Inr r2, w2) \<longrightarrow> r2 = no_report \<and> aw_store w2 = aw_store w1)
     \<and> (\<forall>env2. \<not> IsLocal env2 \<longrightarrow>
          Bootstrap (on_env (randomSecret (ae_rand e))) (module_of (assemble memory_ops e ttl)) env2 w = (Inr no_report, w))"
proof -
  let ?D = "assemble memory_ops e ttl"
  obtain secret v0 idn w2 w3 where loc: "IsLocal env" and s: "randomSecret (ae_rand e) (aw_env w) = (Inr secret, v0)"
    and reg: "Register ?D BootstrapSubject secret (w\<lparr> aw_env := v0 \<rparr>) = (Inr idn, w2)"
    and df: "DefineRole ?D BootstrapRole admin_permissions w2 = (None, w3)"
    and asg: "AssignRoles ?D (id_ID idn) [BootstrapRole] w3 = (None, w1)"
    and r: "r = \<lparr> br_Created = True, br_Subject = BootstrapSubject, br_Secret = secret \<rparr>"
    using assms(4,5)
    by (auto simp: Bootstrap_def on_env_def module_of_def grantAdmin_def no_report_def
        split: if_splits sum.splits prod.splits option.splits)
  have fr: "\<And>u. map_get (credentials (aw_store (w\<lparr> aw_env := v0 \<rparr>))) (fst (randomIdentityID (ae_rand e) u)) = None"
    using assms(2) by (simp add: fresh_ids_def)
  have "auth_inv (aw_store (w\<lparr> aw_env := v0 \<rparr>))" using assms(1) by simp
  from auth_Register [OF this reg fr] obtain h v1 where h: "ae_hash e secret v0 = (Inr h, v1)"
    and subj: "NewSubject BootstrapSubject = Inr (id_Subject idn)" and act: "id_Active idn"
    and inv2: "auth_inv (aw_store w2)"
    and c2: "map_get (credentials (aw_store w2)) (id_ID idn) = Some \<lparr> cr_identity = idn, cr_secretHash = h \<rparr>"
    by auto
  let ?c1 = "\<lparr> cr_identity = WithRoles [BootstrapRole] idn, cr_secretHash = h \<rparr>"
  have g: "(Authorize ?D (id_ID idn) p w1 = None \<longleftrightarrow> per_value p \<in> normalize ` set admin_permissions)
      \<and> auth_inv (aw_store w1) \<and> map_get (credentials (aw_store w1)) (id_ID idn) = Some ?c1" for p
    using define_assign [OF inv2 c2 _ df asg refl, of p] act by simp
  then have inv1: "auth_inv (aw_store w1)" and c1: "map_get (credentials (aw_store w1)) (id_ID idn) = Some ?c1"
    by blast+
  have same: "id_Subject (cr_identity ?c1) = id_Subject idn" "id_Active (cr_identity ?c1)"
    using act by (simp_all add: WithRoles_def)
  have "Authenticate ?D raw secret w1 = issue ?D (id_ID idn) w1" if "normalize raw = normalize BootstrapSubject" for raw
  proof -
    have "NewSubject raw = Inr (id_Subject idn)" using subj that by (simp add: NewSubject_def Let_def)
    moreover have "ae_verify e secret h = Inr True" using assms(3) h by (auto simp: hashing_sound_def)
    ultimately have "accepts e (map_get (credentials (aw_store w1))) raw secret (id_ID idn)"
      using c1 same by (auto simp: accepts_def)
    then show ?thesis by (rule auth_accepted [OF inv1])
  qed
  then have "\<exists>i. (\<forall>raw. normalize raw = normalize BootstrapSubject \<longrightarrow> Authenticate ?D raw secret w1 = issue ?D i w1)
      \<and> (\<forall>p. Authorize ?D i p w1 = None \<longleftrightarrow> per_value p \<in> set admin_permissions)"
    using g admin_permissions_normal by (intro exI [of _ "id_ID idn"]) simp
  moreover have "r2 = no_report \<and> aw_store w2' = aw_store w1"
    if "Bootstrap (on_env (randomSecret (ae_rand e))) (module_of ?D) env2 (w1\<lparr> aw_env := v \<rparr>) = (Inr r2, w2')"
    for env2 v r2 w2'
    using Bootstrap_again [OF _ _ _ that, of "id_ID idn" ?c1] inv1 c1 subj same by simp
  moreover have "Bootstrap (on_env (randomSecret (ae_rand e))) (module_of ?D) env2 w = (Inr no_report, w)"
    if "\<not> IsLocal env2" for env2
    using that by (simp add: Bootstrap_def)
  ultimately show ?thesis using loc unfolding r bootstrap_report.select_convs by blast
qed

text \<open>The first boot of a development machine.\<close>

definition demo_admin_identity :: identity where
  "demo_admin_identity = \<lparr> id_ID = demo_id, id_Subject = \<lparr> sub_value = ''admin@local'' \<rparr>, id_Roles = [],
     id_Active = True, id_CreatedAt = 9 \<rparr>"

definition demo_admin :: "(auth_store, nat) auth_world" where
  "demo_admin = \<lparr> aw_store = \<lparr> bySubject = [(''admin@local'', demo_id)],
       credentials = [(demo_id, \<lparr> cr_identity = demo_admin_identity, cr_secretHash = CHR ''h'' # replicate 32 CHR ''A'' \<rparr>)],
       roles = [], sessions = [] \<rparr>, aw_env = 9 \<rparr>"

definition demo_granted :: "err option \<times> (auth_store, nat) auth_world" where
  "demo_granted = grantAdmin (module_of demo_auth) demo_id demo_admin"

definition demo_report :: bootstrap_report where
  "demo_report = \<lparr> br_Created = True, br_Subject = BootstrapSubject, br_Secret = replicate 32 CHR ''A'' \<rparr>"

lemma demo_secret: "b64_encode (replicate 24 CHR 0x00) = replicate 32 CHR ''A''"
  and runes_secret: "secretMinLen \<le> rune_count (replicate 32 CHR ''A'')"
  and normalize_admin: "normalize BootstrapSubject = ''admin@local''"
  and granted: "fst demo_granted = None"
  by code_simp+

lemma NewSubject_admin: "NewSubject BootstrapSubject = Inr \<lparr> sub_value = ''admin@local'' \<rparr>"
  by (simp add: NewSubject_def normalize_admin subjectMaxLen_def contains_any_def)

lemma demo_Register_admin:
  "Register demo_auth BootstrapSubject (replicate 32 CHR ''A'') (demo_empty\<lparr> aw_env := 8 \<rparr>) = (Inr demo_admin_identity, demo_admin)"
  using runes_secret
  by (simp add: Register_def NewSubject_admin demo_auth_def assemble_def on_env_def on_store_def demo_auth_env_def
      demo_empty_def NewIdentity_def NewCredential_def subject_IsZero_def memory_ops_def SaveIdentity_def
      new_auth_store_def Let_def demo_admin_identity_def demo_admin_def)

lemma demo_Bootstrap:
  "Bootstrap (on_env (randomSecret (ae_rand demo_auth_env))) (module_of demo_auth) EnvDevelopment demo_empty
     = (Inr demo_report, snd demo_granted)"
proof -
  have "on_env (randomSecret (ae_rand demo_auth_env)) demo_empty
      = (Inr (replicate 32 CHR ''A''), demo_empty\<lparr> aw_env := 8 \<rparr>)"
    by (simp add: on_env_def randomSecret_def demo_auth_env_def bootstrapSecretBytes_def demo_secret demo_empty_def)
  moreover have "grantAdmin (module_of demo_auth) demo_id demo_admin = (None, snd demo_granted)"
    using granted by (metis demo_granted_def prod.collapse)
  moreover have "id_ID demo_admin_identity = demo_id" by (simp add: demo_admin_identity_def)
  moreover have "am_Register (module_of demo_auth) = Register demo_auth" by (simp add: module_of_def)
  ultimately show ?thesis
    by (simp add: Bootstrap_def IsLocal_def demo_Register_admin demo_report_def)
qed

theorem bootstrap_opens_administration_witness:
  "\<exists>i. \<forall>p. Authorize demo_auth i p (snd demo_granted) = None \<longleftrightarrow> per_value p \<in> set admin_permissions"
proof -
  have "auth_inv (aw_store demo_empty)" "fresh_ids demo_auth_env (aw_store demo_empty)" "br_Created demo_report"
    using auth_inv_new demo_fresh by (simp_all add: demo_empty_def demo_report_def)
  from bootstrap_opens_administration [OF this(1,2) demo_sound demo_Bootstrap [unfolded demo_auth_def] this(3)]
  show ?thesis unfolding demo_auth_def by blast
qed

text \<open>A boot that registers the account and then fails to grant the role leaves it without rights
  for good: the next boot finds the subject taken and reports nothing.\<close>

lemma failed_grant_is_final:
  assumes "auth_inv (aw_store w)" and "map_get (credentials (aw_store w)) i = Some c"
    and "NewSubject BootstrapSubject = Inr (id_Subject (cr_identity c))" and "id_Roles (cr_identity c) = []"
    and "Bootstrap (on_env (randomSecret (ae_rand e))) (module_of (assemble memory_ops e ttl)) env w = (Inr r, w')"
  shows "r = no_report \<and> Authorize (assemble memory_ops e ttl) i p w' \<noteq> None"
proof -
  have "r = no_report" and st: "aw_store w' = aw_store w"
    using Bootstrap_again [OF assms(1-3,5)] by auto
  then show ?thesis
    using assms(2,4) by (simp add: Authorize_def assemble_def memory_ops_def store_Grants_def)
qed

end
