(* ===== verification/Auth_Http.thy ===== *)
theory Auth_Http
  imports Auth_Module
begin

text \<open>
  The HTTP surface of authentication (internal/core/auth/adapters/primary/http): the bearer token,
  the guard of the protected routes, the status of every error, and the handlers. The routing and
  the (de)serialisation of the framework are outside: a handler takes the decoded input.
\<close>

section \<open>Errors\<close>

text \<open>An error of the framework: a status and a message.\<close>

record http_error =
  he_Status :: nat
  he_Message :: str

definition errBadToken :: http_error where
  "errBadToken = \<lparr> he_Status = 401, he_Message = ''authentication required'' \<rparr>"

definition errBadCredentials :: http_error where
  "errBadCredentials = \<lparr> he_Status = 401, he_Message = ''invalid credentials'' \<rparr>"

definition statusFor :: "err \<Rightarrow> http_error" where
  "statusFor e =
     (if errors_is e (Auth ErrInvalidCredentials) then errBadCredentials
      else if errors_is e (Auth ErrTokenUnknown) then errBadToken
      else if errors_is e (Auth ErrForbidden) then \<lparr> he_Status = 403, he_Message = ''permission denied'' \<rparr>
      else if errors_is e (Auth ErrSubjectTaken) then
        \<lparr> he_Status = 409, he_Message = ''this subject is already registered'' \<rparr>
      else if errors_is e (Auth AuthErrIncomplete) then \<lparr> he_Status = 422, he_Message = err_text e \<rparr>
      else if errors_is e (Auth AuthErrDisabled) then
        \<lparr> he_Status = 503, he_Message = ''authentication unavailable'' \<rparr>
      else \<lparr> he_Status = 500, he_Message = ''an internal error occurred'' \<rparr>)"

section \<open>The bearer token\<close>

definition bearerPrefix :: str where
  "bearerPrefix = ''Bearer ''"

definition bearer :: "str \<Rightarrow> http_error + token" where
  "bearer header =
     (let raw = trim_space header; n = length bearerPrefix in
      if length raw \<le> n \<or> to_lower (take n raw) \<noteq> to_lower bearerPrefix then Inl errBadToken
      else case NewToken (trim_space (drop n raw)) of Inl _ \<Rightarrow> Inl errBadToken | Inr t \<Rightarrow> Inr t)"

section \<open>The guard\<close>

text \<open>\<open>mustPermission\<close> panics at mount time on a malformed permission; the four mounted ones are
  well formed, by \<open>mounted_permissions\<close> below.\<close>

definition mustPermission :: "str \<Rightarrow> permission option" where
  "mustPermission raw = (case NewPermission raw of Inl _ \<Rightarrow> None | Inr p \<Rightarrow> Some p)"

definition guard_Require :: "'w auth_module \<Rightarrow> str \<Rightarrow> permission \<Rightarrow> 'w \<Rightarrow> (http_error + identity) \<times> 'w" where
  "guard_Require md header p w =
     (case bearer header of
        Inl e \<Rightarrow> (Inl e, w)
      | Inr t \<Rightarrow>
          (case am_Verify md t w of
             (Inl e, w1) \<Rightarrow> (Inl (statusFor e), w1)
           | (Inr idn, w1) \<Rightarrow>
               (case am_Authorize md (id_ID idn) p w1 of
                  Some e \<Rightarrow> (Inl (statusFor e), w1)
                | None \<Rightarrow> (Inr idn, w1))))"

section \<open>Handlers\<close>

record identity_response =
  ir_IdentityID :: str
  ir_Subject :: str
  ir_Roles :: "str list"
  ir_CreatedAt :: time

record session_response =
  sr_Token :: str
  sr_IdentityID :: str
  sr_ExpiresAt :: time

definition identity_body :: "identity \<Rightarrow> identity_response" where
  "identity_body idn = \<lparr> ir_IdentityID = id_ID idn, ir_Subject = sub_value (id_Subject idn), ir_Roles = id_Roles idn,
     ir_CreatedAt = id_CreatedAt idn \<rparr>"

definition open_session :: "'w auth_module \<Rightarrow> str \<Rightarrow> str \<Rightarrow> 'w \<Rightarrow> (http_error + nat \<times> session_response) \<times> 'w" where
  "open_session md subj secret w =
     (case am_Authenticate md subj secret w of
        (Inl e, w1) \<Rightarrow> (Inl (statusFor e), w1)
      | (Inr x, w1) \<Rightarrow> (Inr (201, \<lparr> sr_Token = tok_value (ses_Token x), sr_IdentityID = ses_Identity x,
            sr_ExpiresAt = ses_ExpiresAt x \<rparr>), w1))"

definition close_session :: "'w auth_module \<Rightarrow> str \<Rightarrow> 'w \<Rightarrow> (http_error + nat) \<times> 'w" where
  "close_session md header w =
     (case bearer header of
        Inl e \<Rightarrow> (Inl e, w)
      | Inr t \<Rightarrow> (case am_Revoke md t w of (Some e, w1) \<Rightarrow> (Inl (statusFor e), w1) | (None, w1) \<Rightarrow> (Inr 204, w1)))"

definition resolve_identity :: "'w auth_module \<Rightarrow> str \<Rightarrow> 'w \<Rightarrow> (http_error + nat \<times> identity_response) \<times> 'w" where
  "resolve_identity md header w =
     (case bearer header of
        Inl e \<Rightarrow> (Inl e, w)
      | Inr t \<Rightarrow> (case am_Verify md t w of
            (Inl e, w1) \<Rightarrow> (Inl (statusFor e), w1) | (Inr idn, w1) \<Rightarrow> (Inr (200, identity_body idn), w1)))"

definition create_identity ::
    "'w auth_module \<Rightarrow> permission \<Rightarrow> str \<Rightarrow> str \<Rightarrow> str \<Rightarrow> 'w \<Rightarrow> (http_error + nat \<times> identity_response) \<times> 'w" where
  "create_identity md p header subj secret w =
     (case guard_Require md header p w of
        (Inl e, w1) \<Rightarrow> (Inl e, w1)
      | (Inr _, w1) \<Rightarrow> (case am_Register md subj secret w1 of
            (Inl e, w2) \<Rightarrow> (Inl (statusFor e), w2) | (Inr idn, w2) \<Rightarrow> (Inr (201, identity_body idn), w2)))"

definition define_role :: "'w auth_module \<Rightarrow> permission \<Rightarrow> str \<Rightarrow> str \<Rightarrow> str list \<Rightarrow> 'w \<Rightarrow> (http_error + nat) \<times> 'w" where
  "define_role md p header nm permissions w =
     (case guard_Require md header p w of
        (Inl e, w1) \<Rightarrow> (Inl e, w1)
      | (Inr _, w1) \<Rightarrow> (case am_DefineRole md nm permissions w1 of
            (Some e, w2) \<Rightarrow> (Inl (statusFor e), w2) | (None, w2) \<Rightarrow> (Inr 204, w2)))"

definition assign_roles :: "'w auth_module \<Rightarrow> permission \<Rightarrow> str \<Rightarrow> str \<Rightarrow> str list \<Rightarrow> 'w \<Rightarrow> (http_error + nat) \<times> 'w" where
  "assign_roles md p header i rs w =
     (case guard_Require md header p w of
        (Inl e, w1) \<Rightarrow> (Inl e, w1)
      | (Inr _, w1) \<Rightarrow> (case am_AssignRoles md i rs w1 of
            (Some e, w2) \<Rightarrow> (Inl (statusFor e), w2) | (None, w2) \<Rightarrow> (Inr 204, w2)))"

definition close_identity :: "'w auth_module \<Rightarrow> permission \<Rightarrow> str \<Rightarrow> str \<Rightarrow> 'w \<Rightarrow> (http_error + nat) \<times> 'w" where
  "close_identity md p header i w =
     (case guard_Require md header p w of
        (Inl e, w1) \<Rightarrow> (Inl e, w1)
      | (Inr _, w1) \<Rightarrow> (case am_Deactivate md i w1 of
            (Some e, w2) \<Rightarrow> (Inl (statusFor e), w2) | (None, w2) \<Rightarrow> (Inr 204, w2)))"

text \<open>The administration routes, each mounted with its permission; the reply is its status.\<close>

datatype admin_request =
    CreateIdentity str str
  | DefineRoleReq str "str list"
  | AssignRolesReq str "str list"
  | CloseIdentity str

primrec admin_permission :: "admin_request \<Rightarrow> str" where
  "admin_permission (CreateIdentity subj secret) = PermissionIdentityCreate"
| "admin_permission (DefineRoleReq nm ps) = PermissionRoleWrite"
| "admin_permission (AssignRolesReq i rs) = PermissionIdentityRoles"
| "admin_permission (CloseIdentity i) = PermissionIdentityClose"

definition administer :: "'w auth_module \<Rightarrow> str \<Rightarrow> admin_request \<Rightarrow> 'w \<Rightarrow> (http_error + nat) \<times> 'w" where
  "administer md header req w =
     (case mustPermission (admin_permission req) of
        None \<Rightarrow> (Inl \<lparr> he_Status = 500, he_Message = [] \<rparr>, w)
      | Some p \<Rightarrow>
          (case req of
             CreateIdentity subj secret \<Rightarrow>
               (case create_identity md p header subj secret w of
                  (Inl e, w1) \<Rightarrow> (Inl e, w1) | (Inr (st, _), w1) \<Rightarrow> (Inr st, w1))
           | DefineRoleReq nm ps \<Rightarrow> define_role md p header nm ps w
           | AssignRolesReq i rs \<Rightarrow> assign_roles md p header i rs w
           | CloseIdentity i \<Rightarrow> close_identity md p header i w))"

section \<open>Who gets through\<close>

text \<open>The header carries the token of a live session of an active account.\<close>

definition signed_in :: "auth_store \<Rightarrow> time \<Rightarrow> str \<Rightarrow> identity \<Rightarrow> bool" where
  "signed_in s now header idn \<longleftrightarrow>
     (\<exists>t x c. bearer header = Inr t \<and> map_of (sessions s) (tok_value t) = Some x \<and> \<not> Expired x now
        \<and> map_of (credentials s) (ses_Identity x) = Some c \<and> id_Active (cr_identity c) \<and> idn = cr_identity c)"

definition has_permission :: "auth_store \<Rightarrow> identity \<Rightarrow> permission \<Rightarrow> bool" where
  "has_permission s idn p \<longleftrightarrow> (\<exists>nm r. nm \<in> set (id_Roles idn) \<and> map_of (roles s) nm = Some r \<and> role_Grants r p)"

lemma bearer_not_zero: "bearer header = Inr t \<Longrightarrow> \<not> token_IsZero t"
  using NewToken_not_zero by (auto simp: bearer_def Let_def split: if_splits sum.splits)

lemma Verify_failure: "Verify d t w = (Inl e, w') \<Longrightarrow> e = Sentinel (Auth ErrTokenUnknown)"
  by (auto simp: Verify_def split: if_splits sum.splits prod.splits)

lemma statusFor_token: "statusFor (Sentinel (Auth ErrTokenUnknown)) = errBadToken"
  and statusFor_forbidden:
    "statusFor (Sentinel (Auth ErrForbidden)) = \<lparr> he_Status = 403, he_Message = ''permission denied'' \<rparr>"
  by (simp_all add: statusFor_def)

lemma Verify_signed_in:
  assumes "auth_inv (aw_store w)" and "ae_now e (aw_env w) = (now, v)" and "bearer header = Inr t"
  shows "Verify (assemble memory_ops e ttl) t w = (Inr idn, w')
     \<longleftrightarrow> w' = w\<lparr> aw_env := v \<rparr> \<and> signed_in (aw_store w) now header idn"
  using auth_Verify [OF assms(1,2)] bearer_not_zero [OF assms(3)] assms(3) by (auto simp: signed_in_def)

lemma Authorize_has_permission:
  assumes "auth_inv (aw_store w)" and "signed_in (aw_store w) now header idn" and "\<not> permission_IsZero p"
  shows "Authorize (assemble memory_ops e ttl) (id_ID idn) p w
     = (if has_permission (aw_store w) idn p then None else Some (Sentinel (Auth ErrForbidden)))"
proof -
  obtain i c where c: "map_of (credentials (aw_store w)) i = Some c" "id_Active (cr_identity c)" "idn = cr_identity c"
    using assms(2) by (auto simp: signed_in_def)
  have k: "id_ID idn = i" "i \<noteq> []" using auth_inv_cred [OF assms(1) c(1)] c(3) by auto
  have "store_Grants i p (aw_store w) \<longleftrightarrow> has_permission (aw_store w) idn p"
    using c by (auto simp: store_Grants_def has_permission_def list_ex_iff split: option.splits)
  then show ?thesis using assms(3) k by (auto simp: Authorize_def assemble_def memory_ops_def)
qed

definition guard_reply :: "auth_store \<Rightarrow> time \<Rightarrow> str \<Rightarrow> permission \<Rightarrow> http_error + identity \<Rightarrow> bool" where
  "guard_reply s now header p r \<longleftrightarrow>
     (case r of
        Inr idn \<Rightarrow> signed_in s now header idn \<and> has_permission s idn p
      | Inl er \<Rightarrow>
          (if \<exists>idn. signed_in s now header idn
           then (\<exists>idn. signed_in s now header idn \<and> \<not> has_permission s idn p)
                \<and> er = \<lparr> he_Status = 403, he_Message = ''permission denied'' \<rparr>
           else er = errBadToken))"

lemma guard_reply:
  assumes "auth_inv (aw_store w)" and "ae_now e (aw_env w) = (now, v)" and "\<not> permission_IsZero p"
    and "guard_Require (module_of (assemble memory_ops e ttl)) header p w = (r, w')"
  shows "aw_store w' = aw_store w \<and> guard_reply (aw_store w) now header p r"
proof (cases "bearer header")
  case (Inl er)
  then have "er = errBadToken" by (auto simp: bearer_def Let_def split: if_splits sum.splits)
  then show ?thesis using Inl assms(4) by (auto simp: guard_Require_def guard_reply_def signed_in_def)
next
  case (Inr t)
  note ver = Verify_signed_in [OF assms(1,2) Inr, of ttl]
  obtain x w1 where v: "Verify (assemble memory_ops e ttl) t w = (x, w1)"
    by (cases "Verify (assemble memory_ops e ttl) t w")
  have st: "aw_store w1 = aw_store w" using auth_Verify_store [of e ttl t w] v by simp
  show ?thesis
  proof (cases x)
    case (Inl er)
    have "\<not> (\<exists>idn. signed_in (aw_store w) now header idn)" using ver v Inl by auto
    moreover have "er = Sentinel (Auth ErrTokenUnknown)" using v Inl by (auto intro: Verify_failure)
    ultimately show ?thesis
      using Inl Inr v assms(4) st
      by (auto simp: guard_Require_def module_of_def guard_reply_def statusFor_token)
  next
    case (Inr idn)
    have w1: "w1 = w\<lparr> aw_env := v \<rparr>" and sg: "signed_in (aw_store w) now header idn"
      using ver v Inr by auto
    have az: "Authorize (assemble memory_ops e ttl) (id_ID idn) p w1
        = (if has_permission (aw_store w) idn p then None else Some (Sentinel (Auth ErrForbidden)))"
      using Authorize_has_permission [of w1 now header idn p e ttl] assms(1,3) sg w1 by simp
    then show ?thesis
      using Inr \<open>bearer header = Inr t\<close> v assms(4) sg st
      by (auto simp: guard_Require_def module_of_def guard_reply_def statusFor_forbidden split: if_splits)
  qed
qed

lemma mounted_permissions:
  "mustPermission (admin_permission req) = Some \<lparr> per_value = admin_permission req \<rparr>"
proof -
  have "list_all (\<lambda>p. NewPermission p = Inr \<lparr> per_value = p \<rparr>) admin_permissions"
    by code_simp
  moreover have "admin_permission req \<in> set admin_permissions"
    by (cases req) (simp_all add: admin_permissions_def)
  ultimately show ?thesis by (simp add: mustPermission_def list_all_iff)
qed

lemma admin_permission_nonzero: "\<not> permission_IsZero \<lparr> per_value = admin_permission req \<rparr>"
  by (cases req) (simp_all add: permission_IsZero_def permission_names)

text \<open>A refusal of the guard is the answer of the route, and nothing else happens.\<close>

lemma administer_refused:
  assumes "guard_Require md header \<lparr> per_value = admin_permission req \<rparr> w = (Inl er, w1)"
  shows "administer md header req w = (Inl er, w1)"
  using assms mounted_permissions [of req]
  by (cases req) (simp_all add: administer_def create_identity_def define_role_def assign_roles_def close_identity_def)

text \<open>C11: no administration without rights: if an administration request succeeds, or changes
  anything in the store, then its header carries the token of a live session of an active account
  one of whose roles, read at that moment, holds the permission of that very route; any other
  request is answered by a uniform 401 when the token is not worth anything (missing, malformed,
  unknown, expired, revoked or closed account alike) and by a 403 otherwise.\<close>

theorem administration_is_guarded:
  assumes "auth_inv (aw_store w)" and "ae_now e (aw_env w) = (now, v)"
    and "administer (module_of (assemble memory_ops e ttl)) header req w = (r, w')"
  shows "(\<exists>idn. signed_in (aw_store w) now header idn
            \<and> has_permission (aw_store w) idn \<lparr> per_value = admin_permission req \<rparr>)
     \<or> (aw_store w' = aw_store w
            \<and> r = Inl (if \<exists>idn. signed_in (aw_store w) now header idn
                       then \<lparr> he_Status = 403, he_Message = ''permission denied'' \<rparr> else errBadToken))"
proof -
  obtain x w1 where g: "guard_Require (module_of (assemble memory_ops e ttl)) header
      \<lparr> per_value = admin_permission req \<rparr> w = (x, w1)"
    by (cases "guard_Require (module_of (assemble memory_ops e ttl)) header \<lparr> per_value = admin_permission req \<rparr> w")
  have rep: "aw_store w1 = aw_store w" "guard_reply (aw_store w) now header \<lparr> per_value = admin_permission req \<rparr> x"
    using guard_reply [OF assms(1,2) admin_permission_nonzero g] by auto
  show ?thesis
  proof (cases x)
    case (Inl er)
    then have "r = Inl er" "w' = w1" using administer_refused [OF g [unfolded Inl]] assms(3) by auto
    then show ?thesis using rep Inl by (auto simp: guard_reply_def split: if_splits)
  next
    case (Inr idn)
    then show ?thesis using rep by (auto simp: guard_reply_def)
  qed
qed

theorem administration_is_guarded_witness:
  "\<exists>w'. administer (module_of demo_auth) ''Bearer short'' (CloseIdentity demo_id) demo_alice = (Inl errBadToken, w')
     \<and> aw_store w' = aw_store demo_alice"
proof -
  have inv: "auth_inv (aw_store demo_alice)" using demo_auth_inv by (simp add: demo_alice_def)
  have now: "ae_now demo_auth_env (aw_env demo_alice) = (8, 8)" by (simp add: demo_auth_env_def demo_alice_def)
  have "bearer ''Bearer short'' = Inl errBadToken" by code_simp
  then have none: "\<nexists>idn. signed_in (aw_store demo_alice) 8 ''Bearer short'' idn"
    by (simp add: signed_in_def)
  obtain r w' where a: "administer (module_of demo_auth) ''Bearer short'' (CloseIdentity demo_id) demo_alice = (r, w')"
    by (cases "administer (module_of demo_auth) ''Bearer short'' (CloseIdentity demo_id) demo_alice")
  show ?thesis
    using administration_is_guarded [OF inv now a [unfolded demo_auth_def]] none a by (auto simp: if_not_P)
qed

text \<open>An authorised administrator who names an account that does not exist is told to
  authenticate again, with two different messages.\<close>

lemma unknown_account_answers_401:
  assumes "map_of (credentials (aw_store w1)) i = None" and "i \<noteq> []"
    and "guard_Require (module_of (assemble memory_ops e ttl)) header p w = (Inr idn, w1)"
  shows "fst (assign_roles (module_of (assemble memory_ops e ttl)) p header i rs w) = Inl errBadCredentials"
    and "fst (close_identity (module_of (assemble memory_ops e ttl)) p header i w) = Inl errBadToken"
  using assms
  by (simp_all add: assign_roles_def close_identity_def module_of_def AssignRoles_def Deactivate_def setActive_def
      assemble_def on_store_def memory_ops_def store_AssignRoles_def FindIdentity_def statusFor_def)

text \<open>A disabled module lets nobody in and answers 503 to every well-formed request.\<close>

lemma disabled_answers_503:
  assumes "bearer header = Inr t"
  shows "guard_Require Disabled header p w = (Inl \<lparr> he_Status = 503, he_Message = ''authentication unavailable'' \<rparr>, w)"
    and "fst (open_session Disabled subj secret w) = Inl \<lparr> he_Status = 503, he_Message = ''authentication unavailable'' \<rparr>"
  using assms by (simp_all add: guard_Require_def Disabled_def statusFor_def open_session_def)

end
