(* ===== verification/Config_Loader.thy ===== *)
theory Config_Loader
  imports Config_Core
begin

text \<open>
  Loading the configuration (internal/config/loader.go, duration.go): the layers merged in order,
  the \<open>${VAR}\<close> references resolved against the environment, then decoding, defaults and
  validation. The YAML codec and the file system are parameters.
\<close>

section \<open>Merging the layers\<close>

fun deepMerge :: "(str \<times> val) list \<Rightarrow> (str \<times> val) list \<Rightarrow> (str \<times> val) list" where
  "deepMerge dst [] = dst"
| "deepMerge dst ((key, v) # src) =
     (case v of
        VMap nested \<Rightarrow>
          deepMerge (map_set key (VMap (deepMerge
            (case map_get dst key of Some (VMap existing) \<Rightarrow> existing | _ \<Rightarrow> []) nested)) dst) src
      | _ \<Rightarrow> deepMerge (map_set key v dst) src)"

text \<open>What a layer says of a path: the value there, or nothing at all on the way to it.\<close>

fun at_path :: "(str \<times> val) list \<Rightarrow> str list \<Rightarrow> val option" where
  "at_path m [] = None"
| "at_path m [k] = map_of m k"
| "at_path m (k # ks) = (case map_of m k of Some (VMap n) \<Rightarrow> at_path n ks | _ \<Rightarrow> None)"

fun silent_on :: "(str \<times> val) list \<Rightarrow> str list \<Rightarrow> bool" where
  "silent_on m [] = True"
| "silent_on m [k] = (map_of m k = None)"
| "silent_on m (k # ks) = (case map_of m k of None \<Rightarrow> True | Some (VMap n) \<Rightarrow> silent_on n ks | _ \<Rightarrow> False)"

text \<open>A decoded table has each key once, at every depth.\<close>

fun table :: "val \<Rightarrow> bool" where
  "table (VMap m) = (is_map m \<and> list_all (\<lambda>(k, v). table v) m)"
| "table v = True"

abbreviation is_table :: "val \<Rightarrow> bool" where
  "is_table v \<equiv> (\<exists>m. v = VMap m)"

lemma table_nested: "table (VMap m) \<Longrightarrow> map_of m k = Some v \<Longrightarrow> table v"
  by (auto simp: list_all_iff dest: map_of_SomeD)

definition merged_value :: "(str \<times> val) list \<Rightarrow> str \<Rightarrow> val \<Rightarrow> val" where
  "merged_value dst k v =
     (case v of VMap nested \<Rightarrow>
          VMap (deepMerge (case map_of dst k of Some (VMap existing) \<Rightarrow> existing | _ \<Rightarrow> []) nested)
      | _ \<Rightarrow> v)"

lemma deepMerge_Cons: "deepMerge dst ((key, v) # src) = deepMerge (map_set key (merged_value dst key v) dst) src"
  by (cases v) (simp_all add: merged_value_def)

lemma map_of_deepMerge:
  "is_map src \<Longrightarrow> map_of (deepMerge dst src) k
     = (case map_of src k of None \<Rightarrow> map_of dst k | Some v \<Rightarrow> Some (merged_value dst k v))"
proof (induction src arbitrary: dst k)
  case (Cons p src)
  obtain key v where p: "p = (key, v)" by (cases p)
  have fresh: "map_of src key = None" using Cons.prems p by (simp add: map_of_eq_None_iff)
  have same: "merged_value (map_set key u dst) k w = merged_value dst k w" if "k \<noteq> key" for u w
    using that by (cases w) (simp_all add: merged_value_def)
  have "is_map src" using Cons.prems by simp
  then show ?case
    using fresh same by (cases "k = key") (simp_all add: p deepMerge_Cons Cons.IH del: deepMerge.simps split: option.split)
qed simp

lemma deepMerge_wins:
  "table (VMap src) \<Longrightarrow> at_path src p = Some v \<Longrightarrow> \<not> is_table v \<Longrightarrow> at_path (deepMerge dst src) p = Some v"
proof (induction src p arbitrary: dst rule: at_path.induct)
  case (2 m k)
  then show ?case by (cases v) (auto simp: map_of_deepMerge merged_value_def)
next
  case (3 m k k2 ks)
  then obtain n where n: "map_of m k = Some (VMap n)" "at_path n (k2 # ks) = Some v"
    by (auto split: option.splits val.splits)
  have "table (VMap n)" using table_nested [OF "3.prems"(1) n(1)] .
  then show ?case using "3.IH" [OF n(1) refl] n "3.prems" by (simp add: map_of_deepMerge merged_value_def)
qed simp

lemma deepMerge_keeps:
  "table (VMap src) \<Longrightarrow> silent_on src p \<Longrightarrow> at_path (deepMerge dst src) p = at_path dst p"
proof (induction src p arbitrary: dst rule: silent_on.induct)
  case (2 m k)
  then show ?case by (simp add: map_of_deepMerge)
next
  case (3 m k k2 ks)
  show ?case
  proof (cases "map_of m k")
    case None
    then show ?thesis using "3.prems" by (simp add: map_of_deepMerge)
  next
    case (Some v)
    then obtain n where n: "v = VMap n" "silent_on n (k2 # ks)"
      using "3.prems"(2) by (cases v) auto
    have t: "table (VMap n)" using table_nested [OF "3.prems"(1) Some] n(1) by simp
    have "at_path (deepMerge e n) (k2 # ks) = at_path e (k2 # ks)" for e
      using "3.IH" Some n t by blast
    moreover have "at_path [] (k2 # ks) = None" by (cases ks) simp_all
    ultimately show ?thesis
      using Some n(1) "3.prems"(1)
      by (auto simp: map_of_deepMerge merged_value_def split: option.split val.split)
  qed
qed simp

section \<open>References to the environment\<close>

text \<open>The expression \<open>placeholder\<close>: a name between braces after a dollar sign, with or without a
  fallback after \<open>:-\<close>. The text is read into pieces, from the left.\<close>

datatype piece = Plain char | Ref str "str option"

definition name_start :: "char \<Rightarrow> bool" where
  "name_start c \<longleftrightarrow> (let n = of_char c :: nat in (65 \<le> n \<and> n \<le> 90) \<or> (97 \<le> n \<and> n \<le> 122) \<or> n = 95)"

definition name_char :: "char \<Rightarrow> bool" where
  "name_char c \<longleftrightarrow> name_start c \<or> is_digit c"

text \<open>What follows \<open>${\<close>, when it is a reference: its name, its fallback, the text after it.\<close>

definition match_ref :: "str \<Rightarrow> (str \<times> str option \<times> str) option" where
  "match_ref s =
     (let name = takeWhile name_char s; r = dropWhile name_char s in
      if name = [] \<or> \<not> name_start (hd name) then None
      else case r of
        [] \<Rightarrow> None
      | c # r' \<Rightarrow>
          if c = CHR ''}'' then Some (name, None, r')
          else if has_prefix r '':-'' then
            (case cut CHR ''}'' (drop 2 r) of
               (fallback, rest, found) \<Rightarrow> if found then Some (name, Some fallback, rest) else None)
          else None)"

lemma cut_length: "cut c s = (a, b, f) \<Longrightarrow> length b \<le> length s"
  by (induction s arbitrary: a) (auto split: if_splits prod.splits)

lemma match_ref_rest: "match_ref s = Some x \<Longrightarrow> dropWhile name_char s \<noteq> []"
  by (auto simp only: match_ref_def Let_def list.case split: if_splits)

lemma match_ref_shorter: "match_ref s = Some (n, f, r) \<Longrightarrow> length r < length s"
proof -
  assume m: "match_ref s = Some (n, f, r)"
  have d: "length (dropWhile name_char s) \<le> length s" by (rule length_dropWhile_le)
  show ?thesis
  proof (cases "dropWhile name_char s")
    case Nil
    then show ?thesis using m unfolding match_ref_def Let_def by (simp only: Nil list.case) (simp split: if_splits)
  next
    case (Cons c r')
    obtain a b g where ct: "cut CHR ''}'' (drop 2 (dropWhile name_char s)) = (a, b, g)" by (metis prod_cases3)
    have "length b \<le> length (dropWhile name_char s) - 2"
      using cut_length [OF ct] by simp
    then have "length b < length (dropWhile name_char s)" "length r' < length (dropWhile name_char s)"
      using Cons by simp_all
    moreover have "r = b \<or> r = r'"
      using m ct unfolding match_ref_def Let_def by (simp only: Cons list.case) (simp split: if_splits)
    ultimately show ?thesis using d by auto
  qed
qed

function pieces :: "str \<Rightarrow> piece list" where
  "pieces [] = []"
| "pieces (c # s) =
     (case (if c = CHR ''$'' \<and> s \<noteq> [] \<and> hd s = CHR ''{'' then match_ref (tl s) else None) of
        Some (name, fallback, rest) \<Rightarrow> Ref name fallback # pieces rest
      | None \<Rightarrow> Plain c # pieces s)"
  by pat_completeness auto
termination
proof (relation "measure length")
  fix c :: char and s x name y fallback rest
  assume x: "(if c = CHR ''$'' \<and> s \<noteq> [] \<and> hd s = CHR ''{'' then match_ref (tl s) else None) = Some x"
    and y: "(name, y) = x" and r: "(fallback, rest) = y"
  have "length rest < length (tl s)"
    using x y r by (intro match_ref_shorter [of _ name fallback]) (auto split: if_splits)
  then show "(rest, c # s) \<in> measure length" by simp
qed auto

text \<open>The values of the environment: absent and empty are the same.\<close>

definition env_value :: "(str \<Rightarrow> str option) \<Rightarrow> str \<Rightarrow> str option" where
  "env_value getenv name =
     (case getenv name of None \<Rightarrow> None | Some v \<Rightarrow> if v = [] then None else Some v)"

fun piece_text :: "(str \<Rightarrow> str option) \<Rightarrow> piece \<Rightarrow> str" where
  "piece_text getenv (Plain c) = [c]"
| "piece_text getenv (Ref name fallback) =
     (case env_value getenv name of Some v \<Rightarrow> v | None \<Rightarrow> (case fallback of Some f \<Rightarrow> f | None \<Rightarrow> []))"

fun piece_missing :: "(str \<Rightarrow> str option) \<Rightarrow> piece \<Rightarrow> str option" where
  "piece_missing getenv (Ref name None) = (if env_value getenv name = None then Some name else None)"
| "piece_missing getenv _ = None"

text \<open>\<open>Inl\<close> carries the \<open>Variables\<close> of \<open>ErrMissingSecret\<close>.\<close>

definition expand :: "(str \<Rightarrow> str option) \<Rightarrow> str \<Rightarrow> str list + str" where
  "expand getenv raw =
     (let ps = pieces raw; missing = remdups (List.map_filter (piece_missing getenv) ps) in
      if missing \<noteq> [] then Inl (sort_strings missing) else Inr (concat (map (piece_text getenv) ps)))"

definition ErrMissingSecret_Error :: "str list \<Rightarrow> str" where
  "ErrMissingSecret_Error vs = ''environment variables required by the configuration and not defined: '' @ join_items vs"


section \<open>Loading\<close>

text \<open>
  What loading takes from outside: the environment, the directory (\<open>os.DirFS\<close>, \<open>fs.Glob\<close>,
  \<open>fs.ReadFile\<close>), the YAML codec, and the decoder of the final text into the groups.
\<close>

record loader =
  ld_getenv :: "str \<Rightarrow> str option"
  ld_glob :: "str \<Rightarrow> err + str list"
  ld_read :: "str \<Rightarrow> str \<Rightarrow> err + bytes"
  ld_unmarshal :: "bytes \<Rightarrow> err + (str \<times> val) list"
  ld_marshal :: "(str \<times> val) list \<Rightarrow> err + str"
  ld_decode :: "str \<Rightarrow> err + config"

definition Getenv :: "loader \<Rightarrow> str \<Rightarrow> str" where
  "Getenv ld name = (case ld_getenv ld name of None \<Rightarrow> [] | Some v \<Rightarrow> v)"

definition EnvVarAppEnv :: str where "EnvVarAppEnv = ''APP_ENV''"
definition EnvVarConfigDir :: str where "EnvVarConfigDir = ''CONFIG_DIR''"
definition DefaultConfigDir :: str where "DefaultConfigDir = ''config''"

definition Dir :: "loader \<Rightarrow> str" where
  "Dir ld = (if Getenv ld EnvVarConfigDir \<noteq> [] then Getenv ld EnvVarConfigDir else DefaultConfigDir)"

definition mergeFile :: "loader \<Rightarrow> str \<Rightarrow> (str \<times> val) list \<Rightarrow> str \<Rightarrow> err + (str \<times> val) list" where
  "mergeFile ld dir dst name =
     (case ld_read ld dir name of
        Inl e \<Rightarrow> Inl (Errorf [Lit (''reading '' @ name @ '': ''), W e])
      | Inr content \<Rightarrow>
          (case ld_unmarshal ld content of
             Inl e \<Rightarrow> Inl (Errorf [Lit (''invalid YAML in '' @ name @ '': ''), W e])
           | Inr layer \<Rightarrow> Inr (deepMerge dst layer)))"

definition base_name :: "str \<Rightarrow> str" where
  "base_name name = rev (takeWhile (\<lambda>c. c \<noteq> CHR ''/'') (rev name))"

fun merge_groups :: "loader \<Rightarrow> str \<Rightarrow> (str \<times> val) list \<Rightarrow> str list \<Rightarrow> err + (str \<times> val) list" where
  "merge_groups ld dir acc [] = Inr acc"
| "merge_groups ld dir acc (name # names) =
     (if base_name name = ''local.yaml'' then merge_groups ld dir acc names
      else case mergeFile ld dir acc name of Inl e \<Rightarrow> Inl e | Inr acc' \<Rightarrow> merge_groups ld dir acc' names)"

fun merge_optional :: "loader \<Rightarrow> str \<Rightarrow> (str \<times> val) list \<Rightarrow> str list \<Rightarrow> err + (str \<times> val) list" where
  "merge_optional ld dir acc [] = Inr acc"
| "merge_optional ld dir acc (name # names) =
     (case mergeFile ld dir acc name of
        Inl e \<Rightarrow> if errors_is e NotExist then merge_optional ld dir acc names else Inl e
      | Inr acc' \<Rightarrow> merge_optional ld dir acc' names)"

definition mergeLayers :: "loader \<Rightarrow> str \<Rightarrow> str \<Rightarrow> err + (str \<times> val) list" where
  "mergeLayers ld dir env =
     (case ld_glob ld dir of
        Inl e \<Rightarrow> Inl (Errorf [Lit (''reading '' @ dir @ '': ''), W e])
      | Inr groups \<Rightarrow>
          if groups = [] then
            Inl (Opaque (''no configuration file in '' @ quote_text dir @ '' (set '' @ EnvVarConfigDir @ ''?)''))
          else case merge_groups ld dir [] (sort_strings groups) of
            Inl e \<Rightarrow> Inl e
          | Inr merged \<Rightarrow> merge_optional ld dir merged [''env/'' @ env @ ''.yaml'', ''local.yaml''])"

definition Load :: "loader \<Rightarrow> module_catalog \<Rightarrow> err + config" where
  "Load ld catalog =
     (let dir = Dir ld; env = (if Getenv ld EnvVarAppEnv = [] then EnvDevelopment else Getenv ld EnvVarAppEnv) in
      case mergeLayers ld dir env of
        Inl e \<Rightarrow> Inl e
      | Inr merged \<Rightarrow>
      (case ld_marshal ld merged of
        Inl e \<Rightarrow> Inl (Errorf [Lit ''reassembling the configuration: '', W e])
      | Inr raw \<Rightarrow>
      (case expand (ld_getenv ld) raw of
        Inl vs \<Rightarrow> Inl (Opaque (ErrMissingSecret_Error vs))
      | Inr resolved \<Rightarrow>
      (case ld_decode ld resolved of
        Inl e \<Rightarrow> Inl (Errorf [Lit (''decoding the configuration ('' @ dir @ ''): ''), W e])
      | Inr decoded \<Rightarrow>
          (let filled = applyDefaults decoded;
               cfg = filled\<lparr> Modules := Resolve catalog (Modules filled) \<rparr>
           in case validate_config cfg catalog of Some e \<Rightarrow> Inl e | None \<Rightarrow> Inr cfg)))))"

section \<open>A duration in a file\<close>

text \<open>What \<open>UnmarshalYAML\<close> sees of a node: its tag and what decoding it gives.\<close>

record yaml_node =
  node_Tag :: str
  node_Line :: int
  node_int :: "err + int"
  node_string :: "err + str"

definition UnmarshalYAML :: "yaml_node \<Rightarrow> err + duration" where
  "UnmarshalYAML node =
     (if node_Tag node = ''!!int'' then
        (case node_int node of
           Inl e \<Rightarrow> Inl (Errorf [Lit (''unreadable integer duration at line '' @ show_int (node_Line node) @ '': ''), W e])
         | Inr asSeconds \<Rightarrow> Inr (wrap64 (asSeconds * second)))
      else
        (case node_string node of
           Inl e \<Rightarrow> Inl (Errorf [Lit (''unreadable duration at line '' @ show_int (node_Line node)
                     @ '' (expected a string such as '' @ quote_text ''5s'' @ ''): ''), W e])
         | Inr asString \<Rightarrow>
             (case parse_duration asString of
                None \<Rightarrow> Inl (Errorf [Lit (''duration '' @ quote_text asString
                     @ '' is unreadable (expected: 5s, 1h30m, 250ms): ''),
                     W (Opaque (''time: invalid duration '' @ quote_text asString))])
              | Some d \<Rightarrow> Inr d)))"

definition MarshalYAML :: "duration \<Rightarrow> str" where
  "MarshalYAML d = duration_text d"

section \<open>The last layer that speaks decides\<close>

definition layer :: "loader \<Rightarrow> str \<Rightarrow> str \<Rightarrow> (str \<times> val) list option" where
  "layer ld dir name =
     (case ld_read ld dir name of Inl _ \<Rightarrow> None
      | Inr content \<Rightarrow> (case ld_unmarshal ld content of Inl _ \<Rightarrow> None | Inr l \<Rightarrow> Some l))"

definition layer_names :: "str list \<Rightarrow> str \<Rightarrow> str list" where
  "layer_names groups env =
     filter (\<lambda>name. base_name name \<noteq> ''local.yaml'') (sort_strings groups) @ [''env/'' @ env @ ''.yaml'', ''local.yaml'']"

text \<open>What the code relies on from the YAML decoder: a mapping is decoded into a table with each
  key once (it refuses duplicate keys).\<close>

definition decodes_tables :: "loader \<Rightarrow> bool" where
  "decodes_tables ld \<longleftrightarrow> (\<forall>content l. ld_unmarshal ld content = Inr l \<longrightarrow> table (VMap l))"

lemma mergeFile_Inr: "mergeFile ld dir dst name = Inr m \<longleftrightarrow> (\<exists>l. layer ld dir name = Some l \<and> m = deepMerge dst l)"
  by (auto simp: mergeFile_def layer_def split: sum.splits)

lemma mergeFile_Inl: "mergeFile ld dir dst name = Inl e \<Longrightarrow> layer ld dir name = None"
  by (auto simp: mergeFile_def layer_def split: sum.splits)

lemma merge_groups_Inr:
  "merge_groups ld dir acc names = Inr m
     \<Longrightarrow> m = foldl deepMerge acc (List.map_filter (layer ld dir) (filter (\<lambda>n. base_name n \<noteq> ''local.yaml'') names))"
  by (induction ld dir acc names rule: merge_groups.induct)
    (auto simp: map_filter_simps mergeFile_Inr split: if_splits sum.splits)

lemma merge_optional_Inr:
  "merge_optional ld dir acc names = Inr m \<Longrightarrow> m = foldl deepMerge acc (List.map_filter (layer ld dir) names)"
  by (induction ld dir acc names rule: merge_optional.induct)
    (auto simp: map_filter_simps mergeFile_Inr dest: mergeFile_Inl split: if_splits sum.splits)

lemma mergeLayers_Inr:
  assumes "mergeLayers ld dir env = Inr merged"
  shows "\<exists>groups. ld_glob ld dir = Inr groups \<and> groups \<noteq> []
     \<and> merged = foldl deepMerge [] (List.map_filter (layer ld dir) (layer_names groups env))"
proof -
  obtain groups m1 where g: "ld_glob ld dir = Inr groups" "groups \<noteq> []"
      "merge_groups ld dir [] (sort_strings groups) = Inr m1"
      "merge_optional ld dir m1 [''env/'' @ env @ ''.yaml'', ''local.yaml''] = Inr merged"
    using assms by (auto simp: mergeLayers_def split: sum.splits if_splits)
  then show ?thesis
    using merge_groups_Inr [OF g(3)] merge_optional_Inr [OF g(4)]
    by (simp add: layer_names_def map_filter_def)
qed

lemma foldl_keeps:
  "list_all (\<lambda>l. table (VMap l) \<and> silent_on l p) ls \<Longrightarrow> at_path (foldl deepMerge dst ls) p = at_path dst p"
  by (induction ls arbitrary: dst) (simp_all add: deepMerge_keeps del: table.simps)

lemma foldl_last_wins:
  assumes "list_all (\<lambda>l. table (VMap l)) (before @ l # after)" and "at_path l p = Some v" and "\<not> is_table v"
    and "list_all (\<lambda>l. silent_on l p) after"
  shows "at_path (foldl deepMerge dst (before @ l # after)) p = Some v"
proof -
  have "list_all (\<lambda>l. table (VMap l) \<and> silent_on l p) after"
    using assms(1,4) by (simp add: list_all_iff del: table.simps)
  moreover have "table (VMap l)" using assms(1) by (simp del: table.simps)
  ultimately show ?thesis by (simp add: foldl_keeps deepMerge_wins [OF _ assms(2,3)])
qed

text \<open>C29: the layers are the group files in alphabetical order, then the file of the
  environment, then local.yaml, those that exist; for every setting the last layer that says
  anything about it decides, whatever the earlier ones say, and a table does not erase what the
  layers before it say of its other keys.\<close>

theorem last_layer_decides:
  assumes "mergeLayers ld dir env = Inr merged" and "decodes_tables ld" and "ld_glob ld dir = Inr groups"
    and "List.map_filter (layer ld dir) (layer_names groups env) = before @ l # after"
    and "at_path l p = Some v" and "\<not> is_table v" and "list_all (\<lambda>l. silent_on l p) after"
  shows "at_path merged p = Some v"
proof -
  have "merged = foldl deepMerge [] (before @ l # after)"
    using mergeLayers_Inr [OF assms(1)] assms(3,4) by auto
  moreover have "list_all (\<lambda>l. table (VMap l)) (before @ l # after)"
    unfolding assms(4) [symmetric] using assms(2)
    by (auto simp: list_all_iff map_filter_def layer_def decodes_tables_def simp del: table.simps split: sum.splits)
  ultimately show ?thesis using foldl_last_wins assms(5-7) by blast
qed

definition demo_loader :: loader where
  "demo_loader = \<lparr> ld_getenv = (\<lambda>_. None), ld_glob = (\<lambda>_. Inr [''http.yaml'', ''app.yaml'']),
     ld_read = (\<lambda>_ name. if name = ''http.yaml'' then Inr ''h'' else if name = ''app.yaml'' then Inr ''a''
       else if name = ''env/test.yaml'' then Inr ''t'' else Inl (Sentinel NotExist)),
     ld_unmarshal = (\<lambda>c. if c = ''h'' then Inr [(''http'', VMap [(''port'', VInt 8080), (''host'', VString ''a'')])]
       else if c = ''t'' then Inr [(''http'', VMap [(''port'', VInt 0)])] else Inr []),
     ld_marshal = (\<lambda>_. Inr []), ld_decode = (\<lambda>_. Inr demo_config) \<rparr>"

theorem last_layer_decides_witness:
  "at_path [(''http'', VMap [(''port'', VInt 0), (''host'', VString ''a'')])] [''http'', ''port''] = Some (VInt 0)"
proof -
  have "mergeLayers demo_loader ''config'' ''test''
      = Inr [(''http'', VMap [(''port'', VInt 0), (''host'', VString ''a'')])]"
    by code_simp
  moreover have "decodes_tables demo_loader"
    by (auto simp: decodes_tables_def demo_loader_def)
  moreover have "ld_glob demo_loader ''config'' = Inr [''http.yaml'', ''app.yaml'']"
    by (simp add: demo_loader_def)
  moreover have "List.map_filter (layer demo_loader ''config'') (layer_names [''http.yaml'', ''app.yaml''] ''test'')
      = [[], [(''http'', VMap [(''port'', VInt 8080), (''host'', VString ''a'')])]]
        @ [(''http'', VMap [(''port'', VInt 0)])] # []"
    by code_simp
  ultimately show ?thesis
    by (rule last_layer_decides) simp_all
qed


section \<open>Secrets\<close>

text \<open>The pieces, written back: reading loses nothing of the text.\<close>

fun piece_source :: "piece \<Rightarrow> str" where
  "piece_source (Plain c) = [c]"
| "piece_source (Ref name None) = ''${'' @ name @ ''}''"
| "piece_source (Ref name (Some f)) = ''${'' @ name @ '':-'' @ f @ ''}''"

lemma match_ref_source:
  assumes "match_ref s = Some (n, f, r)"
  shows "''${'' @ s = piece_source (Ref n f) @ r"
proof -
  have s: "s = takeWhile name_char s @ dropWhile name_char s" by simp
  obtain c r' where d: "dropWhile name_char s = c # r'"
    using match_ref_rest [OF assms] by (meson list.exhaust)
  show ?thesis
  proof (cases "c = CHR ''}''")
    case True
    then have "n = takeWhile name_char s" "f = None" "r = r'"
      using assms d by (auto simp: match_ref_def Let_def split: if_splits)
    then show ?thesis using s d True by (metis append.assoc append_Cons append_Nil piece_source.simps(2))
  next
    case False
    obtain a b g where ct: "cut CHR ''}'' (drop 2 (c # r')) = (a, b, g)" by (metis prod_cases3)
    have px: "has_prefix (c # r') '':-''" and g: "g" and n: "n = takeWhile name_char s" "f = Some a" "r = b"
      using assms d False ct by (auto simp: match_ref_def Let_def split: if_splits)
    have "drop 2 (c # r') = a @ CHR ''}'' # b" using ct g cut_found [of "CHR ''}''" "drop 2 (c # r')" a b] by simp
    moreover have "c # r' = '':-'' @ drop 2 (c # r')"
      using px unfolding has_prefix_def by (metis append_take_drop_id length_Cons list.size(3) numeral_2_eq_2)
    ultimately have "dropWhile name_char s = '':-'' @ a @ CHR ''}'' # b" using d by argo
    then have "s = n @ '':-'' @ a @ CHR ''}'' # b" using s n(1) by argo
    then show ?thesis using n by simp
  qed
qed

lemma pieces_source: "concat (map piece_source (pieces s)) = s"
proof (induction s rule: pieces.induct)
  case (2 c s)
  show ?case
  proof (cases "if c = CHR ''$'' \<and> s \<noteq> [] \<and> hd s = CHR ''{'' then match_ref (tl s) else None")
    case None
    then show ?thesis using "2.IH"(1) by (simp add: None)
  next
    case (Some x)
    obtain n f r where x: "x = (n, f, r)" by (cases x)
    have m: "c = CHR ''$''" "s \<noteq> []" "hd s = CHR ''{''" "match_ref (tl s) = Some (n, f, r)"
      using Some x by (auto split: if_splits)
    have src: "c # s = ''${'' @ tl s" using m by (cases s) auto
    have "pieces (c # s) = Ref n f # pieces r" using Some x by simp
    then show ?thesis
      using match_ref_source [OF m(4)] "2.IH"(2) [OF Some x [symmetric] refl] src
      by (metis concat.simps(2) list.simps(9))
  qed
qed simp

definition mandatory :: "str \<Rightarrow> str set" where
  "mandatory raw = {name. Ref name None \<in> set (pieces raw)}"

lemma set_missing:
  "set (List.map_filter (piece_missing getenv) ps) = {n. Ref n None \<in> set ps \<and> env_value getenv n = None}"
proof (induction ps)
  case (Cons p ps)
  then show ?case by (cases "(getenv, p)" rule: piece_missing.cases) (auto simp: List.map_filter_simps)
qed (simp add: List.map_filter_simps)

lemma str_le_linear: "str_le a b \<or> str_le b a"
  by (induction a b rule: str_le.induct) (auto simp: Let_def)

lemma str_le_trans: "str_le a b \<Longrightarrow> str_le b c \<Longrightarrow> str_le a c"
proof (induction a b arbitrary: c rule: str_le.induct)
  case (3 x xs y ys)
  then show ?case by (cases c) (auto simp: Let_def)
qed (auto)

lemma sorted_insert_str: "sorted_wrt str_le ys \<Longrightarrow> sorted_wrt str_le (insert_str x ys)"
  using str_le_trans str_le_linear by (induction ys) (auto, blast+)

lemma sorted_sort_strings: "sorted_wrt str_le (sort_strings xs)"
  by (induction xs) (auto simp: sort_strings_def intro: sorted_insert_str)

lemma mset_insert_str: "distinct (insert_str x ys) \<longleftrightarrow> x \<notin> set ys \<and> distinct ys"
  by (induction ys) auto

lemma distinct_sort_strings: "distinct (sort_strings xs) \<longleftrightarrow> distinct xs"
proof (induction xs)
  case (Cons x xs)
  have "set (foldr insert_str xs []) = set xs" using set_sort_strings [of xs] by (simp add: sort_strings_def)
  then show ?case using Cons by (simp add: sort_strings_def mset_insert_str)
qed (simp add: sort_strings_def)

text \<open>\<open>expand\<close> refuses a text exactly when a reference without a fallback names a variable
  that is absent or empty, and then lists all of these names, once each and in order; otherwise
  every reference is replaced by the value of its variable, or by its fallback when that is absent
  or empty, and the rest of the text is untouched.\<close>

theorem expand_resolves:
  "(case expand getenv raw of
      Inl vs \<Rightarrow> vs \<noteq> [] \<and> set vs = {n \<in> mandatory raw. env_value getenv n = None}
        \<and> distinct vs \<and> sorted_wrt str_le vs
    | Inr out \<Rightarrow> {n \<in> mandatory raw. env_value getenv n = None} = {}
        \<and> out = concat (map (piece_text getenv) (pieces raw)))
   \<and> concat (map piece_source (pieces raw)) = raw"
proof -
  have "set (sort_strings (remdups (List.map_filter (piece_missing getenv) (pieces raw))))
      = {n \<in> mandatory raw. env_value getenv n = None}"
    by (simp add: set_missing mandatory_def)
  moreover have "List.map_filter (piece_missing getenv) (pieces raw) = []
      \<longleftrightarrow> {n \<in> mandatory raw. env_value getenv n = None} = {}"
    by (simp only: set_empty [symmetric] set_missing mandatory_def mem_Collect_eq)
  ultimately show ?thesis
    by (auto simp: expand_def Let_def pieces_source distinct_sort_strings sorted_sort_strings)
qed

text \<open>C30: loading fails fast: what \<open>Load\<close> returns has passed the whole validation against the
  catalogue it was given, its defaults are filled in, its modules are those of the catalogue, and
  every mandatory reference of the merged files had a value; the text that was decoded is the
  merged files with their references replaced.\<close>

theorem Load_is_validated:
  assumes "Load ld catalog = Inr cfg"
  shows "validate_config cfg catalog = None
     \<and> (\<exists>merged raw out decoded.
          mergeLayers ld (Dir ld) (if Getenv ld EnvVarAppEnv = [] then EnvDevelopment else Getenv ld EnvVarAppEnv) = Inr merged
        \<and> ld_marshal ld merged = Inr raw \<and> {n \<in> mandatory raw. env_value (ld_getenv ld) n = None} = {}
        \<and> out = concat (map (piece_text (ld_getenv ld)) (pieces raw)) \<and> ld_decode ld out = Inr decoded
        \<and> cfg = (applyDefaults decoded)\<lparr> Modules := Resolve catalog (Modules decoded) \<rparr>)"
proof -
  obtain merged raw out decoded where l:
    "mergeLayers ld (Dir ld) (if Getenv ld EnvVarAppEnv = [] then EnvDevelopment else Getenv ld EnvVarAppEnv) = Inr merged"
    "ld_marshal ld merged = Inr raw" "expand (ld_getenv ld) raw = Inr out" "ld_decode ld out = Inr decoded"
    "cfg = (applyDefaults decoded)\<lparr> Modules := Resolve catalog (Modules (applyDefaults decoded)) \<rparr>"
    "validate_config cfg catalog = None"
    using assms unfolding Load_def Let_def by (auto split: sum.splits option.splits)
  have "\<not> (\<exists>n. Ref n None \<in> set (pieces raw) \<and> env_value (ld_getenv ld) n = None)"
    and "out = concat (map (piece_text (ld_getenv ld)) (pieces raw))"
    using l(3) set_missing [of "ld_getenv ld" "pieces raw"]
    by (auto simp: expand_def Let_def split: if_splits)
  then show ?thesis using l by (auto simp: mandatory_def applyDefaults_sel)
qed

theorem Load_is_validated_witness:
  "\<exists>cfg. Load demo_loader [] = Inr cfg \<and> validate_config cfg [] = None"
proof -
  have "mergeLayers demo_loader (Dir demo_loader) EnvDevelopment
      = Inr [(''http'', VMap [(''port'', VInt 8080), (''host'', VString ''a'')])]"
    by code_simp
  moreover have "Getenv demo_loader EnvVarAppEnv = []" "expand (ld_getenv demo_loader) [] = Inr []"
    by (simp_all add: Getenv_def demo_loader_def expand_def List.map_filter_simps)
  moreover have "ld_marshal demo_loader m = Inr []" "ld_decode demo_loader t = Inr demo_config" for m t
    by (simp_all add: demo_loader_def)
  moreover have "Modules (applyDefaults demo_config) = []"
    by (simp add: applyDefaults_sel demo_config_def zero_config_def)
  ultimately have "Load demo_loader []
      = (let cfg = (applyDefaults demo_config)\<lparr> Modules := [] \<rparr> in
         case validate_config cfg [] of Some e \<Rightarrow> Inl e | None \<Rightarrow> Inr cfg)"
    by (simp add: Load_def Resolve_def)
  moreover have "(applyDefaults demo_config)\<lparr> Modules := [] \<rparr> = applyDefaults demo_config"
    using \<open>Modules (applyDefaults demo_config) = []\<close> by simp
  ultimately have "Load demo_loader [] = Inr (applyDefaults demo_config)"
    using demo_config_valid [of "[]"] by simp
  then show ?thesis using Load_is_validated by blast
qed

end
