(* ===== verification/Scheduler.thy ===== *)
theory Scheduler
  imports Config_Module
begin

text \<open>
  Scheduled tasks (internal/core/scheduler/domain, application): the rules of a task, its lock
  key, and one run of it, whoever elects. \<open>elector\<close> is what the runner relies on from an elector.
\<close>

unbundle bit_operations_syntax

section \<open>Tasks\<close>

record task =
  tk_Name :: str
  tk_Every :: duration
  tk_Timeout :: duration

definition invalid_task :: "str \<Rightarrow> err" where
  "invalid_task what = Errorf [W (Sentinel (Sched ErrInvalidTask)), Lit ('': '' @ what)]"

definition task_Validate :: "task \<Rightarrow> err option" where
  "task_Validate t =
     (if tk_Name t = [] then Some (invalid_task ''name missing'')
      else if tk_Every t \<le> 0 then Some (invalid_task (tk_Name t @ '' has a period of '' @ duration_text (tk_Every t)))
      else if tk_Timeout t < 0 then Some (invalid_task (tk_Name t @ '' has a negative timeout''))
      else None)"

definition Deadline :: "task \<Rightarrow> duration" where
  "Deadline t = (if tk_Timeout t > 0 then tk_Timeout t else tk_Every t)"

datatype sched_event = EventSkipped | EventSucceeded | EventFailed | EventElectionFailed | EventReleaseFailed

record sched_outcome =
  so_Task :: str
  so_Event :: sched_event
  so_Duration :: duration
  so_Err :: "err option"

text \<open>\<open>fnv.New64a\<close>: xor with the byte, then multiply by the prime, on 64 bits.\<close>

definition fnv_offset :: "64 word" where "fnv_offset = 14695981039346656037"
definition fnv_prime :: "64 word" where "fnv_prime = 1099511628211"

definition fnv64a :: "bytes \<Rightarrow> 64 word" where
  "fnv64a bs = foldl (\<lambda>h c. (h XOR word_of_nat (of_char c)) * fnv_prime) fnv_offset bs"

definition LockKey :: "str \<Rightarrow> int" where
  "LockKey name = uint (drop_bit 1 (fnv64a (''scheduler:'' @ name)))"

text \<open>Half of a 64-bit digest: never negative in the \<open>bigint\<close> of the database.\<close>

lemma LockKey_range: "0 \<le> LockKey name \<and> LockKey name < 2 ^ 63"
proof -
  let ?h = "fnv64a (''scheduler:'' @ name)"
  have half: "0 \<le> k div 2 \<and> k div 2 < 2 ^ 63" if "0 \<le> k" "k < 2 ^ 64" for k :: int
    using that by auto
  have "LockKey name = uint ?h div 2" by (simp add: LockKey_def drop_bit_eq_div uint_div)
  then show ?thesis using half [of "uint ?h"] uint_lt2p [of ?h] by simp
qed

section \<open>The runner\<close>

datatype job_result = JobReturned "err option" | JobPanicked

record 'w scheduled =
  sd_Task :: task
  sd_Job :: "('w \<Rightarrow> job_result \<times> 'w) option"

record 'w sched_ports =
  sp_Acquire :: "str \<Rightarrow> 'w \<Rightarrow> (err + bool) \<times> 'w"
  sp_Release :: "str \<Rightarrow> 'w \<Rightarrow> err option \<times> 'w"
  sp_Report :: "sched_outcome \<Rightarrow> 'w \<Rightarrow> 'w"
  sp_Now :: "'w \<Rightarrow> time \<times> 'w"

record 'w given_sched =
  gs_Acquire :: "(str \<Rightarrow> 'w \<Rightarrow> (err + bool) \<times> 'w) option"
  gs_Release :: "(str \<Rightarrow> 'w \<Rightarrow> err option \<times> 'w) option"
  gs_Report :: "(sched_outcome \<Rightarrow> 'w \<Rightarrow> 'w) option"
  gs_Now :: "('w \<Rightarrow> time \<times> 'w) option"

definition NewRunner :: "'w given_sched \<Rightarrow> err + 'w sched_ports" where
  "NewRunner g =
     (case (gs_Acquire g, gs_Release g, gs_Report g, gs_Now g) of
        (Some a, Some r, Some p, Some n) \<Rightarrow> Inr \<lparr> sp_Acquire = a, sp_Release = r, sp_Report = p, sp_Now = n \<rparr>
      | _ \<Rightarrow> Inl (Sentinel (Sched SchedErrMissingPort)))"

fun validate_entries :: "str list \<Rightarrow> 'w scheduled list \<Rightarrow> err option" where
  "validate_entries seen [] = None"
| "validate_entries seen (s # ss) =
     (case task_Validate (sd_Task s) of
        Some e \<Rightarrow> Some (Errorf [Lit ''scheduled task refused: '', W e])
      | None \<Rightarrow>
          if Option.is_none (sd_Job s) then
            Some (Errorf [W (Sentinel (Sched ErrNoJob)), Lit ('': '' @ tk_Name (sd_Task s))])
          else if tk_Name (sd_Task s) \<in> set seen then
            Some (Errorf [W (Sentinel (Sched ErrInvalidTask)), Lit ('': '' @ tk_Name (sd_Task s) @ '' declared twice'')])
          else validate_entries (tk_Name (sd_Task s) # seen) ss)"

definition validate_scheduled :: "'w scheduled list \<Rightarrow> err option" where
  "validate_scheduled ss = validate_entries [] ss"

definition sched_outcome_of :: "str \<Rightarrow> sched_event \<Rightarrow> duration \<Rightarrow> err option \<Rightarrow> sched_outcome" where
  "sched_outcome_of name ev d e = \<lparr> so_Task = name, so_Event = ev, so_Duration = d, so_Err = e \<rparr>"

text \<open>A panic of the job is not recovered: nothing is reported for it and \<open>True\<close> says that the
  process is lost, after the deferred release.\<close>

definition execute :: "'w sched_ports \<Rightarrow> str \<Rightarrow> ('w \<Rightarrow> job_result \<times> 'w) \<Rightarrow> 'w \<Rightarrow> bool \<times> 'w" where
  "execute p name job w =
     (case sp_Now p w of (started, w1) \<Rightarrow>
      case job w1 of
        (JobPanicked, w2) \<Rightarrow> (True, w2)
      | (JobReturned e, w2) \<Rightarrow>
          (case sp_Now p w2 of (stopped, w3) \<Rightarrow>
             (False, sp_Report p (sched_outcome_of name (if e = None then EventSucceeded else EventFailed)
                       (time_sub stopped started) e) w3)))"

definition RunOnce :: "'w sched_ports \<Rightarrow> str \<Rightarrow> ('w \<Rightarrow> job_result \<times> 'w) \<Rightarrow> 'w \<Rightarrow> bool \<times> 'w" where
  "RunOnce p name job w =
     (case sp_Acquire p name w of
        (Inl e, w1) \<Rightarrow> (False, sp_Report p (sched_outcome_of name EventElectionFailed 0 (Some e)) w1)
      | (Inr False, w1) \<Rightarrow> (False, sp_Report p (sched_outcome_of name EventSkipped 0 None) w1)
      | (Inr True, w1) \<Rightarrow>
          (case execute p name job w1 of (crashed, w2) \<Rightarrow>
           case sp_Release p name w2 of
             (None, w3) \<Rightarrow> (crashed, w3)
           | (Some e, w3) \<Rightarrow> (crashed, sp_Report p (sched_outcome_of name EventReleaseFailed 0 (Some e)) w3)))"

text \<open>The loop of one task over the wake-ups of its \<open>select\<close>, until the context ends or the
  process is lost; \<open>Run\<close> refuses everything before it starts one loop per task.\<close>

datatype tick = CtxEnded | TickerFired

fun task_loop :: "'w sched_ports \<Rightarrow> str \<Rightarrow> ('w \<Rightarrow> job_result \<times> 'w) \<Rightarrow> tick list \<Rightarrow> 'w \<Rightarrow> bool \<times> 'w" where
  "task_loop p name job [] w = (False, w)"
| "task_loop p name job (CtxEnded # ts) w = (False, w)"
| "task_loop p name job (TickerFired # ts) w =
     (case RunOnce p name job w of (crashed, w1) \<Rightarrow> if crashed then (True, w1) else task_loop p name job ts w1)"

definition Run_result :: "'w scheduled list \<Rightarrow> ctx \<Rightarrow> err option" where
  "Run_result ss final =
     (case validate_scheduled ss of
        Some e \<Rightarrow> Some e
      | None \<Rightarrow>
          (case final of
             Some e \<Rightarrow> if errors_is e (Ctx Canceled) then None else Some (Errorf [Lit ''scheduler interrupted: '', W e])
           | None \<Rightarrow> None))"

section \<open>What is accepted\<close>

definition task_ok :: "task \<Rightarrow> bool" where
  "task_ok t \<longleftrightarrow> tk_Name t \<noteq> [] \<and> 0 < tk_Every t \<and> 0 \<le> tk_Timeout t"

lemma task_Validate_None: "task_Validate t = None \<longleftrightarrow> task_ok t"
  by (auto simp: task_Validate_def task_ok_def)

lemma validate_entries_None:
  "validate_entries seen ss = None \<longleftrightarrow>
     list_all (\<lambda>s. task_ok (sd_Task s) \<and> sd_Job s \<noteq> None) ss
     \<and> distinct (map (tk_Name \<circ> sd_Task) ss) \<and> set seen \<inter> set (map (tk_Name \<circ> sd_Task) ss) = {}"
proof (induction seen ss rule: validate_entries.induct)
  case (2 seen s ss)
  then show ?case
    by (cases "task_Validate (sd_Task s)") (auto simp: task_Validate_None [symmetric] split: if_splits option.splits)
qed simp

text \<open>the scheduler starts nothing on a bad declaration: it accepts a list of tasks exactly
  when each has a name, a positive period, no negative timeout and a job, and no name is declared
  twice; then every run has a positive deadline, its own timeout or its period, and \<open>Run\<close> returns
  no error on a cancellation.\<close>

theorem scheduled_tasks_accepted:
  "(validate_scheduled ss = None \<longleftrightarrow>
      list_all (\<lambda>s. task_ok (sd_Task s) \<and> sd_Job s \<noteq> None \<and> 0 < Deadline (sd_Task s)) ss
      \<and> distinct (map (tk_Name \<circ> sd_Task) ss))
   \<and> (Run_result ss (Some (Sentinel (Ctx Canceled))) = validate_scheduled ss)"
proof
  have "task_ok t \<Longrightarrow> 0 < Deadline t" for t by (simp add: task_ok_def Deadline_def)
  then show "validate_scheduled ss = None \<longleftrightarrow>
      list_all (\<lambda>s. task_ok (sd_Task s) \<and> sd_Job s \<noteq> None \<and> 0 < Deadline (sd_Task s)) ss
      \<and> distinct (map (tk_Name \<circ> sd_Task) ss)"
    by (auto simp: validate_scheduled_def validate_entries_None list_all_iff)
  show "Run_result ss (Some (Sentinel (Ctx Canceled))) = validate_scheduled ss"
    by (simp add: Run_result_def split: option.split)
qed

end
