(* ===== verification/Scheduler_Electors.thy ===== *)
theory Scheduler_Electors
  imports Scheduler
begin

text \<open>
  The electors (internal/core/scheduler/drivers): the in-process one and the one over PostgreSQL's
  advisory locks, the contract both keep, and what a run of a task does under any elector.
\<close>

declare map_of_eq_Some_iff [simp del]

section \<open>The contract\<close>

text \<open>
  \<open>holds s p t\<close>: replica \<open>p\<close> is elected for task \<open>t\<close>. A call takes an environment (the faults of
  the connection, for the driver that has one). An election is given to at most one replica at a
  time, changes nothing when it is refused or fails, and a release gives up this election only.
\<close>

locale elector =
  fixes inv :: "'s \<Rightarrow> bool"
    and holds :: "'s \<Rightarrow> 'p \<Rightarrow> str \<Rightarrow> bool"
    and acquire :: "'e \<Rightarrow> 'p \<Rightarrow> str \<Rightarrow> 's \<Rightarrow> (err + bool) \<times> 's"
    and release :: "'e \<Rightarrow> 'p \<Rightarrow> str \<Rightarrow> 's \<Rightarrow> err option \<times> 's"
  assumes exclusive: "inv s \<Longrightarrow> holds s p t \<Longrightarrow> holds s q t \<Longrightarrow> p = q"
    and acquire_keeps: "inv s \<Longrightarrow> acquire e p t s = (r, s') \<Longrightarrow> inv s'
        \<and> (\<forall>q u. holds s' q u \<longleftrightarrow> holds s q u \<or> (r = Inr True \<and> q = p \<and> u = t))"
    and acquire_new: "inv s \<Longrightarrow> acquire e p t s = (Inr True, s') \<Longrightarrow> \<not> holds s q t"
    and release_gives_up: "inv s \<Longrightarrow> release e p t s = (x, s') \<Longrightarrow> inv s'
        \<and> (\<forall>q u. holds s' q u \<longleftrightarrow> holds s q u \<and> \<not> (q = p \<and> u = t))"

section \<open>Within one process\<close>

text \<open>\<open>Elector.running\<close> of the in-process driver: its elections bind the one replica that has it.\<close>

type_synonym running_tasks = "str list"

definition in_Acquire :: "str \<Rightarrow> running_tasks \<Rightarrow> (err + bool) \<times> running_tasks" where
  "in_Acquire t s = (if t \<in> set s then (Inr False, s) else (Inr True, t # s))"

definition in_Release :: "str \<Rightarrow> running_tasks \<Rightarrow> err option \<times> running_tasks" where
  "in_Release t s = (None, filter (\<lambda>x. x \<noteq> t) s)"

interpretation local_elector: elector "\<lambda>s :: running_tasks. True" "\<lambda>s (p :: unit) t. t \<in> set s"
    "\<lambda>(e :: unit) p. in_Acquire" "\<lambda>(e :: unit) p. in_Release"
  by unfold_locales (auto simp: in_Acquire_def in_Release_def split: if_splits)

section \<open>Advisory locks\<close>

text \<open>
  What the driver uses of PostgreSQL: a session may take a lock nobody else holds, as often as it
  likes, \<open>pg_advisory_unlock\<close> undoes one of its takes, and the end of the session drops all its
  locks. A pool lends a session to one borrower; a session it lends is one it kept, or a new one.
\<close>

record lock_world =
  locks :: "(int, nat \<times> nat) gomap"         \<comment> \<open>key, to the session and how often it took it\<close>
  idle :: "(nat, nat list) gomap"            \<comment> \<open>per replica, the sessions its pool keeps\<close>
  next_session :: nat
  held_conn :: "(nat \<times> str, nat) gomap"      \<comment> \<open>\<open>Elector.held\<close> of each replica\<close>

record elect_env =
  ee_pool :: "err option"
  ee_query :: "err option"

definition no_fault :: elect_env where
  "no_fault = \<lparr> ee_pool = None, ee_query = None \<rparr>"

definition idle_of :: "lock_world \<Rightarrow> nat \<Rightarrow> nat list" where
  "idle_of s p = (case map_get (idle s) p of None \<Rightarrow> [] | Some l \<Rightarrow> l)"

definition borrow :: "nat \<Rightarrow> lock_world \<Rightarrow> nat \<times> lock_world" where
  "borrow p s =
     (case idle_of s p of
        [] \<Rightarrow> (next_session s, s\<lparr> next_session := next_session s + 1 \<rparr>)
      | x # xs \<Rightarrow> (x, s\<lparr> idle := map_set p xs (idle s) \<rparr>))"

definition give_back :: "nat \<Rightarrow> nat \<Rightarrow> lock_world \<Rightarrow> lock_world" where
  "give_back p x s = s\<lparr> idle := map_set p (x # idle_of s p) (idle s) \<rparr>"

definition try_lock :: "nat \<Rightarrow> int \<Rightarrow> lock_world \<Rightarrow> bool \<times> lock_world" where
  "try_lock x k s =
     (case map_get (locks s) k of
        None \<Rightarrow> (True, s\<lparr> locks := map_set k (x, 1) (locks s) \<rparr>)
      | Some (y, n) \<Rightarrow> if y = x then (True, s\<lparr> locks := map_set k (x, n + 1) (locks s) \<rparr>) else (False, s))"

definition unlock :: "nat \<Rightarrow> int \<Rightarrow> lock_world \<Rightarrow> bool \<times> lock_world" where
  "unlock x k s =
     (case map_get (locks s) k of
        None \<Rightarrow> (False, s)
      | Some (y, n) \<Rightarrow>
          if y \<noteq> x then (False, s)
          else (True, s\<lparr> locks := (if n \<le> 1 then map_del k (locks s) else map_set k (x, n - 1) (locks s)) \<rparr>))"

definition end_session :: "nat \<Rightarrow> lock_world \<Rightarrow> lock_world" where
  "end_session x s = s\<lparr> locks := filter (\<lambda>(k, l). fst l \<noteq> x) (locks s) \<rparr>"

definition task_error :: "str \<Rightarrow> str \<Rightarrow> err \<Rightarrow> err" where
  "task_error what t e = Errorf [Lit (what @ t @ '': ''), W e]"

definition busy :: "nat \<Rightarrow> str \<Rightarrow> lock_world \<Rightarrow> bool" where
  "busy p t s \<longleftrightarrow> map_get (held_conn s) (p, t) \<noteq> None"

text \<open>A query that fails has taken no lock: it did not run, or it ended its session.\<close>

definition pg_elect_Acquire :: "elect_env \<Rightarrow> nat \<Rightarrow> str \<Rightarrow> lock_world \<Rightarrow> (err + bool) \<times> lock_world" where
  "pg_elect_Acquire env p t s =
     (if busy p t s then (Inr False, s)
      else case ee_pool env of
        Some e \<Rightarrow> (Inl (task_error ''no connection available for the election of '' t e), s)
      | None \<Rightarrow>
          (case borrow p s of (x, s1) \<Rightarrow>
           case ee_query env of
             Some e \<Rightarrow> (Inl (task_error ''taking the election lock of '' t e), give_back p x s1)
           | None \<Rightarrow>
               (case try_lock x (LockKey t) s1 of (elected, s2) \<Rightarrow>
                if \<not> elected then (Inr False, give_back p x s2)
                else (Inr True, s2\<lparr> held_conn := map_set (p, t) x (held_conn s2) \<rparr>))))"

definition pg_elect_Release :: "elect_env \<Rightarrow> nat \<Rightarrow> str \<Rightarrow> lock_world \<Rightarrow> err option \<times> lock_world" where
  "pg_elect_Release env p t s =
     (case map_get (held_conn s) (p, t) of
        None \<Rightarrow> (None, s)
      | Some x \<Rightarrow>
          (let s1 = s\<lparr> held_conn := map_del (p, t) (held_conn s) \<rparr> in
           case ee_query env of
             Some e \<Rightarrow> (Some (task_error ''releasing the election lock of '' t e), end_session x s1)
           | None \<Rightarrow>
               (case unlock x (LockKey t) s1 of (released, s2) \<Rightarrow>
                if \<not> released then
                  (Some (Opaque (''election lock of '' @ t @ '' not held by this session'')), end_session x s2)
                else (None, give_back p x s2))))"

text \<open>A replica that dies: all its sessions end, those of its pool and those its elections hold.\<close>

definition sessions_of :: "nat \<Rightarrow> lock_world \<Rightarrow> nat list" where
  "sessions_of p s = idle_of s p @ map snd (filter (\<lambda>(k, x). fst k = p) (held_conn s))"

definition crash :: "nat \<Rightarrow> lock_world \<Rightarrow> lock_world" where
  "crash p s =
     (let s1 = fold end_session (sessions_of p s) s in
      s1\<lparr> idle := map_del p (idle s1), held_conn := filter (\<lambda>(k, x). fst k \<noteq> p) (held_conn s1) \<rparr>)"

text \<open>Every lock is held once, by the session of the election it was taken for; the sessions of the
  elections and of the pools are all different.\<close>

definition locks_match :: "lock_world \<Rightarrow> bool" where
  "locks_match s \<longleftrightarrow> (\<forall>k x n. map_of (locks s) k = Some (x, n)
     \<longleftrightarrow> n = 1 \<and> (\<exists>p t. map_of (held_conn s) (p, t) = Some x \<and> k = LockKey t))"

definition sessions_apart :: "lock_world \<Rightarrow> bool" where
  "sessions_apart s \<longleftrightarrow>
     (\<forall>p t q u x. map_of (held_conn s) (p, t) = Some x \<and> map_of (held_conn s) (q, u) = Some x \<longrightarrow> p = q \<and> t = u)
     \<and> (\<forall>p t x. map_of (held_conn s) (p, t) = Some x \<longrightarrow> x < next_session s)
     \<and> (\<forall>p q t x. x \<in> set (idle_of s p) \<longrightarrow> x < next_session s \<and> map_of (held_conn s) (q, t) \<noteq> Some x)
     \<and> (\<forall>p q x. x \<in> set (idle_of s p) \<and> x \<in> set (idle_of s q) \<longrightarrow> p = q)
     \<and> (\<forall>p. distinct (idle_of s p))"

definition lock_inv :: "lock_world \<Rightarrow> bool" where
  "lock_inv s \<longleftrightarrow> is_map (held_conn s) \<and> is_map (locks s) \<and> locks_match s \<and> sessions_apart s"

definition unused :: "nat \<Rightarrow> lock_world \<Rightarrow> bool" where
  "unused x s \<longleftrightarrow> x < next_session s \<and> (\<forall>q t. map_of (held_conn s) (q, t) \<noteq> Some x) \<and> (\<forall>q. x \<notin> set (idle_of s q))"

lemma idle_of_set [simp]: "idle_of (s\<lparr> idle := map_set p l (idle s) \<rparr>) q = (if q = p then l else idle_of s q)"
  by (simp add: idle_of_def)

lemma idle_of_other [simp]:
  "idle_of (s\<lparr> locks := l \<rparr>) q = idle_of s q" "idle_of (s\<lparr> held_conn := h \<rparr>) q = idle_of s q"
  "idle_of (s\<lparr> next_session := n \<rparr>) q = idle_of s q"
  by (simp_all add: idle_of_def)

lemma lock_of_held: "lock_inv s \<Longrightarrow> map_of (held_conn s) (p, t) = Some x \<Longrightarrow> map_of (locks s) (LockKey t) = Some (x, 1)"
  unfolding lock_inv_def locks_match_def by blast

lemma held_inject:
  "lock_inv s \<Longrightarrow> map_of (held_conn s) (p, t) = Some x \<Longrightarrow> map_of (held_conn s) (q, u) = Some x \<Longrightarrow> p = q \<and> t = u"
  unfolding lock_inv_def sessions_apart_def by blast

lemma idle_inject: "lock_inv s \<Longrightarrow> x \<in> set (idle_of s p) \<Longrightarrow> x \<in> set (idle_of s q) \<Longrightarrow> p = q"
  unfolding lock_inv_def sessions_apart_def by blast

lemma borrow_spec:
  assumes "lock_inv s" and "borrow p s = (x, s1)"
  shows "lock_inv s1 \<and> unused x s1 \<and> locks s1 = locks s \<and> held_conn s1 = held_conn s"
proof (cases "idle_of s p")
  case Nil
  then have s1: "x = next_session s" "s1 = s\<lparr> next_session := next_session s + 1 \<rparr>"
    using assms(2) by (auto simp: borrow_def)
  then show ?thesis
    using assms(1) by (fastforce simp: lock_inv_def locks_match_def sessions_apart_def unused_def)
next
  case (Cons y ys)
  then have s1: "x = y" "s1 = s\<lparr> idle := map_set p ys (idle s) \<rparr>"
    using assms(2) by (auto simp: borrow_def)
  have ap: "sessions_apart s" and d: "distinct (y # ys)"
    using assms(1) Cons by (auto simp: lock_inv_def sessions_apart_def) (metis distinct.simps(2))+
  have "idle_of s1 q = (if q = p then ys else idle_of s q)" for q by (simp add: s1)
  then have "sessions_apart s1 \<and> unused x s1"
    using ap d Cons unfolding sessions_apart_def unused_def s1 by (simp, metis list.set_intros(1,2))
  then show ?thesis using assms(1) by (simp add: lock_inv_def locks_match_def s1)
qed

lemma give_back_inv: "lock_inv s \<Longrightarrow> unused x s \<Longrightarrow> lock_inv (give_back p x s)"
proof -
  assume s: "lock_inv s" "unused x s"
  have "idle_of (give_back p x s) q = (if q = p then x # idle_of s p else idle_of s q)" for q
    by (simp add: give_back_def)
  then have "sessions_apart (give_back p x s)"
    using s idle_inject [OF s(1)] unfolding lock_inv_def sessions_apart_def unused_def
    by (auto simp: give_back_def split: if_splits)
  then show ?thesis using s(1) by (simp add: lock_inv_def locks_match_def give_back_def)
qed

lemma try_lock_spec:
  assumes "lock_inv s" and "unused x s"
  shows "try_lock x k s = (case map_of (locks s) k of
     None \<Rightarrow> (True, s\<lparr> locks := map_set k (x, 1) (locks s) \<rparr>) | Some _ \<Rightarrow> (False, s))"
  using assms by (auto simp: try_lock_def lock_inv_def locks_match_def unused_def split: option.split)

lemma elect_inv:
  assumes "lock_inv s" and "unused x s" and "map_of (locks s) (LockKey t) = None" and "map_of (held_conn s) (p, t) = None"
  shows "lock_inv (s\<lparr> locks := map_set (LockKey t) (x, 1) (locks s), held_conn := map_set (p, t) x (held_conn s) \<rparr>)"
proof -
  let ?s = "s\<lparr> locks := map_set (LockKey t) (x, 1) (locks s), held_conn := map_set (p, t) x (held_conn s) \<rparr>"
  have none: "map_of (held_conn s) (q, u) = Some y \<Longrightarrow> LockKey u \<noteq> LockKey t" for q u y
    using lock_of_held [OF assms(1), of q u y] assms(3) by auto
  have "locks_match ?s"
    using assms none unfolding lock_inv_def locks_match_def
    by (auto simp: update_conv' split: if_splits) (metis option.distinct(1))+
  moreover have "sessions_apart ?s"
    using assms(1,2) by (auto simp: lock_inv_def sessions_apart_def unused_def split: if_splits)
  ultimately show ?thesis using assms(1) by (simp add: lock_inv_def)
qed

lemma release_inv:
  assumes "lock_inv s" and "map_of (held_conn s) (p, t) = Some x"
  shows "lock_inv (s\<lparr> held_conn := map_del (p, t) (held_conn s), locks := map_del (LockKey t) (locks s) \<rparr>)"
    and "unused x (s\<lparr> held_conn := map_del (p, t) (held_conn s), locks := map_del (LockKey t) (locks s) \<rparr>)"
    and "filter (\<lambda>(k, l). fst l \<noteq> x) (locks s) = map_del (LockKey t) (locks s)"
proof -
  let ?s = "s\<lparr> held_conn := map_del (p, t) (held_conn s), locks := map_del (LockKey t) (locks s) \<rparr>"
  have lk: "map_of (locks s) (LockKey t) = Some (x, 1)"
    using assms by (auto simp: lock_inv_def locks_match_def)
  have key: "LockKey u = LockKey t \<Longrightarrow> map_of (held_conn s) (q, u) = Some y \<Longrightarrow> q = p \<and> u = t" for q u y
  proof -
    assume a: "LockKey u = LockKey t" "map_of (held_conn s) (q, u) = Some y"
    have "y = x" using lock_of_held [OF assms(1) a(2)] a(1) lk by simp
    then show ?thesis using held_inject [OF assms(1) a(2), of p t] assms(2) by simp
  qed
  have "(map_of (locks ?s) k = Some (y, n)) = (n = 1 \<and> (\<exists>q u. map_of (held_conn ?s) (q, u) = Some y \<and> k = LockKey u))"
    for k y n
  proof (cases "k = LockKey t")
    case True
    then show ?thesis using key by auto
  next
    case False
    have "(map_of (locks s) k = Some (y, n)) = (n = 1 \<and> (\<exists>q u. map_of (held_conn s) (q, u) = Some y \<and> k = LockKey u))"
      using assms(1) by (simp add: lock_inv_def locks_match_def)
    moreover have "(map_of (held_conn ?s) (q, u) = Some y \<and> k = LockKey u)
        = (map_of (held_conn s) (q, u) = Some y \<and> k = LockKey u)" for q u
      using False by auto
    ultimately show ?thesis using False by simp
  qed
  then have "locks_match ?s" by (simp add: locks_match_def)
  moreover have "sessions_apart ?s"
    using assms(1) by (auto simp: lock_inv_def sessions_apart_def split: if_splits)
  ultimately show "lock_inv ?s" using assms(1) by (simp add: lock_inv_def)
  have "map_of (held_conn ?s) (q, u) \<noteq> Some x" for q u
    using held_inject [OF assms, of q u] by auto
  then show "unused x ?s"
    using assms unfolding lock_inv_def sessions_apart_def unused_def by auto
  have "y \<noteq> x \<longleftrightarrow> k \<noteq> LockKey t" if "(k, y, n) \<in> set (locks s)" for k y n
  proof -
    have "map_of (locks s) k = Some (y, n)"
      using that assms(1) is_map_mem by (auto simp: lock_inv_def)
    then obtain q u where "map_of (held_conn s) (q, u) = Some y" "k = LockKey u"
      using assms(1) unfolding lock_inv_def locks_match_def by blast
    then show ?thesis using key [of u q y] held_inject [OF assms(1), of q u y p t] assms(2) by auto
  qed
  then show "filter (\<lambda>(k, l). fst l \<noteq> x) (locks s) = map_del (LockKey t) (locks s)"
    unfolding AList.delete_eq by (intro filter_cong refl) force
qed

lemma unlock_held:
  assumes "lock_inv s" and "map_of (held_conn s) (p, t) = Some x"
  shows "unlock x (LockKey t) (s\<lparr> held_conn := h \<rparr>) = (True, s\<lparr> held_conn := h, locks := map_del (LockKey t) (locks s) \<rparr>)"
  using lock_of_held [OF assms] by (simp add: unlock_def)

text \<open>An election, taken apart: refused or failed it changes no lock and no election; won, it is new.\<close>

lemma pg_elect_Acquire_spec:
  assumes inv: "lock_inv s" and eq: "pg_elect_Acquire env p t s = (r, s')"
  shows "lock_inv s'
     \<and> (if r = Inr True
        then map_of (locks s) (LockKey t) = None
          \<and> map_of (held_conn s) (p, t) = None
          \<and> (\<exists>x. map_of (held_conn s') = (map_of (held_conn s))((p, t) \<mapsto> x))
        else map_of (held_conn s') = map_of (held_conn s))"
proof (cases "busy p t s \<or> ee_pool env \<noteq> None")
  case True
  then have "r \<noteq> Inr True \<and> s' = s" using eq by (auto simp: pg_elect_Acquire_def split: if_splits)
  then show ?thesis using inv by simp
next
  case False
  obtain x s1 where b: "borrow p s = (x, s1)" by (cases "borrow p s")
  have s1: "lock_inv s1" "unused x s1" "locks s1 = locks s" "held_conn s1 = held_conn s"
    using borrow_spec [OF inv b] by auto
  have gb: "lock_inv (give_back p x s1) \<and> map_of (held_conn (give_back p x s1)) = map_of (held_conn s)"
    using give_back_inv [OF s1(1,2)] s1(4) by (simp add: give_back_def)
  have free: "map_of (held_conn s) (p, t) = None" using False by (simp add: busy_def)
  show ?thesis
  proof (cases "ee_query env")
    case (Some e)
    then show ?thesis using False b eq gb by (auto simp: pg_elect_Acquire_def)
  next
    case None
    show ?thesis
    proof (cases "map_of (locks s) (LockKey t)")
      case (Some l)
      then have "try_lock x (LockKey t) s1 = (False, s1)" using try_lock_spec [OF s1(1,2)] s1(3) by simp
      then show ?thesis using False None b eq gb by (auto simp: pg_elect_Acquire_def)
    next
      case none: None
      let ?s' = "s1\<lparr> locks := map_set (LockKey t) (x, 1) (locks s1), held_conn := map_set (p, t) x (held_conn s1) \<rparr>"
      have "try_lock x (LockKey t) s1 = (True, s1\<lparr> locks := map_set (LockKey t) (x, 1) (locks s1) \<rparr>)"
        using none try_lock_spec [OF s1(1,2)] s1(3) by simp
      then have "r = Inr True \<and> s' = ?s'" using False None b eq by (auto simp: pg_elect_Acquire_def)
      moreover have "lock_inv ?s'" using elect_inv [OF s1(1,2)] none free s1(3,4) by simp
      ultimately show ?thesis using none free s1(4) by auto
    qed
  qed
qed

lemma pg_elect_Release_spec:
  assumes inv: "lock_inv s" and eq: "pg_elect_Release env p t s = (r, s')"
  shows "lock_inv s' \<and> map_of (held_conn s') = (map_of (held_conn s))((p, t) := None)
     \<and> (r = None \<longleftrightarrow> map_of (held_conn s) (p, t) = None \<or> ee_query env = None)"
proof (cases "map_of (held_conn s) (p, t)")
  case None
  then show ?thesis using eq inv by (auto simp: pg_elect_Release_def fun_upd_idem)
next
  case (Some x)
  let ?h = "map_del (p, t) (held_conn s)"
  let ?s = "s\<lparr> held_conn := ?h, locks := map_del (LockKey t) (locks s) \<rparr>"
  note rel = release_inv [OF inv Some]
  show ?thesis
  proof (cases "ee_query env")
    case None
    then have "r = None \<and> s' = give_back p x ?s"
      using eq Some unlock_held [OF inv Some, of ?h] by (auto simp: pg_elect_Release_def Let_def)
    then show ?thesis using give_back_inv [OF rel(1,2)] None by (auto simp: give_back_def)
  next
    case (Some e)
    then have "r \<noteq> None \<and> s' = ?s"
      using eq \<open>map_of (held_conn s) (p, t) = Some x\<close> rel(3)
      by (auto simp: pg_elect_Release_def Let_def end_session_def)
    then show ?thesis using rel(1) Some \<open>map_of (held_conn s) (p, t) = Some x\<close> by auto
  qed
qed

interpretation pg_elector: elector lock_inv "\<lambda>s p t. map_of (held_conn s) (p, t) \<noteq> None" pg_elect_Acquire pg_elect_Release
proof unfold_locales
  fix s p q t
  assume inv: "lock_inv s" and "map_of (held_conn s) (p, t) \<noteq> None" "map_of (held_conn s) (q, t) \<noteq> None"
  then obtain x y where x: "map_of (held_conn s) (p, t) = Some x" and y: "map_of (held_conn s) (q, t) = Some y"
    by blast
  have "x = y" using lock_of_held [OF inv x] lock_of_held [OF inv y] by simp
  then show "p = q" using held_inject [OF inv x, of q t] y by simp
next
  fix s e p t r s'
  assume "lock_inv s" "pg_elect_Acquire e p t s = (r, s')"
  from pg_elect_Acquire_spec [OF this]
  show "lock_inv s' \<and> (\<forall>q u. (map_of (held_conn s') (q, u) \<noteq> None)
      = (map_of (held_conn s) (q, u) \<noteq> None \<or> r = Inr True \<and> q = p \<and> u = t))"
    by (auto split: if_splits)
next
  fix s e p t s' q
  assume a: "lock_inv s" "pg_elect_Acquire e p t s = (Inr True, s')"
  from pg_elect_Acquire_spec [OF this] have "map_of (locks s) (LockKey t) = None" by simp
  then show "\<not> map_of (held_conn s) (q, t) \<noteq> None" using lock_of_held [OF a(1)] by force
next
  fix s e p t x s'
  assume "lock_inv s" "pg_elect_Release e p t s = (x, s')"
  from pg_elect_Release_spec [OF this]
  show "lock_inv s' \<and> (\<forall>q u. (map_of (held_conn s') (q, u) \<noteq> None)
      = (map_of (held_conn s) (q, u) \<noteq> None \<and> \<not> (q = p \<and> u = t)))"
    by auto
qed

section \<open>A run under an elector\<close>

text \<open>The world of one run: the elector's state, what faults its next calls meet, the clock, what
  the jobs work on, and the reports.\<close>

record ('s, 'e, 'v) sched_world =
  sw_elect :: 's
  sw_faults :: "nat \<Rightarrow> 'e"
  sw_calls :: nat
  sw_clock :: "nat \<Rightarrow> time"
  sw_app :: 'v
  sw_reports :: "sched_outcome list"

definition job_on_app :: "('v \<Rightarrow> job_result \<times> 'v) \<Rightarrow> ('s, 'e, 'v) sched_world \<Rightarrow> job_result \<times> ('s, 'e, 'v) sched_world" where
  "job_on_app job w = (case job (sw_app w) of (r, a) \<Rightarrow> (r, w\<lparr> sw_app := a \<rparr>))"

definition elector_ports ::
    "('e \<Rightarrow> str \<Rightarrow> 's \<Rightarrow> (err + bool) \<times> 's) \<Rightarrow> ('e \<Rightarrow> str \<Rightarrow> 's \<Rightarrow> err option \<times> 's) \<Rightarrow> ('s, 'e, 'v) sched_world sched_ports" where
  "elector_ports acq rel =
     \<lparr> sp_Acquire = (\<lambda>t w. case acq (sw_faults w (sw_calls w)) t (sw_elect w) of
           (r, s) \<Rightarrow> (r, w\<lparr> sw_elect := s, sw_calls := sw_calls w + 1 \<rparr>)),
       sp_Release = (\<lambda>t w. case rel (sw_faults w (sw_calls w)) t (sw_elect w) of
           (r, s) \<Rightarrow> (r, w\<lparr> sw_elect := s, sw_calls := sw_calls w + 1 \<rparr>)),
       sp_Report = (\<lambda>oc w. w\<lparr> sw_reports := sw_reports w @ [oc] \<rparr>),
       sp_Now = (\<lambda>w. (sw_clock w (sw_calls w), w\<lparr> sw_calls := sw_calls w + 1 \<rparr>)) \<rparr>"

text \<open>What one run does: without the election nothing but a report; with it the job once, and its
  outcome reported unless it panicked.\<close>

definition run_result ::
    "str \<Rightarrow> ('v \<Rightarrow> job_result \<times> 'v) \<Rightarrow> err + bool \<Rightarrow> ('s, 'e, 'v) sched_world \<Rightarrow> bool \<Rightarrow> ('s, 'e, 'v) sched_world \<Rightarrow> bool" where
  "run_result name job elected w crashed w' \<longleftrightarrow>
     (case elected of
        Inl e \<Rightarrow> \<not> crashed \<and> sw_app w' = sw_app w
          \<and> sw_reports w' = sw_reports w @ [sched_outcome_of name EventElectionFailed 0 (Some e)]
      | Inr False \<Rightarrow> \<not> crashed \<and> sw_app w' = sw_app w
          \<and> sw_reports w' = sw_reports w @ [sched_outcome_of name EventSkipped 0 None]
      | Inr True \<Rightarrow> sw_app w' = snd (job (sw_app w)) \<and> (crashed \<longleftrightarrow> fst (job (sw_app w)) = JobPanicked)
          \<and> (case fst (job (sw_app w)) of
               JobPanicked \<Rightarrow> take (length (sw_reports w)) (sw_reports w') = sw_reports w
             | JobReturned e \<Rightarrow> (\<exists>d rest. sw_reports w' = sw_reports w
                 @ sched_outcome_of name (if e = None then EventSucceeded else EventFailed) d e # rest)))"

context elector begin

lemma RunOnce_spec:
  assumes inv: "inv (sw_elect w)" and acq: "acquire (sw_faults w (sw_calls w)) p name (sw_elect w) = (elected, s1)"
    and run: "RunOnce (elector_ports (\<lambda>e. acquire e p) (\<lambda>e. release e p)) name (job_on_app job) w = (crashed, w')"
  shows "run_result name job elected w crashed w' \<and> inv (sw_elect w')
     \<and> (\<forall>q u. holds (sw_elect w') q u \<longleftrightarrow> holds (sw_elect w) q u)"
proof (cases elected)
  case (Inl e)
  then show ?thesis
    using acq run acquire_keeps [OF inv acq] by (auto simp: RunOnce_def elector_ports_def run_result_def)
next
  case (Inr b)
  show ?thesis
  proof (cases b)
    case False
    then show ?thesis
      using Inr acq run acquire_keeps [OF inv acq] by (auto simp: RunOnce_def elector_ports_def run_result_def)
  next
    case True
    have e: "elected = Inr True" using Inr True by simp
    have inv1: "inv s1" and h1: "holds s1 q u \<longleftrightarrow> holds (sw_elect w) q u \<or> q = p \<and> u = name" for q u
      using acquire_keeps [OF inv acq] e by auto
    have new: "\<not> holds (sw_elect w) q name" for q using acquire_new [OF inv acq [unfolded e]] .
    obtain res a where j: "job (sw_app w) = (res, a)" by (cases "job (sw_app w)")
    have rel: "inv s2 \<and> (\<forall>q u. holds s2 q u \<longleftrightarrow> holds (sw_elect w) q u)" if "release f p name s1 = (x, s2)" for f x s2
      using release_gives_up [OF inv1 that] h1 new by auto
    show ?thesis
      using run e acq j
      by (cases res)
        (auto simp: RunOnce_def execute_def elector_ports_def job_on_app_def run_result_def dest!: rel
          split: prod.splits option.splits)
  qed
qed

end

lemmas pg_RunOnce = pg_elector.RunOnce_spec and local_RunOnce = local_elector.RunOnce_spec

text \<open>C13: over PostgreSQL's advisory locks a job runs only when its replica was elected, and then
  exactly once; when the election fails or goes to another replica the job does not run at all and
  this is reported; and whatever the job does (return, fail, panic) and whatever fault the release
  meets, after the run this replica holds the task no more and every other election is as before.\<close>

theorem job_runs_only_elected:
  assumes "lock_inv (sw_elect w)"
    and "pg_elect_Acquire (sw_faults w (sw_calls w)) p name (sw_elect w) = (elected, s1)"
    and "RunOnce (elector_ports (\<lambda>e. pg_elect_Acquire e p) (\<lambda>e. pg_elect_Release e p)) name (job_on_app job) w = (crashed, w')"
  shows "run_result name job elected w crashed w' \<and> lock_inv (sw_elect w')
     \<and> (\<forall>q u. map_of (held_conn (sw_elect w')) (q, u) = None \<longleftrightarrow> map_of (held_conn (sw_elect w)) (q, u) = None)"
  using pg_RunOnce [OF assms] by blast

definition empty_locks :: lock_world where
  "empty_locks = \<lparr> locks = [], idle = [], next_session = 0, held_conn = [] \<rparr>"

lemma empty_locks_inv: "lock_inv empty_locks"
  by (simp add: lock_inv_def locks_match_def sessions_apart_def empty_locks_def idle_of_def)

definition demo_sched :: "(lock_world, elect_env, nat) sched_world" where
  "demo_sched = \<lparr> sw_elect = empty_locks, sw_faults = (\<lambda>_. no_fault), sw_calls = 0, sw_clock = int, sw_app = 0,
     sw_reports = [] \<rparr>"

text \<open>A job that panics after it has counted itself: it ran once, and the task is free again.\<close>

theorem job_runs_only_elected_witness:
  "\<exists>w'. RunOnce (elector_ports (\<lambda>e. pg_elect_Acquire e 0) (\<lambda>e. pg_elect_Release e 0)) ''purge''
       (job_on_app (\<lambda>n. (JobPanicked, n + 1))) demo_sched = (True, w')
     \<and> sw_app w' = 1 \<and> map_of (held_conn (sw_elect w')) (0, ''purge'') = None"
proof -
  let ?s1 = "\<lparr> locks = [(LockKey ''purge'', (0, 1))], idle = [], next_session = 1, held_conn = [((0, ''purge''), 0)] \<rparr>"
  have acq: "pg_elect_Acquire (sw_faults demo_sched (sw_calls demo_sched)) 0 ''purge'' (sw_elect demo_sched) = (Inr True, ?s1)"
    by (simp add: demo_sched_def pg_elect_Acquire_def empty_locks_def no_fault_def busy_def borrow_def idle_of_def
        try_lock_def)
  have inv: "lock_inv (sw_elect demo_sched)" using empty_locks_inv by (simp add: demo_sched_def)
  obtain c w' where run: "RunOnce (elector_ports (\<lambda>e. pg_elect_Acquire e 0) (\<lambda>e. pg_elect_Release e 0)) ''purge''
      (job_on_app (\<lambda>n. (JobPanicked, n + 1))) demo_sched = (c, w')"
    by (cases "RunOnce (elector_ports (\<lambda>e. pg_elect_Acquire e 0) (\<lambda>e. pg_elect_Release e 0)) ''purge''
      (job_on_app (\<lambda>n. (JobPanicked, n + 1))) demo_sched")
  show ?thesis
    using job_runs_only_elected [OF inv acq run] run
    by (simp add: run_result_def demo_sched_def empty_locks_def)
qed

section \<open>Replicas sharing a database\<close>

record replicas =
  rs_locks :: lock_world
  rs_running :: "(nat \<times> str) set"   \<comment> \<open>which replica is inside which job\<close>

text \<open>The replicas tick, finish and die in any order, each call meeting any fault.\<close>

inductive replicas_step :: "replicas \<Rightarrow> replicas \<Rightarrow> bool" where
  elected: "pg_elect_Acquire env p t (rs_locks s) = (Inr True, l)
     \<Longrightarrow> replicas_step s (s\<lparr> rs_locks := l, rs_running := insert (p, t) (rs_running s) \<rparr>)"
| not_elected: "pg_elect_Acquire env p t (rs_locks s) = (r, l) \<Longrightarrow> r \<noteq> Inr True
     \<Longrightarrow> replicas_step s (s\<lparr> rs_locks := l \<rparr>)"
| finished: "(p, t) \<in> rs_running s \<Longrightarrow> pg_elect_Release env p t (rs_locks s) = (r, l)
     \<Longrightarrow> replicas_step s (s\<lparr> rs_locks := l, rs_running := rs_running s - {(p, t)} \<rparr>)"
| died: "replicas_step s (s\<lparr> rs_locks := crash p (rs_locks s), rs_running := rs_running s - {p} \<times> UNIV \<rparr>)"

inductive replicas_reach :: "replicas \<Rightarrow> bool" where
  boot: "replicas_reach \<lparr> rs_locks = empty_locks, rs_running = {} \<rparr>"
| act: "replicas_reach s \<Longrightarrow> replicas_step s s' \<Longrightarrow> replicas_reach s'"

inductive_cases replicas_step_cases: "replicas_step s s'"

lemma fold_end_session: "fold end_session xs s = s\<lparr> locks := filter (\<lambda>(k, l). fst l \<notin> set xs) (locks s) \<rparr>"
proof (induction xs arbitrary: s)
  case (Cons x xs)
  have "filter (\<lambda>(k, l). fst l \<notin> set xs) (locks (end_session x s)) = filter (\<lambda>(k, l). fst l \<notin> set (x # xs)) (locks s)"
    unfolding end_session_def by (auto intro: filter_cong)
  moreover have "(end_session x s)\<lparr> locks := m \<rparr> = s\<lparr> locks := m \<rparr>" for m
    by (simp add: end_session_def)
  ultimately show ?case by (simp add: Cons.IH)
qed (simp add: case_prod_beta)

lemma map_of_filter:
  assumes "is_map m"
  shows "map_of (filter (\<lambda>(k, v). P k v) m) k = (case map_of m k of Some v \<Rightarrow> if P k v then Some v else None | None \<Rightarrow> None)"
  using map_of_filter_key [OF assms, of P k] .

lemma crash_spec:
  assumes inv: "lock_inv s"
  shows "lock_inv (crash p s)
     \<and> (\<forall>q t. map_of (held_conn (crash p s)) (q, t) = (if q = p then None else map_of (held_conn s) (q, t)))"
proof -
  have im: "is_map (held_conn s)" "is_map (locks s)" using inv by (simp_all add: lock_inv_def)
  let ?xs = "sessions_of p s"
  have hc: "held_conn (crash p s) = filter (\<lambda>(k, x). fst k \<noteq> p) (held_conn s)"
    and lk: "locks (crash p s) = filter (\<lambda>(k, l). fst l \<notin> set ?xs) (locks s)"
    and nx: "next_session (crash p s) = next_session s"
    by (simp_all add: crash_def Let_def fold_end_session)
  have il: "idle_of (crash p s) q = (if q = p then [] else idle_of s q)" for q
    by (simp add: crash_def Let_def fold_end_session idle_of_def)
  have h: "map_of (held_conn (crash p s)) (q, t) = (if q = p then None else map_of (held_conn s) (q, t))" for q t
    using map_of_filter [OF im(1), of "\<lambda>k x. fst k \<noteq> p" "(q, t)"]
    by (simp add: hc split: option.split)
  have mem: "x \<in> set ?xs \<longleftrightarrow> q = p" if "map_of (held_conn s) (q, t) = Some x" for q t x
  proof
    assume "x \<in> set ?xs"
    then consider "x \<in> set (idle_of s p)" | u where "map_of (held_conn s) (p, u) = Some x"
      using is_map_mem [OF im(1)] by (auto simp: sessions_of_def)
    then show "q = p"
    proof cases
      case 1
      then show ?thesis using inv that unfolding lock_inv_def sessions_apart_def by blast
    next
      case 2
      then show ?thesis using held_inject [OF inv that] by blast
    qed
  next
    assume "q = p"
    then have "((p, t), x) \<in> set (held_conn s)" using that map_of_SomeD by fastforce
    then show "x \<in> set ?xs" by (force simp: sessions_of_def)
  qed
  have "map_of (locks (crash p s)) k = Some (x, n)
      \<longleftrightarrow> n = 1 \<and> (\<exists>q t. map_of (held_conn (crash p s)) (q, t) = Some x \<and> k = LockKey t)" for k x n
  proof -
    have "map_of (locks (crash p s)) k = Some (x, n) \<longleftrightarrow> map_of (locks s) k = Some (x, n) \<and> x \<notin> set ?xs"
      using map_of_filter [OF im(2), of "\<lambda>k v. fst v \<notin> set ?xs" k]
      by (auto simp: lk split: option.splits if_splits)
    also have "\<dots> \<longleftrightarrow> n = 1 \<and> (\<exists>q t. map_of (held_conn s) (q, t) = Some x \<and> k = LockKey t \<and> q \<noteq> p)"
      using inv mem unfolding lock_inv_def locks_match_def by blast
    finally show ?thesis by (auto simp: h)
  qed
  then have "locks_match (crash p s)" by (simp add: locks_match_def)
  moreover have "sessions_apart (crash p s)"
    using inv unfolding lock_inv_def sessions_apart_def by (auto simp: h il nx split: if_splits)
  moreover have "is_map (held_conn (crash p s))" "is_map (locks (crash p s))"
    using im by (simp_all add: hc lk distinct_map_filter)
  ultimately show ?thesis using h by (simp add: lock_inv_def)
qed

definition replicas_inv :: "replicas \<Rightarrow> bool" where
  "replicas_inv s \<longleftrightarrow> lock_inv (rs_locks s)
     \<and> (\<forall>p t. (p, t) \<in> rs_running s \<longleftrightarrow> map_of (held_conn (rs_locks s)) (p, t) \<noteq> None)"

lemma replicas_step_inv: "replicas_step s s' \<Longrightarrow> replicas_inv s \<Longrightarrow> replicas_inv s'"
proof (induction rule: replicas_step.induct)
  case (elected env p t s l)
  then show ?case using pg_elector.acquire_keeps [of "rs_locks s" env p t "Inr True" l] by (auto simp: replicas_inv_def)
next
  case (not_elected env p t s r l)
  then show ?case using pg_elector.acquire_keeps [of "rs_locks s" env p t r l] by (auto simp: replicas_inv_def)
next
  case (finished p t s env r l)
  then show ?case using pg_elector.release_gives_up [of "rs_locks s" env p t r l] by (auto simp: replicas_inv_def)
next
  case (died s p)
  then show ?case using crash_spec [of "rs_locks s" p] by (auto simp: replicas_inv_def split: if_splits)
qed

lemma replicas_reach_inv: "replicas_reach s \<Longrightarrow> replicas_inv s"
proof (induction rule: replicas_reach.induct)
  case boot
  then show ?case by (simp add: replicas_inv_def empty_locks_inv) (simp add: empty_locks_def)
next
  case (act s s')
  then show ?case using replicas_step_inv by blast
qed

lemma try_elected:
  assumes "lock_inv s" and "map_of (locks s) (LockKey t) = None"
  shows "\<exists>l. pg_elect_Acquire no_fault p t s = (Inr True, l)"
proof -
  have nb: "\<not> busy p t s" using lock_of_held [OF assms(1)] assms(2) by (force simp: busy_def)
  obtain x s1 where b: "borrow p s = (x, s1)" by (cases "borrow p s")
  then have "lock_inv s1" "unused x s1" "locks s1 = locks s" using borrow_spec [OF assms(1)] by auto
  then have "try_lock x (LockKey t) s1 = (True, s1\<lparr> locks := map_set (LockKey t) (x, 1) (locks s1) \<rparr>)"
    using try_lock_spec assms(2) by simp
  then show ?thesis using nb b by (simp add: pg_elect_Acquire_def no_fault_def)
qed



end
