(* ===== verification/Outbox_Postgres.thy ===== *)
theory Outbox_Postgres
  imports Outbox_Fate
begin

text \<open>
  The PostgreSQL outbox driver (internal/core/outbox/drivers/postgres/postgres.go): its SQL statements
  over the table platform.outbox_messages and its row locks. A statement runs in the transaction
  its context carries (\<open>Some t\<close>, through database.QuerierFrom) or on the pool in autocommit
  (\<open>None\<close>); the first argument of each operation is the failure the connection reports, if any.
  A row lock lives until the end of the transaction that took it; in autocommit that is the end
  of the statement.
\<close>

record pg_row =
  r_message :: message
  r_processed_at :: "time option"
  r_last_error :: "str option"

record pg_outbox =
  pg_rows :: "(str, pg_row) gomap"
  pg_locks :: "(str, nat) gomap"

definition db_error :: "str \<Rightarrow> err \<Rightarrow> err" where
  "db_error what e = Errorf [Lit (what @ '': ''), W e]"

text \<open>\<open>uuid\<close> is what uuid.NewV7 returned; \<open>now\<close> is the database's \<open>now()\<close>.\<close>

definition pg_Enqueue ::
    "err option \<Rightarrow> err + str \<Rightarrow> time \<Rightarrow> new_message \<Rightarrow> pg_outbox \<Rightarrow> (err + str) \<times> pg_outbox" where
  "pg_Enqueue fault uuid now msg s =
     (case uuid of
        Inl e \<Rightarrow> (Inl (db_error (''generating the message identifier ('' @ nm_type msg @ '')'') e), s)
      | Inr i \<Rightarrow>
          (let headers = (case nm_headers msg of None \<Rightarrow> [] | Some h \<Rightarrow> h);
               failed = (case fault of
                   Some e \<Rightarrow> Some e
                 | None \<Rightarrow> if map_get (pg_rows s) i \<noteq> None \<or> nm_type msg = []
                           then Some (Opaque ''constraint violation'') else None);
               m = \<lparr> msg_id = i, msg_type = nm_type msg, msg_aggregate_id = nm_aggregate_id msg,
                     msg_payload = nm_payload msg, msg_trace_parent = nm_trace_parent msg,
                     msg_headers = Some headers, msg_status = StatusPending, msg_attempts = 0,
                     msg_created_at = now, msg_available_at = now \<rparr>
           in case failed of
                Some e \<Rightarrow> (Inl (db_error (''inserting into the outbox ('' @ nm_type msg @ '')'') e), s)
              | None \<Rightarrow> (Inr i, s\<lparr> pg_rows := map_set i
                   \<lparr> r_message = m, r_processed_at = None, r_last_error = None \<rparr> (pg_rows s) \<rparr>)))"

text \<open>SKIP LOCKED: a row another transaction holds is passed over.\<close>

definition skipped :: "nat option \<Rightarrow> pg_outbox \<Rightarrow> str \<Rightarrow> bool" where
  "skipped tx s i = (case map_get (pg_locks s) i of None \<Rightarrow> False | Some t \<Rightarrow> tx \<noteq> Some t)"

definition claim_query :: "nat option \<Rightarrow> time \<Rightarrow> nat \<Rightarrow> pg_outbox \<Rightarrow> message list" where
  "claim_query tx now n s =
     take n (sort_key msg_available_at
       (filter (\<lambda>m. IsDue m now \<and> \<not> skipped tx s (msg_id m)) (map (r_message \<circ> snd) (pg_rows s))))"

text \<open>FOR UPDATE: inside a transaction the rows returned are locked by it until it ends.\<close>

definition lock_rows :: "nat option \<Rightarrow> message list \<Rightarrow> pg_outbox \<Rightarrow> pg_outbox" where
  "lock_rows tx ms s =
     (case tx of
        None \<Rightarrow> s
      | Some t \<Rightarrow> s\<lparr> pg_locks := fold (\<lambda>m. map_set (msg_id m) t) ms (pg_locks s) \<rparr>)"

definition pg_Claim ::
    "err option \<Rightarrow> nat option \<Rightarrow> time \<Rightarrow> nat \<Rightarrow> pg_outbox \<Rightarrow> (err + message list) \<times> pg_outbox" where
  "pg_Claim fault tx now n s =
     (case fault of
        Some e \<Rightarrow> (Inl (db_error ''claiming in the outbox'' e), s)
      | None \<Rightarrow> (let ms = claim_query tx now n s in (Inr ms, lock_rows tx ms s)))"

text \<open>An UPDATE of no row is no error.\<close>

definition update_row :: "str \<Rightarrow> (pg_row \<Rightarrow> pg_row) \<Rightarrow> pg_outbox \<Rightarrow> pg_outbox" where
  "update_row i f s =
     (case map_get (pg_rows s) i of
        None \<Rightarrow> s
      | Some r \<Rightarrow> s\<lparr> pg_rows := map_set i (f r) (pg_rows s) \<rparr>)"

definition pg_MarkDone :: "err option \<Rightarrow> time \<Rightarrow> str \<Rightarrow> pg_outbox \<Rightarrow> err option \<times> pg_outbox" where
  "pg_MarkDone fault now i s =
     (case fault of
        Some e \<Rightarrow> (Some (db_error (''marking message '' @ i @ '' as processed'') e), s)
      | None \<Rightarrow> (None, update_row i (\<lambda>r. r\<lparr> r_message := (r_message r)\<lparr> msg_status := StatusDone \<rparr>,
                                            r_processed_at := Some now \<rparr>) s))"

definition pg_MarkFailed :: "err option \<Rightarrow> failed_attempt \<Rightarrow> pg_outbox \<Rightarrow> err option \<times> pg_outbox" where
  "pg_MarkFailed fault a s =
     (case fault of
        Some e \<Rightarrow> (Some (db_error (''recording the failure of message '' @ fa_id a) e), s)
      | None \<Rightarrow> (None, update_row (fa_id a) (\<lambda>r. r\<lparr> r_message := (r_message r)\<lparr> msg_attempts := fa_attempts a,
                   msg_status := fa_status a, msg_available_at := fa_available_at a \<rparr>,
                   r_last_error := Some (fa_reason a) \<rparr>) s))"

definition pg_PendingCount :: "err option \<Rightarrow> pg_outbox \<Rightarrow> err + nat" where
  "pg_PendingCount fault s =
     (case fault of
        Some e \<Rightarrow> Inl (db_error ''counting the outbox'' e)
      | None \<Rightarrow> Inr (length (filter (\<lambda>(i, r). msg_status (r_message r) = StatusPending) (pg_rows s))))"

text \<open>The end of a transaction gives its locks back.\<close>

definition end_tx :: "nat \<Rightarrow> pg_outbox \<Rightarrow> pg_outbox" where
  "end_tx t s = s\<lparr> pg_locks := filter (\<lambda>(i, u). u \<noteq> t) (pg_locks s) \<rparr>"

section \<open>The contract it keeps\<close>

definition pg_get :: "pg_outbox \<Rightarrow> str \<Rightarrow> message option" where
  "pg_get s i = map_option r_message (map_get (pg_rows s) i)"

definition pg_inv :: "pg_outbox \<Rightarrow> bool" where
  "pg_inv s \<longleftrightarrow> is_map (pg_rows s)
     \<and> (\<forall>i r. map_get (pg_rows s) i = Some r \<longrightarrow> msg_id (r_message r) = i \<and> 0 \<le> msg_attempts (r_message r))"

lemma pg_messages_elem:
  assumes "pg_inv s" and "m \<in> set (map (r_message \<circ> snd) (pg_rows s))"
  shows "pg_get s (msg_id m) = Some m"
proof -
  obtain i r where "(i, r) \<in> set (pg_rows s)" and m: "m = r_message r"
    using assms(2) by auto
  then have "map_get (pg_rows s) i = Some r"
    using assms(1) is_map_mem by (fastforce simp: pg_inv_def)
  then show ?thesis using assms(1) m by (auto simp: pg_inv_def pg_get_def)
qed

lemma pg_messages_ids: "pg_inv s \<Longrightarrow> ids (map (r_message \<circ> snd) (pg_rows s)) = map fst (pg_rows s)"
  using is_map_mem by (fastforce simp: ids_def pg_inv_def)

lemma claim_query_elem:
  assumes "pg_inv s" and "m \<in> set (claim_query tx now n s)"
  shows "pg_get s (msg_id m) = Some m" and "IsDue m now" and "\<not> skipped tx s (msg_id m)"
proof -
  have "m \<in> set (filter (\<lambda>m. IsDue m now \<and> \<not> skipped tx s (msg_id m)) (map (r_message \<circ> snd) (pg_rows s)))"
    using assms(2) unfolding claim_query_def by (metis in_set_takeD set_sort)
  then show "pg_get s (msg_id m) = Some m" "IsDue m now" "\<not> skipped tx s (msg_id m)"
    using pg_messages_elem [OF assms(1)] by auto
qed

lemma claim_query_ids:
  assumes "pg_inv s"
  shows "distinct (ids (claim_query tx now n s))" and "length (claim_query tx now n s) \<le> n"
proof -
  let ?ms = "filter (\<lambda>m. IsDue m now \<and> \<not> skipped tx s (msg_id m)) (map (r_message \<circ> snd) (pg_rows s))"
  have "distinct (map msg_id (map (r_message \<circ> snd) (pg_rows s)))"
    using pg_messages_ids [OF assms] assms by (simp only: ids_def pg_inv_def)
  then have "distinct (map msg_id ?ms)" by (rule distinct_map_filter)
  then have "distinct ?ms" and "inj_on msg_id (set ?ms)" by (simp_all add: distinct_map)
  then have "distinct (map msg_id (sort_key msg_available_at ?ms))"
    by (simp add: distinct_map)
  then show "distinct (ids (claim_query tx now n s))"
    by (simp add: claim_query_def ids_def take_map [symmetric] distinct_take)
  show "length (claim_query tx now n s) \<le> n" by (simp add: claim_query_def)
qed

lemma pg_Claim_keeps:
  "pg_Claim fault tx now n s = (r, s') \<Longrightarrow> pg_rows s' = pg_rows s"
  by (auto simp: pg_Claim_def lock_rows_def Let_def split: option.splits)

lemma pg_get_update:
  assumes "map_get (pg_rows s) i = Some r"
  shows "pg_get (update_row i f s) = (pg_get s)(i \<mapsto> r_message (f r))"
  using assms by (auto simp: update_row_def pg_get_def fun_eq_iff)

lemma pg_inv_update:
  assumes "pg_inv s" and "\<And>r. map_get (pg_rows s) i = Some r \<Longrightarrow>
      msg_id (r_message (f r)) = i \<and> 0 \<le> msg_attempts (r_message (f r))"
  shows "pg_inv (update_row i f s)"
  using assms by (auto simp: pg_inv_def update_row_def split: option.splits)

text \<open>In autocommit, with whatever the connection reports: everything but exclusivity.\<close>

interpretation pg: outbox_table pg_inv pg_get "\<lambda>s. {}" "\<lambda>c. pg_Claim c None"
  "pg_MarkDone fault done_at" "pg_MarkFailed fault'"
proof
  fix s c now n r s'
  assume "pg_inv s" "pg_Claim c None now n s = (r, s')"
  then show "pg_inv s' \<and> pg_get s' = pg_get s"
    using pg_Claim_keeps [of c None now n s r s'] by (auto simp: pg_inv_def pg_get_def)
next
  fix s c now n ms s'
  assume inv: "pg_inv s" and "pg_Claim c None now n s = (Inr ms, s')"
  then have ms: "ms = claim_query None now n s"
    by (auto simp: pg_Claim_def Let_def split: option.splits)
  show "length ms \<le> n \<and> distinct (ids ms) \<and> (\<forall>m \<in> set ms. pg_get s (msg_id m) = Some m \<and> IsDue m now)"
    unfolding ms using claim_query_ids [OF inv] claim_query_elem [OF inv] by blast
next
  fix s i m s'
  assume inv: "pg_inv s" and m: "pg_get s i = Some m" and eq: "pg_MarkDone fault done_at i s = (None, s')"
  let ?f = "\<lambda>r. r\<lparr> r_message := (r_message r)\<lparr> msg_status := StatusDone \<rparr>, r_processed_at := Some done_at \<rparr>"
  have s': "s' = update_row i ?f s" using eq by (simp add: pg_MarkDone_def split: option.splits)
  obtain r where r: "map_get (pg_rows s) i = Some r" "m = r_message r"
    using m by (auto simp: pg_get_def)
  have "pg_inv s'" unfolding s' by (rule pg_inv_update [OF inv]) (use inv in \<open>auto simp: pg_inv_def\<close>)
  then show "pg_inv s' \<and> pg_get s' = (pg_get s)(i \<mapsto> done_message m) \<and> {} = {} - {i}"
    using pg_get_update [OF r(1), of ?f] r(2) by (simp add: s' done_message_def)
next
  fix s i e s'
  assume "pg_inv s" "pg_MarkDone fault done_at i s = (Some e, s')"
  then show "pg_inv s' \<and> pg_get s' = pg_get s \<and> {} = {}"
    by (simp add: pg_MarkDone_def split: option.splits)
next
  fix s a m s'
  assume inv: "pg_inv s" and m: "pg_get s (fa_id a) = Some m" and nn: "0 \<le> fa_attempts a"
    and eq: "pg_MarkFailed fault' a s = (None, s')"
  let ?f = "\<lambda>r. r\<lparr> r_message := (r_message r)\<lparr> msg_attempts := fa_attempts a,
      msg_status := fa_status a, msg_available_at := fa_available_at a \<rparr>, r_last_error := Some (fa_reason a) \<rparr>"
  have s': "s' = update_row (fa_id a) ?f s" using eq by (simp add: pg_MarkFailed_def split: option.splits)
  obtain r where r: "map_get (pg_rows s) (fa_id a) = Some r" "m = r_message r"
    using m by (auto simp: pg_get_def)
  have "pg_inv s'" unfolding s' by (rule pg_inv_update [OF inv]) (use inv nn in \<open>auto simp: pg_inv_def\<close>)
  then show "pg_inv s' \<and> pg_get s' = (pg_get s)(fa_id a \<mapsto> failed_message a m) \<and> {} = {} - {fa_id a}"
    using pg_get_update [OF r(1), of ?f] r(2) by (simp add: s' failed_message_def)
next
  fix s a e s'
  assume "pg_inv s" "pg_MarkFailed fault' a s = (Some e, s')"
  then show "pg_inv s' \<and> pg_get s' = pg_get s \<and> {} = {}"
    by (simp add: pg_MarkFailed_def split: option.splits)
next
  fix s i m
  assume "pg_inv s" "pg_get s i = Some m"
  then show "msg_id m = i \<and> 0 \<le> msg_attempts m" by (auto simp: pg_inv_def pg_get_def)
qed simp_all

section \<open>Exclusivity\<close>

lemma map_of_fold_lock: "map_of (fold (\<lambda>m. map_set (msg_id m) t) ms l) i
    = (if i \<in> msg_id ` set ms then Some t else map_of l i)"
  by (induction ms arbitrary: l) auto


definition pg_demo :: pg_outbox where
  "pg_demo = \<lparr> pg_rows = [(''mem-1'', \<lparr> r_message = sample_message, r_processed_at = None,
     r_last_error = None \<rparr>)], pg_locks = [] \<rparr>"

lemma pg_demo_inv: "pg_inv pg_demo"
  by (simp add: pg_inv_def pg_demo_def sample_message_def)


text \<open>on the pool, as the worker wires the driver, nothing remembers a claim: the claim
  leaves the store as it was, so the same call repeated at the same instant returns the same batch
  again, against the contract of ports.Claim.\<close>

theorem pg_autocommit_claims_repeat:
  assumes "pg_Claim None None now n s = (Inr ms, s')"
  shows "s' = s \<and> pg_Claim None None now n s' = (Inr ms, s')"
  using assms by (auto simp: pg_Claim_def lock_rows_def Let_def)

theorem pg_autocommit_claims_repeat_witness:
  "pg_Claim None None 5 10 pg_demo = (Inr [sample_message], pg_demo)
   \<and> pg_Claim None None 5 10 (snd (pg_Claim None None 5 10 pg_demo)) = (Inr [sample_message], pg_demo)"
proof -
  have "claim_query None 5 10 pg_demo = [sample_message]"
    by (simp add: claim_query_def pg_demo_def IsDue_def sample_message_def skipped_def)
  then have c: "pg_Claim None None 5 10 pg_demo = (Inr [sample_message], pg_demo)"
    by (simp add: pg_Claim_def Let_def lock_rows_def)
  from pg_autocommit_claims_repeat [OF c] show ?thesis by (simp add: c)
qed

end
