(* ===== verification/Logging.thy ===== *)
theory Logging
  imports Config_Module
begin

text \<open>
  What the components use of \<open>log/slog\<close>: a line with a level, a message and attributes. A logger is
  the list of the lines written so far, oldest first.
\<close>

datatype level = LevelDebug | LevelInfo | LevelWarn | LevelError

datatype attr = AString str | AInt int | ADuration duration | ATime time
  | AMap "(str, val) gomap option"  \<comment> \<open>\<open>slog.Any\<close> of a map, \<open>None\<close> for a nil one\<close>

record log_line =
  l_level :: level
  l_text :: str
  l_attrs :: "(str \<times> attr) list"

end
