(* ===== verification/Outbox_Module.thy ===== *)
theory Outbox_Module
  imports Outbox_Properties Outbox_Postgres Config_Module Logging
begin

text \<open>
  The outbox module as the composition root mounts it (internal/core/outbox/module.go,
  dispatcher.go, sharing.go, catalog.go): the choice of the driver, the disabled module, the
  policy read from the options and the report written to the log.
\<close>

section \<open>The mounted module\<close>

definition Name :: str where "Name = ''outbox''"
definition driverMemory :: str where "driverMemory = ''memory''"
definition driverPostgres :: str where "driverPostgres = ''postgres''"

text \<open>What one call reads from outside: the context, the clock, the connection, a new UUID.\<close>

record call_env =
  ce_ctx :: ctx
  ce_now :: time
  ce_fault :: "err option"
  ce_uuid :: "err + str"

text \<open>The stores of the two drivers; a mounted module works on one of them.\<close>

record outbox_state =
  st_memory :: mem_store
  st_postgres :: pg_outbox

record outbox_module =
  m_Enqueue :: "call_env \<Rightarrow> new_message \<Rightarrow> outbox_state \<Rightarrow> (err + str) \<times> outbox_state"
  m_Claim :: "call_env \<Rightarrow> int \<Rightarrow> outbox_state \<Rightarrow> (err + message list) \<times> outbox_state"
  m_MarkDone :: "call_env \<Rightarrow> str \<Rightarrow> outbox_state \<Rightarrow> err option \<times> outbox_state"
  m_MarkFailed :: "call_env \<Rightarrow> failed_attempt \<Rightarrow> outbox_state \<Rightarrow> err option \<times> outbox_state"
  m_PendingCount :: "call_env \<Rightarrow> outbox_state \<Rightarrow> err + nat"

definition on_memory :: "(mem_store \<Rightarrow> 'r \<times> mem_store) \<Rightarrow> outbox_state \<Rightarrow> 'r \<times> outbox_state" where
  "on_memory f st = (case f (st_memory st) of (r, s) \<Rightarrow> (r, st\<lparr> st_memory := s \<rparr>))"

definition on_postgres :: "(pg_outbox \<Rightarrow> 'r \<times> pg_outbox) \<Rightarrow> outbox_state \<Rightarrow> 'r \<times> outbox_state" where
  "on_postgres f st = (case f (st_postgres st) of (r, s) \<Rightarrow> (r, st\<lparr> st_postgres := s \<rparr>))"

definition disabled_outbox :: outbox_module where
  "disabled_outbox = \<lparr>
     m_Enqueue = (\<lambda>e msg st. (Inl (Sentinel (Outbox OutboxErrDisabled)), st)),
     m_Claim = (\<lambda>e n st. (Inl (Sentinel (Outbox OutboxErrDisabled)), st)),
     m_MarkDone = (\<lambda>e i st. (Some (Sentinel (Outbox OutboxErrDisabled)), st)),
     m_MarkFailed = (\<lambda>e a st. (Some (Sentinel (Outbox OutboxErrDisabled)), st)),
     m_PendingCount = (\<lambda>e st. Inl (Sentinel (Outbox OutboxErrDisabled))) \<rparr>"

text \<open>\<open>pool\<close> says whether the dependencies carry a database connection; the calls of the module
  run on the pool.\<close>

definition New_outbox :: "module_config \<Rightarrow> bool \<Rightarrow> err + outbox_module" where
  "New_outbox cfg pool =
     (if \<not> enabled cfg then Inr disabled_outbox
      else if driver cfg = driverMemory then
        Inr \<lparr> m_Enqueue = (\<lambda>e msg. on_memory (Enqueue (ce_ctx e) (ce_now e) msg)),
              m_Claim = (\<lambda>e n. on_memory (Claim (ce_ctx e) (ce_now e) (nat n))),
              m_MarkDone = (\<lambda>e i. on_memory (MarkDone i)),
              m_MarkFailed = (\<lambda>e a. on_memory (MarkFailed a)),
              m_PendingCount = (\<lambda>e st. Inr (PendingCount (st_memory st))) \<rparr>
      else if driver cfg = driverPostgres then
        (if \<not> pool then Inl (Sentinel (Outbox OutboxErrPoolRequired))
         else Inr \<lparr> m_Enqueue = (\<lambda>e msg. on_postgres (pg_Enqueue (ce_fault e) (ce_uuid e) (ce_now e) msg)),
              m_Claim = (\<lambda>e n. on_postgres (pg_Claim (ce_fault e) None (ce_now e) (nat n))),
              m_MarkDone = (\<lambda>e i. on_postgres (pg_MarkDone (ce_fault e) (ce_now e) i)),
              m_MarkFailed = (\<lambda>e a. on_postgres (pg_MarkFailed (ce_fault e) a)),
              m_PendingCount = (\<lambda>e st. pg_PendingCount (ce_fault e) (st_postgres st)) \<rparr>)
      else Inl (Errorf [W (Sentinel (Outbox OutboxErrUnknownDriver)), Lit ('': '' @ quote_text (driver cfg))]))"

definition SharedAcrossProcesses :: "str \<Rightarrow> bool" where
  "SharedAcrossProcesses drv =
     (if drv = driverPostgres then True else if drv = driverMemory then False else False)"

definition RequireSharedDriver :: "str \<Rightarrow> err option" where
  "RequireSharedDriver drv =
     (if SharedAcrossProcesses drv then None
      else Some (Errorf [W (Sentinel (Outbox ErrNotShared)),
        Lit ('': '' @ quote_text drv @ ''. A separately launched dispatcher would never see the events ''
          @ ''written by the server. Switch modules.'' @ Name @ ''.driver to a shared driver'')]))"

section \<open>The options\<close>

definition OptionBatchSize :: str where "OptionBatchSize = ''batch_size''"
definition OptionMaxAttempts :: str where "OptionMaxAttempts = ''max_attempts''"
definition OptionBaseBackoff :: str where "OptionBaseBackoff = ''base_backoff''"
definition OptionInterval :: str where "OptionInterval = ''interval''"

definition defaultBatchSize :: int where "defaultBatchSize = 50"
definition defaultMaxAttempts :: int where "defaultMaxAttempts = 8"
definition defaultBaseBackoff :: duration where "defaultBaseBackoff = second"
definition defaultInterval :: duration where "defaultInterval = 2 * second"

definition dispatcherOptions :: "str list" where
  "dispatcherOptions = [OptionBatchSize, OptionMaxAttempts, OptionBaseBackoff, OptionInterval]"

definition outbox_Catalog :: module_catalog where
  "outbox_Catalog = [(Name, \<lparr> Default = driverMemory, Drivers =
     [(driverMemory, \<lparr> SQL = False, Cache = False, Options = dispatcherOptions \<rparr>),
      (driverPostgres, \<lparr> SQL = True, Cache = False, Options = dispatcherOptions \<rparr>)] \<rparr>)]"

text \<open>\<open>fmt.Errorf("modules.%s.%w", Name, err)\<close>\<close>

definition option_failure :: "str \<Rightarrow> err \<Rightarrow> err" where
  "option_failure sep e = Errorf [Lit (''modules.'' @ Name @ sep), W e]"

definition policyFrom :: "module_config \<Rightarrow> err + policy" where
  "policyFrom cfg =
     (case IntOption cfg OptionBatchSize defaultBatchSize of Inl e \<Rightarrow> Inl (option_failure ''.'' e) | Inr batch \<Rightarrow>
     (case IntOption cfg OptionMaxAttempts defaultMaxAttempts of Inl e \<Rightarrow> Inl (option_failure ''.'' e) | Inr attempts \<Rightarrow>
     (case DurationOption cfg OptionBaseBackoff defaultBaseBackoff of Inl e \<Rightarrow> Inl (option_failure ''.'' e) | Inr base \<Rightarrow>
     (case DurationOption cfg OptionInterval defaultInterval of Inl e \<Rightarrow> Inl (option_failure ''.'' e) | Inr period \<Rightarrow>
       Inr \<lparr> batch_size = batch, interval = period,
             retry = \<lparr> max_attempts = attempts, base_backoff = base \<rparr> \<rparr>))))"

section \<open>The report\<close>

primrec event_name :: "event \<Rightarrow> str" where
  "event_name EventPublished = ''published''"
| "event_name EventRetryScheduled = ''retry_scheduled''"
| "event_name EventExhausted = ''exhausted''"
| "event_name EventClaimFailed = ''claim_failed''"
| "event_name EventResolveFailed = ''resolve_failed''"
| "event_name EventHandlerPanicked = ''handler_panicked''"

primrec levelOf :: "event \<Rightarrow> level" where
  "levelOf EventExhausted = LevelError"
| "levelOf EventResolveFailed = LevelError"
| "levelOf EventHandlerPanicked = LevelError"
| "levelOf EventRetryScheduled = LevelWarn"
| "levelOf EventClaimFailed = LevelWarn"
| "levelOf EventPublished = LevelDebug"

definition LogReport :: "outcome \<Rightarrow> log_line list \<Rightarrow> log_line list" where
  "LogReport oc logged =
     logged @ [\<lparr> l_level = levelOf (out_event oc), l_text = ''outbox dispatching'',
       l_attrs = [(''event'', AString (event_name (out_event oc))), (''message_id'', AString (out_id oc)),
                  (''message_type'', AString (out_type oc)), (''attempts'', AInt (out_attempts oc))]
         @ (if 0 < out_duration oc then [(''duration'', ADuration (out_duration oc))] else [])
         @ (case out_err oc of None \<Rightarrow> [] | Some e \<Rightarrow> [(''error'', AString (err_text e))]) \<rparr>]"

section \<open>The dispatcher of the module\<close>

text \<open>The world of a running worker: the stores, what the calls read next, and the log.\<close>

record worker_world =
  ww_state :: outbox_state
  ww_env :: "nat \<Rightarrow> call_env"   \<comment> \<open>the \<open>n\<close>-th call reads \<open>ww_env n\<close>\<close>
  ww_calls :: nat
  ww_log :: "log_line list"

definition call_module :: "(call_env \<Rightarrow> outbox_state \<Rightarrow> 'r \<times> outbox_state) \<Rightarrow> 'x worker_world_scheme \<Rightarrow> 'r \<times> 'x worker_world_scheme" where
  "call_module f w = (case f (ww_env w (ww_calls w)) (ww_state w) of
     (r, st) \<Rightarrow> (r, w\<lparr> ww_state := st, ww_calls := ww_calls w + 1 \<rparr>))"

definition NewDispatcher_outbox ::
    "outbox_module \<Rightarrow> module_config \<Rightarrow> (message \<Rightarrow> 'x worker_world_scheme \<Rightarrow> handled \<times> 'x worker_world_scheme) option \<Rightarrow>
     bool \<Rightarrow> err + 'x worker_world_scheme dispatcher" where
  "NewDispatcher_outbox md cfg hnd logger =
     (if hnd = None then Inl (Sentinel (Outbox ErrHandlerRequired))
      else if \<not> logger then Inl (Sentinel (Outbox OutboxErrLoggerRequired))
      else case policyFrom cfg of
        Inl e \<Rightarrow> Inl e
      | Inr p \<Rightarrow>
          (case NewDispatcher \<lparr>
              g_Claim = Some (\<lambda>n. call_module (\<lambda>e. m_Claim md e n)),
              g_MarkDone = Some (\<lambda>i. call_module (\<lambda>e. m_MarkDone md e i)),
              g_MarkFailed = Some (\<lambda>a. call_module (\<lambda>e. m_MarkFailed md e a)),
              g_Handle = hnd,
              g_Report = Some (\<lambda>oc w. w\<lparr> ww_log := LogReport oc (ww_log w) \<rparr>),
              g_Now = Some (\<lambda>w. (ce_now (ww_env w (ww_calls w)), w\<lparr> ww_calls := ww_calls w + 1 \<rparr>)) \<rparr> p of
            Inl e \<Rightarrow> Inl (option_failure '': '' e)
          | Inr d \<Rightarrow> Inr d))"

lemma policyFrom_valid: "policyFrom cfg = Inr p \<Longrightarrow> validate p = None"
  using IntOption_positive [of cfg OptionBatchSize defaultBatchSize]
    IntOption_positive [of cfg OptionMaxAttempts defaultMaxAttempts]
    DurationOption_positive [of cfg OptionBaseBackoff defaultBaseBackoff]
    DurationOption_positive [of cfg OptionInterval defaultInterval]
  by (auto simp: policyFrom_def validate_None_iff defaultBatchSize_def defaultMaxAttempts_def
      defaultBaseBackoff_def defaultInterval_def second_def split: sum.splits)

text \<open>the worker's dispatcher is built exactly when a publisher and a logger are given and the
  four options are readable; the policy it then runs is the one read from the options, it is valid
  (a batch, at least one attempt, a positive backoff and period), and with no option at all it is
  the documented default: batches of 50, 8 attempts, one second, every two seconds.\<close>

theorem NewDispatcher_outbox_builds:
  "(case NewDispatcher_outbox md cfg hnd logger of
      Inl e \<Rightarrow> \<not> (hnd \<noteq> None \<and> logger \<and> \<not> isl (policyFrom cfg))
    | Inr d \<Rightarrow> hnd \<noteq> None \<and> logger \<and> policyFrom cfg = Inr (d_policy d) \<and> validate (d_policy d) = None)
   \<and> policyFrom (cfg\<lparr> options := [] \<rparr>)
       = Inr \<lparr> batch_size = 50, interval = 2 * second, retry = default_retry \<rparr>"
proof
  show "case NewDispatcher_outbox md cfg hnd logger of
      Inl e \<Rightarrow> \<not> (hnd \<noteq> None \<and> logger \<and> \<not> isl (policyFrom cfg))
    | Inr d \<Rightarrow> hnd \<noteq> None \<and> logger \<and> policyFrom cfg = Inr (d_policy d) \<and> validate (d_policy d) = None"
    using policyFrom_valid [of cfg]
    by (cases "policyFrom cfg") (auto simp: NewDispatcher_outbox_def)
  show "policyFrom (cfg\<lparr> options := [] \<rparr>)
       = Inr \<lparr> batch_size = 50, interval = 2 * second, retry = default_retry \<rparr>"
    by (simp add: policyFrom_def IntOption_def DurationOption_def present_def default_retry_def
        defaultBatchSize_def defaultMaxAttempts_def defaultBaseBackoff_def defaultInterval_def)
qed

text \<open>A configuration whose modules validate against the catalogue never makes \<open>New\<close> fail on the
  driver, and the connection is there whenever the configuration said SQL was needed.\<close>

lemma New_outbox_total:
  assumes "is_map m" and "map_of m Name = Some cfg" and "driver cfg \<noteq> []"
    and "module_ok outbox_Catalog Name cfg" and "RequiresSQL outbox_Catalog m \<longrightarrow> pool"
  shows "\<exists>md. New_outbox cfg pool = Inr md"
proof (cases "enabled cfg")
  case True
  then have drv: "driver cfg = driverMemory \<or> driver cfg = driverPostgres"
    using assms(3,4) by (auto simp: module_ok_def outbox_Catalog_def Let_def)
  have "pool" if "driver cfg = driverPostgres"
  proof -
    have "SQL (Requires outbox_Catalog Name driverPostgres)"
      by (simp add: Requires_def outbox_Catalog_def driverMemory_def driverPostgres_def)
    then have "RequiresSQL outbox_Catalog m"
      using requires_iff [OF assms(1)] assms(2) True that unfolding RequiresSQL_def by metis
    then show ?thesis using assms(5) by simp
  qed
  then show ?thesis using drv by (auto simp: New_outbox_def)
qed (simp add: New_outbox_def)

text \<open>A disabled module fails loudly on every operation and never changes a store.\<close>

lemma disabled_outbox_fails:
  assumes "\<not> enabled cfg"
  shows "New_outbox cfg pool = Inr disabled_outbox"
    and "m_Enqueue disabled_outbox e msg st = (Inl (Sentinel (Outbox OutboxErrDisabled)), st)"
    and "m_Claim disabled_outbox e n st = (Inl (Sentinel (Outbox OutboxErrDisabled)), st)"
  using assms by (simp_all add: New_outbox_def disabled_outbox_def)

lemma shared_driver_iff: "RequireSharedDriver drv = None \<longleftrightarrow> drv = driverPostgres"
  by (simp add: RequireSharedDriver_def SharedAcrossProcesses_def)

end
