(* ===== verification/Scheduler_Module.thy ===== *)
theory Scheduler_Module
  imports Scheduler_Electors Outbox_Module
begin

text \<open>
  The scheduler module as the composition root mounts it (internal/core/scheduler/module.go,
  catalog.go, report.go): the choice of the elector, the disabled module and the report written
  to the log.
\<close>

section \<open>The mounted module\<close>

definition sched_Name :: str where "sched_Name = ''scheduler''"
definition driverCronInproc :: str where "driverCronInproc = ''cron-inproc''"
definition driverAdvisoryLock :: str where "driverAdvisoryLock = ''advisory-lock''"

definition sched_Catalog :: module_catalog where
  "sched_Catalog = [(sched_Name, \<lparr> Default = driverCronInproc, Drivers =
     [(driverCronInproc, \<lparr> SQL = False, Cache = False, Options = [] \<rparr>),
      (driverAdvisoryLock, \<lparr> SQL = True, Cache = False, Options = [] \<rparr>)] \<rparr>)]"

text \<open>What the electors of one process work on: the tasks it runs itself, and the locks of the
  database, where it is replica \<open>es_replica\<close>.\<close>

record elect_state =
  es_running :: running_tasks
  es_shared :: lock_world
  es_replica :: nat

record election =
  el_acquire :: "elect_env \<Rightarrow> str \<Rightarrow> elect_state \<Rightarrow> (err + bool) \<times> elect_state"
  el_release :: "elect_env \<Rightarrow> str \<Rightarrow> elect_state \<Rightarrow> err option \<times> elect_state"

definition elector_for :: "module_config \<Rightarrow> bool \<Rightarrow> err + election" where
  "elector_for cfg pool =
     (if driver cfg = driverCronInproc then
        Inr \<lparr> el_acquire = (\<lambda>e t s. case in_Acquire t (es_running s) of (r, x) \<Rightarrow> (r, s\<lparr> es_running := x \<rparr>)),
              el_release = (\<lambda>e t s. case in_Release t (es_running s) of (r, x) \<Rightarrow> (r, s\<lparr> es_running := x \<rparr>)) \<rparr>
      else if driver cfg = driverAdvisoryLock then
        (if \<not> pool then Inl (Sentinel (Sched SchedErrPoolRequired))
         else Inr \<lparr> el_acquire = (\<lambda>e t s. case pg_elect_Acquire e (es_replica s) t (es_shared s) of
                      (r, x) \<Rightarrow> (r, s\<lparr> es_shared := x \<rparr>)),
                    el_release = (\<lambda>e t s. case pg_elect_Release e (es_replica s) t (es_shared s) of
                      (r, x) \<Rightarrow> (r, s\<lparr> es_shared := x \<rparr>)) \<rparr>)
      else Inl (Errorf [W (Sentinel (Sched SchedErrUnknownDriver)), Lit ('': '' @ quote_text (driver cfg))]))"

section \<open>The report\<close>

primrec sched_event_name :: "sched_event \<Rightarrow> str" where
  "sched_event_name EventSkipped = ''skipped''"
| "sched_event_name EventSucceeded = ''succeeded''"
| "sched_event_name EventFailed = ''failed''"
| "sched_event_name EventElectionFailed = ''election_failed''"
| "sched_event_name EventReleaseFailed = ''release_failed''"

primrec sched_levelOf :: "sched_event \<Rightarrow> level" where
  "sched_levelOf EventFailed = LevelError"
| "sched_levelOf EventReleaseFailed = LevelError"
| "sched_levelOf EventElectionFailed = LevelWarn"
| "sched_levelOf EventSkipped = LevelDebug"
| "sched_levelOf EventSucceeded = LevelDebug"

definition sched_LogReport :: "sched_outcome \<Rightarrow> log_line list \<Rightarrow> log_line list" where
  "sched_LogReport oc logged =
     logged @ [\<lparr> l_level = sched_levelOf (so_Event oc), l_text = ''scheduled task'',
       l_attrs = [(''task'', AString (so_Task oc)), (''event'', AString (sched_event_name (so_Event oc)))]
         @ (if 0 < so_Duration oc then [(''duration'', ADuration (so_Duration oc))] else [])
         @ (case so_Err oc of None \<Rightarrow> [] | Some e \<Rightarrow> [(''error'', AString (err_text e))]) \<rparr>]"

section \<open>The module\<close>

text \<open>The world of a process with a scheduler: the electors, the faults its calls meet, the clock,
  what the jobs work on, the log.\<close>

record 'v cron_world =
  cw_elect :: elect_state
  cw_faults :: "nat \<Rightarrow> elect_env"
  cw_calls :: nat
  cw_clock :: "nat \<Rightarrow> time"
  cw_app :: 'v
  cw_log :: "log_line list"

definition on_elect :: "(elect_env \<Rightarrow> str \<Rightarrow> elect_state \<Rightarrow> 'r \<times> elect_state) \<Rightarrow> str \<Rightarrow> 'v cron_world \<Rightarrow> 'r \<times> 'v cron_world" where
  "on_elect f t w = (case f (cw_faults w (cw_calls w)) t (cw_elect w) of
     (r, s) \<Rightarrow> (r, w\<lparr> cw_elect := s, cw_calls := cw_calls w + 1 \<rparr>))"

definition cron_now :: "'v cron_world \<Rightarrow> time \<times> 'v cron_world" where
  "cron_now w = (cw_clock w (cw_calls w), w\<lparr> cw_calls := cw_calls w + 1 \<rparr>)"

text \<open>\<open>sm_Tick\<close> is one wake-up of the loop of a task: it says whether the process was lost.\<close>

record 'v sched_module =
  sm_Run :: "'v cron_world scheduled list \<Rightarrow> ctx \<Rightarrow> err option"
  sm_Tick :: "str \<Rightarrow> ('v cron_world \<Rightarrow> job_result \<times> 'v cron_world) \<Rightarrow> 'v cron_world \<Rightarrow> bool \<times> 'v cron_world"
  sm_Acquire :: "elect_env \<Rightarrow> str \<Rightarrow> elect_state \<Rightarrow> (err + bool) \<times> elect_state"
  sm_Release :: "elect_env \<Rightarrow> str \<Rightarrow> elect_state \<Rightarrow> err option \<times> elect_state"

definition disabled_sched :: "'v sched_module" where
  "disabled_sched = \<lparr>
     sm_Run = (\<lambda>ss c. Some (Sentinel (Sched SchedErrDisabled))),
     sm_Tick = (\<lambda>t job w. (False, w)),
     sm_Acquire = (\<lambda>e t s. (Inl (Sentinel (Sched SchedErrDisabled)), s)),
     sm_Release = (\<lambda>e t s. (Some (Sentinel (Sched SchedErrDisabled)), s)) \<rparr>"

definition New_sched :: "module_config \<Rightarrow> bool \<Rightarrow> bool \<Rightarrow> err + 'v sched_module" where
  "New_sched cfg pool logger =
     (if \<not> enabled cfg then Inr disabled_sched
      else if \<not> logger then Inl (Sentinel (Sched SchedErrLoggerRequired))
      else case elector_for cfg pool of
        Inl e \<Rightarrow> Inl e
      | Inr el \<Rightarrow>
          (case NewRunner \<lparr> gs_Acquire = Some (on_elect (el_acquire el)), gs_Release = Some (on_elect (el_release el)),
                  gs_Report = Some (\<lambda>oc w. w\<lparr> cw_log := sched_LogReport oc (cw_log w) \<rparr>),
                  gs_Now = Some cron_now \<rparr> of
             Inl e \<Rightarrow> Inl (Errorf [Lit (''modules.'' @ sched_Name @ '': ''), W e])
           | Inr p \<Rightarrow> Inr \<lparr> sm_Run = Run_result, sm_Tick = RunOnce p,
                            sm_Acquire = el_acquire el, sm_Release = el_release el \<rparr>))"

lemma elector_for_None: "isl (elector_for cfg pool)
    \<longleftrightarrow> driver cfg \<noteq> driverCronInproc \<and> (driver cfg \<noteq> driverAdvisoryLock \<or> \<not> pool)"
  by (auto simp: elector_for_def driverCronInproc_def driverAdvisoryLock_def)

text \<open>The scheduler is mounted exactly when it is disabled, or has a logger and one of its two
  drivers, with a database for the advisory locks; it never starts a task it could not elect for.
  A disabled module answers every call with \<open>ErrDisabled\<close>, its election is refused, never given.\<close>

theorem New_sched_mounts:
  "(isl (New_sched cfg pool logger) \<longleftrightarrow> enabled cfg
      \<and> (\<not> logger \<or> (driver cfg \<noteq> driverCronInproc \<and> (driver cfg \<noteq> driverAdvisoryLock \<or> \<not> pool))))
   \<and> (\<exists>md. New_sched (cfg\<lparr> enabled := False \<rparr>) pool logger = Inr (md :: 'v sched_module)
        \<and> (\<forall>ss c. sm_Run md ss c = Some (Sentinel (Sched SchedErrDisabled)))
        \<and> (\<forall>e t s. sm_Acquire md e t s = (Inl (Sentinel (Sched SchedErrDisabled)), s))
        \<and> (\<forall>e t s. sm_Release md e t s = (Some (Sentinel (Sched SchedErrDisabled)), s)))"
proof
  show "isl (New_sched cfg pool logger) \<longleftrightarrow> enabled cfg
      \<and> (\<not> logger \<or> (driver cfg \<noteq> driverCronInproc \<and> (driver cfg \<noteq> driverAdvisoryLock \<or> \<not> pool)))"
    unfolding elector_for_None [symmetric]
    by (cases "elector_for cfg pool") (simp_all add: New_sched_def NewRunner_def)
qed (simp add: New_sched_def disabled_sched_def)

text \<open>What a wake-up leaves in the log under the in-process elector, panic of the job aside: a
  skipped run at the debug level, never a failure hidden below the error level.\<close>

lemma tick_reports_failure:
  assumes "sp_Acquire p = on_elect (\<lambda>e t s. case in_Acquire t (es_running s) of (r, x) \<Rightarrow> (r, s\<lparr> es_running := x \<rparr>))"
    and "sp_Release p = on_elect (\<lambda>e t s. case in_Release t (es_running s) of (r, x) \<Rightarrow> (r, s\<lparr> es_running := x \<rparr>))"
    and "sp_Report p = (\<lambda>oc w. w\<lparr> cw_log := sched_LogReport oc (cw_log w) \<rparr>)" and "sp_Now p = cron_now"
    and "t \<notin> set (es_running (cw_elect w))"
    and "RunOnce p t (\<lambda>w. (JobReturned (Some e), w)) w = (crashed, w')"
  shows "\<not> crashed \<and> (\<exists>line. cw_log w' = cw_log w @ [line] \<and> l_level line = LevelError
      \<and> (''error'', AString (err_text e)) \<in> set (l_attrs line)) \<and> es_running (cw_elect w') = es_running (cw_elect w)"
  using assms(5,6)
  by (auto simp: RunOnce_def execute_def assms(1-4) on_elect_def cron_now_def in_Acquire_def in_Release_def
      sched_LogReport_def sched_outcome_of_def filter_id_conv)

end
