(* ===== verification/Pagination.thy ===== *)
theory Pagination
  imports Go_Base64
begin

text \<open>
  Cursor pagination (internal/pkg/pagination): the opaque cursor of a position, the request with
  its bounded limit, the page cut from the rows a query returned.
\<close>

section \<open>The cursor\<close>

definition DefaultLimit :: int where "DefaultLimit = 20"
definition MaxLimit :: int where "MaxLimit = 100"

record cursor =
  cu_CreatedAt :: time
  cu_ID :: str

definition zero_cursor :: cursor where
  "zero_cursor = \<lparr> cu_CreatedAt = 0, cu_ID = [] \<rparr>"

text \<open>\<open>UnixMicro\<close> rounds an instant down to the microsecond, in an \<open>int64\<close>.\<close>

definition UnixMicro :: "time \<Rightarrow> int" where
  "UnixMicro t = wrap64 (t div 1000)"

definition Encode :: "cursor \<Rightarrow> str" where
  "Encode c = b64_encode (show_int (UnixMicro (cu_CreatedAt c)) @ CHR ''|'' # cu_ID c)"

text \<open>\<open>strconv.ParseInt(s, 10, 64)\<close>: an optional sign, digits only, in the range of an \<open>int64\<close>.\<close>

definition parse_int_error :: "str \<Rightarrow> str \<Rightarrow> err" where
  "parse_int_error s why = Opaque (''strconv.ParseInt: parsing '' @ quote_text s @ '': '' @ why)"

definition ParseInt :: "str \<Rightarrow> err + int" where
  "ParseInt s =
     (let (sign, ds) = (case s of [] \<Rightarrow> (1, []) | c # cs \<Rightarrow>
            if c = CHR ''-'' then (- 1, cs) else if c = CHR ''+'' then (1, cs) else (1, s))
      in if ds = [] then Inl (parse_int_error s ''invalid syntax'')
         else case read_digits 0 ds of
           None \<Rightarrow> Inl (parse_int_error s ''invalid syntax'')
         | Some n \<Rightarrow> if int64_range (sign * int n) then Inr (sign * int n)
                     else Inl (parse_int_error s ''value out of range''))"

definition invalid_cursor :: "part list \<Rightarrow> err" where
  "invalid_cursor ps = Errorf (W (Sentinel (Infra ErrInvalidCursor)) # ps)"

definition DecodeCursor :: "str \<Rightarrow> err + cursor" where
  "DecodeCursor encoded =
     (if encoded = [] then Inl (Sentinel (Infra ErrInvalidCursor))
      else case b64_decode encoded of
        None \<Rightarrow> Inl (invalid_cursor [Lit '': base64: '', W (Opaque ''illegal base64 data'')])
      | Some raw \<Rightarrow>
          (case cut (CHR ''|'') raw of (micros, ident, found) \<Rightarrow>
             if \<not> found \<or> ident = [] then Inl (invalid_cursor [Lit '': format''])
             else case ParseInt micros of
               Inl e \<Rightarrow> Inl (invalid_cursor [Lit '': timestamp: '', W e])
             | Inr n \<Rightarrow> Inr \<lparr> cu_CreatedAt = n * 1000, cu_ID = ident \<rparr>))"

section \<open>Requests and pages\<close>

record page_request =
  After :: cursor
  Limit :: int
  HasAfter :: bool

definition clampLimit :: "int \<Rightarrow> int" where
  "clampLimit limit = (if limit \<le> 0 then DefaultLimit else if limit > MaxLimit then MaxLimit else limit)"

definition NewRequest :: "str \<Rightarrow> int \<Rightarrow> err + page_request" where
  "NewRequest encoded limit =
     (let req = \<lparr> After = zero_cursor, Limit = clampLimit limit, HasAfter = False \<rparr> in
      if encoded = [] then Inr req
      else case DecodeCursor encoded of
        Inl e \<Rightarrow> Inl e
      | Inr c \<Rightarrow> Inr (req\<lparr> After := c, HasAfter := True \<rparr>))"

definition FetchLimit :: "page_request \<Rightarrow> int" where
  "FetchLimit r = Limit r + 1"

record 't page =
  Items :: "'t list"
  NextCursor :: str
  HasMore :: bool

text \<open>\<open>fetched[:req.Limit]\<close>; the limit of a request that \<open>NewRequest\<close> built is positive.\<close>

definition NewPage :: "'t list \<Rightarrow> page_request \<Rightarrow> ('t \<Rightarrow> cursor) \<Rightarrow> 't page" where
  "NewPage fetched req cursorOf =
     (let hasMore = int (length fetched) > Limit req;
          items = (if hasMore then take (nat (Limit req)) fetched else fetched)
      in \<lparr> Items = items,
           NextCursor = (if hasMore \<and> items \<noteq> [] then Encode (cursorOf (last items)) else []),
           HasMore = hasMore \<rparr>)"

section \<open>The cursor round trip\<close>

lemma digit_not_sign: "digit_value c \<noteq> None \<Longrightarrow> c \<noteq> CHR ''|'' \<and> c \<noteq> CHR ''-'' \<and> c \<noteq> CHR ''+''"
  by (auto simp: digit_value_def Let_def)

lemma show_int_no_bar: "CHR ''|'' \<notin> set (show_int i)"
proof -
  have "CHR ''|'' \<notin> set (show_nat n)" for n using set_show_nat [of _ n] digit_not_sign by blast
  then show ?thesis by (simp add: show_int_def)
qed

lemma ParseInt_show_int: "int64_range i \<Longrightarrow> ParseInt (show_int i) = Inr i"
proof -
  assume r: "int64_range i"
  obtain c cs where s: "show_nat (nat i) = c # cs" by (cases "show_nat (nat i)") auto
  then have "c \<noteq> CHR ''-'' \<and> c \<noteq> CHR ''+''"
    using set_show_nat [of c "nat i"] digit_not_sign [of c] by auto
  then show ?thesis
    using r s read_show_nat [of "nat i"] read_show_nat [of "nat (- i)"]
    by (auto simp: ParseInt_def show_int_def Let_def)
qed

lemma DecodeCursor_Encode:
  "cu_ID c \<noteq> [] \<Longrightarrow> DecodeCursor (Encode c) = Inr \<lparr> cu_CreatedAt = UnixMicro (cu_CreatedAt c) * 1000, cu_ID = cu_ID c \<rparr>"
  by (simp add: DecodeCursor_def Encode_def ParseInt_show_int show_int_no_bar UnixMicro_def wrap64_range)

lemma Encode_nonempty [simp]: "Encode c \<noteq> []"
  by (simp add: Encode_def)

lemma clampLimit_bounds: "1 \<le> clampLimit n \<and> clampLimit n \<le> MaxLimit"
  by (simp add: clampLimit_def DefaultLimit_def MaxLimit_def)

text \<open>a cursor survives transport: what \<open>Encode\<close> wrote \<open>DecodeCursor\<close> reads back, at the precision
  of the microsecond and whatever bytes the identifier has, the separator included; two positions
  the microsecond tells apart never share a cursor, and a page is never asked with a limit outside
  1 to 100, whatever the client sent.\<close>

theorem cursor_round_trip:
  assumes "cu_ID c \<noteq> []" and "cu_ID d \<noteq> []"
  shows "NewRequest (Encode c) n = Inr \<lparr> After = \<lparr> cu_CreatedAt = UnixMicro (cu_CreatedAt c) * 1000, cu_ID = cu_ID c \<rparr>,
           Limit = clampLimit n, HasAfter = True \<rparr>
     \<and> (Encode c = Encode d \<longleftrightarrow> UnixMicro (cu_CreatedAt c) = UnixMicro (cu_CreatedAt d) \<and> cu_ID c = cu_ID d)
     \<and> 1 \<le> clampLimit n \<and> clampLimit n \<le> 100"
proof (intro conjI)
  show "NewRequest (Encode c) n = Inr \<lparr> After = \<lparr> cu_CreatedAt = UnixMicro (cu_CreatedAt c) * 1000, cu_ID = cu_ID c \<rparr>,
           Limit = clampLimit n, HasAfter = True \<rparr>"
    using DecodeCursor_Encode [OF assms(1)] by (simp add: NewRequest_def)
  show "Encode c = Encode d \<longleftrightarrow> UnixMicro (cu_CreatedAt c) = UnixMicro (cu_CreatedAt d) \<and> cu_ID c = cu_ID d" (is "?l \<longleftrightarrow> ?r")
  proof
    assume ?l
    then show ?r using DecodeCursor_Encode [OF assms(1)] DecodeCursor_Encode [OF assms(2)] by simp
  qed (simp add: Encode_def)
qed (use clampLimit_bounds [of n] in \<open>simp_all add: MaxLimit_def\<close>)

theorem cursor_round_trip_witness:
  "NewRequest (Encode \<lparr> cu_CreatedAt = -1, cu_ID = ''a|b'' \<rparr>) 500
     = Inr \<lparr> After = \<lparr> cu_CreatedAt = -1000, cu_ID = ''a|b'' \<rparr>, Limit = 100, HasAfter = True \<rparr>"
  using cursor_round_trip [of "\<lparr> cu_CreatedAt = -1, cu_ID = ''a|b'' \<rparr>" "\<lparr> cu_CreatedAt = 0, cu_ID = ''x'' \<rparr>" 500]
  by (simp add: UnixMicro_def wrap64_def clampLimit_def MaxLimit_def)

section \<open>Walking the pages\<close>

text \<open>
  A client that follows \<open>NextCursor\<close> while there is more. \<open>fetch i\<close> is the caller's query at the
  \<open>i\<close>-th page, over rows that others insert and delete meanwhile.
\<close>

fun walk :: "nat \<Rightarrow> (nat \<Rightarrow> page_request \<Rightarrow> 'r list) \<Rightarrow> ('r \<Rightarrow> cursor) \<Rightarrow> int \<Rightarrow> nat \<Rightarrow> str \<Rightarrow> 'r page list option" where
  "walk 0 fetch cursorOf limit i token = None"
| "walk (Suc fuel) fetch cursorOf limit i token =
     (case NewRequest token limit of
        Inl e \<Rightarrow> None
      | Inr req \<Rightarrow>
          (let p = NewPage (fetch i req) req cursorOf in
           if HasMore p then map_option (Cons p) (walk fuel fetch cursorOf limit (i + 1) (NextCursor p)) else Some [p]))"

definition cursor_ok :: "cursor \<Rightarrow> bool" where
  "cursor_ok c \<longleftrightarrow> cu_ID c \<noteq> [] \<and> UnixMicro (cu_CreatedAt c) * 1000 = cu_CreatedAt c"

definition beyond :: "(cursor \<Rightarrow> cursor \<Rightarrow> bool) \<Rightarrow> page_request \<Rightarrow> cursor \<Rightarrow> bool" where
  "beyond before req c \<longleftrightarrow> (HasAfter req \<longrightarrow> before (After req) c)"

text \<open>The query the package is written for: the rows after the cursor, in order, one more than
  the page holds.\<close>

definition pages_query :: "(cursor \<Rightarrow> cursor \<Rightarrow> bool) \<Rightarrow> ('r \<Rightarrow> cursor) \<Rightarrow> (nat \<Rightarrow> 'r list) \<Rightarrow> nat \<Rightarrow> page_request \<Rightarrow> 'r list" where
  "pages_query before cursorOf rows i req =
     take (nat (FetchLimit req)) (filter (\<lambda>r. beyond before req (cursorOf r)) (rows i))"

definition strict_order :: "('a \<Rightarrow> 'a \<Rightarrow> bool) \<Rightarrow> bool" where
  "strict_order lt \<longleftrightarrow> (\<forall>a. \<not> lt a a) \<and> (\<forall>a b c. lt a b \<and> lt b c \<longrightarrow> lt a c)"

lemma sorted_distinct:
  assumes "strict_order lt" and "sorted_wrt (\<lambda>a b. lt (f a) (f b)) xs"
  shows "distinct xs"
proof -
  have "\<not> lt a a" for a using assms(1) by (simp add: strict_order_def)
  then show ?thesis using assms(2) by (induction xs) auto
qed

lemma NewRequest_next:
  "cursor_ok c \<Longrightarrow> NewRequest (Encode c) limit = Inr \<lparr> After = c, Limit = clampLimit limit, HasAfter = True \<rparr>"
  by (simp add: NewRequest_def DecodeCursor_Encode cursor_ok_def)

lemma NewPage_query:
  fixes cursorOf :: "'r \<Rightarrow> cursor"
  assumes "1 \<le> Limit req" and "L = filter (\<lambda>r. beyond before req (cursorOf r)) (rows i)"
  shows "NewPage (pages_query before cursorOf rows i req) req cursorOf =
     (if length L \<le> nat (Limit req) then \<lparr> Items = L, NextCursor = [], HasMore = False \<rparr>
      else \<lparr> Items = take (nat (Limit req)) L, NextCursor = Encode (cursorOf (L ! (nat (Limit req) - 1))), HasMore = True \<rparr>)"
proof -
  have "nat (FetchLimit req) = Suc (nat (Limit req))" using assms(1) by (simp add: FetchLimit_def nat_add_distrib)
  then show ?thesis
    using assms by (auto simp: NewPage_def Let_def pages_query_def last_conv_nth min_def)
qed

lemma walk_pages:
  fixes cursorOf :: "'r \<Rightarrow> cursor" and rows :: "nat \<Rightarrow> 'r list"
  assumes order: "strict_order before"
    and sorted: "\<And>i. sorted_wrt (\<lambda>a b. before (cursorOf a) (cursorOf b)) (rows i)"
    and finite: "finite U" "\<And>i. set (rows i) \<subseteq> U" and ok: "\<And>r. r \<in> U \<Longrightarrow> cursor_ok (cursorOf r)"
    and req: "NewRequest token limit = Inr req"
    and fuel: "card {r \<in> U. beyond before req (cursorOf r)} < fuel"
  shows "\<exists>ps. walk fuel (pages_query before cursorOf rows) cursorOf limit i token = Some ps
     \<and> sorted_wrt (\<lambda>a b. before (cursorOf a) (cursorOf b)) (concat (map Items ps))
     \<and> (\<forall>r \<in> set (concat (map Items ps)). beyond before req (cursorOf r))
     \<and> {r. beyond before req (cursorOf r) \<and> (\<forall>j. r \<in> set (rows j))} \<subseteq> set (concat (map Items ps))"
  using req fuel
proof (induction fuel arbitrary: i token req)
  case (Suc fuel)
  define L where "L = filter (\<lambda>r. beyond before req (cursorOf r)) (rows i)"
  have lim: "Limit req = clampLimit limit" "1 \<le> Limit req"
    using Suc.prems(1) clampLimit_bounds [of limit] by (auto simp: NewRequest_def Let_def split: if_splits sum.splits)
  have sL: "sorted_wrt (\<lambda>a b. before (cursorOf a) (cursorOf b)) L"
    unfolding L_def using sorted by (rule sorted_wrt_filter)
  have setL: "set L = {r \<in> set (rows i). beyond before req (cursorOf r)}" by (auto simp: L_def)
  note page = NewPage_query [where cursorOf = cursorOf and rows = rows and i = i, OF lim(2) L_def]
  show ?case
  proof (cases "length L \<le> nat (Limit req)")
    case True
    then show ?thesis using Suc.prems(1) page sL setL by (auto simp: Let_def)
  next
    case False
    define n where "n = nat (Limit req)"
    have n: "0 < n" "n < length L" using False lim(2) by (auto simp: n_def)
    define l where "l = L ! (n - 1)"
    have l: "l \<in> set L" using n by (simp add: l_def)
    then have lU: "l \<in> U" "beyond before req (cursorOf l)" using finite(2) setL by auto
    define nreq where "nreq = \<lparr> After = cursorOf l, Limit = clampLimit limit, HasAfter = True \<rparr>"
    have nr: "NewRequest (Encode (cursorOf l)) limit = Inr nreq"
      unfolding nreq_def by (rule NewRequest_next [OF ok [OF lU(1)]])
    have after_l: "beyond before nreq (cursorOf r) \<longleftrightarrow> before (cursorOf l) (cursorOf r)" for r
      by (simp add: nreq_def beyond_def)
    have more: "beyond before req (cursorOf r)" if "before (cursorOf l) (cursorOf r)" for r
      using that lU(2) order unfolding beyond_def strict_order_def by blast
    have "{r \<in> U. beyond before nreq (cursorOf r)} \<subset> {r \<in> U. beyond before req (cursorOf r)}"
    proof
      show "{r \<in> U. beyond before nreq (cursorOf r)} \<subseteq> {r \<in> U. beyond before req (cursorOf r)}"
        using more by (auto simp: after_l)
      have "l \<notin> {r \<in> U. beyond before nreq (cursorOf r)}" using order unfolding strict_order_def after_l by blast
      then show "{r \<in> U. beyond before nreq (cursorOf r)} \<noteq> {r \<in> U. beyond before req (cursorOf r)}"
        using lU by blast
    qed
    then have "card {r \<in> U. beyond before nreq (cursorOf r)} < card {r \<in> U. beyond before req (cursorOf r)}"
      by (rule psubset_card_mono [rotated]) (simp add: finite(1))
    then have "card {r \<in> U. beyond before nreq (cursorOf r)} < fuel"
      using Suc.prems(2) by simp
    from Suc.IH [OF nr this, of "Suc i"] obtain ps where
      ps: "walk fuel (pages_query before cursorOf rows) cursorOf limit (Suc i) (Encode (cursorOf l)) = Some ps"
        "sorted_wrt (\<lambda>a b. before (cursorOf a) (cursorOf b)) (concat (map Items ps))"
        "\<And>r. r \<in> set (concat (map Items ps)) \<Longrightarrow> before (cursorOf l) (cursorOf r)"
        "\<And>r. before (cursorOf l) (cursorOf r) \<Longrightarrow> (\<forall>j. r \<in> set (rows j)) \<Longrightarrow> r \<in> set (concat (map Items ps))"
      unfolding after_l by blast
    have w: "walk (Suc fuel) (pages_query before cursorOf rows) cursorOf limit i token
        = Some (\<lparr> Items = take n L, NextCursor = Encode (cursorOf l), HasMore = True \<rparr> # ps)"
      using Suc.prems(1) page False ps(1) by (simp add: n_def [symmetric] l_def)
    have take_le: "r = l \<or> before (cursorOf r) (cursorOf l)" if "r \<in> set (take n L)" for r
    proof -
      obtain k where k: "k < n" "r = L ! k" using \<open>r \<in> set (take n L)\<close> by (auto simp: in_set_conv_nth)
      then have "k = n - 1 \<or> k < n - 1" by linarith
      moreover have "n - 1 < length L" using n by linarith
      ultimately show ?thesis using sorted_wrt_nth_less [OF sL, of k "n - 1"] k by (auto simp: l_def)
    qed
    have rest: "r \<in> set (take n L) \<or> before (cursorOf l) (cursorOf r)" if "r \<in> set L" for r
    proof -
      obtain k where k: "k < length L" "r = L ! k" using \<open>r \<in> set L\<close> by (auto simp: in_set_conv_nth)
      show ?thesis
      proof (cases "k < n")
        case True
        then have "take n L ! k = r" "k < length (take n L)" using k n by auto
        then show ?thesis by (metis nth_mem)
      next
        case False
        then have "n - 1 < k" using n by linarith
        then show ?thesis using sorted_wrt_nth_less [OF sL, of "n - 1" k] k by (simp add: l_def)
      qed
    qed
    let ?later = "concat (map Items ps)"
    have all: "concat (map Items (\<lparr> Items = take n L, NextCursor = Encode (cursorOf l), HasMore = True \<rparr> # ps)) = take n L @ ?later"
      by simp
    have "before (cursorOf a) (cursorOf b)" if "a \<in> set (take n L)" "b \<in> set ?later" for a b
      using take_le [OF that(1)] ps(3) [OF that(2)] order unfolding strict_order_def by blast
    then have "sorted_wrt (\<lambda>a b. before (cursorOf a) (cursorOf b)) (take n L @ ?later)"
      using ps(2) sorted_wrt_take [OF sL] by (simp add: sorted_wrt_append)
    moreover have "beyond before req (cursorOf r)" if "r \<in> set (take n L @ ?later)" for r
      using that more ps(3) setL by (auto dest: in_set_takeD)
    moreover have "r \<in> set (take n L @ ?later)" if "beyond before req (cursorOf r)" "\<forall>j. r \<in> set (rows j)" for r
      using rest [of r] ps(4) [of r] that setL by auto
    ultimately show ?thesis unfolding w all [symmetric] by blast
  qed
qed simp

declare walk.simps [simp del]



end
