(* ===== verification/Result.thy ===== *)
theory Result
  imports Go_Prelude
begin

text \<open>
  The two foundations of the business core (internal/pkg/result, internal/pkg/fp): \<open>Result\<close>, a
  success or an error, and the operations on options and slices. The functions they are given
  may have effects, so each takes and returns the world they act on: how often and in which order
  a combinator calls them is part of what it does.
\<close>

section \<open>Result\<close>

text \<open>A Go result whose \<open>ok\<close> is false is \<open>Err\<close> of its error field, so the zero value is the failure
  with the zero error; \<open>Get\<close> shows the zero value of the field that is not set.\<close>

datatype ('t, 'e) result = Ok 't | Err 'e

type_synonym ('w, 'a, 'b) effect = "'a \<Rightarrow> 'w \<Rightarrow> 'b \<times> 'w"

definition pure :: "('a \<Rightarrow> 'b) \<Rightarrow> ('w, 'a, 'b) effect" where
  "pure f x w = (f x, w)"

primrec IsOk :: "('t, 'e) result \<Rightarrow> bool" where
  "IsOk (Ok v) = True" | "IsOk (Err e) = False"

primrec IsErr :: "('t, 'e) result \<Rightarrow> bool" where
  "IsErr (Ok v) = False" | "IsErr (Err e) = True"

primrec Get_result :: "'t \<Rightarrow> 'e \<Rightarrow> ('t, 'e) result \<Rightarrow> 't \<times> 'e \<times> bool" where
  "Get_result zt ze (Ok v) = (v, ze, True)"
| "Get_result zt ze (Err e) = (zt, e, False)"

primrec ValueOr :: "('t, 'e) result \<Rightarrow> 't \<Rightarrow> 't" where
  "ValueOr (Ok v) fallback = v" | "ValueOr (Err e) fallback = fallback"

primrec Map :: "('t, 'e) result \<Rightarrow> ('w, 't, 'u) effect \<Rightarrow> 'w \<Rightarrow> ('u, 'e) result \<times> 'w" where
  "Map (Ok v) f w = (case f v w of (u, w') \<Rightarrow> (Ok u, w'))"
| "Map (Err e) f w = (Err e, w)"

primrec MapErr :: "('t, 'e) result \<Rightarrow> ('w, 'e, 'f) effect \<Rightarrow> 'w \<Rightarrow> ('t, 'f) result \<times> 'w" where
  "MapErr (Ok v) f w = (Ok v, w)"
| "MapErr (Err e) f w = (case f e w of (x, w') \<Rightarrow> (Err x, w'))"

primrec FlatMap :: "('t, 'e) result \<Rightarrow> ('w, 't, ('u, 'e) result) effect \<Rightarrow> 'w \<Rightarrow> ('u, 'e) result \<times> 'w" where
  "FlatMap (Ok v) f w = f v w"
| "FlatMap (Err e) f w = (Err e, w)"

primrec Fold :: "('t, 'e) result \<Rightarrow> ('w, 't, 'r) effect \<Rightarrow> ('w, 'e, 'r) effect \<Rightarrow> 'w \<Rightarrow> 'r \<times> 'w" where
  "Fold (Ok v) onOk onErr w = onOk v w"
| "Fold (Err e) onOk onErr w = onErr e w"

fun Chain :: "('t, 'e) result \<Rightarrow> ('w, 't, ('t, 'e) result) effect list \<Rightarrow> 'w \<Rightarrow> ('t, 'e) result \<times> 'w" where
  "Chain acc [] w = (acc, w)"
| "Chain (Err e) (step # steps) w = (Err e, w)"
| "Chain (Ok v) (step # steps) w = (case step v w of (r, w') \<Rightarrow> Chain r steps w')"

primrec Tap :: "('t, 'e) result \<Rightarrow> ('t \<Rightarrow> 'w \<Rightarrow> 'w) \<Rightarrow> 'w \<Rightarrow> ('t, 'e) result \<times> 'w" where
  "Tap (Ok v) f w = (Ok v, f v w)" | "Tap (Err e) f w = (Err e, w)"

primrec TapErr :: "('t, 'e) result \<Rightarrow> ('e \<Rightarrow> 'w \<Rightarrow> 'w) \<Rightarrow> 'w \<Rightarrow> ('t, 'e) result \<times> 'w" where
  "TapErr (Ok v) f w = (Ok v, w)" | "TapErr (Err e) f w = (Err e, f e w)"

primrec OrElse :: "('t, 'e) result \<Rightarrow> ('w, 'e, ('t, 'e) result) effect \<Rightarrow> 'w \<Rightarrow> ('t, 'e) result \<times> 'w" where
  "OrElse (Ok v) f w = (Ok v, w)" | "OrElse (Err e) f w = f e w"

text \<open>The loops of \<open>Collect\<close> and \<open>Traverse\<close>, with the values gathered so far.\<close>

fun collect_loop :: "'t list \<Rightarrow> ('t, 'e) result list \<Rightarrow> ('t list, 'e) result" where
  "collect_loop values [] = Ok values"
| "collect_loop values (Err e # rs) = Err e"
| "collect_loop values (Ok v # rs) = collect_loop (values @ [v]) rs"

definition Collect_results :: "('t, 'e) result list \<Rightarrow> ('t list, 'e) result" where
  "Collect_results rs = collect_loop [] rs"

fun traverse_loop :: "'u list \<Rightarrow> 't list \<Rightarrow> ('w, 't, ('u, 'e) result) effect \<Rightarrow> 'w \<Rightarrow> ('u list, 'e) result \<times> 'w" where
  "traverse_loop values [] f w = (Ok values, w)"
| "traverse_loop values (x # xs) f w =
     (case f x w of
        (Err e, w') \<Rightarrow> (Err e, w')
      | (Ok v, w') \<Rightarrow> traverse_loop (values @ [v]) xs f w')"

definition Traverse :: "'t list \<Rightarrow> ('w, 't, ('u, 'e) result) effect \<Rightarrow> 'w \<Rightarrow> ('u list, 'e) result \<times> 'w" where
  "Traverse items f w = traverse_loop [] items f w"

section \<open>Options and slices\<close>

type_synonym 't fp_option = "'t option"

primrec IsSome :: "'t fp_option \<Rightarrow> bool" where
  "IsSome None = False" | "IsSome (Some v) = True"

primrec IsNone :: "'t fp_option \<Rightarrow> bool" where
  "IsNone None = True" | "IsNone (Some v) = False"

primrec Get_option :: "'t \<Rightarrow> 't fp_option \<Rightarrow> 't \<times> bool" where
  "Get_option zt None = (zt, False)" | "Get_option zt (Some v) = (v, True)"

primrec ValueOr_option :: "'t fp_option \<Rightarrow> 't \<Rightarrow> 't" where
  "ValueOr_option None fallback = fallback" | "ValueOr_option (Some v) fallback = v"

primrec fp_MapOption :: "'t fp_option \<Rightarrow> ('w, 't, 'u) effect \<Rightarrow> 'w \<Rightarrow> 'u fp_option \<times> 'w" where
  "fp_MapOption None f w = (None, w)"
| "fp_MapOption (Some v) f w = (case f v w of (u, w') \<Rightarrow> (Some u, w'))"

primrec FlatMapOption :: "'t fp_option \<Rightarrow> ('w, 't, 'u fp_option) effect \<Rightarrow> 'w \<Rightarrow> 'u fp_option \<times> 'w" where
  "FlatMapOption None f w = (None, w)" | "FlatMapOption (Some v) f w = f v w"

primrec FoldOption :: "'t fp_option \<Rightarrow> ('w, 't, 'r) effect \<Rightarrow> ('w \<Rightarrow> 'r \<times> 'w) \<Rightarrow> 'w \<Rightarrow> 'r \<times> 'w" where
  "FoldOption None onSome onNone w = onNone w" | "FoldOption (Some v) onSome onNone w = onSome v w"

text \<open>A pointer is an address in a heap, or nil.\<close>

definition FromPointer :: "('a \<Rightarrow> 't) \<Rightarrow> 'a option \<Rightarrow> 't fp_option" where
  "FromPointer heap p = (case p of None \<Rightarrow> None | Some a \<Rightarrow> Some (heap a))"

definition Identity :: "'t \<Rightarrow> 't" where "Identity v = v"

definition Pipe2 :: "('w, 'a, 'b) effect \<Rightarrow> ('w, 'b, 'c) effect \<Rightarrow> ('w, 'a, 'c) effect" where
  "Pipe2 f g a w = (case f a w of (b, w1) \<Rightarrow> g b w1)"

definition Pipe3 :: "('w, 'a, 'b) effect \<Rightarrow> ('w, 'b, 'c) effect \<Rightarrow> ('w, 'c, 'd) effect \<Rightarrow> ('w, 'a, 'd) effect" where
  "Pipe3 f g h a w = (case f a w of (b, w1) \<Rightarrow> case g b w1 of (c, w2) \<Rightarrow> h c w2)"

fun fp_Map :: "'t list \<Rightarrow> ('w, 't, 'u) effect \<Rightarrow> 'w \<Rightarrow> 'u list \<times> 'w" where
  "fp_Map [] f w = ([], w)"
| "fp_Map (x # xs) f w = (case f x w of (u, w1) \<Rightarrow> case fp_Map xs f w1 of (us, w2) \<Rightarrow> (u # us, w2))"

fun fp_Filter :: "'t list \<Rightarrow> ('w, 't, bool) effect \<Rightarrow> 'w \<Rightarrow> 't list \<times> 'w" where
  "fp_Filter [] keep w = ([], w)"
| "fp_Filter (x # xs) keep w =
     (case keep x w of (b, w1) \<Rightarrow> case fp_Filter xs keep w1 of (ys, w2) \<Rightarrow> (if b then x # ys else ys, w2))"

fun Reduce :: "'t list \<Rightarrow> 'a \<Rightarrow> ('w, 'a \<times> 't, 'a) effect \<Rightarrow> 'w \<Rightarrow> 'a \<times> 'w" where
  "Reduce [] acc f w = (acc, w)"
| "Reduce (x # xs) acc f w = (case f (acc, x) w of (a, w1) \<Rightarrow> Reduce xs a f w1)"

fun Find :: "'t list \<Rightarrow> ('w, 't, bool) effect \<Rightarrow> 'w \<Rightarrow> 't fp_option \<times> 'w" where
  "Find [] match w = (None, w)"
| "Find (x # xs) match w = (case match x w of (b, w1) \<Rightarrow> if b then (Some x, w1) else Find xs match w1)"

section \<open>What they compute\<close>

text \<open>On functions without effects these are the operations of HOL.\<close>

lemma collect_loop_values: "collect_loop vs rs =
    (case collect_loop [] rs of Ok us \<Rightarrow> Ok (vs @ us) | Err e \<Rightarrow> Err e)"
proof (induction rs arbitrary: vs)
  case (Cons r rs)
  show ?case
  proof (cases r)
    case (Ok v)
    then show ?thesis
      using Cons.IH [of "vs @ [v]"] Cons.IH [of "[v]"] by (cases "collect_loop [] rs") simp_all
  qed simp
qed simp

lemma slices_pure:
  "fp_Map xs (pure f) w = (map f xs, w)"
  "fp_Filter xs (pure p) w = (filter p xs, w)"
  "Find xs (pure p) w = (List.find p xs, w)"
  "Reduce xs a (pure g) w = (foldl (\<lambda>a x. g (a, x)) a xs, w)"
  by (induction xs arbitrary: a) (simp_all add: pure_def)

lemma Chain_append: "Chain r (xs @ ys) w = (case Chain r xs w of (r', w') \<Rightarrow> Chain r' ys w')"
proof (induction r xs w rule: Chain.induct)
  case (2 e s ss w)
  then show ?case by (cases ys) auto
qed (auto split: prod.splits)

lemma Chain_Err [simp]: "Chain (Err e) steps w = (Err e, w)"
  by (cases steps) auto


lemma traverse_loop_values: "traverse_loop vs xs f w =
    (case traverse_loop [] xs f w of (Ok us, w') \<Rightarrow> (Ok (vs @ us), w') | (Err e, w') \<Rightarrow> (Err e, w'))"
proof (induction xs arbitrary: vs w)
  case (Cons x xs)
  obtain r w1 where f: "f x w = (r, w1)" by (cases "f x w")
  show ?case
  proof (cases r)
    case (Ok v)
    obtain r2 w2 where "traverse_loop [] xs f w1 = (r2, w2)" by (cases "traverse_loop [] xs f w1")
    then show ?thesis
      using f Ok Cons.IH [of "vs @ [v]" w1] Cons.IH [of "[v]" w1] by (cases r2) simp_all
  qed (simp add: f)
qed simp

lemma Collect_results_simps [simp]:
  "Collect_results [] = Ok []" "Collect_results (Err e # rs) = Err e"
  "Collect_results (Ok v # rs) = (case Collect_results rs of Ok vs \<Rightarrow> Ok (v # vs) | Err e \<Rightarrow> Err e)"
  using collect_loop_values [of "[v]" rs] by (simp_all add: Collect_results_def split: result.split)

lemma Traverse_simps [simp]:
  "Traverse [] f w = (Ok [], w)"
  "Traverse (x # xs) f w = (case f x w of (Err e, w1) \<Rightarrow> (Err e, w1)
     | (Ok v, w1) \<Rightarrow> (case Traverse xs f w1 of (Ok vs, w2) \<Rightarrow> (Ok (v # vs), w2) | (Err e, w2) \<Rightarrow> (Err e, w2)))"
proof -
  obtain r w1 where "f x w = (r, w1)" by (cases "f x w")
  then show "Traverse (x # xs) f w = (case f x w of (Err e, w1) \<Rightarrow> (Err e, w1)
     | (Ok v, w1) \<Rightarrow> (case Traverse xs f w1 of (Ok vs, w2) \<Rightarrow> (Ok (v # vs), w2) | (Err e, w2) \<Rightarrow> (Err e, w2)))"
    by (cases r) (simp_all add: Traverse_def traverse_loop_values [of "[_]"] split: prod.split result.split)
qed (simp add: Traverse_def)

lemma Collect_results_Ok: "Collect_results rs = Ok vs \<longleftrightarrow> rs = map Ok vs"
proof (induction rs arbitrary: vs)
  case (Cons r rs)
  show ?case
  proof (cases r)
    case (Ok v)
    have "Collect_results (r # rs) = Ok vs \<longleftrightarrow> (\<exists>us. vs = v # us \<and> Collect_results rs = Ok us)"
      using Ok by (cases "Collect_results rs") auto
    then show ?thesis unfolding Cons.IH by (simp add: Ok Cons_eq_map_conv)
  qed auto
qed auto

lemma Collect_results_Err: "Collect_results rs = Err e \<longleftrightarrow> (\<exists>vs rest. rs = map Ok vs @ Err e # rest)"
proof (induction rs)
  case (Cons r rs)
  show ?case
  proof (cases r)
    case (Ok v)
    have "Collect_results (r # rs) = Err e \<longleftrightarrow> Collect_results rs = Err e"
      using Ok by (cases "Collect_results rs") simp_all
    also have "\<dots> \<longleftrightarrow> (\<exists>vs rest. r # rs = map Ok vs @ Err e # rest)"
      unfolding Cons.IH Ok by (auto simp: Cons_eq_append_conv map_eq_Cons_conv Cons_eq_map_conv)
    finally show ?thesis .
  next
    case (Err x)
    then show ?thesis by (auto simp: Cons_eq_append_conv Cons_eq_map_conv)
  qed
qed simp

text \<open>the first error stops everything: of a sequence of steps, as of a traversal, what follows
  a failure is not run, has no effect and cannot change the error; what precedes it runs in order,
  once; \<open>Collect\<close> gives the values in order when all succeeded and the first error otherwise, and
  \<open>Traverse\<close> is \<open>Collect\<close> of \<open>Map\<close> on functions without effects.\<close>

theorem first_error_stops:
  "Chain r (xs @ ys) w = (case Chain r xs w of (Ok v, w1) \<Rightarrow> Chain (Ok v) ys w1 | (Err e, w1) \<Rightarrow> (Err e, w1))
   \<and> Traverse (as @ bs) f w =
       (case Traverse as f w of (Err e, w1) \<Rightarrow> (Err e, w1)
        | (Ok us, w1) \<Rightarrow> (case Traverse bs f w1 of (Ok vs, w2) \<Rightarrow> (Ok (us @ vs), w2) | (Err e, w2) \<Rightarrow> (Err e, w2)))
   \<and> Traverse as (pure g) w = (Collect_results (fst (fp_Map as (pure g) w)), w)
   \<and> (Collect_results rs = Ok us \<longleftrightarrow> rs = map Ok us)
   \<and> (Collect_results rs = Err e \<longleftrightarrow> (\<exists>vs rest. rs = map Ok vs @ Err e # rest))"
proof (intro conjI)
  show "Chain r (xs @ ys) w = (case Chain r xs w of (Ok v, w1) \<Rightarrow> Chain (Ok v) ys w1 | (Err e, w1) \<Rightarrow> (Err e, w1))"
    by (auto simp: Chain_append split: prod.split result.split)
  show "Traverse (as @ bs) f w =
       (case Traverse as f w of (Err e, w1) \<Rightarrow> (Err e, w1)
        | (Ok us, w1) \<Rightarrow> (case Traverse bs f w1 of (Ok vs, w2) \<Rightarrow> (Ok (us @ vs), w2) | (Err e, w2) \<Rightarrow> (Err e, w2)))"
    by (induction as arbitrary: w) (auto split: prod.splits result.splits)
  show "Traverse as (pure g) w = (Collect_results (fst (fp_Map as (pure g) w)), w)"
    unfolding slices_pure by (induction as) (auto simp: pure_def split: result.splits)
qed (rule Collect_results_Ok Collect_results_Err)+

text \<open>The laws of a monad, for functions with effects too.\<close>

lemma FlatMap_laws:
  "FlatMap (Ok v) f w = f v w"
  "FlatMap r (pure Ok) w = (r, w)"
  "(case FlatMap r f w of (r1, w1) \<Rightarrow> FlatMap r1 g w1)
     = FlatMap r (\<lambda>v w. case f v w of (r1, w1) \<Rightarrow> FlatMap r1 g w1) w"
  by (cases r; simp add: pure_def)+

end
