(* ===== verification/Database.thy ===== *)
theory Database
  imports Result Outbox_Postgres
begin

text \<open>
  The unit of work (internal/infrastructure/database/database.go): the context that carries a
  transaction and a tenant, the querier an adapter finds in it, and \<open>RunInTx\<close>.
\<close>

section \<open>The context and the connection\<close>

text \<open>The two values the package puts in a context.\<close>

record db_ctx =
  dc_tx :: bool        \<comment> \<open>\<open>txKey\<close>: the transaction of the world is in the context\<close>
  dc_tenant :: str     \<comment> \<open>\<open>tenantKey\<close>, or empty\<close>

definition background :: db_ctx where
  "background = \<lparr> dc_tx = False, dc_tenant = [] \<rparr>"

definition WithTenant :: "db_ctx \<Rightarrow> str \<Rightarrow> db_ctx" where
  "WithTenant ctx t = ctx\<lparr> dc_tenant := t \<rparr>"

definition TenantFrom :: "db_ctx \<Rightarrow> str" where
  "TenantFrom ctx = dc_tenant ctx"

definition InTx :: "db_ctx \<Rightarrow> bool" where
  "InTx ctx = dc_tx ctx"

text \<open>
  What the package uses of PostgreSQL and its driver: a transaction works on a copy of the
  committed state; a statement that fails in it aborts it, after which every statement fails and
  a commit rolls back; a commit whose answer is lost may have taken place. \<open>'d\<close> is the data of
  the database, \<open>'x\<close> what else the program acts on.
\<close>

record 'd tx_state =
  tx_data :: 'd
  tx_tenant :: str     \<comment> \<open>\<open>app.current_tenant\<close>, local to the transaction\<close>
  tx_aborted :: bool

record ('d, 'x) db_world =
  dw_committed :: 'd
  dw_tx :: "'d tx_state option"
  dw_rest :: 'x

record tx_faults =
  tf_begin :: "err option"
  tf_tenant :: "err option"
  tf_commit :: "(err \<times> bool) option"   \<comment> \<open>and whether the commit took place all the same\<close>

definition no_tx_fault :: tx_faults where
  "no_tx_fault = \<lparr> tf_begin = None, tf_tenant = None, tf_commit = None \<rparr>"

definition tx_closed :: err where "tx_closed = Opaque ''tx is closed''"
definition tx_is_aborted :: err where "tx_is_aborted = Opaque ''current transaction is aborted''"
definition commit_rolled_back :: err where "commit_rolled_back = Opaque ''commit unexpectedly resulted in rollback''"

definition begin_tx :: "('d, 'x) db_world \<Rightarrow> ('d, 'x) db_world" where
  "begin_tx w = w\<lparr> dw_tx := Some \<lparr> tx_data = dw_committed w, tx_tenant = [], tx_aborted = False \<rparr> \<rparr>"

definition rollback :: "('d, 'x) db_world \<Rightarrow> ('d, 'x) db_world" where
  "rollback w = w\<lparr> dw_tx := None \<rparr>"

definition commit :: "(err \<times> bool) option \<Rightarrow> ('d, 'x) db_world \<Rightarrow> err option \<times> ('d, 'x) db_world" where
  "commit fault w =
     (case dw_tx w of
        None \<Rightarrow> (Some tx_closed, w)
      | Some t \<Rightarrow>
          (case fault of
             Some (e, landed) \<Rightarrow>
               (Some e, w\<lparr> dw_tx := None,
                  dw_committed := (if landed \<and> \<not> tx_aborted t then tx_data t else dw_committed w) \<rparr>)
           | None \<Rightarrow>
               if tx_aborted t then (Some commit_rolled_back, w\<lparr> dw_tx := None \<rparr>)
               else (None, w\<lparr> dw_tx := None, dw_committed := tx_data t \<rparr>)))"

definition set_tenant :: "str \<Rightarrow> ('d, 'x) db_world \<Rightarrow> ('d, 'x) db_world" where
  "set_tenant t w = w\<lparr> dw_tx := map_option (\<lambda>s. s\<lparr> tx_tenant := t \<rparr>) (dw_tx w) \<rparr>"

text \<open>A statement on the querier of the context: the transaction if it carries one, else the pool,
  where a statement that fails changes nothing.\<close>

definition QuerierFrom :: "db_ctx \<Rightarrow> ('d \<Rightarrow> (err + 'r) \<times> 'd) \<Rightarrow> ('d, 'x) db_world \<Rightarrow> (err + 'r) \<times> ('d, 'x) db_world" where
  "QuerierFrom ctx stmt w =
     (if InTx ctx then
        (case dw_tx w of
           None \<Rightarrow> (Inl tx_closed, w)
         | Some t \<Rightarrow>
             if tx_aborted t then (Inl tx_is_aborted, w)
             else (case stmt (tx_data t) of
                (Inl e, d) \<Rightarrow> (Inl e, w\<lparr> dw_tx := Some (t\<lparr> tx_aborted := True \<rparr>) \<rparr>)
              | (Inr r, d) \<Rightarrow> (Inr r, w\<lparr> dw_tx := Some (t\<lparr> tx_data := d \<rparr>) \<rparr>)))
      else (case stmt (dw_committed w) of
          (Inl e, d) \<Rightarrow> (Inl e, w)
        | (Inr r, d) \<Rightarrow> (Inr r, w\<lparr> dw_committed := d \<rparr>)))"

section \<open>The unit of work\<close>

datatype 'a returned = Normal 'a | Raised

type_synonym ('t, 'e, 'd, 'x) unit_fn = "db_ctx \<Rightarrow> ('d, 'x) db_world \<Rightarrow> ('t, 'e) result returned \<times> ('d, 'x) db_world"

text \<open>\<open>z\<close> is the zero value of the error type, which a failure of the database itself is reduced
  to. A panic of the function passes through, after the deferred rollback.\<close>

definition runWithRollback :: "'e \<Rightarrow> tx_faults \<Rightarrow> ('t, 'e, 'd, 'x) unit_fn \<Rightarrow> ('t, 'e, 'd, 'x) unit_fn" where
  "runWithRollback z io fn ctx w =
     (let txCtx = ctx\<lparr> dc_tx := True \<rparr>; tenant = TenantFrom ctx in
      if tenant \<noteq> [] \<and> tf_tenant io \<noteq> None then (Normal (Err z), rollback w)
      else (case fn txCtx (if tenant \<noteq> [] then set_tenant tenant w else w) of
          (Raised, w2) \<Rightarrow> (Raised, rollback w2)
        | (Normal (Err e), w2) \<Rightarrow> (Normal (Err e), rollback w2)
        | (Normal (Ok v), w2) \<Rightarrow>
            (case commit (tf_commit io) w2 of
               (Some e, w3) \<Rightarrow> (Normal (Err z), rollback w3)
             | (None, w3) \<Rightarrow> (Normal (Ok v), w3))))"

definition RunInTx :: "'e \<Rightarrow> tx_faults \<Rightarrow> ('t, 'e, 'd, 'x) unit_fn \<Rightarrow> ('t, 'e, 'd, 'x) unit_fn" where
  "RunInTx z io fn ctx w =
     (if InTx ctx then fn ctx w
      else (case tf_begin io of
          Some e \<Rightarrow> (Normal (Err z), w)
        | None \<Rightarrow> runWithRollback z io fn ctx (begin_tx w)))"

section \<open>Atomicity\<close>

text \<open>A function that goes through the querier of the context it is given, as every adapter does:
  inside a transaction it changes that transaction only, neither closes nor revives it, and keeps
  its tenant.\<close>

definition through_querier :: "('t, 'e, 'd, 'x) unit_fn \<Rightarrow> bool" where
  "through_querier fn \<longleftrightarrow> (\<forall>c w t. InTx c \<and> dw_tx w = Some t \<longrightarrow>
     dw_committed (snd (fn c w)) = dw_committed w
     \<and> (\<exists>t'. dw_tx (snd (fn c w)) = Some t' \<and> tx_tenant t' = tx_tenant t \<and> (tx_aborted t \<longrightarrow> tx_aborted t')))"

definition after_stmt ::
    "(db_ctx \<Rightarrow> 'd \<Rightarrow> (err + 'r) \<times> 'd) \<Rightarrow> (err + 'r \<Rightarrow> ('t, 'e, 'd, 'x) unit_fn) \<Rightarrow> ('t, 'e, 'd, 'x) unit_fn" where
  "after_stmt stmt k c w = (case QuerierFrom c (stmt c) w of (r, w1) \<Rightarrow> k r c w1)"

lemma QuerierFrom_in_tx:
  assumes "InTx c" and "dw_tx w = Some t"
  shows "dw_committed (snd (QuerierFrom c stmt w)) = dw_committed w
     \<and> (\<exists>t'. dw_tx (snd (QuerierFrom c stmt w)) = Some t' \<and> tx_tenant t' = tx_tenant t \<and> (tx_aborted t \<longrightarrow> tx_aborted t'))"
  using assms by (auto simp: QuerierFrom_def split: prod.splits sum.splits)

text \<open>Everything built from statements, and nested units of work, are such functions.\<close>

lemma through_querier_stop: "through_querier (\<lambda>c w. (r, w))"
  by (simp add: through_querier_def)

lemma through_querierD:
  "through_querier fn \<Longrightarrow> InTx c \<Longrightarrow> dw_tx w = Some t \<Longrightarrow> dw_committed (snd (fn c w)) = dw_committed w
     \<and> (\<exists>t'. dw_tx (snd (fn c w)) = Some t' \<and> tx_tenant t' = tx_tenant t \<and> (tx_aborted t \<longrightarrow> tx_aborted t'))"
  unfolding through_querier_def by blast

lemma through_querier_stmt:
  fixes k :: "err + 'r \<Rightarrow> ('t, 'e, 'd, 'x) unit_fn"
  assumes "\<And>r. through_querier (k r)"
  shows "through_querier (after_stmt stmt k)"
  unfolding through_querier_def
proof (intro allI impI)
  fix c and w :: "('d, 'x) db_world" and t
  assume tx: "InTx c \<and> dw_tx w = Some t"
  obtain r w1 where q: "QuerierFrom c (stmt c) w = (r, w1)" by (cases "QuerierFrom c (stmt c) w")
  then obtain t1 where w1: "dw_committed w1 = dw_committed w" "dw_tx w1 = Some t1" "tx_tenant t1 = tx_tenant t"
      "tx_aborted t \<longrightarrow> tx_aborted t1"
    using QuerierFrom_in_tx [of c w t "stmt c"] tx by auto
  from through_querierD [OF assms [of r] conjunct1 [OF tx] w1(2)]
  show "dw_committed (snd (after_stmt stmt k c w)) = dw_committed w
      \<and> (\<exists>t'. dw_tx (snd (after_stmt stmt k c w)) = Some t' \<and> tx_tenant t' = tx_tenant t \<and> (tx_aborted t \<longrightarrow> tx_aborted t'))"
    using w1 by (auto simp: after_stmt_def q)
qed

lemma through_querier_nested: "through_querier fn \<Longrightarrow> through_querier (RunInTx z io fn)"
  by (simp add: through_querier_def RunInTx_def)

lemma atomic_unit:
  assumes fn: "through_querier fn" and run: "RunInTx z io fn ctx w = (r, w')" and out: "\<not> InTx ctx" and idle: "dw_tx w = None"
  shows "dw_tx w' = None
     \<and> (case r of
          Normal (Ok v) \<Rightarrow> (\<exists>w1 w2 t. dw_committed w1 = dw_committed w
             \<and> dw_tx w1 = Some \<lparr> tx_data = dw_committed w, tx_tenant = TenantFrom ctx, tx_aborted = False \<rparr>
             \<and> fn (ctx\<lparr> dc_tx := True \<rparr>) w1 = (Normal (Ok v), w2) \<and> dw_tx w2 = Some t
             \<and> \<not> tx_aborted t \<and> dw_committed w' = tx_data t)
        | _ \<Rightarrow> dw_committed w' = dw_committed w \<or> (\<exists>e. tf_commit io = Some (e, True)))
     \<and> (\<forall>c. InTx c \<longrightarrow> RunInTx z io fn c = fn c)"
proof -
  have nested: "\<forall>c. InTx c \<longrightarrow> RunInTx z io fn c = fn c" by (auto simp: RunInTx_def)
  define w1 where "w1 = (if TenantFrom ctx \<noteq> [] then set_tenant (TenantFrom ctx) (begin_tx w) else begin_tx w)"
  have w1: "dw_committed w1 = dw_committed w"
    "dw_tx w1 = Some \<lparr> tx_data = dw_committed w, tx_tenant = TenantFrom ctx, tx_aborted = False \<rparr>"
    by (auto simp: w1_def begin_tx_def set_tenant_def)
  obtain o2 w2 where f: "fn (ctx\<lparr> dc_tx := True \<rparr>) w1 = (o2, w2)" by (cases "fn (ctx\<lparr> dc_tx := True \<rparr>) w1")
  obtain t where w2: "dw_committed w2 = dw_committed w" "dw_tx w2 = Some t"
    using through_querierD [OF fn _ w1(2), of "ctx\<lparr> dc_tx := True \<rparr>"] w1(1) f by (auto simp: InTx_def)
  show ?thesis
  proof (cases "tf_begin io = None \<and> (TenantFrom ctx = [] \<or> tf_tenant io = None)")
    case False
    then show ?thesis
      using run out idle nested
      by (auto simp: RunInTx_def runWithRollback_def Let_def rollback_def begin_tx_def split: option.splits)
  next
    case True
    have "RunInTx z io fn ctx w = runWithRollback z io fn ctx (begin_tx w)" using out True by (simp add: RunInTx_def)
    also have "\<dots> = (case fn (ctx\<lparr> dc_tx := True \<rparr>) w1 of
          (Raised, w2) \<Rightarrow> (Raised, rollback w2)
        | (Normal (Err e), w2) \<Rightarrow> (Normal (Err e), rollback w2)
        | (Normal (Ok v), w2) \<Rightarrow>
            (case commit (tf_commit io) w2 of
               (Some e, w3) \<Rightarrow> (Normal (Err z), rollback w3)
             | (None, w3) \<Rightarrow> (Normal (Ok v), w3)))"
      using True by (auto simp: runWithRollback_def Let_def w1_def)
    finally have eq: "(r, w') = \<dots>" using run by simp
    show ?thesis
    proof (cases "\<exists>v. o2 = Normal (Ok v)")
      case False
      then have "\<exists>r'. (r = r' \<and> w' = rollback w2) \<and> (\<forall>v. r' \<noteq> Normal (Ok v))"
        using eq f by (auto split: returned.splits result.splits)
      then show ?thesis using w2 nested by (auto simp: rollback_def split: returned.split result.split)
    next
      case True
      then obtain v where o2: "o2 = Normal (Ok v)" by blast
      show ?thesis
      proof (cases "fst (commit (tf_commit io) w2)")
        case None
        then have "r = Normal (Ok v)" "w' = w2\<lparr> dw_tx := None, dw_committed := tx_data t \<rparr>" "\<not> tx_aborted t"
          using eq f o2 w2(2) by (auto simp: commit_def split: option.splits if_splits)
        then show ?thesis using w1 w2 f o2 nested by auto
      next
        case (Some e)
        then have "r = Normal (Err z)" "dw_tx w' = None" "dw_committed w' = dw_committed w \<or> (\<exists>e. tf_commit io = Some (e, True))"
          using eq f o2 w2 by (auto simp: commit_def rollback_def split: option.splits if_splits)
        then show ?thesis using nested by simp
      qed
    qed
  qed
qed

text \<open>C18: a unit of work is all or nothing. When it returns a success, the database holds exactly
  what the function left in the transaction and no statement of it had failed; when it returns an
  error, or the function panics, the database is as before (unless the answer to the commit itself
  was lost); the transaction is closed on every path and the function saw the tenant of the
  context. A unit of work within another adds no transaction of its own.\<close>

theorem unit_of_work_atomic:
  assumes fn: "through_querier fn" and run: "RunInTx z io fn ctx w = (r, w')" and out: "\<not> InTx ctx" and idle: "dw_tx w = None"
  shows "dw_tx w' = None
     \<and> (case r of
          Normal (Ok v) \<Rightarrow> (\<exists>w1 w2 t. dw_committed w1 = dw_committed w
             \<and> dw_tx w1 = Some \<lparr> tx_data = dw_committed w, tx_tenant = TenantFrom ctx, tx_aborted = False \<rparr>
             \<and> fn (ctx\<lparr> dc_tx := True \<rparr>) w1 = (Normal (Ok v), w2) \<and> dw_tx w2 = Some t
             \<and> \<not> tx_aborted t \<and> dw_committed w' = tx_data t)
        | _ \<Rightarrow> dw_committed w' = dw_committed w \<or> (\<exists>e. tf_commit io = Some (e, True)))
     \<and> (\<forall>c. InTx c \<longrightarrow> RunInTx z io fn c = fn c)"
  by (rule atomic_unit [OF assms])

section \<open>An event with its cause\<close>

text \<open>The use the package is written for: a change of the business data and the event that tells
  of it, in one unit of work.\<close>

definition change_and_tell ::
    "('b \<Rightarrow> (err + 'r) \<times> 'b) \<Rightarrow> (pg_outbox \<Rightarrow> (err + str) \<times> pg_outbox) \<Rightarrow> ('r \<Rightarrow> bool) \<Rightarrow> ('r, err, 'b \<times> pg_outbox, 'x) unit_fn" where
  "change_and_tell change tell accepted =
     after_stmt (\<lambda>c d. case change (fst d) of (r, b) \<Rightarrow> (r, (b, snd d)))
       (\<lambda>r. case r of
          Inl e \<Rightarrow> (\<lambda>c w. (Normal (Err e), w))
        | Inr v \<Rightarrow> after_stmt (\<lambda>c d. case tell (snd d) of (i, o1) \<Rightarrow> (i, (fst d, o1)))
            (\<lambda>i. case i of
               Inl e \<Rightarrow> (\<lambda>c w. (Normal (Err e), w))
             | Inr i \<Rightarrow> if accepted v then (\<lambda>c w. (Normal (Ok v), w)) else (\<lambda>c w. (Normal (Err (Opaque ''refused'')), w))))"

lemma change_and_tell_disciplined: "through_querier (change_and_tell change tell accepted)"
  unfolding change_and_tell_def
  by (intro through_querier_stmt) (auto intro!: through_querier_stmt through_querier_stop split: sum.split)

theorem unit_of_work_atomic_witness:
  "\<exists>w'. RunInTx (Opaque []) no_tx_fault
       (change_and_tell (\<lambda>n. (Inr n, n + 1)) (pg_Enqueue None (Inr ''e1'') 0
          \<lparr> nm_type = ''t'', nm_aggregate_id = [], nm_payload = [], nm_trace_parent = [], nm_headers = None \<rparr>) (\<lambda>n. n > 0))
       background \<lparr> dw_committed = (0 :: nat, \<lparr> pg_rows = [], pg_locks = [] \<rparr>), dw_tx = None, dw_rest = () \<rparr>
     = (Normal (Err (Opaque ''refused'')), w') \<and> dw_committed w' = (0, \<lparr> pg_rows = [], pg_locks = [] \<rparr>)"
proof -
  let ?fn = "change_and_tell (\<lambda>n :: nat. (Inr n, n + 1)) (pg_Enqueue None (Inr ''e1'') 0
          \<lparr> nm_type = ''t'', nm_aggregate_id = [], nm_payload = [], nm_trace_parent = [], nm_headers = None \<rparr>) (\<lambda>n. n > 0)"
  let ?w = "\<lparr> dw_committed = (0 :: nat, \<lparr> pg_rows = [], pg_locks = [] \<rparr>), dw_tx = None, dw_rest = () \<rparr>"
  obtain r w' where run: "RunInTx (Opaque []) no_tx_fault ?fn background ?w = (r, w')"
    by (cases "RunInTx (Opaque []) no_tx_fault ?fn background ?w")
  have "r = Normal (Err (Opaque ''refused''))"
    using run by (simp add: RunInTx_def runWithRollback_def InTx_def background_def no_tx_fault_def TenantFrom_def begin_tx_def
        change_and_tell_def after_stmt_def QuerierFrom_def pg_Enqueue_def Let_def)
  then show ?thesis
    using run unit_of_work_atomic [OF change_and_tell_disciplined run] by (simp add: background_def InTx_def no_tx_fault_def)
qed

end
