(* ===== verification/Database_Errors.thy ===== *)
theory Database_Errors
  imports Database
begin

text \<open>
  The rest of internal/infrastructure/database/database.go: the advisory locks over a querier and the
  classification of the errors of the driver. \<open>pg\<close> says which errors are a \<open>pgconn.PgError\<close> of the driver,
  with their SQLSTATE and the name of the constraint.
\<close>

section \<open>Advisory locks\<close>

text \<open>The querier is the statement it runs, with its answer and what is left of its state.\<close>

definition TryAdvisoryLock :: "(int \<Rightarrow> 's \<Rightarrow> (err + bool) \<times> 's) \<Rightarrow> int \<Rightarrow> 's \<Rightarrow> (err + bool) \<times> 's" where
  "TryAdvisoryLock query_row key s =
     (case query_row key s of
        (Inl e, s1) \<Rightarrow> (Inl (Errorf [Lit ''pg_try_advisory_lock: '', W e]), s1)
      | (Inr acquired, s1) \<Rightarrow> (Inr acquired, s1))"

definition ReleaseAdvisoryLock :: "(int \<Rightarrow> 's \<Rightarrow> err option \<times> 's) \<Rightarrow> int \<Rightarrow> 's \<Rightarrow> err option \<times> 's" where
  "ReleaseAdvisoryLock exec key s =
     (case exec key s of
        (Some e, s1) \<Rightarrow> (Some (Errorf [Lit ''pg_advisory_unlock: '', W e]), s1)
      | (None, s1) \<Rightarrow> (None, s1))"

section \<open>Errors of the driver\<close>

text \<open>\<open>errors.As\<close>: the first error that is one, the error itself before those it wraps, in order.\<close>

fun errors_as :: "(err \<Rightarrow> 'a option) \<Rightarrow> err \<Rightarrow> 'a option" and part_as :: "(err \<Rightarrow> 'a option) \<Rightarrow> part \<Rightarrow> 'a option"
    and parts_as :: "(err \<Rightarrow> 'a option) \<Rightarrow> part list \<Rightarrow> 'a option" and errs_as :: "(err \<Rightarrow> 'a option) \<Rightarrow> err list \<Rightarrow> 'a option" where
  "errors_as pg (Sentinel s) = pg (Sentinel s)"
| "errors_as pg (Opaque m) = pg (Opaque m)"
| "errors_as pg (Errorf ps) = (case pg (Errorf ps) of Some x \<Rightarrow> Some x | None \<Rightarrow> parts_as pg ps)"
| "errors_as pg (JoinErr es) = (case pg (JoinErr es) of Some x \<Rightarrow> Some x | None \<Rightarrow> errs_as pg es)"
| "part_as pg (Lit m) = None"
| "part_as pg (W e) = errors_as pg e"
| "parts_as pg [] = None"
| "parts_as pg (p # ps) = (case part_as pg p of Some x \<Rightarrow> Some x | None \<Rightarrow> parts_as pg ps)"
| "errs_as pg [] = None"
| "errs_as pg (e # es) = (case errors_as pg e of Some x \<Rightarrow> Some x | None \<Rightarrow> errs_as pg es)"

type_synonym pg_errors = "err \<Rightarrow> (str \<times> str) option"

definition CodeQueryCanceled :: str where "CodeQueryCanceled = ''57014''"
definition CodeSerializationFailure :: str where "CodeSerializationFailure = ''40001''"

definition PgErrorCode :: "pg_errors \<Rightarrow> err \<Rightarrow> str" where
  "PgErrorCode pg e = (case errors_as pg e of Some (sqlstate, constraint) \<Rightarrow> sqlstate | None \<Rightarrow> [])"

definition ConstraintName :: "pg_errors \<Rightarrow> err \<Rightarrow> str" where
  "ConstraintName pg e = (case errors_as pg e of Some (sqlstate, constraint) \<Rightarrow> constraint | None \<Rightarrow> [])"

definition IsNotFound :: "err \<Rightarrow> bool" where
  "IsNotFound e = errors_is e NoRows"

definition IsUnavailable :: "pg_errors \<Rightarrow> err \<Rightarrow> bool" where
  "IsUnavailable pg e \<longleftrightarrow>
     errors_is e (Ctx DeadlineExceeded) \<or> errors_is e (Ctx Canceled)
     \<or> PgErrorCode pg e \<in> {CodeQueryCanceled, CodeSerializationFailure}"

text \<open>The contexts an adapter wraps an error in do not hide what it is, and two failures joined are an
  unavailability when the first that came from the server is one.\<close>

lemma wrapping_keeps_class:
  assumes "pg (Errorf [Lit what, W e]) = None"
  shows "IsUnavailable pg (Errorf [Lit what, W e]) = IsUnavailable pg e"
    and "IsNotFound (Errorf [Lit what, W e]) = IsNotFound e"
    and "ConstraintName pg (Errorf [Lit what, W e]) = ConstraintName pg e"
  using assms by (simp_all add: IsUnavailable_def IsNotFound_def ConstraintName_def PgErrorCode_def split: option.split)

lemma joined_class:
  assumes "pg (JoinErr [e, f]) = None" and "errors_as pg e = Some x"
  shows "PgErrorCode pg (JoinErr [e, f]) = PgErrorCode pg e"
  using assms by (simp add: PgErrorCode_def)

lemma lock_error_keeps_class:
  assumes "TryAdvisoryLock q key s = (Inl x, s1)" and "\<And>e. pg (Errorf [Lit ''pg_try_advisory_lock: '', W e]) = None"
  shows "\<exists>e. q key s = (Inl e, s1) \<and> IsUnavailable pg x = IsUnavailable pg e"
  using assms wrapping_keeps_class(1) by (auto simp: TryAdvisoryLock_def split: prod.splits sum.splits)

end
