(* ===== verification/Relay.thy ===== *)
theory Relay
  imports Idempotency_Once Outbox_Dispatcher
begin

text \<open>
  From the outbox to the consumers: the publisher the dispatcher hands its messages to
  (internal/infrastructure/relay), the relays that need no server (internal/infrastructure/messaging
  noop.go, broker.go), and what a message goes through from one end to the other.
\<close>

section \<open>The relay\<close>

definition envelopeOf :: "message \<Rightarrow> envelope" where
  "envelopeOf msg = \<lparr> env_ID = msg_id msg, env_Type = msg_type msg, env_AggregateID = msg_aggregate_id msg,
     env_Payload = msg_payload msg, env_TraceParent = msg_trace_parent msg, env_OccurredAt = msg_created_at msg,
     env_Headers = (case msg_headers msg of None \<Rightarrow> [] | Some h \<Rightarrow> h) \<rparr>"

definition FromOutbox :: "'w handler \<Rightarrow> message \<Rightarrow> 'w \<Rightarrow> handled \<times> 'w" where
  "FromOutbox pub msg w =
     (case pub (envelopeOf msg) w of
        (Some e, w') \<Rightarrow> (Returned (Some (Errorf [Lit (''publication of '' @ msg_type msg @ '': ''), W e])), w')
      | (None, w') \<Rightarrow> (Returned None, w'))"

section \<open>The relay without a server\<close>

text \<open>\<open>debug\<close> is the log entry of a discarded publication.\<close>

definition noopPublisher :: "(str \<Rightarrow> 'w \<Rightarrow> 'w) \<Rightarrow> 'w handler" where
  "noopPublisher debug env w = (None, debug (env_Type env) w)"

text \<open>A broker as its users see it: what publishing does once the subscriptions are made.\<close>

record 'w broker =
  br_Publish :: "'w inproc \<Rightarrow> 'w handler"
  br_Subscribe :: "str \<Rightarrow> 'w handler \<Rightarrow> 'w inproc \<Rightarrow> 'w inproc"

definition NewInproc_broker :: "(str \<Rightarrow> 'w \<Rightarrow> 'w) \<Rightarrow> 'w broker" where
  "NewInproc_broker warn = \<lparr> br_Publish = (\<lambda>subs. Publish subs warn), br_Subscribe = Subscribe \<rparr>"

definition noop_broker :: "(str \<Rightarrow> 'w \<Rightarrow> 'w) \<Rightarrow> 'w broker" where
  "noop_broker debug = \<lparr> br_Publish = (\<lambda>subs. noopPublisher debug), br_Subscribe = (\<lambda>t h subs. subs) \<rparr>"

text \<open>\<open>messaging.New\<close>: the two network relays are the clients of servers and stand as parameters.\<close>

definition New_broker :: "err + 'w broker \<Rightarrow> err + 'w broker \<Rightarrow> (str \<Rightarrow> 'w \<Rightarrow> 'w) \<Rightarrow> (str \<Rightarrow> 'w \<Rightarrow> 'w) \<Rightarrow> str \<Rightarrow> err + 'w broker" where
  "New_broker newKafka newRabbitMQ warn debug drv =
     (if drv = ''inproc'' then Inr (NewInproc_broker warn)
      else if drv = ''noop'' then Inr (noop_broker debug)
      else if drv = ''kafka'' then newKafka
      else if drv = ''rabbitmq'' then newRabbitMQ
      else Inl (Errorf [W (Sentinel (Infra ErrUnknownRelay)), Lit ('': '' @ quote_text drv)]))"

text \<open>The no-operation relay discards every event with success, whoever subscribed.\<close>

lemma noop_discards:
  "br_Publish (noop_broker debug) (br_Subscribe (noop_broker debug) t h subs) env w = (None, debug (env_Type env) w)"
  by (simp add: noop_broker_def noopPublisher_def)

section \<open>From the outbox to a guarded consumer\<close>

text \<open>The bus of a worker whose one consumer of a type is guarded by the memory store of keys,
  which it reads at \<open>t1\<close> and resolves at \<open>t2\<close>.\<close>

definition guarded_bus :: "duration \<Rightarrow> time \<Rightarrow> time \<Rightarrow> str \<Rightarrow> (envelope \<Rightarrow> 'v \<Rightarrow> err option \<times> 'v) \<Rightarrow> (idem_mem \<times> 'v) inproc" where
  "guarded_bus ttl t1 t2 ty g =
     Subscribe ty (Once (store_guard (mem_Reserve ttl) mem_Complete mem_Release None t1 t2) (own_handler g)) NewInproc"

lemma relayed_through_guard:
  "FromOutbox (Publish (guarded_bus ttl t1 t2 (msg_type msg) g) warn) msg w =
     (case deliver_once ttl t1 t2 g (envelopeOf msg) w of
        (Some e, w') \<Rightarrow> (Returned (Some (Errorf [Lit (''publication of '' @ msg_type msg @ '': ''),
           W (Errorf [Lit (''consumption of '' @ msg_type msg @ '': ''), W (JoinErr [e])])])), w')
      | (None, w') \<Rightarrow> (Returned None, w'))"
proof -
  have h: "handlers_of (guarded_bus ttl t1 t2 (msg_type msg) g) (msg_type msg)
      = [Once (store_guard (mem_Reserve ttl) mem_Complete mem_Release None t1 t2) (own_handler g)]"
    unfolding guarded_bus_def handlers_of_Subscribe by (simp add: handlers_of_def NewInproc_def)
  show ?thesis
    by (simp add: FromOutbox_def Publish_def h envelopeOf_def Let_def split: prod.split option.split)
qed

text \<open>C19: an outbox message that reaches a guarded consumer through the relay is handled once,
  however often the dispatcher publishes it again because it could not mark it: the first
  publication runs the handler on the message itself; if the handler succeeds, every later one
  within the lifetime of the key succeeds without running anything; if it fails, the dispatcher
  sees its error, the message can be retried and nothing is left locked.\<close>

theorem relayed_message_handled_once:
  assumes "msg_id msg \<noteq> []" and "msg_type msg \<noteq> []" and "mem_view s t1 (msg_id msg) = None"
    and "t1 \<le> t2" and "t2 < t1 + ttl" and "g (envelopeOf msg) (v :: 'v) = (r, v')"
  shows "\<exists>s' x. FromOutbox (Publish (guarded_bus ttl t1 t2 (msg_type msg) g) warn) msg (s, v) = (Returned x, (s', v'))
     \<and> (case r of
          None \<Rightarrow> x = None \<and> (\<forall>t3 (g2 :: envelope \<Rightarrow> 'v \<Rightarrow> err option \<times> 'v) v2. t3 < t1 + ttl \<longrightarrow>
            FromOutbox (Publish (guarded_bus ttl t3 t3 (msg_type msg) g2) warn) msg (s', v2) = (Returned None, (s', v2)))
        | Some e \<Rightarrow> (\<exists>e'. x = Some e' \<and> (\<forall>k. errors_is e k \<longrightarrow> errors_is e' k))
            \<and> (\<forall>t3. mem_view s' t3 (msg_id msg) = None))"
proof -
  have e: "env_ID (envelopeOf msg) = msg_id msg" "env_Type (envelopeOf msg) = msg_type msg"
    by (simp_all add: envelopeOf_def)
  from deliver_once_spec [of "envelopeOf msg" s t1 t2 ttl g v r v', unfolded e, OF assms]
  obtain s' where s': "snd (deliver_once ttl t1 t2 g (envelopeOf msg) (s, v)) = (s', v')"
    and out: "case r of
          None \<Rightarrow> fst (deliver_once ttl t1 t2 g (envelopeOf msg) (s, v)) = None
            \<and> (\<forall>t3 (g2 :: envelope \<Rightarrow> 'v \<Rightarrow> err option \<times> 'v) v2. t3 < t1 + ttl \<longrightarrow>
                deliver_once ttl t3 t3 g2 (envelopeOf msg) (s', v2) = (None, (s', v2)))
        | Some e \<Rightarrow> (\<exists>e'. fst (deliver_once ttl t1 t2 g (envelopeOf msg) (s, v)) = Some e' \<and> (\<forall>k. errors_is e k \<longrightarrow> errors_is e' k))
            \<and> (\<forall>t3. mem_view s' t3 (msg_id msg) = None)"
    by blast
  obtain x where x: "deliver_once ttl t1 t2 g (envelopeOf msg) (s, v) = (x, (s', v'))"
    using s' by (cases "deliver_once ttl t1 t2 g (envelopeOf msg) (s, v)") auto
  show ?thesis
  proof (cases r)
    case None
    then show ?thesis using out x by (simp add: relayed_through_guard)
  next
    case (Some er)
    then obtain e' where "x = Some e'" "\<forall>k. errors_is er k \<longrightarrow> errors_is e' k" using out x by auto
    then show ?thesis using Some out x by (simp add: relayed_through_guard)
  qed
qed

definition demo_message :: message where
  "demo_message = \<lparr> msg_id = ''m1'', msg_type = ''user.registered.v1'', msg_aggregate_id = ''u1'', msg_payload = [],
     msg_trace_parent = [], msg_headers = None, msg_status = StatusPending, msg_attempts = 0, msg_created_at = 0,
     msg_available_at = 0 \<rparr>"

theorem relayed_message_handled_once_witness:
  "\<exists>s'. FromOutbox (Publish (guarded_bus 100 5 6 (msg_type demo_message) (\<lambda>e n. (None, Suc n))) (\<lambda>t w. w)) demo_message ([], 0)
        = (Returned None, (s', 1))
     \<and> FromOutbox (Publish (guarded_bus 100 50 50 (msg_type demo_message) (\<lambda>e n. (None, Suc n))) (\<lambda>t w. w)) demo_message (s', 1)
        = (Returned None, (s', 1))"
proof -
  have "msg_id demo_message \<noteq> []" "msg_type demo_message \<noteq> []" "mem_view [] 5 (msg_id demo_message) = None"
    by (simp_all add: demo_message_def mem_view_def)
  from relayed_message_handled_once [OF this, of 6 100 "\<lambda>e n. (None, Suc n)" 0 None "Suc 0" "\<lambda>t w. w"]
  obtain s' where "FromOutbox (Publish (guarded_bus 100 5 6 (msg_type demo_message) (\<lambda>e n. (None, Suc n))) (\<lambda>t w. w)) demo_message ([], 0)
        = (Returned None, (s', 1))"
    and "\<And>t3 (g2 :: envelope \<Rightarrow> nat \<Rightarrow> err option \<times> nat) v2. t3 < 5 + 100 \<Longrightarrow>
            FromOutbox (Publish (guarded_bus 100 t3 t3 (msg_type demo_message) g2) (\<lambda>t w. w)) demo_message (s', v2) = (Returned None, (s', v2))"
    by auto
  then show ?thesis by (intro exI [of _ s']) simp
qed

end
