(* ===== verification/Relays.thy ===== *)
theory Relays
  imports Relay Config_Core Logging
begin

text \<open>
  The two network relays (internal/infrastructure/messaging/kafka.go and rabbitmq.go): what is published,
  how a consumer reads, and which of the messages it was handed the broker will hand over again. The
  client libraries are arguments: a call is given the answer the library makes.
\<close>

section \<open>Publishing to Kafka\<close>

record kafka_message =
  km_Topic :: str
  km_Key :: bytes
  km_Value :: bytes
  km_Headers :: "(str \<times> bytes) list"
  km_Offset :: nat

definition kafkaHeaders :: "envelope \<Rightarrow> (str \<times> bytes) list" where
  "kafkaHeaders env =
     (let headers = [(''event-type'', env_Type env)];
          headers1 = (if env_TraceParent env \<noteq> [] then headers @ [(''traceparent'', env_TraceParent env)] else headers)
      in headers1 @ env_Headers env)"

text \<open>\<open>write\<close> is \<open>writer.WriteMessages\<close> on one message; the offset is the broker's to choose.\<close>

definition kafka_publish ::
    "(envelope \<Rightarrow> err + bytes) \<Rightarrow> (kafka_message \<Rightarrow> 'w \<Rightarrow> err option \<times> 'w) \<Rightarrow> messaging_config \<Rightarrow> envelope \<Rightarrow> 'w \<Rightarrow> err option \<times> 'w" where
  "kafka_publish marshal write cfg env w =
     (case marshal env of
        Inl e \<Rightarrow> (Some (Errorf [Lit ''serialisation of the envelope: '', W e]), w)
      | Inr raw \<Rightarrow>
          (let msg = \<lparr> km_Topic = Topic cfg (env_Type env), km_Key = env_AggregateID env, km_Value = raw,
                 km_Headers = kafkaHeaders env, km_Offset = 0 \<rparr> in
           case write msg w of
             (Some e, w1) \<Rightarrow> (Some (Errorf [Lit (''publication to Kafka on '' @ km_Topic msg @ '': ''), W e]), w1)
           | (None, w1) \<Rightarrow> (None, w1)))"

definition kafka_Subscribe :: "str \<Rightarrow> 'w handler \<Rightarrow> 'w inproc \<Rightarrow> 'w inproc" where
  "kafka_Subscribe t h b = b\<lparr> handlers := map_set t [h] (handlers b) \<rparr>"

definition newKafka ::
    "(envelope \<Rightarrow> err + bytes) \<Rightarrow> (kafka_message \<Rightarrow> 'w \<Rightarrow> err option \<times> 'w) \<Rightarrow> (duration \<Rightarrow> 'w \<Rightarrow> err option \<times> 'w)
     \<Rightarrow> messaging_config \<Rightarrow> err + 'w broker" where
  "newKafka marshal write wait cfg =
     Inr \<lparr> br_Publish = (\<lambda>subs. WithRetry (kafka_publish marshal write cfg) wait publishAttempts publishBackoff),
           br_Subscribe = kafka_Subscribe \<rparr>"

section \<open>Consuming a topic of Kafka\<close>

text \<open>What one \<open>FetchMessage\<close> gives, with the answer \<open>CommitMessages\<close> makes if it is asked.\<close>

datatype fetch = Fetched kafka_message "err option" | FetchFailed err | FetchCancelled

record 'w kafka_reader =
  kr_commits :: "nat list"
  kr_out :: "log_line list"
  kr_world :: 'w

definition kafka_error :: "str \<Rightarrow> (str \<times> attr) list \<Rightarrow> log_line" where
  "kafka_error what attrs = \<lparr> l_level = LevelError, l_text = what, l_attrs = attrs \<rparr>"

definition kafka_handle ::
    "(bytes \<Rightarrow> err + envelope) \<Rightarrow> 'w handler \<Rightarrow> kafka_message \<Rightarrow> 'w kafka_reader \<Rightarrow> err option \<times> 'w kafka_reader" where
  "kafka_handle unmarshal h msg s =
     (case unmarshal (km_Value msg) of
        Inl e \<Rightarrow> (None, s\<lparr> kr_out := kr_out s @ [kafka_error ''unreadable Kafka envelope'' [(''error'', AString (err_text e))]] \<rparr>)
      | Inr env \<Rightarrow> (case h env (kr_world s) of (r, w) \<Rightarrow> (r, s\<lparr> kr_world := w \<rparr>)))"

text \<open>The loop over what the reader gives, one fetch after another.\<close>

fun kafka_consume ::
    "(bytes \<Rightarrow> err + envelope) \<Rightarrow> 'w handler \<Rightarrow> str \<Rightarrow> fetch list \<Rightarrow> 'w kafka_reader \<Rightarrow> 'w kafka_reader" where
  "kafka_consume unmarshal h t [] s = s"
| "kafka_consume unmarshal h t (FetchCancelled # fs) s = s"
| "kafka_consume unmarshal h t (FetchFailed e # fs) s =
     kafka_consume unmarshal h t fs
       (s\<lparr> kr_out := kr_out s @ [kafka_error ''Kafka read failed'' [(''event_type'', AString t), (''error'', AString (err_text e))]] \<rparr>)"
| "kafka_consume unmarshal h t (Fetched msg c # fs) s =
     kafka_consume unmarshal h t fs
       (case kafka_handle unmarshal h msg s of
          (Some e, s1) \<Rightarrow> s1\<lparr> kr_out := kr_out s1 @ [kafka_error ''consumption failed, message not committed''
             [(''event_type'', AString t), (''error'', AString (err_text e))]] \<rparr>
        | (None, s1) \<Rightarrow>
            (case c of
               Some e \<Rightarrow> s1\<lparr> kr_out := kr_out s1 @ [kafka_error ''Kafka commit failed'' [(''error'', AString (err_text e))]] \<rparr>
             | None \<Rightarrow> s1\<lparr> kr_commits := kr_commits s1 @ [km_Offset msg] \<rparr>))"

text \<open>Kafka keeps one position per partition and group: a group that comes back starts after the highest
  offset committed.\<close>

definition resume_offset :: "nat list \<Rightarrow> nat" where
  "resume_offset commits = (if commits = [] then 0 else Suc (Max (set commits)))"

section \<open>RabbitMQ\<close>

text \<open>The answers to \<open>Dial\<close>, \<open>Channel\<close> and \<open>ExchangeDeclare\<close>; the state counts the connections open.\<close>

record amqp_setup =
  aq_dial :: "err option"
  aq_channel :: "err option"
  aq_declare :: "err option"

definition newRabbitMQ :: "amqp_setup \<Rightarrow> 'w broker \<Rightarrow> nat \<Rightarrow> (err + 'w broker) \<times> nat" where
  "newRabbitMQ q b conns =
     (case aq_dial q of
        Some e \<Rightarrow> (Inl (Errorf [Lit ''connection to AMQP: '', W e]), conns)
      | None \<Rightarrow>
     (let opened = conns + 1 in
      case aq_channel q of
        Some e \<Rightarrow> (Inl (Errorf [Lit ''opening of the AMQP channel: '', W e]), opened - 1)
      | None \<Rightarrow>
     (case aq_declare q of
        Some e \<Rightarrow> (Inl (Errorf [Lit ''declaration of the exchange: '', W e]), opened - 1)
      | None \<Rightarrow> (Inr b, opened))))"

record amqp_publishing =
  ap_Exchange :: str
  ap_RoutingKey :: str
  ap_ContentType :: str
  ap_Body :: bytes
  ap_MessageId :: str
  ap_Timestamp :: time
  ap_Persistent :: bool
  ap_Headers :: "(str \<times> str) list"

definition amqp_publish ::
    "(envelope \<Rightarrow> err + bytes) \<Rightarrow> (amqp_publishing \<Rightarrow> 'w \<Rightarrow> err option \<times> 'w) \<Rightarrow> messaging_config \<Rightarrow> envelope \<Rightarrow> 'w \<Rightarrow> err option \<times> 'w" where
  "amqp_publish marshal send cfg env w =
     (case marshal env of
        Inl e \<Rightarrow> (Some (Errorf [Lit ''serialisation of the envelope: '', W e]), w)
      | Inr raw \<Rightarrow>
          (case send \<lparr> ap_Exchange = r_Exchange (msg_RabbitMQ cfg), ap_RoutingKey = Topic cfg (env_Type env),
               ap_ContentType = ''application/json'', ap_Body = raw, ap_MessageId = env_ID env,
               ap_Timestamp = env_OccurredAt env, ap_Persistent = True,
               ap_Headers = [(''traceparent'', env_TraceParent env)] \<rparr> w of
             (Some e, w1) \<Rightarrow> (Some (Errorf [Lit ''publication to AMQP: '', W e]), w1)
           | (None, w1) \<Rightarrow> (None, w1)))"

definition amqp_broker ::
    "(envelope \<Rightarrow> err + bytes) \<Rightarrow> (amqp_publishing \<Rightarrow> 'w \<Rightarrow> err option \<times> 'w) \<Rightarrow> (duration \<Rightarrow> 'w \<Rightarrow> err option \<times> 'w)
     \<Rightarrow> messaging_config \<Rightarrow> 'w broker" where
  "amqp_broker marshal send wait cfg =
     \<lparr> br_Publish = (\<lambda>subs. WithRetry (amqp_publish marshal send cfg) wait publishAttempts publishBackoff),
       br_Subscribe = (\<lambda>t h b. b\<lparr> handlers := map_set t [h] (handlers b) \<rparr>) \<rparr>"

text \<open>The queue of one event type: its name, or which of the three calls refused it.\<close>

definition amqp_bind :: "messaging_config \<Rightarrow> (str \<Rightarrow> err option) \<Rightarrow> (str \<Rightarrow> err option) \<Rightarrow> (str \<Rightarrow> err option) \<Rightarrow> str \<Rightarrow> err + str" where
  "amqp_bind cfg declare bind consume t =
     (let name = msg_ConsumerGroup cfg @ ''.'' @ Topic cfg t in
      case declare name of
        Some e \<Rightarrow> Inl (Errorf [Lit (''declaration of the queue '' @ name @ '': ''), W e])
      | None \<Rightarrow>
     (case bind name of
        Some e \<Rightarrow> Inl (Errorf [Lit (''binding of the queue '' @ name @ '': ''), W e])
      | None \<Rightarrow>
     (case consume name of
        Some e \<Rightarrow> Inl (Errorf [Lit (''consumption of the queue '' @ name @ '': ''), W e])
      | None \<Rightarrow> Inr name)))"

text \<open>The queues read and, when one could not be bound, the error that ends \<open>Run\<close>.\<close>

definition amqp_Run :: "(str \<Rightarrow> err + str) \<Rightarrow> str list \<Rightarrow> str list \<times> err option" where
  "amqp_Run bind ts =
     (let bound = List.map_filter (\<lambda>t. case bind t of Inl e \<Rightarrow> None | Inr q \<Rightarrow> Some q) ts;
          setupErrs = List.map_filter (\<lambda>t. case bind t of Inl e \<Rightarrow> Some e | Inr q \<Rightarrow> None) ts
      in (bound, if setupErrs \<noteq> [] then Some (Errorf [Lit ''subscription to AMQP: '', W (JoinErr setupErrs)]) else None))"

datatype settlement = Ack | NackDrop | NackRequeue

record 'w amqp_reader =
  aq_settled :: "settlement list"
  aq_out :: "log_line list"
  aq_world :: 'w

text \<open>The deliveries until the channel is closed or the context done.\<close>

fun amqp_consume :: "(bytes \<Rightarrow> err + envelope) \<Rightarrow> 'w handler \<Rightarrow> bytes list \<Rightarrow> 'w amqp_reader \<Rightarrow> 'w amqp_reader" where
  "amqp_consume unmarshal h [] s = s"
| "amqp_consume unmarshal h (body # ds) s =
     amqp_consume unmarshal h ds
       (case unmarshal body of
          Inl e \<Rightarrow> s\<lparr> aq_settled := aq_settled s @ [NackDrop],
            aq_out := aq_out s @ [kafka_error ''unreadable AMQP envelope'' [(''error'', AString (err_text e))]] \<rparr>
        | Inr env \<Rightarrow>
            (case h env (aq_world s) of
               (Some e, w) \<Rightarrow> s\<lparr> aq_world := w, aq_settled := aq_settled s @ [NackRequeue],
                 aq_out := aq_out s @ [kafka_error ''AMQP consumption failed''
                   [(''event_type'', AString (env_Type env)), (''error'', AString (err_text e))]] \<rparr>
             | (None, w) \<Rightarrow> s\<lparr> aq_world := w, aq_settled := aq_settled s @ [Ack] \<rparr>))"

section \<open>What is handed over again\<close>

text \<open>\<open>r\<close> is what the handler answers to each envelope.\<close>

definition answers :: "'w handler \<Rightarrow> (envelope \<Rightarrow> err option) \<Rightarrow> bool" where
  "answers h r \<longleftrightarrow> (\<forall>env w. fst (h env w) = r env)"

definition committed :: "(bytes \<Rightarrow> err + envelope) \<Rightarrow> (envelope \<Rightarrow> err option) \<Rightarrow> fetch \<Rightarrow> bool" where
  "committed unmarshal r f \<longleftrightarrow>
     (case f of
        Fetched m None \<Rightarrow> (case unmarshal (km_Value m) of Inl e \<Rightarrow> True | Inr env \<Rightarrow> r env = None)
      | _ \<Rightarrow> False)"

fun offset_of :: "fetch \<Rightarrow> nat option" where
  "offset_of (Fetched m c) = Some (km_Offset m)"
| "offset_of _ = None"

definition offsets :: "fetch list \<Rightarrow> nat list" where
  "offsets fs = List.map_filter offset_of fs"

lemma offsets_simps [simp]:
  "offsets [] = []" "offsets (Fetched m c # fs) = km_Offset m # offsets fs"
  "offsets (FetchFailed e # fs) = offsets fs" "offsets (FetchCancelled # fs) = offsets fs"
  by (simp_all add: offsets_def List.map_filter_simps)

lemma offsets_append [simp]: "offsets (xs @ ys) = offsets xs @ offsets ys"
  by (simp add: offsets_def List.map_filter_def)

lemma kafka_handle_answers:
  assumes "answers h r"
  shows "fst (kafka_handle u h m s) = (case u (km_Value m) of Inl e \<Rightarrow> None | Inr env \<Rightarrow> r env)"
    and "kr_commits (snd (kafka_handle u h m s)) = kr_commits s"
  using assms by (auto simp: kafka_handle_def answers_def split: sum.split prod.split) (metis fst_conv)

lemma kafka_consume_commits:
  assumes "answers h r" and "FetchCancelled \<notin> set fs"
  shows "kr_commits (kafka_consume u h t fs s) = kr_commits s @ offsets (filter (committed u r) fs)"
  using assms(2)
proof (induction fs arbitrary: s)
  case (Cons f fs)
  show ?case
  proof (cases f)
    case (Fetched m c)
    obtain q s1 where q: "kafka_handle u h m s = (q, s1)" by fastforce
    have "q = (case u (km_Value m) of Inl e \<Rightarrow> None | Inr env \<Rightarrow> r env)" "kr_commits s1 = kr_commits s"
      using kafka_handle_answers [OF assms(1), of u m s] q by auto
    then show ?thesis using Cons Fetched q by (auto simp: committed_def split: option.splits sum.splits)
  next
    case (FetchFailed e)
    then show ?thesis using Cons by (simp add: committed_def)
  next
    case FetchCancelled
    then show ?thesis using Cons.prems by simp
  qed
qed simp

lemma resume_offset_le: "o1 < resume_offset cs \<longleftrightarrow> (\<exists>c \<in> set cs. o1 \<le> c)"
  by (auto simp: resume_offset_def less_Suc_eq_le Max_ge_iff)

lemma set_offsets: "set (offsets fs) = {km_Offset m | m c. Fetched m c \<in> set fs}"
proof (induction fs)
  case (Cons f fs)
  then show ?case by (cases f) auto
qed simp


text \<open>The first message fails, the second is handled and committed: the first is lost.\<close>

definition demo_kafka :: "nat \<Rightarrow> str \<Rightarrow> kafka_message" where
  "demo_kafka n v = \<lparr> km_Topic = ''app.user-registered-v1'', km_Key = ''u1'', km_Value = v, km_Headers = [], km_Offset = n \<rparr>"

definition demo_read :: "bytes \<Rightarrow> err + envelope" where
  "demo_read raw = Inr \<lparr> env_ID = raw, env_Type = ''user.registered.v1'', env_AggregateID = ''u1'', env_Payload = raw,
     env_TraceParent = [], env_OccurredAt = 0, env_Headers = [] \<rparr>"

definition fails_on_a :: "unit handler" where
  "fails_on_a env w = (if env_ID env = ''a'' then Some (Opaque ''smtp: timeout'') else None, w)"


section \<open>The relays differ\<close>

text \<open>A second consumer of an event joins the first on the in-process bus and replaces it on the other two.\<close>

lemma second_consumer_replaces:
  "handlers_of (kafka_Subscribe t h2 (kafka_Subscribe t h1 b)) t = [h2]"
  "handlers_of (Subscribe t h2 (Subscribe t h1 NewInproc)) t = [h1, h2]"
  by (simp_all add: handlers_of_def kafka_Subscribe_def Subscribe_def NewInproc_def)

text \<open>A delivery is settled once, in order: acknowledged when it is handled, put back when its handler fails,
  dropped when it cannot be read.\<close>

lemma amqp_settles:
  assumes "answers h r"
  shows "aq_settled (amqp_consume u h ds s) = aq_settled s
     @ map (\<lambda>body. case u body of Inl e \<Rightarrow> NackDrop | Inr env \<Rightarrow> if r env = None then Ack else NackRequeue) ds"
proof (induction ds arbitrary: s)
  case (Cons body ds)
  then show ?case
  proof (cases "u body")
    case (Inr env)
    obtain q w where q: "h env (aq_world s) = (q, w)" by fastforce
    then have "q = r env" using assms unfolding answers_def by (metis fst_conv)
    then show ?thesis using Cons Inr q by (auto split: option.splits)
  qed simp
qed simp

lemma newRabbitMQ_releases:
  "case newRabbitMQ q b n of (Inl e, n') \<Rightarrow> n' = n | (Inr b', n') \<Rightarrow> b' = b \<and> n' = n + 1"
  by (simp add: newRabbitMQ_def split: option.split)

lemma amqp_Run_stops:
  "snd (amqp_Run bind ts) = None \<longleftrightarrow> (\<forall>t \<in> set ts. \<not> isl (bind t))"
  by (induction ts) (auto simp: amqp_Run_def List.map_filter_simps Let_def split: sum.splits if_splits)

end
