(* ===== verification/Modulebus.thy ===== *)
theory Modulebus
  imports Config_Core Messaging
begin

text \<open>
  Calls between modules (internal/infrastructure/modulebus): a caller is resolved once, from the
  configuration, into a local function, an HTTP exchange, a published event or a refusal.
\<close>

definition ModeInproc :: str where "ModeInproc = ''inproc''"
definition ModeHTTP :: str where "ModeHTTP = ''http''"
definition ModeEvent :: str where "ModeEvent = ''event''"
definition ModeDisabled :: str where "ModeDisabled = ''disabled''"

record route =
  Method :: str
  Path :: str

text \<open>\<open>(O, error)\<close>: a caller returns the zero value with every error.\<close>

type_synonym ('i, 'o, 'w) caller = "'i \<Rightarrow> 'w \<Rightarrow> (err + 'o) \<times> 'w"

text \<open>
  What the callers use of the standard library and its clients: the JSON of a request, the HTTP
  exchange (a status and a body), the reading of a reply, a new identifier and the clock.
\<close>

record ('i, 'o, 'w) bus_io =
  bi_marshal :: "'i \<Rightarrow> err + bytes"
  bi_request :: "str \<Rightarrow> str \<Rightarrow> err option"
  bi_do :: "str \<Rightarrow> str \<Rightarrow> bytes \<Rightarrow> 'w \<Rightarrow> (err + int \<times> bytes) \<times> 'w"
  bi_decode :: "bytes \<Rightarrow> err + 'o"
  bi_uuid :: "'w \<Rightarrow> str \<times> 'w"
  bi_now :: "'w \<Rightarrow> time \<times> 'w"
  bi_zero :: 'o

record 'w bus =
  bus_cfg :: interop_config
  bus_publisher :: "'w handler"

definition trim_slash :: "str \<Rightarrow> str" where
  "trim_slash s = (if s \<noteq> [] \<and> last s = CHR ''/'' then butlast s else s)"

definition failed :: "str \<Rightarrow> err \<Rightarrow> err" where
  "failed what e = Errorf [Lit (what @ '': ''), W e]"

definition httpCaller :: "('i, 'o, 'w) bus_io \<Rightarrow> str \<Rightarrow> route \<Rightarrow> ('i, 'o, 'w) caller" where
  "httpCaller io baseURL rt x w =
     (let endpoint = trim_slash baseURL @ Path rt in
      case bi_marshal io x of
        Inl e \<Rightarrow> (Inl (failed ''serialising the inter-module request'' e), w)
      | Inr body \<Rightarrow>
          (case bi_request io (Method rt) endpoint of
             Some e \<Rightarrow> (Inl (failed ''building the inter-module request'' e), w)
           | None \<Rightarrow>
               (case bi_do io (Method rt) endpoint body w of
                  (Inl e, w1) \<Rightarrow> (Inl (failed (''inter-module call '' @ endpoint) e), w1)
                | (Inr (status, reply), w1) \<Rightarrow>
                    if status \<ge> 400 then
                      (Inl (Errorf [Lit (''inter-module call '' @ endpoint @ '': status '' @ show_int status)]), w1)
                    else (case bi_decode io reply of
                        Inl e \<Rightarrow> (Inl (failed ''reading the inter-module reply'' e), w1)
                      | Inr y \<Rightarrow> (Inr y, w1)))))"

definition eventCaller :: "('i, 'o, 'w) bus_io \<Rightarrow> 'w handler \<Rightarrow> str \<Rightarrow> ('i, 'o, 'w) caller" where
  "eventCaller io publisher eventType x w =
     (case bi_marshal io x of
        Inl e \<Rightarrow> (Inl (failed ''serialising the inter-module event'' e), w)
      | Inr payload \<Rightarrow>
          (case bi_uuid io w of (uuid, w1) \<Rightarrow>
           case bi_now io w1 of (now, w2) \<Rightarrow>
           (case publisher \<lparr> env_ID = uuid, env_Type = eventType, env_AggregateID = [], env_Payload = payload,
                env_TraceParent = [], env_OccurredAt = now, env_Headers = [] \<rparr> w2 of
              (Some e, w3) \<Rightarrow> (Inl (failed ''publishing the inter-module event'' e), w3)
            | (None, w3) \<Rightarrow> (Inr (bi_zero io), w3))))"

definition Mode :: "'w bus \<Rightarrow> str \<Rightarrow> str" where
  "Mode b name = TransportFor (bus_cfg b) name"

definition Resolve_caller ::
    "('i, 'o, 'w) bus_io \<Rightarrow> 'w bus \<Rightarrow> str \<Rightarrow> route \<Rightarrow> str \<Rightarrow> ('i, 'o, 'w) caller \<Rightarrow> err + ('i, 'o, 'w) caller" where
  "Resolve_caller io b name rt eventType local =
     (let m = TransportFor (bus_cfg b) name in
      if m = ModeInproc then Inr local
      else if m = ModeHTTP then
        (case map_get (it_BaseURLs (bus_cfg b)) name of
           None \<Rightarrow> Inl (Errorf [W (Sentinel (Infra ErrNoBaseURL)), Lit ('': '' @ name)])
         | Some url \<Rightarrow>
             if url = [] then Inl (Errorf [W (Sentinel (Infra ErrNoBaseURL)), Lit ('': '' @ name)])
             else Inr (httpCaller io url rt))
      else if m = ModeEvent then Inr (eventCaller io (bus_publisher b) eventType)
      else if m = ModeDisabled then
        Inr (\<lambda>x w. (Inl (Errorf [W (Sentinel (Infra BusErrDisabled)), Lit ('': '' @ name)]), w))
      else Inl (Errorf [W (Sentinel (Infra ErrUnknownMode)), Lit ('': '' @ quote_text m @ '' for '' @ name)]))"

section \<open>What a validated configuration resolves\<close>

lemmas mode_names = ModeInproc_def ModeHTTP_def ModeEvent_def ModeDisabled_def
  transportInproc_def transportHTTP_def transportEvent_def transportDisabled_def

definition has_url :: "interop_config \<Rightarrow> str \<Rightarrow> bool" where
  "has_url i name \<longleftrightarrow> (\<exists>url. map_of (it_BaseURLs i) name = Some url \<and> url \<noteq> [])"

lemma listed_transport:
  assumes "interop_ok i" and "map_of (it_Transports i) name = Some m"
  shows "m \<in> set transports \<and> (m = ModeHTTP \<longrightarrow> has_url i name) \<and> TransportFor i name = m"
proof -
  have "(name, m) \<in> set (it_Transports i)" using assms(2) by (rule map_of_SomeD)
  then show ?thesis
    using assms
    by (force simp: interop_ok_def list_all_iff one_of_def TransportFor_def has_url_def transports_def mode_names
        split: option.splits)
qed

lemma unlisted_transport:
  "map_of (it_Transports i) name = None \<Longrightarrow> map_of (it_Transports i) [] = None \<Longrightarrow> TransportFor i name = TransportFor i []"
  by (simp add: TransportFor_def)

lemma known_transport:
  assumes "interop_ok i" and "map_of (it_Transports i) [] = None"
  shows "TransportFor i name \<in> {ModeInproc, ModeHTTP, ModeEvent, ModeDisabled}"
proof (cases "map_of (it_Transports i) name")
  case None
  then show ?thesis
    using assms unlisted_transport [OF None] by (simp add: interop_ok_def one_of_def transports_def mode_names)
next
  case (Some m)
  then show ?thesis using listed_transport [OF assms(1) Some] by (simp add: transports_def mode_names)
qed

lemma Resolve_caller_fails:
  assumes "TransportFor (bus_cfg b) name \<in> {ModeInproc, ModeHTTP, ModeEvent, ModeDisabled}"
  shows "isl (Resolve_caller io b name rt ev local) \<longleftrightarrow> TransportFor (bus_cfg b) name = ModeHTTP \<and> \<not> has_url (bus_cfg b) name"
  using assms by (auto simp: Resolve_caller_def Let_def has_url_def mode_names split: option.splits)

text \<open>with a validated configuration (whose list of transports does not name the empty module)
  every module has a known transport, and resolving a caller fails for one reason only: a module
  that is not listed, when the default transport is HTTP and the module has no address. The local
  transport is the local function itself; a disabled one refuses every call, with no effect.\<close>

theorem validated_transports_resolve:
  assumes "interop_validate (bus_cfg b) = []" and "map_of (it_Transports (bus_cfg b)) [] = None"
  shows "(isl (Resolve_caller io b name rt ev local) \<longleftrightarrow>
       map_of (it_Transports (bus_cfg b)) name = None \<and> TransportFor (bus_cfg b) [] = ModeHTTP \<and> \<not> has_url (bus_cfg b) name)
     \<and> (Mode b name = ModeInproc \<longrightarrow> Resolve_caller io b name rt ev local = Inr local)
     \<and> (Mode b name = ModeDisabled \<longrightarrow> (\<exists>f. Resolve_caller io b name rt ev local = Inr f
          \<and> (\<forall>x w. \<exists>e. f x w = (Inl e, w) \<and> errors_is e (Infra BusErrDisabled))))"
proof -
  let ?i = "bus_cfg b"
  have ok: "interop_ok ?i" using assms(1) by (simp add: interop_validate_empty)
  have "TransportFor ?i name = ModeHTTP \<and> \<not> has_url ?i name \<longleftrightarrow>
      map_of (it_Transports ?i) name = None \<and> TransportFor ?i [] = ModeHTTP \<and> \<not> has_url ?i name"
    using listed_transport [OF ok, of name] unlisted_transport [OF _ assms(2), of name]
    by (cases "map_of (it_Transports ?i) name") auto
  then have "isl (Resolve_caller io b name rt ev local) \<longleftrightarrow>
       map_of (it_Transports ?i) name = None \<and> TransportFor ?i [] = ModeHTTP \<and> \<not> has_url ?i name"
    using Resolve_caller_fails [OF known_transport [OF ok assms(2), of name], of io rt ev local] by simp
  then show ?thesis by (simp add: Mode_def Resolve_caller_def mode_names)
qed

definition demo_io :: "(str, nat, nat) bus_io" where
  "demo_io = \<lparr> bi_marshal = Inr, bi_request = (\<lambda>m p. None), bi_do = (\<lambda>m p b w. (Inr (200, b), w)),
     bi_decode = (\<lambda>b. Inr (length b)), bi_uuid = Pair ''id'', bi_now = Pair 0, bi_zero = 0 \<rparr>"

theorem validated_transports_resolve_witness:
  "isl (Resolve_caller demo_io \<lparr> bus_cfg = \<lparr> it_DefaultTransport = ''http'', it_CallTimeout = 0,
      it_Transports = [(''auth'', ''disabled'')], it_BaseURLs = [] \<rparr>, bus_publisher = (\<lambda>e w. (None, w)) \<rparr> ''billing''
      \<lparr> Method = ''GET'', Path = ''/'' \<rparr> [] (\<lambda>x w. (Inr 0, w)))"
proof -
  let ?b = "\<lparr> bus_cfg = \<lparr> it_DefaultTransport = ''http'', it_CallTimeout = 0,
      it_Transports = [(''auth'', ''disabled'')], it_BaseURLs = [] \<rparr>, bus_publisher = (\<lambda>e (w::nat). (None, w)) \<rparr>"
  have v: "interop_validate (bus_cfg ?b) = []" "map_of (it_Transports (bus_cfg ?b)) [] = None"
    by (simp_all add: interop_validate_empty interop_ok_def one_of_def transports_def TransportFor_def mode_names)
  show ?thesis
    using validated_transports_resolve [OF v, of demo_io "''billing''"] by (simp add: TransportFor_def has_url_def mode_names)
qed

text \<open>The rule about the empty name is needed: \<open>validate\<close> looks at the default through it, so an
  entry for the empty module hides a default that no module can be resolved with.\<close>

lemma hidden_default:
  assumes "bus_cfg b = \<lparr> it_DefaultTransport = ''grpc'', it_CallTimeout = 0, it_Transports = [([], ''inproc'')], it_BaseURLs = [] \<rparr>"
  shows "interop_validate (bus_cfg b) = []" and "isl (Resolve_caller io b ''billing'' rt ev local)"
  by (simp_all add: assms interop_validate_empty interop_ok_def one_of_def transports_def TransportFor_def mode_names
      Resolve_caller_def)

end
