(* ===== verification/User_Domain.thy ===== *)
theory User_Domain
  imports Go_Runes Result
begin

text \<open>
  The domain of the demonstration module (internal/modules/user_registration/domain): addresses,
  passwords, users, the command and the event of a registration, and the errors as values.
\<close>

section \<open>Errors\<close>

datatype error_code = CodeInvalidEmail | CodeWeakPassword | CodeEmailAlreadyExists | CodeUnavailable | CodeInternal

record user_error =
  ue_Code :: error_code
  ue_Message :: str
  ue_Field :: str
  ue_cause :: "err option"

definition NewError :: "error_code \<Rightarrow> str \<Rightarrow> user_error" where
  "NewError code message = \<lparr> ue_Code = code, ue_Message = message, ue_Field = [], ue_cause = None \<rparr>"

definition WithField :: "user_error \<Rightarrow> str \<Rightarrow> user_error" where
  "WithField e field = e\<lparr> ue_Field := field \<rparr>"

definition WithCause :: "user_error \<Rightarrow> err \<Rightarrow> user_error" where
  "WithCause e cause = e\<lparr> ue_cause := Some cause \<rparr>"

primrec code_text :: "error_code \<Rightarrow> str" where
  "code_text CodeInvalidEmail = ''invalid_email''"
| "code_text CodeWeakPassword = ''weak_password''"
| "code_text CodeEmailAlreadyExists = ''email_already_exists''"
| "code_text CodeUnavailable = ''unavailable''"
| "code_text CodeInternal = ''internal''"

definition user_error_text :: "user_error \<Rightarrow> str" where
  "user_error_text e =
     (if ue_Field e \<noteq> [] then code_text (ue_Code e) @ '' ('' @ ue_Field e @ ''): '' @ ue_Message e
      else code_text (ue_Code e) @ '': '' @ ue_Message e)"

text \<open>The accented letters of the messages, in UTF-8.\<close>

definition e_acute :: str where "e_acute = [CHR 0xC3, CHR 0xA9]"
definition e_grave :: str where "e_grave = [CHR 0xC3, CHR 0xA8]"

section \<open>Addresses\<close>

definition emailMaxLen :: nat where "emailMaxLen = 254"

record email = em_value :: str

text \<open>
  \<open>mail.ParseAddress(s)\<close>, as far as it returns \<open>s\<close> itself as the address and no name: \<open>s\<close> is an
  \<open>addr-spec\<close>, a dot-atom, an \<open>@\<close> and a dot-atom or an address literal. Comments, quotes, spaces
  and angle brackets are accepted by the parser too, but then the address differs from \<open>s\<close>. Of a
  byte above 127 only that it is accepted in an atom is modelled, not that the bytes are valid
  UTF-8. \<open>is_ip\<close> is \<open>net.ParseIP\<close> on the content of a literal.
\<close>

definition is_atext :: "char \<Rightarrow> bool" where
  "is_atext c = (let n = of_char c :: nat in
     33 \<le> n \<and> n \<noteq> 127 \<and> c \<notin> set ''()<>[]:;@,'' \<and> n \<noteq> 92 \<and> n \<noteq> 34)"

fun no_double_dot :: "str \<Rightarrow> bool" where
  "no_double_dot (a # b # s) \<longleftrightarrow> \<not> (a = CHR ''.'' \<and> b = CHR ''.'') \<and> no_double_dot (b # s)"
| "no_double_dot s \<longleftrightarrow> True"

definition dot_atom :: "str \<Rightarrow> bool" where
  "dot_atom s \<longleftrightarrow> s \<noteq> [] \<and> list_all is_atext s \<and> hd s \<noteq> CHR ''.'' \<and> last s \<noteq> CHR ''.'' \<and> no_double_dot s"

definition address_literal :: "(str \<Rightarrow> bool) \<Rightarrow> str \<Rightarrow> bool" where
  "address_literal is_ip s \<longleftrightarrow> 2 \<le> length s \<and> hd s = CHR ''['' \<and> last s = CHR '']'' \<and> is_ip (butlast (tl s))"

definition parses_to_itself :: "(str \<Rightarrow> bool) \<Rightarrow> str \<Rightarrow> bool" where
  "parses_to_itself is_ip s =
     (case cut CHR ''@'' s of (local_part, domain_part, found) \<Rightarrow>
        found \<and> dot_atom local_part \<and> (dot_atom domain_part \<or> address_literal is_ip domain_part))"

definition NewEmail :: "(str \<Rightarrow> bool) \<Rightarrow> str \<Rightarrow> (email, user_error) result" where
  "NewEmail is_ip raw =
     (let normalized = normalize raw;
          invalid = (\<lambda>reason. Err (WithField (NewError CodeInvalidEmail reason) ''email''))
      in if normalized = [] then invalid ''l'adresse de courriel est obligatoire''
         else if length normalized > emailMaxLen then invalid ''l'adresse de courriel est trop longue''
         else if \<not> parses_to_itself is_ip normalized then invalid ''l'adresse de courriel n'est pas valide''
         else case cut CHR ''@'' normalized of (local_part, domain_part, found) \<Rightarrow>
           if \<not> found \<or> CHR ''.'' \<notin> set domain_part then invalid ''le domaine de l'adresse est incomplet''
           else Ok \<lparr> em_value = normalized \<rparr>)"

definition email_IsZero :: "email \<Rightarrow> bool" where
  "email_IsZero e \<longleftrightarrow> em_value e = []"

definition email_Masked :: "email \<Rightarrow> str" where
  "email_Masked e =
     (case cut CHR ''@'' (em_value e) of (local_part, domain_part, found) \<Rightarrow>
        if \<not> found \<or> local_part = [] then ''***'' else take 1 local_part @ ''***@'' @ domain_part)"

section \<open>Passwords\<close>

definition passwordMinLen :: nat where "passwordMinLen = 12"
definition passwordMaxLen :: nat where "passwordMaxLen = 128"

record raw_password = rp_value :: str

definition distinctRunes :: "str \<Rightarrow> nat" where
  "distinctRunes s = length (remdups (map lower_rune (runes s)))"

definition NewRawPassword :: "str \<Rightarrow> (raw_password, user_error) result" where
  "NewRawPassword raw =
     (let weak = (\<lambda>reason. Err (WithField (NewError CodeWeakPassword reason) ''password'')) in
      if length raw < passwordMinLen then weak (''le mot de passe doit faire au moins 12 caract'' @ e_grave @ ''res'')
      else if length raw > passwordMaxLen then weak (''le mot de passe ne peut pas d'' @ e_acute @ ''passer 128 caract'' @ e_grave @ ''res'')
      else if trim_space raw = [] then weak (''le mot de passe ne peut pas '' @ [CHR 0xC3, CHR 0xAA] @ ''tre compos'' @ e_acute @ '' d'espaces'')
      else if distinctRunes raw < 5 then weak (''le mot de passe est trop r'' @ e_acute @ ''p'' @ e_acute @ ''titif'')
      else Ok \<lparr> rp_value = raw \<rparr>)"

definition Expose :: "raw_password \<Rightarrow> str" where
  "Expose p = rp_value p"

definition raw_password_String :: "raw_password \<Rightarrow> str" where
  "raw_password_String p = ''[redacted]''"

record password_hash = ph_value :: str

definition NewPasswordHash :: "str \<Rightarrow> password_hash" where
  "NewPasswordHash encoded = \<lparr> ph_value = encoded \<rparr>"

section \<open>Users\<close>

datatype user_status = UserPending | UserActive | UserBlocked

record user =
  us_ID :: str
  us_Email :: email
  us_PasswordHash :: password_hash
  us_Status :: user_status
  us_CreatedAt :: time

definition NewUser :: "str \<Rightarrow> email \<Rightarrow> password_hash \<Rightarrow> time \<Rightarrow> user" where
  "NewUser ident em hash at = \<lparr> us_ID = ident, us_Email = em, us_PasswordHash = hash, us_Status = UserPending,
     us_CreatedAt = at \<rparr>"

definition WithStatus :: "user \<Rightarrow> user_status \<Rightarrow> user" where
  "WithStatus u st = u\<lparr> us_Status := st \<rparr>"

primrec CanAuthenticate_status :: "user_status \<Rightarrow> bool" where
  "CanAuthenticate_status UserActive = True"
| "CanAuthenticate_status UserPending = False"
| "CanAuthenticate_status UserBlocked = False"

definition CanAuthenticate :: "user \<Rightarrow> bool" where
  "CanAuthenticate u = CanAuthenticate_status (us_Status u)"

section \<open>The registration\<close>

record registration_command =
  rc_Email :: str
  rc_Password :: str

record valid_registration =
  vr_Email :: email
  vr_Password :: raw_password

definition ParseRegistration :: "(str \<Rightarrow> bool) \<Rightarrow> registration_command \<Rightarrow> (valid_registration, user_error) result" where
  "ParseRegistration is_ip cmd =
     fst (FlatMap (NewEmail is_ip (rc_Email cmd))
       (\<lambda>em w. Map (NewRawPassword (rc_Password cmd)) (pure (\<lambda>pw. \<lparr> vr_Email = em, vr_Password = pw \<rparr>)) w) ())"

definition EventUserRegistered :: str where "EventUserRegistered = ''user.registered.v1''"

record user_registered =
  ur_UserID :: str
  ur_Email :: str
  ur_RegisteredAt :: time

definition NewUserRegistered :: "user \<Rightarrow> user_registered" where
  "NewUserRegistered u = \<lparr> ur_UserID = us_ID u, ur_Email = em_value (us_Email u), ur_RegisteredAt = us_CreatedAt u \<rparr>"

section \<open>What is built is valid\<close>

lemma NewEmail_Ok: "NewEmail is_ip raw = Ok em \<longleftrightarrow>
    em_value em = normalize raw \<and> normalize raw \<noteq> [] \<and> length (normalize raw) \<le> emailMaxLen
    \<and> parses_to_itself is_ip (normalize raw) \<and> CHR ''.'' \<in> set (fst (snd (cut CHR ''@'' (normalize raw))))"
proof -
  obtain l d f where c: "cut CHR ''@'' (normalize raw) = (l, d, f)" by (cases "cut CHR ''@'' (normalize raw)")
  have "Ok \<lparr> em_value = normalize raw \<rparr> = Ok em \<longleftrightarrow> em_value em = normalize raw" by (cases em) auto
  moreover have "parses_to_itself is_ip (normalize raw) \<Longrightarrow> f" by (simp add: parses_to_itself_def c)
  ultimately show ?thesis unfolding NewEmail_def Let_def c by auto
qed

lemma NewEmail_Err: "NewEmail is_ip raw = Err e \<Longrightarrow> ue_Code e = CodeInvalidEmail \<and> ue_Field e = ''email''"
  by (auto simp: NewEmail_def Let_def NewError_def WithField_def split: prod.splits if_splits)

lemma NewRawPassword_Ok: "NewRawPassword raw = Ok p \<longleftrightarrow>
    rp_value p = raw \<and> passwordMinLen \<le> length raw \<and> length raw \<le> passwordMaxLen
    \<and> trim_space raw \<noteq> [] \<and> 5 \<le> distinctRunes raw"
  by (cases p) (auto simp: NewRawPassword_def Let_def)

lemma NewRawPassword_Err: "NewRawPassword raw = Err e \<Longrightarrow> ue_Code e = CodeWeakPassword \<and> ue_Field e = ''password''"
  by (auto simp: NewRawPassword_def Let_def NewError_def WithField_def split: if_splits)

lemma ParseRegistration_eq:
  "ParseRegistration is_ip cmd =
     (case NewEmail is_ip (rc_Email cmd) of
        Err e \<Rightarrow> Err e
      | Ok em \<Rightarrow> (case NewRawPassword (rc_Password cmd) of
          Err e \<Rightarrow> Err e
        | Ok pw \<Rightarrow> Ok \<lparr> vr_Email = em, vr_Password = pw \<rparr>))"
  by (simp add: ParseRegistration_def pure_def split: result.split)

lemma ParseRegistration_Ok: "ParseRegistration is_ip cmd = Ok \<lparr> vr_Email = em, vr_Password = pw \<rparr> \<longleftrightarrow>
    NewEmail is_ip (rc_Email cmd) = Ok em \<and> NewRawPassword (rc_Password cmd) = Ok pw"
  unfolding ParseRegistration_eq by (simp split: result.split)

lemma ParseRegistration_Err: "ParseRegistration is_ip cmd = Err e \<Longrightarrow> ue_Code e \<in> {CodeInvalidEmail, CodeWeakPassword}"
  unfolding ParseRegistration_eq by (auto dest: NewEmail_Err NewRawPassword_Err split: result.splits)

text \<open>An address has one spelling: what was built is read back as itself.\<close>

lemma NewEmail_fixed: "NewEmail is_ip raw = Ok em \<Longrightarrow> NewEmail is_ip (em_value em) = Ok em"
  unfolding NewEmail_Ok by simp

text \<open>The minimum counts bytes: six accented letters are the twelve characters of the message.\<close>

definition six_letters :: str where
  "six_letters = [CHR 0xC3, CHR 0xA9, CHR 0xC3, CHR 0xA8, CHR 0xC3, CHR 0xA0, CHR 0xC3, CHR 0xB9, CHR 0xC3, CHR 0xB4,
     CHR 0xC3, CHR 0xAE]"

lemma six_letters_accepted: "NewRawPassword six_letters = Ok \<lparr> rp_value = six_letters \<rparr>" and "rune_count six_letters = 6"
proof -
  have "trim_space six_letters \<noteq> []" "distinctRunes six_letters = 6" "length six_letters = 12"
    by code_simp+
  then show "NewRawPassword six_letters = Ok \<lparr> rp_value = six_letters \<rparr>"
    by (simp add: NewRawPassword_def passwordMinLen_def passwordMaxLen_def)
  show "rune_count six_letters = 6" by code_simp
qed

end
