(* ===== verification/User_Registration.thy ===== *)
theory User_Registration
  imports User_Domain Outbox_Memory Config_Module
begin

text \<open>
  The demonstration module (internal/modules/user_registration): the registration as a chain of
  steps over its ports, the memory driver, the publisher that writes to the outbox, the module
  assembled from them, and the HTTP and command line surfaces.
\<close>

section \<open>The use cases\<close>

text \<open>A port acts on a world \<open>'w\<close>.\<close>

type_synonym ('w, 'a) port_result = "'w \<Rightarrow> ('a, user_error) result \<times> 'w"

record 'w register_deps =
  rd_EmailIsTaken :: "email \<Rightarrow> ('w, bool) port_result"
  rd_HashPassword :: "raw_password \<Rightarrow> ('w, password_hash) port_result"
  rd_SaveUser :: "user \<Rightarrow> ('w, user) port_result"
  rd_PublishEvent :: "str \<Rightarrow> str \<Rightarrow> user_registered \<Rightarrow> ('w, unit) port_result"
  rd_GenerateID :: "'w \<Rightarrow> str \<times> 'w"
  rd_Now :: "'w \<Rightarrow> time \<times> 'w"

record reg_state =
  st_command :: registration_command
  st_registration :: valid_registration
  st_hash :: password_hash
  st_user :: user

definition zero_user :: user where
  "zero_user = \<lparr> us_ID = [], us_Email = \<lparr> em_value = [] \<rparr>, us_PasswordHash = \<lparr> ph_value = [] \<rparr>,
     us_Status = UserPending, us_CreatedAt = 0 \<rparr>"

definition start_state :: "registration_command \<Rightarrow> reg_state" where
  "start_state cmd = \<lparr> st_command = cmd,
     st_registration = \<lparr> vr_Email = \<lparr> em_value = [] \<rparr>, vr_Password = \<lparr> rp_value = [] \<rparr> \<rparr>,
     st_hash = \<lparr> ph_value = [] \<rparr>, st_user = zero_user \<rparr>"

type_synonym 'w reg_step = "('w, reg_state, (reg_state, user_error) result) effect"

definition step_validate :: "(str \<Rightarrow> bool) \<Rightarrow> 'w reg_step" where
  "step_validate is_ip s w = Map (ParseRegistration is_ip (st_command s)) (pure (\<lambda>r. s\<lparr> st_registration := r \<rparr>)) w"

definition already_registered :: user_error where
  "already_registered = WithField (NewError CodeEmailAlreadyExists
     (''cette adresse de courriel est d'' @ e_acute @ ''j'' @ [CHR 0xC3, CHR 0xA0] @ '' enregistr'' @ e_acute @ ''e'')) ''email''"

definition ensureEmailAvailable :: "'w register_deps \<Rightarrow> 'w reg_step" where
  "ensureEmailAvailable d s w =
     (case rd_EmailIsTaken d (vr_Email (st_registration s)) w of (r, w1) \<Rightarrow>
        FlatMap r (\<lambda>taken w. (if taken then Err already_registered else Ok s, w)) w1)"

definition step_hashPassword :: "'w register_deps \<Rightarrow> 'w reg_step" where
  "step_hashPassword d s w =
     (case rd_HashPassword d (vr_Password (st_registration s)) w of (r, w1) \<Rightarrow>
        Map r (pure (\<lambda>h. s\<lparr> st_hash := h \<rparr>)) w1)"

definition buildUser :: "'w register_deps \<Rightarrow> 'w reg_step" where
  "buildUser d s w =
     (case rd_GenerateID d w of (ident, w1) \<Rightarrow> case rd_Now d w1 of (now, w2) \<Rightarrow>
        (Ok (s\<lparr> st_user := NewUser ident (vr_Email (st_registration s)) (st_hash s) now \<rparr>), w2))"

definition persist :: "'w register_deps \<Rightarrow> 'w reg_step" where
  "persist d s w = (case rd_SaveUser d (st_user s) w of (r, w1) \<Rightarrow> Map r (pure (\<lambda>u. s\<lparr> st_user := u \<rparr>)) w1)"

definition step_publish :: "'w register_deps \<Rightarrow> 'w reg_step" where
  "step_publish d s w =
     (case rd_PublishEvent d EventUserRegistered (us_ID (st_user s)) (NewUserRegistered (st_user s)) w of (r, w1) \<Rightarrow>
        Map r (pure (\<lambda>_. s)) w1)"

definition NewRegisterUser :: "(str \<Rightarrow> bool) \<Rightarrow> 'w register_deps \<Rightarrow> registration_command \<Rightarrow> ('w, user) port_result" where
  "NewRegisterUser is_ip d cmd w =
     (case Chain (Ok (start_state cmd))
          [step_validate is_ip, ensureEmailAvailable d, step_hashPassword d, buildUser d, persist d, step_publish d] w of
        (final, w1) \<Rightarrow> Map final (pure st_user) w1)"

definition NewCheckEmailAvailability :: "(str \<Rightarrow> bool) \<Rightarrow> (email \<Rightarrow> ('w, bool) port_result) \<Rightarrow> str \<Rightarrow> ('w, bool) port_result" where
  "NewCheckEmailAvailability is_ip emailIsTaken raw w =
     FlatMap (NewEmail is_ip raw) (\<lambda>em w. case emailIsTaken em w of (r, w1) \<Rightarrow> Map r (pure Not) w1) w"

section \<open>The memory driver\<close>

type_synonym user_store = "(email, user) gomap"

definition user_Save :: "user \<Rightarrow> user_store \<Rightarrow> (user, user_error) result \<times> user_store" where
  "user_Save u s =
     (if map_get s (us_Email u) \<noteq> None then (Err already_registered, s) else (Ok u, map_set (us_Email u) u s))"

definition user_IsTaken :: "email \<Rightarrow> user_store \<Rightarrow> (bool, user_error) result" where
  "user_IsTaken em s = Ok (map_get s em \<noteq> None)"

definition user_FindByEmail :: "email \<Rightarrow> user_store \<Rightarrow> (user fp_option, user_error) result" where
  "user_FindByEmail em s = Ok (case map_get s em of None \<Rightarrow> None | Some u \<Rightarrow> Some u)"

definition user_Count :: "user_store \<Rightarrow> nat" where
  "user_Count s = length s"

section \<open>The secondary adapters\<close>

text \<open>\<open>hash\<close> is the hasher of the infrastructure.\<close>

definition hashing_New :: "(str \<Rightarrow> 'w \<Rightarrow> (err + str) \<times> 'w) \<Rightarrow> raw_password \<Rightarrow> ('w, password_hash) port_result" where
  "hashing_New hash pw w =
     (case hash (Expose pw) w of
        (Inl e, w1) \<Rightarrow> (Err (WithCause (NewError CodeInternal
           (''le mot de passe n'a pas pu '' @ [CHR 0xC3, CHR 0xAA] @ ''tre trait'' @ e_acute)) e), w1)
      | (Inr encoded, w1) \<Rightarrow> (Ok (NewPasswordHash encoded), w1))"

definition translate :: "err \<Rightarrow> error_code" where
  "translate e = (if errors_is e (Ctx Canceled) \<or> errors_is e (Ctx DeadlineExceeded) then CodeUnavailable else CodeInternal)"

text \<open>\<open>marshal\<close> is the JSON of the event.\<close>

definition outboxpub_New ::
    "(user_registered \<Rightarrow> err + bytes) \<Rightarrow> (new_message \<Rightarrow> 'w \<Rightarrow> (err + str) \<times> 'w) \<Rightarrow> str \<Rightarrow> str \<Rightarrow> user_registered \<Rightarrow> ('w, unit) port_result" where
  "outboxpub_New marshal enqueue eventType aggregateID payload w =
     (case marshal payload of
        Inl e \<Rightarrow> (Err (WithCause (NewError CodeInternal
          (''l'' @ [CHR 0x27] @ e_acute @ ''v'' @ e_acute @ ''nement d'inscription n'a pas pu '' @ [CHR 0xC3, CHR 0xAA] @ ''tre pr''
            @ e_acute @ ''par'' @ e_acute)) e), w)
      | Inr raw \<Rightarrow>
          (case enqueue \<lparr> nm_type = eventType, nm_aggregate_id = aggregateID, nm_payload = raw, nm_trace_parent = [],
               nm_headers = None \<rparr> w of
             (Inl e, w1) \<Rightarrow> (Err (WithCause (NewError (translate e)
               (''l'inscription n'a pas pu '' @ [CHR 0xC3, CHR 0xAA] @ ''tre enregistr'' @ e_acute @ ''e'')) e), w1)
           | (Inr i, w1) \<Rightarrow> (Ok (), w1)))"

section \<open>The module\<close>

definition user_Name :: str where "user_Name = ''user_registration''"
definition user_DriverMemory :: str where "user_DriverMemory = ''memory''"

text \<open>The world of the module over its memory store: the accounts, and everything else.\<close>

record 'x reg_world =
  rw_users :: user_store
  rw_rest :: 'x

record 'x user_module =
  um_Register :: "registration_command \<Rightarrow> ('x reg_world, user) port_result"
  um_CheckEmail :: "str \<Rightarrow> ('x reg_world, bool) port_result"

record 'x user_deps =
  ud_HashPassword :: "(raw_password \<Rightarrow> ('x reg_world, password_hash) port_result) option"
  ud_PublishEvent :: "(str \<Rightarrow> str \<Rightarrow> user_registered \<Rightarrow> ('x reg_world, unit) port_result) option"
  ud_GenerateID :: "('x reg_world \<Rightarrow> str \<times> 'x reg_world) option"
  ud_Now :: "('x reg_world \<Rightarrow> time \<times> 'x reg_world) option"

definition user_assemble ::
    "(str \<Rightarrow> bool) \<Rightarrow> (raw_password \<Rightarrow> ('x reg_world, password_hash) port_result) \<Rightarrow>
     (str \<Rightarrow> str \<Rightarrow> user_registered \<Rightarrow> ('x reg_world, unit) port_result) \<Rightarrow>
     ('x reg_world \<Rightarrow> str \<times> 'x reg_world) \<Rightarrow> ('x reg_world \<Rightarrow> time \<times> 'x reg_world) \<Rightarrow> 'x user_module" where
  "user_assemble is_ip hash publish newid now =
     (let taken = (\<lambda>em w. (user_IsTaken em (rw_users w), w)) in
      \<lparr> um_Register = NewRegisterUser is_ip
          \<lparr> rd_EmailIsTaken = taken, rd_HashPassword = hash,
            rd_SaveUser = (\<lambda>u w. case user_Save u (rw_users w) of (r, s) \<Rightarrow> (r, w\<lparr> rw_users := s \<rparr>)),
            rd_PublishEvent = publish, rd_GenerateID = newid, rd_Now = now \<rparr>,
        um_CheckEmail = NewCheckEmailAvailability is_ip taken \<rparr>)"

text \<open>Which missing dependency is named depends on the order of a map; \<open>pick\<close> is that order.\<close>

definition user_missing :: "'x user_deps \<Rightarrow> str list" where
  "user_missing d =
     (if Option.is_none (ud_HashPassword d) then [''HashPassword''] else [])
     @ (if Option.is_none (ud_PublishEvent d) then [''PublishEvent''] else [])
     @ (if Option.is_none (ud_GenerateID d) then [''GenerateID''] else [])
     @ (if Option.is_none (ud_Now d) then [''Now''] else [])"

definition user_validate :: "(str list \<Rightarrow> str) \<Rightarrow> 'x user_deps \<Rightarrow> err option" where
  "user_validate pick d =
     (if user_missing d = [] then None
      else Some (Errorf [W (Sentinel (Infra UserRegErrMissingDependency)), Lit ('': '' @ pick (user_missing d))]))"

definition New_user :: "(str list \<Rightarrow> str) \<Rightarrow> (str \<Rightarrow> bool) \<Rightarrow> str \<Rightarrow> 'x user_deps \<Rightarrow> err + 'x user_module" where
  "New_user pick is_ip drv d =
     (case user_validate pick d of
        Some e \<Rightarrow> Inl e
      | None \<Rightarrow>
          (if drv = [] \<or> drv = user_DriverMemory then
             Inr (user_assemble is_ip (the (ud_HashPassword d)) (the (ud_PublishEvent d)) (the (ud_GenerateID d)) (the (ud_Now d)))
           else Inl (Errorf [W (Sentinel (Infra UserRegErrUnknownDriver)), Lit ('': '' @ quote_text drv)])))"

definition disabledError :: user_error where
  "disabledError = WithCause (NewError CodeUnavailable ''l'inscription est indisponible'') (Sentinel (Infra UserRegErrDisabled))"

definition user_Disabled :: "'x user_module" where
  "user_Disabled = \<lparr> um_Register = (\<lambda>cmd w. (Err disabledError, w)), um_CheckEmail = (\<lambda>raw w. (Err disabledError, w)) \<rparr>"

definition user_Catalog :: module_catalog where
  "user_Catalog = [(user_Name, \<lparr> Default = user_DriverMemory, Drivers = [(user_DriverMemory, no_resources)] \<rparr>)]"

section \<open>What a registration does\<close>

text \<open>The chain, step after step, over the memory store.\<close>

lemma Register_eq:
  "um_Register (user_assemble is_ip hash publish newid now) cmd w =
     (case ParseRegistration is_ip cmd of
        Err e \<Rightarrow> (Err e, w)
      | Ok r \<Rightarrow>
          if map_get (rw_users w) (vr_Email r) \<noteq> None then (Err already_registered, w)
          else (case hash (vr_Password r) w of
             (Err e, w1) \<Rightarrow> (Err e, w1)
           | (Ok h, w1) \<Rightarrow>
               (case newid w1 of (i, w2) \<Rightarrow> case now w2 of (t, w3) \<Rightarrow>
                (case user_Save (NewUser i (vr_Email r) h t) (rw_users w3) of
                   (Err e, s) \<Rightarrow> (Err e, w3\<lparr> rw_users := s \<rparr>)
                 | (Ok u, s) \<Rightarrow>
                     (case publish EventUserRegistered (us_ID u) (NewUserRegistered u) (w3\<lparr> rw_users := s \<rparr>) of
                        (Err e, w4) \<Rightarrow> (Err e, w4)
                      | (Ok _, w4) \<Rightarrow> (Ok u, w4))))))"
  by (simp add: user_assemble_def NewRegisterUser_def step_validate_def ensureEmailAvailable_def step_hashPassword_def
      buildUser_def persist_def step_publish_def user_IsTaken_def start_state_def pure_def Let_def
      split: prod.split result.split)

text \<open>Hashing, publishing and the sources of identifiers and instants do not write accounts.\<close>

definition keeps_users :: "('x reg_world \<Rightarrow> 'r \<times> 'x reg_world) \<Rightarrow> bool" where
  "keeps_users f \<longleftrightarrow> (\<forall>w. rw_users (snd (f w)) = rw_users w)"

lemma keeps_usersD: "keeps_users f \<Longrightarrow> f w = (r, w') \<Longrightarrow> rw_users w' = rw_users w"
  unfolding keeps_users_def by (metis snd_conv)

lemma Register_cases:
  assumes keep: "\<And>pw. keeps_users (hash pw)" "\<And>ty ag ev. keeps_users (publish ty ag ev)" "keeps_users newid" "keeps_users now"
    and run: "um_Register (user_assemble is_ip hash publish newid now) cmd w = (r, w')"
  shows "(\<exists>e. r = Err e \<and> rw_users w' = rw_users w)
     \<or> (\<exists>em pw u h w0 w1. NewEmail is_ip (rc_Email cmd) = Ok em \<and> NewRawPassword (rc_Password cmd) = Ok pw
          \<and> map_get (rw_users w) em = None \<and> hash pw w = (Ok h, w0)
          \<and> u = NewUser (us_ID u) em h (us_CreatedAt u) \<and> rw_users w' = map_set em u (rw_users w) \<and> rw_users w1 = rw_users w'
          \<and> (publish EventUserRegistered (us_ID u) (NewUserRegistered u) w1 = (Ok (), w') \<and> r = Ok u
             \<or> (\<exists>e. publish EventUserRegistered (us_ID u) (NewUserRegistered u) w1 = (Err e, w') \<and> r = Err e)))"
proof (cases "ParseRegistration is_ip cmd")
  case (Err e)
  then show ?thesis using run by (auto simp: Register_eq)
next
  case (Ok p)
  obtain em pw where p: "p = \<lparr> vr_Email = em, vr_Password = pw \<rparr>" by (cases p)
  then have parsed: "NewEmail is_ip (rc_Email cmd) = Ok em" "NewRawPassword (rc_Password cmd) = Ok pw"
    using Ok by (simp_all add: ParseRegistration_Ok)
  show ?thesis
  proof (cases "map_get (rw_users w) em")
    case (Some u)
    then show ?thesis using run Ok p by (auto simp: Register_eq)
  next
    case None
    obtain hr w0 where h: "hash pw w = (hr, w0)" by (cases "hash pw w")
    obtain i w2 where i: "newid w0 = (i, w2)" by (cases "newid w0")
    obtain t w3 where t: "now w2 = (t, w3)" by (cases "now w2")
    have w0: "rw_users w0 = rw_users w" using keeps_usersD [OF keep(1) h] .
    have w3: "rw_users w3 = rw_users w"
      using w0 keeps_usersD [OF keep(3) i] keeps_usersD [OF keep(4) t] by simp
    show ?thesis
    proof (cases hr)
      case (Err e)
      then show ?thesis using run Ok p None h w0 by (auto simp: Register_eq)
    next
      case hOk: (Ok h0)
      let ?u = "NewUser i em h0 t"
      let ?w4 = "w3\<lparr> rw_users := map_set em ?u (rw_users w) \<rparr>"
      obtain q w5 where q: "publish EventUserRegistered (us_ID ?u) (NewUserRegistered ?u) ?w4 = (q, w5)"
        by (cases "publish EventUserRegistered (us_ID ?u) (NewUserRegistered ?u) ?w4")
      have "user_Save ?u (rw_users w3) = (Ok ?u, map_set em ?u (rw_users w))"
        using None w3 by (simp add: user_Save_def NewUser_def)
      then have "(r, w') = (case q of Err e \<Rightarrow> (Err e, w5) | Ok _ \<Rightarrow> (Ok ?u, w5))"
        using run Ok p None h hOk i t q by (simp add: Register_eq)
      moreover have "rw_users w5 = rw_users ?w4" using keeps_usersD [OF keep(2) q] .
      ultimately have "rw_users w' = map_set em ?u (rw_users w) \<and> w' = w5
          \<and> (q = Ok () \<and> r = Ok ?u \<or> (\<exists>e. q = Err e \<and> r = Err e))"
        by (cases q) auto
      then show ?thesis
        using parsed None h hOk q by (intro disjI2 exI [of _ em] exI [of _ pw] exI [of _ ?u] exI [of _ h0] exI [of _ w0] exI [of _ ?w4])
          (auto simp: NewUser_def)
    qed
  qed
qed


definition alice :: user where
  "alice = \<lparr> us_ID = ''u1'', us_Email = \<lparr> em_value = ''alice@example.com'' \<rparr>, us_PasswordHash = \<lparr> ph_value = ''h'' \<rparr>,
     us_Status = UserActive, us_CreatedAt = 0 \<rparr>"

definition demo_register :: "registration_command \<Rightarrow> (nat reg_world, user) port_result" where
  "demo_register = um_Register (user_assemble (\<lambda>_. False) (\<lambda>pw w. (Ok \<lparr> ph_value = ''h'' \<rparr>, w))
     (\<lambda>ty ag ev w. (Ok (), w\<lparr> rw_rest := rw_rest w + 1 \<rparr>)) (Pair ''u2'') (Pair 7))"


end
