(* ===== verification/User_Surfaces.thy ===== *)
theory User_Surfaces
  imports User_Registration
begin

text \<open>
  The two surfaces of the registration (internal/modules/user_registration/adapters/primary): HTTP
  and the command line, with the exit codes of internal/pkg/exit. The routing, the JSON and the
  documentation of the framework are outside: a handler takes the decoded input.
\<close>

section \<open>HTTP\<close>

record error_detail =
  ed_Location :: str
  ed_Message :: str

record user_http_error =
  uh_Status :: nat
  uh_Message :: str
  uh_Detail :: "error_detail option"

definition fieldDetail :: "user_error \<Rightarrow> error_detail option" where
  "fieldDetail e =
     (if ue_Field e = [] then None else Some \<lparr> ed_Location = ''body.'' @ ue_Field e, ed_Message = ue_Message e \<rparr>)"

definition user_statusFor :: "user_error \<Rightarrow> user_http_error" where
  "user_statusFor e =
     (case ue_Code e of
        CodeInvalidEmail \<Rightarrow> \<lparr> uh_Status = 422, uh_Message = ue_Message e, uh_Detail = fieldDetail e \<rparr>
      | CodeWeakPassword \<Rightarrow> \<lparr> uh_Status = 422, uh_Message = ue_Message e, uh_Detail = fieldDetail e \<rparr>
      | CodeEmailAlreadyExists \<Rightarrow> \<lparr> uh_Status = 409, uh_Message = ue_Message e, uh_Detail = fieldDetail e \<rparr>
      | CodeUnavailable \<Rightarrow> \<lparr> uh_Status = 503, uh_Message = ue_Message e, uh_Detail = None \<rparr>
      | CodeInternal \<Rightarrow> \<lparr> uh_Status = 500, uh_Message = ''une erreur interne est survenue'', uh_Detail = None \<rparr>)"

primrec status_text :: "user_status \<Rightarrow> str" where
  "status_text UserPending = ''pending''"
| "status_text UserActive = ''active''"
| "status_text UserBlocked = ''blocked''"

record register_response =
  rr_UserID :: str
  rr_Email :: str
  rr_Status :: str
  rr_CreatedAt :: time

text \<open>The status and the body of an answer.\<close>

definition register_handler :: "'x user_module \<Rightarrow> str \<Rightarrow> str \<Rightarrow> 'x reg_world \<Rightarrow> (user_http_error + nat \<times> register_response) \<times> 'x reg_world" where
  "register_handler md em pw w =
     (case um_Register md \<lparr> rc_Email = em, rc_Password = pw \<rparr> w of
        (Err failure, w1) \<Rightarrow> (Inl (user_statusFor failure), w1)
      | (Ok u, w1) \<Rightarrow> (Inr (201, \<lparr> rr_UserID = us_ID u, rr_Email = em_value (us_Email u), rr_Status = status_text (us_Status u),
            rr_CreatedAt = us_CreatedAt u \<rparr>), w1))"

definition availability_handler :: "'x user_module \<Rightarrow> str \<Rightarrow> 'x reg_world \<Rightarrow> (user_http_error + bool) \<times> 'x reg_world" where
  "availability_handler md em w =
     (case um_CheckEmail md em w of
        (Err failure, w1) \<Rightarrow> (Inl (user_statusFor failure), w1)
      | (Ok available, w1) \<Rightarrow> (Inr available, w1))"

section \<open>The command line\<close>

definition exit_OK :: nat where "exit_OK = 0"
definition exit_Usage :: nat where "exit_Usage = 64"
definition exit_DataErr :: nat where "exit_DataErr = 65"
definition exit_Unavailable :: nat where "exit_Unavailable = 69"
definition exit_Software :: nat where "exit_Software = 70"

definition codeFor :: "user_error \<Rightarrow> nat" where
  "codeFor e =
     (case ue_Code e of
        CodeInvalidEmail \<Rightarrow> exit_DataErr
      | CodeWeakPassword \<Rightarrow> exit_DataErr
      | CodeEmailAlreadyExists \<Rightarrow> exit_DataErr
      | CodeUnavailable \<Rightarrow> exit_Unavailable
      | CodeInternal \<Rightarrow> exit_Software)"

text \<open>What a command wrote: its standard output and its standard error, line by line.\<close>

record console =
  con_out :: "str list"
  con_err :: "str list"

definition say_out :: "str \<Rightarrow> console \<Rightarrow> console" where
  "say_out l c = c\<lparr> con_out := con_out c @ [l] \<rparr>"

definition say_err :: "str \<Rightarrow> console \<Rightarrow> console" where
  "say_err l c = c\<lparr> con_err := con_err c @ [l] \<rparr>"

text \<open>An input is the bytes that can be read and the error that ends them, nil at the end of the
  file. The secret is the first line, read byte by byte.\<close>

definition readSecret :: "(bytes \<times> err option) option \<Rightarrow> err + str" where
  "readSecret input =
     (case input of
        None \<Rightarrow> Inl (Opaque ''no standard input: the secret is read from stdin'')
      | Some (bs, fault) \<Rightarrow>
          (let secret = takeWhile (\<lambda>c. c \<noteq> CHR 0x0A) bs; complete = CHR 0x0A \<in> set bs;
               line = rev (dropWhile (\<lambda>c. c = CHR 0x0D) (rev secret))
           in case (complete, fault) of
                (False, Some e) \<Rightarrow> Inl (Errorf [Lit ''reading the secret: '', W e])
              | _ \<Rightarrow> if line = [] then Inl (Opaque ''empty secret: nothing was read from standard input'') else Inr line))"

text \<open>\<open>flag.FlagSet.Parse\<close> on a set with the one string flag \<open>name\<close>: its value, or a usage error.\<close>

fun parse_flag :: "str \<Rightarrow> str list \<Rightarrow> str \<Rightarrow> str option" where
  "parse_flag name [] v = Some v"
| "parse_flag name (s # args) v =
     (if length s < 2 \<or> hd s \<noteq> CHR ''-'' then Some v
      else if s = ''--'' then Some v
      else (let body = (if s ! 1 = CHR ''-'' then drop 2 s else drop 1 s) in
        if hd body = CHR ''-'' \<or> hd body = CHR ''='' then None
        else (case cut (CHR ''='') body of (nm, given, has) \<Rightarrow>
          if nm \<noteq> name then None
          else if has then parse_flag name args given
          else (case args of [] \<Rightarrow> None | a # rest \<Rightarrow> parse_flag name rest a))))"

definition registerAccount :: "'x user_module \<Rightarrow> str \<Rightarrow> str \<Rightarrow> console \<times> 'x reg_world \<Rightarrow> nat \<times> console \<times> 'x reg_world" where
  "registerAccount md em secret = (\<lambda>(con, w).
     (case um_Register md \<lparr> rc_Email = em, rc_Password = secret \<rparr> w of
        (Err failure, w1) \<Rightarrow>
          (let con1 = say_err (''error: '' @ ue_Message failure) con;
               con2 = (if ue_Field failure \<noteq> [] then say_err (''field: '' @ ue_Field failure) con1 else con1)
           in (codeFor failure, con2, w1))
      | (Ok u, w1) \<Rightarrow>
          (exit_OK, say_out (us_ID u @ CHR 0x09 # em_value (us_Email u) @ CHR 0x09 # status_text (us_Status u)) con, w1)))"

text \<open>\<open>usage\<close> is what the flag set prints.\<close>

definition cli_Register ::
    "'x user_module \<Rightarrow> (console \<Rightarrow> console) \<Rightarrow> str list \<Rightarrow> (bytes \<times> err option) option \<Rightarrow> console \<times> 'x reg_world \<Rightarrow> nat \<times> console \<times> 'x reg_world" where
  "cli_Register md usage args input cw =
     (case parse_flag ''email'' args [] of
        None \<Rightarrow> (exit_Usage, usage (fst cw), snd cw)
      | Some em \<Rightarrow>
          (if em = [] then (exit_Usage, usage (say_err ''error: --email is mandatory'' (fst cw)), snd cw)
           else (case readSecret input of
              Inl e \<Rightarrow> (exit_Usage, say_err (''error: '' @ err_text e) (fst cw), snd cw)
            | Inr secret \<Rightarrow> registerAccount md em secret cw)))"

definition profiles :: "(str, nat) gomap" where
  "profiles = [(''dev'', 3), (''demo'', 25)]"

definition seedSecret :: str where "seedSecret = ''graine-de-developpement''"

text \<open>\<open>%02d\<close> of a count.\<close>

definition two_digits :: "nat \<Rightarrow> str" where
  "two_digits n = (if n < 10 then digit 0 # show_nat n else show_nat n)"

definition seed_email :: "str \<Rightarrow> nat \<Rightarrow> str" where
  "seed_email profile i = profile @ CHR ''-'' # two_digits i @ ''@example.test''"

text \<open>The loop from account \<open>i\<close> with \<open>left\<close> to go.\<close>

fun populate :: "'x user_module \<Rightarrow> str \<Rightarrow> nat \<Rightarrow> nat \<Rightarrow> console \<times> 'x reg_world \<Rightarrow> nat \<times> console \<times> 'x reg_world" where
  "populate md profile i 0 cw =
     (exit_OK, say_err (''profile '' @ profile @ '': '' @ show_nat (i - 1) @ '' account(s) created'') (fst cw), snd cw)"
| "populate md profile i (Suc left) cw =
     (case registerAccount md (seed_email profile i) seedSecret cw of
        (code, cw1) \<Rightarrow>
          if code \<noteq> exit_OK then
            (code, say_err (''seeding interrupted after '' @ show_nat (i - 1) @ '' account(s) out of '' @ show_nat (i + left)) (fst cw1), snd cw1)
          else populate md profile (Suc i) left cw1)"

definition Seed :: "'x user_module \<Rightarrow> (console \<Rightarrow> console) \<Rightarrow> str list \<Rightarrow> console \<times> 'x reg_world \<Rightarrow> nat \<times> console \<times> 'x reg_world" where
  "Seed md usage args cw =
     (case parse_flag ''profile'' args ''dev'' of
        None \<Rightarrow> (exit_Usage, usage (fst cw), snd cw)
      | Some profile \<Rightarrow>
          (case map_get profiles profile of
             None \<Rightarrow> (exit_Usage, say_err (''error: unknown profile '' @ quote_text profile @ '' '' @ em_dash @ '' expected dev or demo'') (fst cw), snd cw)
           | Some count \<Rightarrow> populate md profile 1 count cw))"

section \<open>The surfaces agree\<close>


text \<open>A second seeding with the same profile stops at its first account.\<close>

lemma seeding_twice_stops:
  assumes "fst (um_Register md \<lparr> rc_Email = seed_email profile 1, rc_Password = seedSecret \<rparr> w) = Err already_registered" and "0 < n"
  shows "fst (populate md profile 1 n (con, w)) = exit_DataErr"
proof -
  obtain k where "n = Suc k" using assms(2) by (cases n) auto
  moreover obtain w1 where "um_Register md \<lparr> rc_Email = seed_email profile 1, rc_Password = seedSecret \<rparr> w = (Err already_registered, w1)"
    using assms(1) by (cases "um_Register md \<lparr> rc_Email = seed_email profile 1, rc_Password = seedSecret \<rparr> w") auto
  ultimately show ?thesis
    by (simp add: registerAccount_def codeFor_def already_registered_def NewError_def WithField_def exit_DataErr_def exit_OK_def Let_def)
qed

end
