(* ===== verification/Go_Path.thy ===== *)
theory Go_Path
  imports Go_Prelude
begin

text \<open>
  The lexical part of the packages \<open>path\<close> and \<open>path/filepath\<close> on a system that separates with \<open>/\<close>:
  \<open>Clean\<close>, \<open>Base\<close>, \<open>Dir\<close> and \<open>Join\<close>, on the components of a path.
\<close>

abbreviation slash :: char where "slash \<equiv> CHR ''/''"

fun join_path :: "str list \<Rightarrow> str" where
  "join_path [] = []"
| "join_path [c] = c"
| "join_path (c # d # cs) = c @ slash # join_path (d # cs)"

text \<open>One component, on the stack of those kept, innermost first.\<close>

definition clean_step :: "bool \<Rightarrow> str list \<Rightarrow> str \<Rightarrow> str list" where
  "clean_step rooted out c =
     (if c = [] \<or> c = ''.'' then out
      else if c = ''..'' then
        (case out of [] \<Rightarrow> if rooted then [] else [c] | d # ds \<Rightarrow> if d = ''..'' then c # out else ds)
      else c # out)"

definition is_rooted :: "str \<Rightarrow> bool" where
  "is_rooted s \<longleftrightarrow> s \<noteq> [] \<and> hd s = slash"

definition clean_components :: "str \<Rightarrow> str list" where
  "clean_components s = rev (foldl (clean_step (is_rooted s)) [] (split_char slash s))"

definition path_Clean :: "str \<Rightarrow> str" where
  "path_Clean s =
     (let body = join_path (clean_components s) in
      if is_rooted s then slash # body else if body = [] then ''.'' else body)"

definition path_Base :: "str \<Rightarrow> str" where
  "path_Base s =
     (if s = [] then ''.''
      else (let t = rev (dropWhile (\<lambda>c. c = slash) (rev s)) in
        if t = [] then [slash] else last (split_char slash t)))"

definition path_Join :: "str \<Rightarrow> str \<Rightarrow> str" where
  "path_Join a b =
     (if a = [] \<and> b = [] then [] else if a = [] then path_Clean b else if b = [] then path_Clean a
      else path_Clean (a @ slash # b))"

section \<open>Components\<close>

text \<open>A component that cleaning keeps as it is.\<close>

definition plain :: "str \<Rightarrow> bool" where
  "plain c \<longleftrightarrow> c \<noteq> [] \<and> c \<noteq> ''.'' \<and> c \<noteq> ''..'' \<and> slash \<notin> set c"

lemma split_char_nonempty [simp]: "split_char c s \<noteq> []"
  by (cases s) (auto split: list.split)

lemma split_char_none: "c \<notin> set s \<Longrightarrow> split_char c s = [s]"
  by (induction s) auto

lemma split_char_append: "c \<notin> set a \<Longrightarrow> split_char c (a @ c # b) = a # split_char c b"
  by (induction a) auto

lemma split_join_path:
  "cs \<noteq> [] \<Longrightarrow> list_all (\<lambda>c. slash \<notin> set c) cs \<Longrightarrow> split_char slash (join_path cs) = cs"
  by (induction cs rule: join_path.induct) (auto simp: split_char_none split_char_append)

lemma join_split_path: "join_path (split_char slash s) = s"
proof (induction s)
  case (Cons x s)
  obtain a as where s: "split_char slash s = a # as" by (cases "split_char slash s") auto
  then show ?case using Cons by (cases as) auto
qed simp

lemma clean_step_plain: "plain c \<Longrightarrow> clean_step r out c = c # out"
  by (auto simp: clean_step_def plain_def)

lemma clean_plain: "list_all plain cs \<Longrightarrow> foldl (clean_step r) out cs = rev cs @ out"
  by (induction cs arbitrary: out) (auto simp: clean_step_plain)

lemma join_path_Cons: "cs \<noteq> [] \<Longrightarrow> join_path (c # cs) = c @ slash # join_path cs"
  by (cases cs) auto

lemma join_path_append: "as \<noteq> [] \<Longrightarrow> bs \<noteq> [] \<Longrightarrow> join_path (as @ bs) = join_path as @ slash # join_path bs"
  by (induction as rule: join_path.induct) (auto simp: join_path_Cons)

lemma split_append_slash: "split_char slash (a @ slash # b) = split_char slash a @ split_char slash b"
  by (induction a) (auto split: list.splits)

text \<open>What is left after cleaning: some steps up, none in a rooted path, and plain components.\<close>

lemma clean_components_shape:
  "\<exists>k cs. clean_components s = replicate k ''..'' @ cs \<and> list_all plain cs \<and> (is_rooted s \<longrightarrow> k = 0)"
proof -
  have "\<exists>k cs. foldl (clean_step r) (rev cs0 @ replicate k0 ''..'') xs = rev cs @ replicate k ''..'' \<and> list_all plain cs \<and> (r \<longrightarrow> k = 0)"
    if "list_all (\<lambda>c. slash \<notin> set c) xs" "list_all plain cs0" "r \<longrightarrow> k0 = 0" for r xs cs0 k0
    using that
  proof (induction xs arbitrary: cs0 k0)
    case (Cons x xs)
    consider "x = [] \<or> x = ''.''" | "x = ''..''" | "plain x" using Cons.prems(1) by (auto simp: plain_def)
    then show ?case
    proof cases
      case 1
      then show ?thesis using Cons by (simp add: clean_step_def)
    next
      case 3
      then have "foldl (clean_step r) (rev cs0 @ replicate k0 ''..'') (x # xs) = foldl (clean_step r) (rev (cs0 @ [x]) @ replicate k0 ''..'') xs"
        by (simp add: clean_step_plain)
      then show ?thesis using Cons.IH [of "cs0 @ [x]" k0] Cons.prems 3 by simp
    next
      case 2
      show ?thesis
      proof (cases cs0 rule: rev_cases)
        case Nil
        show ?thesis
        proof (cases "r \<or> k0 = 0")
          case True
          then have "foldl (clean_step r) (rev cs0 @ replicate k0 ''..'') (x # xs)
              = foldl (clean_step r) (rev [] @ replicate (if r then 0 else 1) ''..'') xs"
            using 2 Nil Cons.prems(3) by (auto simp: clean_step_def)
          then show ?thesis using Cons.IH [of "[]" "if r then 0 else 1"] Cons.prems by simp
        next
          case False
          then have "foldl (clean_step r) (rev cs0 @ replicate k0 ''..'') (x # xs) = foldl (clean_step r) (rev [] @ replicate (Suc k0) ''..'') xs"
            using 2 Nil by (cases k0) (auto simp: clean_step_def)
          then show ?thesis using Cons.IH [of "[]" "Suc k0"] Cons.prems False by simp
        qed
      next
        case (snoc ds d)
        then have "foldl (clean_step r) (rev cs0 @ replicate k0 ''..'') (x # xs) = foldl (clean_step r) (rev ds @ replicate k0 ''..'') xs"
          using 2 Cons.prems(2) by (simp add: clean_step_def plain_def)
        then show ?thesis using Cons.IH [of ds k0] Cons.prems snoc by simp
      qed
    qed
  qed auto
  from this [of "split_char slash s" "[]" "is_rooted s" 0]
  obtain k cs where "foldl (clean_step (is_rooted s)) [] (split_char slash s) = rev cs @ replicate k ''..''" "list_all plain cs" "is_rooted s \<longrightarrow> k = 0"
    by (auto simp: list_all_iff dest: split_char_segments)
  then show ?thesis unfolding clean_components_def by (intro exI [of _ k] exI [of _ cs]) simp
qed

lemma join_clean_empty: "join_path (clean_components s) = [] \<longleftrightarrow> clean_components s = []"
proof -
  obtain k cs where cc: "clean_components s = replicate k ''..'' @ cs" and pl: "list_all plain cs"
    using clean_components_shape by blast
  have "[] \<notin> set cs" using pl by (auto simp: list_all_iff plain_def)
  then have "[] \<notin> set (clean_components s)" by (auto simp: cc)
  then show ?thesis by (cases "clean_components s" rule: join_path.cases) simp_all
qed

section \<open>Cleaning twice\<close>

lemma is_rooted_join: "list_all (\<lambda>c. c \<noteq> [] \<and> slash \<notin> set c) cs \<Longrightarrow> \<not> is_rooted (join_path cs)"
  by (cases cs rule: join_path.cases) (auto simp: is_rooted_def neq_Nil_conv)

lemma clean_ups: "foldl (clean_step False) (replicate n ''..'') (replicate k ''..'') = replicate (n + k) ''..''"
proof (induction k arbitrary: n)
  case (Suc k)
  have "clean_step False (replicate n ''..'') ''..'' = replicate (Suc n) ''..''"
    by (cases n) (simp_all add: clean_step_def)
  then show ?case using Suc [of "Suc n"] by simp
qed simp

lemma clean_components_rooted: "list_all plain cs \<Longrightarrow> clean_components (slash # join_path cs) = cs"
  by (cases "cs = []") (simp_all add: clean_components_def clean_step_def is_rooted_def clean_plain split_join_path plain_def list_all_iff)

lemma clean_components_relative:
  assumes "list_all plain cs" and "replicate k ''..'' @ cs \<noteq> []"
  shows "clean_components (join_path (replicate k ''..'' @ cs)) = replicate k ''..'' @ cs
     \<and> \<not> is_rooted (join_path (replicate k ''..'' @ cs))"
proof -
  have ok: "list_all (\<lambda>c. c \<noteq> [] \<and> slash \<notin> set c) (replicate k ''..'' @ cs)"
    using list.pred_mono_strong [OF assms(1), of "\<lambda>c. c \<noteq> [] \<and> slash \<notin> set c"]
    by (induction k) (simp_all add: plain_def)
  have ns: "list_all (\<lambda>c. slash \<notin> set c) (replicate k ''..'' @ cs)"
    by (rule list.pred_mono_strong [OF ok]) simp
  have r: "\<not> is_rooted (join_path (replicate k ''..'' @ cs))" by (rule is_rooted_join [OF ok])
  have "foldl (clean_step False) [] (replicate k ''..'' @ cs) = rev cs @ replicate k ''..''"
    using clean_ups [of 0 k] by (simp add: clean_plain [OF assms(1)])
  then show ?thesis using r by (simp add: clean_components_def split_join_path [OF assms(2) ns])
qed

lemma Clean_again: "clean_components (path_Clean s) = clean_components s \<and> is_rooted (path_Clean s) = is_rooted s"
proof -
  obtain k cs where cc: "clean_components s = replicate k ''..'' @ cs" and pl: "list_all plain cs"
    and r: "is_rooted s \<longrightarrow> k = 0" using clean_components_shape by blast
  show ?thesis
  proof (cases "is_rooted s")
    case True
    then show ?thesis using cc r clean_components_rooted [OF pl] by (simp add: path_Clean_def is_rooted_def)
  next
    case False
    show ?thesis
    proof (cases "clean_components s = []")
      case True
      then show ?thesis using False by (simp add: path_Clean_def is_rooted_def clean_components_def clean_step_def)
    next
      case ne: False
      then have "path_Clean s = join_path (replicate k ''..'' @ cs)"
        using False cc join_clean_empty [of s] by (simp add: path_Clean_def Let_def)
      then show ?thesis using clean_components_relative [OF pl] ne False cc by metis
    qed
  qed
qed

lemma Clean_nonempty: "path_Clean s \<noteq> []"
  by (simp add: path_Clean_def Let_def)

text \<open>The components kept are components of the path.\<close>

lemma clean_fold_subset: "set (foldl (clean_step r) out xs) \<subseteq> set out \<union> set xs"
proof (induction xs arbitrary: out)
  case (Cons x xs)
  have "set (clean_step r out x) \<subseteq> set out \<union> {x}" by (auto simp: clean_step_def split: list.split)
  then show ?case using Cons [of "clean_step r out x"] by auto
qed simp

lemma clean_components_subset: "set (clean_components s) \<subseteq> set (split_char slash s)"
  using clean_fold_subset [of "is_rooted s" "[]" "split_char slash s"] by (simp add: clean_components_def)

lemma chars_of_split: "seg \<in> set (split_char c s) \<Longrightarrow> set seg \<subseteq> set s"
  by (induction s arbitrary: seg) (force split: if_splits list.splits)+

lemma set_join_path: "set (join_path cs) \<subseteq> (\<Union>c \<in> set cs. set c) \<union> {slash}"
  by (induction cs rule: join_path.induct) auto

lemma chars_of_Clean: "set (path_Clean s) \<subseteq> set s \<union> {slash, CHR ''.''}"
proof -
  have "set (join_path (clean_components s)) \<subseteq> set s \<union> {slash}"
    using set_join_path [of "clean_components s"] clean_components_subset [of s] chars_of_split [of _ slash s] by blast
  then show ?thesis by (auto simp: path_Clean_def Let_def)
qed

lemma path_Base_component:
  "set (path_Base s) \<subseteq> set s \<union> {CHR ''.''} \<and> (path_Base s \<noteq> [slash] \<longrightarrow> slash \<notin> set (path_Base s))"
proof -
  let ?t = "rev (dropWhile (\<lambda>c. c = slash) (rev s))"
  have sub: "set ?t \<subseteq> set s"
  proof
    fix x assume "x \<in> set ?t"
    then have "x \<in> set (dropWhile (\<lambda>c. c = slash) (rev s))" by (simp only: set_rev)
    then show "x \<in> set s" by (metis set_dropWhileD set_rev)
  qed
  have seg: "last (split_char slash ?t) \<in> set (split_char slash ?t)" by simp
  consider "s = []" | "s \<noteq> []" "?t = []" | "s \<noteq> []" "?t \<noteq> []" by blast
  then show ?thesis
  proof cases
    case 1
    then show ?thesis by (simp add: path_Base_def)
  next
    case 2
    have "\<forall>x \<in> set s. x = slash" using 2(2) by (simp add: dropWhile_eq_Nil_conv)
    then have "slash \<in> set s" using list.set_sel(1) [OF 2(1)] by metis
    moreover have "path_Base s = [slash]" by (simp only: path_Base_def Let_def 2 if_True if_False refl)
    ultimately show ?thesis by simp
  next
    case 3
    then have "path_Base s = last (split_char slash ?t)" by (simp only: path_Base_def Let_def if_False)
    then show ?thesis using sub chars_of_split [OF seg] split_char_segments [OF seg] by (metis Un_iff subset_iff)
  qed
qed

text \<open>The place of a path joined below a directory.\<close>

lemma resolve_below:
  assumes "list_all plain cs" and "cs \<noteq> []" and "d \<noteq> []"
  shows "is_rooted (path_Join d (join_path cs)) = is_rooted d
     \<and> clean_components (path_Join d (join_path cs)) = clean_components d @ cs"
proof -
  have np: "join_path cs \<noteq> []" using assms(1,2) by (cases cs rule: join_path.cases) (auto simp: plain_def)
  have ns: "list_all (\<lambda>c. slash \<notin> set c) cs" using assms(1) by (auto simp: plain_def list_all_iff)
  have r: "is_rooted (d @ slash # join_path cs) = is_rooted d" using assms(3) by (simp add: is_rooted_def)
  have "clean_components (d @ slash # join_path cs) = clean_components d @ cs"
    using clean_plain [OF assms(1)] by (simp add: clean_components_def r split_append_slash split_join_path [OF assms(2) ns])
  then show ?thesis using Clean_again [of "d @ slash # join_path cs"] r np assms(3) by (simp add: path_Join_def)
qed

end
