(* ===== verification/Storage.thy ===== *)
theory Storage
  imports Go_Path Config_Module
begin

text \<open>
  Object storage (internal/core/storage): the key derived from a name, the check of a key that comes
  from outside, the disk driver over a file system, and the mounted module.
\<close>

section \<open>Keys\<close>

text \<open>\<open>strings.ReplaceAll(s, "\\", "/")\<close>; the backslash is the byte 92.\<close>

definition to_slash :: "str \<Rightarrow> str" where
  "to_slash s = map (\<lambda>c. if c = CHR 0x5C then slash else c) s"

definition hex_digit :: "nat \<Rightarrow> char" where
  "hex_digit n = (if n < 10 then char_of (48 + n) else char_of (87 + n))"

definition hex_encode :: "bytes \<Rightarrow> str" where
  "hex_encode bs = concat (map (\<lambda>c. let n = of_char c :: nat in [hex_digit (n div 16), hex_digit (n mod 16)]) bs)"

record content_object =
  ob_Name :: str
  ob_ContentType :: str
  ob_Content :: "(bytes \<times> err option) option"  \<comment> \<open>what the reader gives, and the error that ends it\<close>

record located =
  lo_Key :: str
  lo_URL :: str

definition IsValid :: "content_object \<Rightarrow> bool" where
  "IsValid ob \<longleftrightarrow> ob_Name ob \<noteq> [] \<and> ob_Content ob \<noteq> None"

text \<open>\<open>sha256\<close> is the digest of the standard library: 32 bytes.\<close>

definition SafeKey :: "(bytes \<Rightarrow> bytes) \<Rightarrow> str \<Rightarrow> err + str" where
  "SafeKey sha256 name =
     (let base = path_Base (path_Clean (slash # to_slash name)) in
      if base = ''.'' \<or> base = ''..'' \<or> base = [slash] \<or> base = [] then
        Inl (Errorf [W (Sentinel (Stor ErrUnsafeName)), Lit ('': '' @ quote_text name @ '' designates no file'')])
      else (let digest = hex_encode (sha256 name) in
        Inr (take 2 digest @ slash # take 2 (drop 2 digest) @ slash # take 12 (drop 4 digest) @ CHR ''-'' # base)))"

definition IsWithin :: "str \<Rightarrow> bool" where
  "IsWithin key \<longleftrightarrow>
     (let raw = to_slash key in
      if raw = [] \<or> is_rooted raw then False
      else (let cleaned = path_Clean raw in cleaned = raw \<and> \<not> has_prefix cleaned ''../'' \<and> cleaned \<noteq> ''..''))"

section \<open>The file system\<close>

text \<open>
  What the driver uses of the file system: files and directories at paths, resolved by their
  components (there are no links). A directory that is opened can be read from, but gives no
  content; \<open>os.Remove\<close> removes a file or an empty directory.
\<close>

datatype node = File bytes | Directory

type_synonym place = "bool \<times> str list"
type_synonym file_system = "(place, node) gomap"

definition resolve :: "str \<Rightarrow> place" where
  "resolve p = (is_rooted p, clean_components p)"

definition not_a_directory :: err where "not_a_directory = Opaque ''not a directory''"
definition is_a_directory :: err where "is_a_directory = Opaque ''is a directory''"
definition directory_not_empty :: err where "directory_not_empty = Opaque ''directory not empty''"

record disk_faults =
  df_mkdir :: "err option"
  df_open :: "err option"
  df_copy :: "(nat \<times> err) option"     \<comment> \<open>how much was written before the failure\<close>
  df_remove :: "err option"

definition no_disk_fault :: disk_faults where
  "no_disk_fault = \<lparr> df_mkdir = None, df_open = None, df_copy = None, df_remove = None \<rparr>"

text \<open>\<open>os.MkdirAll\<close>: every directory from the root to the place, unless one of them is a file.\<close>

fun mkdirs :: "place list \<Rightarrow> file_system \<Rightarrow> err option \<times> file_system" where
  "mkdirs [] fs = (None, fs)"
| "mkdirs (p # ps) fs =
     (case map_get fs p of
        Some (File b) \<Rightarrow> (Some not_a_directory, fs)
      | _ \<Rightarrow> mkdirs ps (map_set p Directory fs))"

definition ancestors :: "place \<Rightarrow> place list" where
  "ancestors p = map (\<lambda>k. (fst p, take k (snd p))) [0..<Suc (length (snd p))]"

definition MkdirAll :: "err option \<Rightarrow> place \<Rightarrow> file_system \<Rightarrow> err option \<times> file_system" where
  "MkdirAll fault p fs = (case fault of Some e \<Rightarrow> (Some e, fs) | None \<Rightarrow> mkdirs (ancestors p) fs)"

definition dir_of :: "place \<Rightarrow> place" where
  "dir_of p = (fst p, butlast (snd p))"

definition has_children :: "place \<Rightarrow> file_system \<Rightarrow> bool" where
  "has_children p fs \<longleftrightarrow> list_ex (\<lambda>(q, n). fst q = fst p \<and> length (snd p) < length (snd q) \<and> take (length (snd p)) (snd q) = snd p) fs"

definition Remove :: "err option \<Rightarrow> place \<Rightarrow> file_system \<Rightarrow> err option \<times> file_system" where
  "Remove fault p fs =
     (case fault of
        Some e \<Rightarrow> (Some e, fs)
      | None \<Rightarrow>
          (case map_get fs p of
             None \<Rightarrow> (Some (Sentinel NotExist), fs)
           | Some (File b) \<Rightarrow> (None, map_del p fs)
           | Some Directory \<Rightarrow> if has_children p fs then (Some directory_not_empty, fs) else (None, map_del p fs)))"

section \<open>The disk driver\<close>

record disk_store =
  ds_baseDir :: str
  ds_baseURL :: str

definition trim_suffix_slash :: "str \<Rightarrow> str" where
  "trim_suffix_slash s = (if s \<noteq> [] \<and> last s = slash then butlast s else s)"

definition New_disk :: "disk_faults \<Rightarrow> str \<Rightarrow> str \<Rightarrow> file_system \<Rightarrow> (err + disk_store) \<times> file_system" where
  "New_disk io baseDir baseURL fs =
     (if baseDir = [] then (Inl (Opaque ''the disk driver requires a base directory''), fs)
      else case MkdirAll (df_mkdir io) (resolve baseDir) fs of
        (Some e, fs1) \<Rightarrow> (Inl (Errorf [Lit (''creating the storage directory '' @ quote_text baseDir @ '': ''), W e]), fs1)
      | (None, fs1) \<Rightarrow> (Inr \<lparr> ds_baseDir = path_Clean baseDir, ds_baseURL = trim_suffix_slash baseURL \<rparr>, fs1))"

definition store_path :: "disk_store \<Rightarrow> str \<Rightarrow> place" where
  "store_path s key = resolve (path_Join (ds_baseDir s) key)"

text \<open>What is written of the content, and the error of the reader or of the disk.\<close>

definition copy_content :: "(nat \<times> err) option \<Rightarrow> bytes \<times> err option \<Rightarrow> bytes \<times> err option" where
  "copy_content fault c =
     (case fault of
        Some (n, e) \<Rightarrow> if n < length (fst c) then (take n (fst c), Some e) else c
      | None \<Rightarrow> c)"

definition storage_Put :: "(bytes \<Rightarrow> bytes) \<Rightarrow> disk_faults \<Rightarrow> disk_store \<Rightarrow> content_object \<Rightarrow> file_system \<Rightarrow> (err + located) \<times> file_system" where
  "storage_Put sha256 io s ob fs =
     (case ob_Content ob of
        None \<Rightarrow> (Inl (Errorf [W (Sentinel (Stor ErrEmptyContent)), Lit ('': name='' @ quote_text (ob_Name ob))]), fs)
      | Some content \<Rightarrow>
      if \<not> IsValid ob then
        (Inl (Errorf [W (Sentinel (Stor ErrEmptyContent)), Lit ('': name='' @ quote_text (ob_Name ob))]), fs)
      else case SafeKey sha256 (ob_Name ob) of
        Inl e \<Rightarrow> (Inl (Errorf [Lit ''deriving the storage key: '', W e]), fs)
      | Inr key \<Rightarrow>
          (let full = store_path s key in
           case MkdirAll (df_mkdir io) (dir_of full) fs of
             (Some e, fs1) \<Rightarrow> (Inl (Errorf [Lit ''creating the sub-directory: '', W e]), fs1)
           | (None, fs1) \<Rightarrow>
               (case (df_open io, map_get fs1 full) of
                  (Some e, _) \<Rightarrow> (Inl (Errorf [Lit (''opening the object '' @ key @ '': ''), W e]), fs1)
                | (None, Some Directory) \<Rightarrow>
                    (Inl (Errorf [Lit (''opening the object '' @ key @ '': ''), W is_a_directory]), fs1)
                | _ \<Rightarrow>
                    (case copy_content (df_copy io) content of
                       (written, Some e) \<Rightarrow>
                         (Inl (Errorf [Lit (''writing the object '' @ key @ '': ''), W e]), map_set full (File written) fs1)
                     | (written, None) \<Rightarrow>
                         (Inr \<lparr> lo_Key = key, lo_URL = ds_baseURL s @ slash # key \<rparr>, map_set full (File written) fs1)))))"

definition unsafe_key :: "str \<Rightarrow> err" where
  "unsafe_key key = Errorf [W (Sentinel (Stor ErrUnsafeName)), Lit ('': key='' @ quote_text key)]"

definition storage_Get :: "disk_faults \<Rightarrow> disk_store \<Rightarrow> str \<Rightarrow> file_system \<Rightarrow> err + node" where
  "storage_Get io s key fs =
     (if \<not> IsWithin key then Inl (unsafe_key key)
      else case (df_open io, map_get fs (store_path s key)) of
        (Some e, _) \<Rightarrow> Inl (Errorf [Lit (''reading the object '' @ key @ '': ''), W e])
      | (None, None) \<Rightarrow> Inl (Errorf [Lit (''reading the object '' @ key @ '': ''), W (Sentinel NotExist)])
      | (None, Some n) \<Rightarrow> Inr n)"

definition storage_Delete :: "disk_faults \<Rightarrow> disk_store \<Rightarrow> str \<Rightarrow> file_system \<Rightarrow> err option \<times> file_system" where
  "storage_Delete io s key fs =
     (if \<not> IsWithin key then (Some (unsafe_key key), fs)
      else case Remove (df_remove io) (store_path s key) fs of
        (Some e, fs1) \<Rightarrow>
          (if errors_is e NotExist then (None, fs1)
           else (Some (Errorf [Lit (''deleting the object '' @ key @ '': ''), W e]), fs1))
      | (None, fs1) \<Rightarrow> (None, fs1))"

section \<open>What a key designates\<close>

abbreviation backslash :: char where "backslash \<equiv> CHR 0x5C"

lemma to_slash_id: "backslash \<notin> set s \<Longrightarrow> to_slash s = s"
  by (induction s) (auto simp: to_slash_def)

lemma no_backslash_left: "backslash \<notin> set (to_slash s)"
  by (auto simp: to_slash_def)

lemma split_to_slash: "seg \<in> set (split_char slash s) \<Longrightarrow> backslash \<notin> set seg \<Longrightarrow> seg \<in> set (split_char slash (to_slash s))"
proof -
  assume seg: "seg \<in> set (split_char slash s)" "backslash \<notin> set seg"
  have "seg \<in> set cs \<Longrightarrow> seg \<in> set (split_char slash (to_slash (join_path cs)))"
    if "list_all (\<lambda>c. slash \<notin> set c) cs" for cs
    using that
  proof (induction cs rule: join_path.induct)
    case (2 c)
    then have "seg = c" and "slash \<notin> set c" by simp_all
    then show ?case using seg(2) by (simp add: to_slash_id split_char_none)
  next
    case (3 c d cs)
    have eq: "to_slash (join_path (c # d # cs)) = to_slash c @ slash # to_slash (join_path (d # cs))"
      by (simp add: to_slash_def)
    show ?case
    proof (cases "seg = c")
      case True
      then have "to_slash c = c" "slash \<notin> set c" using seg(2) 3(3) by (simp_all add: to_slash_id)
      then show ?thesis using True eq by (simp only: split_char_append list.set_intros simp_thms)
    next
      case False
      then show ?thesis using 3 eq by (simp only: split_append_slash set_append) simp
    qed
  qed simp
  from this [of "split_char slash s"] show ?thesis
    using seg(1) split_char_segments [of _ slash s] by (simp add: join_split_path list_all_iff)
qed

text \<open>A key that passes the check is the dot, or plain components.\<close>

lemma IsWithin_components:
  assumes "IsWithin key" and "key \<noteq> ''.''"
  obtains cs where "cs \<noteq> []" "list_all plain cs" "key = join_path cs"
proof -
  let ?raw = "to_slash key"
  have ne: "?raw \<noteq> []" and nr: "\<not> is_rooted ?raw" and cl: "path_Clean ?raw = ?raw"
    and up: "\<not> has_prefix ?raw ''../''" and nd: "?raw \<noteq> ''..''"
    using assms(1) by (auto simp: IsWithin_def Let_def split: if_splits)
  obtain k cs where cc: "clean_components ?raw = replicate k ''..'' @ cs" and pl: "list_all plain cs"
    using clean_components_shape by blast
  have raw: "?raw = (if clean_components ?raw = [] then ''.'' else join_path (clean_components ?raw))"
    using cl nr join_clean_empty [of ?raw] by (simp add: path_Clean_def Let_def split: if_splits)
  have "key = ''.''" if "?raw = ''.''" using that by (auto simp: to_slash_def split: if_splits)
  then have nempty: "clean_components ?raw \<noteq> []" using raw assms(2) by auto
  then have rawj: "?raw = join_path (replicate k ''..'' @ cs)" using raw by (simp only: cc if_False)
  have "k = 0"
  proof (rule ccontr)
    assume "k \<noteq> 0"
    then obtain j where k: "k = Suc j" by (cases k) auto
    then have "?raw = (if replicate j ''..'' @ cs = [] then ''..'' else ''..'' @ slash # join_path (replicate j ''..'' @ cs))"
      using rawj by (simp add: join_path_Cons)
    then show False using up nd by (auto simp: has_prefix_def split: if_splits)
  qed
  then have rawcs: "?raw = join_path cs" and csne: "cs \<noteq> []" using rawj nempty cc by simp_all
  have ns: "list_all (\<lambda>c. slash \<notin> set c) cs" by (rule list.pred_mono_strong [OF pl]) (simp add: plain_def)
  have parts: "split_char slash ?raw = cs" using rawcs split_join_path [OF csne ns] by simp
  have "list_all plain (split_char slash key)"
    unfolding list_all_iff
  proof
    fix c assume c: "c \<in> set (split_char slash key)"
    show "plain c"
    proof (cases "backslash \<in> set c")
      case True
      then show ?thesis using split_char_segments [OF c] by (auto simp: plain_def)
    next
      case False
      then have "c \<in> set cs" using split_to_slash [OF c] parts by simp
      then show ?thesis using pl by (simp add: list_all_iff)
    qed
  qed
  then show thesis using that [of "split_char slash key"] by (simp add: join_split_path)
qed

lemma components_IsWithin:
  assumes "list_all plain cs" and "cs \<noteq> []" and "\<forall>c \<in> set cs. backslash \<notin> set c"
  shows "IsWithin (join_path cs) \<and> join_path cs \<noteq> ''.''"
proof -
  obtain c ds where cs: "cs = c # ds" using assms(2) by (cases cs) auto
  have pc: "plain c" using assms(1) cs by simp
  have "backslash \<notin> set (join_path cs)" using set_join_path [of cs] assms(3) by auto
  then have raw: "to_slash (join_path cs) = join_path cs" by (rule to_slash_id)
  have r: "clean_components (join_path cs) = cs" "\<not> is_rooted (join_path cs)"
    using clean_components_relative [OF assms(1), of 0] assms(2) by simp_all
  have ne: "join_path cs \<noteq> []" using r(1) assms(2) join_clean_empty [of "join_path cs"] by auto
  have clean: "path_Clean (join_path cs) = join_path cs" using r ne by (simp add: path_Clean_def)
  have parts: "split_char slash (join_path cs) = cs"
    using split_join_path [OF assms(2)] list.pred_mono_strong [OF assms(1), of "\<lambda>c. slash \<notin> set c"] by (simp add: plain_def)
  have "\<not> has_prefix (join_path cs) ''../''"
  proof
    assume "has_prefix (join_path cs) ''../''"
    then obtain b where "join_path cs = ''..'' @ slash # b"
      by (metis has_prefix_def append_take_drop_id append_Cons append_Nil)
    then have "cs = ''..'' # split_char slash b" using parts by (simp add: split_char_append)
    then show False using cs pc by (simp add: plain_def)
  qed
  moreover have "join_path cs \<noteq> ''..''" and "join_path cs \<noteq> ''.''" using parts cs pc by (auto simp: plain_def)
  ultimately show ?thesis using raw r ne clean by (simp add: IsWithin_def Let_def)
qed

section \<open>The derived key\<close>

lemma hex_digit_char: "n < 16 \<Longrightarrow> hex_digit n \<in> set ''0123456789abcdef''"
proof -
  assume "n < 16"
  then have "n \<in> set [0..<16]" by simp
  moreover have "list_all (\<lambda>n. hex_digit n \<in> set ''0123456789abcdef'') [0..<16]" by code_simp
  ultimately show ?thesis by (simp only: list_all_iff)
qed

lemma set_hex_encode: "set (hex_encode bs) \<subseteq> set ''0123456789abcdef''"
proof
  fix x assume "x \<in> set (hex_encode bs)"
  then obtain b :: char where "x \<in> {hex_digit (of_char b div 16), hex_digit (of_char b mod 16)}"
    by (auto simp: hex_encode_def Let_def)
  moreover have "of_char b div 16 < (16 :: nat)" using nat_of_char_less_256 [of b] by (simp only: less_mult_imp_div_less)
  moreover have "of_char b mod 16 < (16 :: nat)" by simp
  ultimately show "x \<in> set ''0123456789abcdef''" using hex_digit_char by blast
qed

lemma length_hex_encode: "length (hex_encode bs) = 2 * length bs"
  by (induction bs) (simp_all add: hex_encode_def Let_def)

lemma hex_part_plain:
  assumes "set x \<subseteq> set ''0123456789abcdef''" and "x \<noteq> []"
  shows "plain x \<and> backslash \<notin> set x"
proof -
  have "CHR ''.'' \<notin> set x" "slash \<notin> set x" "backslash \<notin> set x" using assms(1) by auto
  then show ?thesis using assms(2) by (auto simp: plain_def)
qed

lemma SafeKey_components:
  assumes "SafeKey sha name = Inr key" and "length (sha name) = 32"
  obtains a b c where "key = join_path [a, b, c]" "list_all plain [a, b, c]" "\<forall>x \<in> {a, b, c}. backslash \<notin> set x"
proof -
  let ?base = "path_Base (path_Clean (slash # to_slash name))"
  let ?d = "hex_encode (sha name)"
  have key: "key = take 2 ?d @ slash # take 2 (drop 2 ?d) @ slash # take 12 (drop 4 ?d) @ CHR ''-'' # ?base"
    and b: "?base \<noteq> [slash]"
    using assms(1) by (auto simp: SafeKey_def Let_def split: if_splits)
  have len: "length ?d = 64" using assms(2) by (simp add: length_hex_encode)
  have hex: "set ?d \<subseteq> set ''0123456789abcdef''" by (rule set_hex_encode)
  have 1: "plain (take 2 ?d) \<and> backslash \<notin> set (take 2 ?d)"
    using len by (intro hex_part_plain order_trans [OF set_take_subset hex]) auto
  have 2: "plain (take 2 (drop 2 ?d)) \<and> backslash \<notin> set (take 2 (drop 2 ?d))"
    using len by (intro hex_part_plain order_trans [OF order_trans [OF set_take_subset set_drop_subset] hex]) auto
  have 3: "plain (take 12 (drop 4 ?d)) \<and> backslash \<notin> set (take 12 (drop 4 ?d))"
    using len by (intro hex_part_plain order_trans [OF order_trans [OF set_take_subset set_drop_subset] hex]) auto
  have base: "slash \<notin> set ?base" "set ?base \<subseteq> set (path_Clean (slash # to_slash name)) \<union> {CHR ''.''}"
    using path_Base_component [of "path_Clean (slash # to_slash name)"] b by blast+
  have "backslash \<notin> set ?base"
    using base(2) chars_of_Clean [of "slash # to_slash name"] no_backslash_left [of name] by auto
  moreover have "plain (take 12 (drop 4 ?d) @ CHR ''-'' # ?base)"
    using 3 base(1) by (auto simp: plain_def append_eq_Cons_conv)
  ultimately show thesis
    using that [of "take 2 ?d" "take 2 (drop 2 ?d)" "take 12 (drop 4 ?d) @ CHR ''-'' # ?base"] key 1 2 3 by simp
qed

lemma SafeKey_IsWithin:
  "SafeKey sha name = Inr key \<Longrightarrow> length (sha name) = 32 \<Longrightarrow> IsWithin key \<and> key \<noteq> ''.''"
proof -
  assume "SafeKey sha name = Inr key" "length (sha name) = 32"
  then obtain a b c where "key = join_path [a, b, c]" and k: "list_all plain [a, b, c]" "\<forall>x \<in> {a, b, c}. backslash \<notin> set x"
    by (rule SafeKey_components)
  then show ?thesis using components_IsWithin [OF k(1)] by simp
qed

end
