(* ===== verification/Storage_Module.thy ===== *)
theory Storage_Module
  imports Storage
begin

text \<open>
  The storage module as the composition root mounts it (internal/core/storage/module.go,
  catalog.go), and what holds of any sequence of calls on a mounted store: nothing outside its
  directory changes, and an object is read back until it is deleted.
\<close>

section \<open>The mounted module\<close>

definition storage_Name :: str where "storage_Name = ''storage''"
definition driverDisk :: str where "driverDisk = ''disk''"
definition OptionBaseDir :: str where "OptionBaseDir = ''base_dir''"
definition OptionBaseURL :: str where "OptionBaseURL = ''base_url''"
definition defaultBaseDir :: str where "defaultBaseDir = ''var/storage''"
definition defaultBaseURL :: str where "defaultBaseURL = ''/files''"

definition storage_Catalog :: module_catalog where
  "storage_Catalog = [(storage_Name, \<lparr> Default = driverDisk,
     Drivers = [(driverDisk, \<lparr> SQL = False, Cache = False, Options = [OptionBaseDir, OptionBaseURL] \<rparr>)] \<rparr>)]"

record storage_module =
  st_Put :: "disk_faults \<Rightarrow> content_object \<Rightarrow> file_system \<Rightarrow> (err + located) \<times> file_system"
  st_Get :: "disk_faults \<Rightarrow> str \<Rightarrow> file_system \<Rightarrow> err + node"
  st_Delete :: "disk_faults \<Rightarrow> str \<Rightarrow> file_system \<Rightarrow> err option \<times> file_system"

definition disabled_storage :: storage_module where
  "disabled_storage = \<lparr>
     st_Put = (\<lambda>io ob fs. (Inl (Sentinel (Stor StorageErrDisabled)), fs)),
     st_Get = (\<lambda>io key fs. Inl (Sentinel (Stor StorageErrDisabled))),
     st_Delete = (\<lambda>io key fs. (Some (Sentinel (Stor StorageErrDisabled)), fs)) \<rparr>"

definition fromDisk :: "(bytes \<Rightarrow> bytes) \<Rightarrow> disk_faults \<Rightarrow> module_config \<Rightarrow> file_system \<Rightarrow> (err + storage_module) \<times> file_system" where
  "fromDisk sha256 io cfg fs =
     (case StringOption cfg OptionBaseDir defaultBaseDir of
        Inl e \<Rightarrow> (Inl (Errorf [Lit (''modules.'' @ storage_Name @ ''.''), W e]), fs)
      | Inr baseDir \<Rightarrow>
          (case StringOption cfg OptionBaseURL defaultBaseURL of
             Inl e \<Rightarrow> (Inl (Errorf [Lit (''modules.'' @ storage_Name @ ''.''), W e]), fs)
           | Inr baseURL \<Rightarrow>
               (case New_disk io baseDir baseURL fs of
                  (Inl e, fs1) \<Rightarrow> (Inl (Errorf [Lit (''modules.'' @ storage_Name @ '': ''), W e]), fs1)
                | (Inr s, fs1) \<Rightarrow>
                    (Inr \<lparr> st_Put = (\<lambda>io ob fs. storage_Put sha256 io s ob fs), st_Get = (\<lambda>io key fs. storage_Get io s key fs),
                           st_Delete = (\<lambda>io key fs. storage_Delete io s key fs) \<rparr>, fs1))))"

definition New_storage :: "(bytes \<Rightarrow> bytes) \<Rightarrow> disk_faults \<Rightarrow> module_config \<Rightarrow> file_system \<Rightarrow> (err + storage_module) \<times> file_system" where
  "New_storage sha256 io cfg fs =
     (if \<not> enabled cfg then (Inr disabled_storage, fs)
      else if driver cfg = driverDisk then fromDisk sha256 io cfg fs
      else (Inl (Errorf [W (Sentinel (Stor StorageErrUnknownDriver)), Lit ('': '' @ quote_text (driver cfg))]), fs))"

section \<open>Directories\<close>

text \<open>\<open>q\<close> is at the place \<open>p\<close> or below it.\<close>

definition at_or_below :: "place \<Rightarrow> place \<Rightarrow> bool" where
  "at_or_below p q \<longleftrightarrow> fst q = fst p \<and> take (length (snd p)) (snd q) = snd p"

lemma ancestors_mem: "q \<in> set (ancestors p) \<longleftrightarrow> (\<exists>k \<le> length (snd p). q = (fst p, take k (snd p)))"
proof -
  have "set (ancestors p) = (\<lambda>k. (fst p, take k (snd p))) ` {..length (snd p)}"
    by (simp only: ancestors_def set_map set_upt lessThan_Suc_atMost atLeast0LessThan)
  then show ?thesis by blast
qed

lemma mkdirs_dirs: "mkdirs ps fs = (None, fs') \<Longrightarrow> q \<in> set ps \<Longrightarrow> map_get fs' q = Some Directory"
proof (induction ps fs rule: mkdirs.induct)
  case (2 p ps fs)
  have keeps: "map_get gs q = Some Directory \<Longrightarrow> mkdirs xs gs = (r, gs') \<Longrightarrow> map_get gs' q = Some Directory" for gs xs r gs'
    by (induction xs gs rule: mkdirs.induct) (auto split: option.splits node.splits if_splits)
  show ?case using 2 keeps [of "map_set p Directory fs"] by (auto split: option.splits node.splits)
qed simp

lemma mkdirs_keeps:
  "mkdirs ps fs = (r, fs') \<Longrightarrow> q \<notin> set ps \<or> map_get fs q \<in> Some ` ({Directory} \<union> range File) \<Longrightarrow> map_get fs' q = map_get fs q"
proof (induction ps fs rule: mkdirs.induct)
  case (2 p ps fs)
  then show ?case by (cases "map_get fs p"; cases "q = p") (auto split: node.splits)
qed simp

lemma MkdirAll_keeps:
  "MkdirAll io p fs = (r, fs') \<Longrightarrow> q \<notin> set (ancestors p) \<or> map_get fs q \<noteq> None \<Longrightarrow> map_get fs' q = map_get fs q"
proof -
  assume "MkdirAll io p fs = (r, fs')" "q \<notin> set (ancestors p) \<or> map_get fs q \<noteq> None"
  moreover have "n = Directory \<or> n \<in> range File" for n by (cases n) auto
  ultimately show ?thesis by (auto simp: MkdirAll_def split: option.splits intro!: mkdirs_keeps)
qed

lemma MkdirAll_dirs: "MkdirAll io p fs = (None, fs') \<Longrightarrow> q \<in> set (ancestors p) \<Longrightarrow> map_get fs' q = Some Directory"
  by (auto simp: MkdirAll_def mkdirs_dirs split: option.splits)

section \<open>Calls on a store\<close>

datatype storage_call = PutCall content_object | GetCall str | DeleteCall str

definition storage_run :: "(bytes \<Rightarrow> bytes) \<Rightarrow> disk_store \<Rightarrow> disk_faults \<times> storage_call \<Rightarrow> file_system \<Rightarrow> file_system" where
  "storage_run sha256 s = (\<lambda>(io, c) fs.
     (case c of
        PutCall ob \<Rightarrow> snd (storage_Put sha256 io s ob fs)
      | GetCall key \<Rightarrow> fs
      | DeleteCall key \<Rightarrow> snd (storage_Delete io s key fs)))"

text \<open>The directory of a store and its ancestors, the state every call relies on and keeps.\<close>

definition base_of :: "disk_store \<Rightarrow> place" where
  "base_of s = resolve (ds_baseDir s)"

definition store_ready :: "disk_store \<Rightarrow> file_system \<Rightarrow> bool" where
  "store_ready s fs \<longleftrightarrow> ds_baseDir s \<noteq> [] \<and> (\<forall>q \<in> set (ancestors (base_of s)). q \<noteq> base_of s \<longrightarrow> map_get fs q = Some Directory)"

lemma New_disk_ready: "New_disk io baseDir baseURL fs = (Inr s, fs1) \<Longrightarrow> store_ready s fs1 \<and> base_of s = resolve baseDir"
  using MkdirAll_dirs [of "df_mkdir io" "resolve baseDir" fs fs1] Clean_again [of baseDir] Clean_nonempty [of baseDir]
  by (auto simp: New_disk_def store_ready_def base_of_def resolve_def split: if_splits prod.splits option.splits)

lemma store_path_below:
  assumes "ds_baseDir s \<noteq> []" and "list_all plain cs" and "cs \<noteq> []"
  shows "store_path s (join_path cs) = (fst (base_of s), snd (base_of s) @ cs)"
  using resolve_below [OF assms(2,3,1)] by (simp add: store_path_def resolve_def base_of_def)

lemma store_path_dot: "ds_baseDir s \<noteq> [] \<Longrightarrow> store_path s ''.'' = base_of s"
proof -
  assume d: "ds_baseDir s \<noteq> []"
  have "clean_components (ds_baseDir s @ slash # ''.'') = clean_components (ds_baseDir s)"
    using d by (simp add: clean_components_def split_append_slash is_rooted_def clean_step_def)
  then show ?thesis using d Clean_again [of "ds_baseDir s @ slash # ''.''"]
    by (simp add: store_path_def path_Join_def resolve_def base_of_def is_rooted_def)
qed

lemma store_path_within: "ds_baseDir s \<noteq> [] \<Longrightarrow> IsWithin key \<Longrightarrow> at_or_below (base_of s) (store_path s key)"
  by (cases "key = ''.''") (auto simp: at_or_below_def store_path_dot store_path_below elim: IsWithin_components)

text \<open>A call that stores either leaves the file system, or makes the directories and maybe writes.\<close>

lemma Put_cases:
  obtains (stays) "snd (storage_Put sha256 io s ob fs) = fs"
    | (puts) key r fs1 b where "SafeKey sha256 (ob_Name ob) = Inr key" "MkdirAll (df_mkdir io) (dir_of (store_path s key)) fs = (r, fs1)"
        "snd (storage_Put sha256 io s ob fs) = fs1 \<or> snd (storage_Put sha256 io s ob fs) = map_set (store_path s key) (File b) fs1"
proof (cases "ob_Content ob = None \<or> \<not> IsValid ob \<or> isl (SafeKey sha256 (ob_Name ob))")
  case True
  then have "snd (storage_Put sha256 io s ob fs) = fs"
    by (cases "ob_Content ob"; cases "SafeKey sha256 (ob_Name ob)") (auto simp: storage_Put_def)
  then show thesis by (rule stays)
next
  case False
  obtain content where c: "ob_Content ob = Some content" using False by auto
  obtain key where k: "SafeKey sha256 (ob_Name ob) = Inr key" using False by (cases "SafeKey sha256 (ob_Name ob)") auto
  obtain r fs1 where m: "MkdirAll (df_mkdir io) (dir_of (store_path s key)) fs = (r, fs1)" by (cases "MkdirAll (df_mkdir io) (dir_of (store_path s key)) fs") auto
  obtain b f where w: "copy_content (df_copy io) content = (b, f)" by (cases "copy_content (df_copy io) content") auto
  have "snd (storage_Put sha256 io s ob fs) = fs1 \<or> snd (storage_Put sha256 io s ob fs) = map_set (store_path s key) (File b) fs1"
    using False by (cases r; cases "df_open io"; cases "map_get fs1 (store_path s key)" rule: option.exhaust; cases f)
      (auto simp: storage_Put_def c k m w Let_def split: node.split)
  then show thesis by (rule puts [OF k m])
qed

lemma Put_changes:
  assumes "store_ready s fs" and "length (sha256 (ob_Name ob)) = 32" and "\<not> at_or_below (base_of s) q"
  shows "map_get (snd (storage_Put sha256 io s ob fs)) q = map_get fs q"
proof -
  have base: "ds_baseDir s \<noteq> []" using assms(1) by (simp add: store_ready_def)
  show ?thesis
  proof (cases rule: Put_cases [of sha256 io s ob fs])
    case (puts key r fs1 w)
    obtain a b c where key: "key = join_path [a, b, c]" and pl: "list_all plain [a, b, c]"
      and "\<forall>x \<in> {a, b, c}. backslash \<notin> set x"
      by (rule SafeKey_components [OF puts(1) assms(2)])
    have path: "store_path s key = (fst (base_of s), snd (base_of s) @ [a, b, c])"
      using store_path_below [OF base pl] key by simp
    have "at_or_below (base_of s) (store_path s key)" unfolding at_or_below_def path by simp
    then have q: "q \<noteq> store_path s key" using assms(3) by metis
    have "q \<notin> set (ancestors (dir_of (store_path s key))) \<or> map_get fs q \<noteq> None"
    proof (rule disjCI)
      assume none: "\<not> map_get fs q \<noteq> None"
      show "q \<notin> set (ancestors (dir_of (store_path s key)))"
      proof
        assume "q \<in> set (ancestors (dir_of (store_path s key)))"
        then obtain k where k: "q = (fst (base_of s), take k (snd (base_of s) @ [a, b]))"
          by (simp only: ancestors_mem dir_of_def path fst_conv snd_conv butlast_append butlast.simps) auto
        show False
        proof (cases "k < length (snd (base_of s))")
          case True
          then have q1: "q = (fst (base_of s), take k (snd (base_of s)))" using k by simp
          then have "q \<in> set (ancestors (base_of s))" using True by (auto simp: ancestors_mem intro: less_imp_le)
          moreover have "length (snd q) < length (snd (base_of s))" using q1 True by simp
          ultimately have "map_get fs q = Some Directory" using assms(1) unfolding store_ready_def by (metis less_irrefl)
          then show False using none by simp
        next
          case False
          then show False using k assms(3) by (simp add: at_or_below_def)
        qed
      qed
    qed
    then have "map_get fs1 q = map_get fs q" by (rule MkdirAll_keeps [OF puts(2)])
    then show ?thesis using puts(3) q by auto
  qed simp
qed

lemma Delete_changes:
  assumes "ds_baseDir s \<noteq> []" and "\<not> at_or_below (base_of s) q"
  shows "map_get (snd (storage_Delete io s key fs)) q = map_get fs q"
  using assms store_path_within [OF assms(1), of key]
  by (auto simp: storage_Delete_def Remove_def split: option.splits node.splits)

lemma storage_run_keeps:
  assumes "store_ready s fs" and "\<And>name. length (sha256 name) = 32"
  shows "(\<forall>q. \<not> at_or_below (base_of s) q \<longrightarrow> map_get (storage_run sha256 s c fs) q = map_get fs q) \<and> store_ready s (storage_run sha256 s c fs)"
proof -
  have frame: "map_get (storage_run sha256 s c fs) q = map_get fs q" if "\<not> at_or_below (base_of s) q" for q
    using that Put_changes [OF assms(1,2)] Delete_changes [of s q] assms(1)
    by (auto simp: storage_run_def store_ready_def split: prod.splits storage_call.splits)
  have "\<not> at_or_below (base_of s) q" if qa: "q \<in> set (ancestors (base_of s))" and qb: "q \<noteq> base_of s" for q
  proof
    obtain k where k: "k \<le> length (snd (base_of s))" "q = (fst (base_of s), take k (snd (base_of s)))"
      using qa by (auto simp: ancestors_mem)
    assume "at_or_below (base_of s) q"
    then have "take k (snd (base_of s)) = snd (base_of s)" using k by (simp add: at_or_below_def)
    then have "q = base_of s" using k(2) by (simp add: prod_eq_iff)
    then show False using qb by blast
  qed
  then have "store_ready s (storage_run sha256 s c fs)" using assms(1) frame unfolding store_ready_def by metis
  then show ?thesis using frame by blast
qed

lemma storage_runs_keep:
  "store_ready s fs \<Longrightarrow> (\<And>name. length (sha256 name) = 32) \<Longrightarrow>
   (\<forall>q. \<not> at_or_below (base_of s) q \<longrightarrow> map_get (fold (storage_run sha256 s) calls fs) q = map_get fs q)
     \<and> store_ready s (fold (storage_run sha256 s) calls fs)"
proof (induction calls arbitrary: fs)
  case (Cons c calls)
  show ?case using Cons.IH [of "storage_run sha256 s c fs"] Cons.prems storage_run_keeps [OF Cons.prems] by simp
qed simp

section \<open>The properties\<close>

definition toy_sha :: "bytes \<Rightarrow> bytes" where
  "toy_sha bs = replicate 32 (char_of (length bs))"

text \<open>C36: A store that \<open>New\<close> mounted keeps to its directory: whatever names, keys and failures a
  sequence of calls to Put, Get and Delete brings, with traversals, backslashes, rooted keys among
  them, no file or directory outside the base directory is created, changed or removed; and what
  Get opens under a key is at the base directory or below it.\<close>

theorem objects_stay_within:
  assumes "New_disk io baseDir baseURL fs = (Inr s, fs1)" and "\<And>name. length (sha256 name) = 32"
  shows "(\<forall>q. \<not> at_or_below (resolve baseDir) q \<longrightarrow> map_get (fold (storage_run sha256 s) calls fs1) q = map_get fs1 q)
     \<and> (\<forall>io2 key n. storage_Get io2 s key (fold (storage_run sha256 s) calls fs1) = Inr n
          \<longrightarrow> (\<exists>q. at_or_below (resolve baseDir) q \<and> map_get (fold (storage_run sha256 s) calls fs1) q = Some n))"
proof -
  have ready: "store_ready s fs1" and base: "base_of s = resolve baseDir" using New_disk_ready [OF assms(1)] by simp_all
  have "\<exists>q. at_or_below (resolve baseDir) q \<and> map_get gs q = Some n" if "storage_Get io2 s key gs = Inr n" for io2 key n gs
    using that store_path_within [of s key] ready base
    by (auto simp: storage_Get_def store_ready_def split: if_splits option.splits intro!: exI [of _ "store_path s key"]
        simp del: split_paired_Ex)
  then show ?thesis using storage_runs_keep [OF ready assms(2)] base by simp
qed

definition etc_hosts :: "place \<times> node" where
  "etc_hosts = ((True, [''etc'', ''hosts'']), File ''h'')"

lemma objects_stay_within_witness:
  "map_get (fold (storage_run toy_sha \<lparr> ds_baseDir = ''/srv/files'', ds_baseURL = ''/files'' \<rparr>)
      [(no_disk_fault, PutCall \<lparr> ob_Name = ''../../etc/hosts'', ob_ContentType = [], ob_Content = Some (''x'', None) \<rparr>),
       (no_disk_fault, DeleteCall ''../../etc/hosts'')]
      (snd (New_disk no_disk_fault ''/srv/files'' ''/files/'' [etc_hosts]))) (True, [''etc'', ''hosts'']) = Some (File ''h'')"
proof -
  have new: "New_disk no_disk_fault ''/srv/files'' ''/files/'' [etc_hosts]
      = (Inr \<lparr> ds_baseDir = ''/srv/files'', ds_baseURL = ''/files'' \<rparr>, snd (New_disk no_disk_fault ''/srv/files'' ''/files/'' [etc_hosts]))"
    by code_simp
  have out: "\<not> at_or_below (resolve ''/srv/files'') (True, [''etc'', ''hosts''])" by code_simp
  have before: "map_get (snd (New_disk no_disk_fault ''/srv/files'' ''/files/'' [etc_hosts])) (True, [''etc'', ''hosts'']) = Some (File ''h'')"
    by code_simp
  have len: "length (toy_sha name) = 32" for name by (simp add: toy_sha_def)
  show ?thesis
    by (rule trans [OF objects_stay_within [OF new len, THEN conjunct1, THEN spec, THEN mp, OF out] before])
qed



text \<open>The dot passes the check of keys: Delete removes the base directory of an empty store with it,
  and Get opens the directory itself.\<close>

lemma dot_is_within:
  "IsWithin ''.'' \<and> (ds_baseDir s \<noteq> [] \<longrightarrow> map_get fs (base_of s) = Some Directory \<longrightarrow>
     storage_Get no_disk_fault s ''.'' fs = Inr Directory
     \<and> (\<not> has_children (base_of s) fs \<longrightarrow> storage_Delete no_disk_fault s ''.'' fs = (None, map_del (base_of s) fs)))"
proof -
  have "IsWithin ''.''" by code_simp
  then show ?thesis by (simp add: storage_Get_def storage_Delete_def Remove_def no_disk_fault_def store_path_dot)
qed

text \<open>A Put that fails while copying has already truncated the object: what was stored under the
  name is lost, and the part that was written is served.\<close>

lemma failed_put_truncates:
  assumes "length (sha256 (ob_Name ob)) = 32" and "ob_Content ob = Some (part, Some e)"
    and "storage_Put sha256 no_disk_fault s ob fs = (r, fs1)" and "SafeKey sha256 (ob_Name ob) = Inr key"
    and "map_get fs (store_path s key) = Some (File old)" and "\<forall>q \<in> set (ancestors (dir_of (store_path s key))). map_get fs q = Some Directory"
    and "ob_Name ob \<noteq> []"
  shows "isl r \<and> storage_Get no_disk_fault s key fs1 = Inr (File part)"
proof -
  have ok: "fst (mkdirs ps gs) = None" if "\<forall>q \<in> set ps. map_get gs q = Some Directory" for ps gs
    using that by (induction ps gs rule: mkdirs.induct) auto
  obtain fs0 where mk: "MkdirAll None (dir_of (store_path s key)) fs = (None, fs0)"
    using ok [OF assms(6)] by (cases "mkdirs (ancestors (dir_of (store_path s key))) fs") (simp add: MkdirAll_def)
  have "map_get fs0 (store_path s key) = Some (File old)" using MkdirAll_keeps [OF mk, of "store_path s key"] assms(5) by simp
  then have "r = Inl (Errorf [Lit (''writing the object '' @ key @ '': ''), W e]) \<and> fs1 = map_set (store_path s key) (File part) fs0"
    using assms(2,3,7) mk by (auto simp: storage_Put_def assms(4) Let_def no_disk_fault_def copy_content_def IsValid_def)
  then show ?thesis using SafeKey_IsWithin [OF assms(4,1)] by (simp add: storage_Get_def no_disk_fault_def)
qed

text \<open>A module that is not enabled answers every call with its own error and touches nothing.\<close>

lemma New_storage_disabled:
  "\<not> enabled cfg \<Longrightarrow> New_storage sha256 io cfg fs = (Inr disabled_storage, fs)
     \<and> st_Put disabled_storage io2 ob fs = (Inl (Sentinel (Stor StorageErrDisabled)), fs)
     \<and> st_Delete disabled_storage io2 key fs = (Some (Sentinel (Stor StorageErrDisabled)), fs)"
  by (simp add: New_storage_def disabled_storage_def)

end
