(* ===== verification/Dynconf.thy ===== *)
theory Dynconf
  imports Logging
begin

text \<open>
  Configuration changeable at run time (internal/core/dynconf): the domain, the read-only driver
  of the versioned values (drivers/file/file.go). The driver over PostgreSQL is in theory
  Dynconf_Postgres, the mounted module in theory Dynconf_Module.
\<close>

section \<open>The domain\<close>

definition KindFlag :: str where "KindFlag = ''flag''"
definition KindSetting :: str where "KindSetting = ''setting''"

record setting =
  se_Value :: str
  se_Found :: bool

definition absent :: setting where
  "absent = \<lparr> se_Value = [], se_Found = False \<rparr>"

record change =
  ch_Kind :: str
  ch_Key :: str
  ch_Value :: str

definition change_IsValid :: "change \<Rightarrow> bool" where
  "change_IsValid c \<longleftrightarrow> ch_Key c \<noteq> [] \<and> (ch_Kind c = KindFlag \<or> ch_Kind c = KindSetting)"

definition Qualify :: "str \<Rightarrow> str \<Rightarrow> str" where
  "Qualify kind key = kind @ ''.'' @ key"

text \<open>\<open>strconv.ParseBool\<close>, \<open>None\<close> for its error.\<close>

definition parse_bool :: "str \<Rightarrow> bool option" where
  "parse_bool s =
     (if s \<in> set [''1'', ''t'', ''T'', ''TRUE'', ''true'', ''True''] then Some True
      else if s \<in> set [''0'', ''f'', ''F'', ''FALSE'', ''false'', ''False''] then Some False
      else None)"

definition format_bool :: "bool \<Rightarrow> str" where
  "format_bool b = (if b then ''true'' else ''false'')"

definition ParseFlag :: "str \<Rightarrow> bool" where
  "ParseFlag raw = (case parse_bool raw of None \<Rightarrow> False | Some b \<Rightarrow> b)"

definition FormatFlag :: "bool \<Rightarrow> str" where
  "FormatFlag b = format_bool b"

definition Describe :: "change \<Rightarrow> str" where
  "Describe c = ch_Kind c @ ''.'' @ ch_Key c"

lemma ParseFlag_FormatFlag: "ParseFlag (FormatFlag b) = b"
  by (cases b) (simp_all add: ParseFlag_def FormatFlag_def format_bool_def parse_bool_def)

text \<open>The natures of a valid change are apart: no flag is qualified as a setting.\<close>

lemma Qualify_inject:
  "kind \<in> {KindFlag, KindSetting} \<Longrightarrow> kind2 \<in> {KindFlag, KindSetting} \<Longrightarrow>
   Qualify kind key = Qualify kind2 key2 \<longleftrightarrow> kind = kind2 \<and> key = key2"
  by (auto simp: Qualify_def KindFlag_def KindSetting_def)

section \<open>The versioned values\<close>

type_synonym file_store = "(str, str) gomap"

text \<open>\<open>format_float\<close> is \<open>strconv.FormatFloat(v, 'f', -1, 64)\<close>, the shortest decimal that reads back.\<close>

definition scalar :: "(rat \<Rightarrow> str) \<Rightarrow> val \<Rightarrow> err + str" where
  "scalar format_float raw =
     (case raw of
        VString s \<Rightarrow> Inr s
      | VBool b \<Rightarrow> Inr (format_bool b)
      | VInt i \<Rightarrow> Inr (show_int i)
      | VInt64 i \<Rightarrow> Inr (show_int i)
      | VFloat f \<Rightarrow> Inr (format_float f)
      | _ \<Rightarrow> Inl (Errorf [W (Sentinel (Dyn ErrNotScalar)), Lit ('' ('' @ type_name raw @ '')'')]))"

fun fill :: "(rat \<Rightarrow> str) \<Rightarrow> file_store \<Rightarrow> str \<Rightarrow> str \<Rightarrow> (str, val) gomap \<Rightarrow> err + file_store" where
  "fill ff dst kind label [] = Inr dst"
| "fill ff dst kind label ((key, raw) # src) =
     (case scalar ff raw of
        Inl e \<Rightarrow> Inl (Errorf [Lit (''options.'' @ label @ ''.'' @ key @ '': ''), W e])
      | Inr t \<Rightarrow> fill ff (map_set (Qualify kind key) t dst) kind label src)"

definition New_file :: "(rat \<Rightarrow> str) \<Rightarrow> (str, val) gomap \<Rightarrow> (str, val) gomap \<Rightarrow> err + file_store" where
  "New_file ff flags settings =
     (case fill ff [] KindFlag ''flags'' flags of
        Inl e \<Rightarrow> Inl e
      | Inr values \<Rightarrow> fill ff values KindSetting ''settings'' settings)"

definition file_Flag :: "file_store \<Rightarrow> str \<Rightarrow> bool" where
  "file_Flag s key =
     (case map_get s (Qualify KindFlag key) of None \<Rightarrow> False | Some raw \<Rightarrow> ParseFlag raw)"

definition file_Setting :: "file_store \<Rightarrow> str \<Rightarrow> setting" where
  "file_Setting s key =
     (case map_get s (Qualify KindSetting key) of
        None \<Rightarrow> \<lparr> se_Value = [], se_Found = False \<rparr>
      | Some raw \<Rightarrow> \<lparr> se_Value = raw, se_Found = True \<rparr>)"

definition file_Set :: "change \<Rightarrow> file_store \<Rightarrow> err option \<times> file_store" where
  "file_Set c s =
     (if \<not> change_IsValid c then (Some (Errorf [W (Sentinel (Dyn ErrInvalidChange)), Lit ('': '' @ Describe c)]), s)
      else (Some (Errorf [W (Sentinel (Dyn ErrReadOnly)), Lit ('': '' @ Describe c)]), s))"

definition file_Invalidate :: "file_store \<Rightarrow> file_store" where
  "file_Invalidate s = s"

section \<open>What the file driver reads\<close>

lemma fill_fails_iff: "isl (fill ff dst kind label src) \<longleftrightarrow> (\<exists>(key, raw) \<in> set src. isl (scalar ff raw))"
  by (induction ff dst kind label src rule: fill.induct) (auto split: sum.splits)

lemma fill_reads:
  assumes "fill ff dst kind label src = Inr s" and "is_map src" and "kind \<in> {KindFlag, KindSetting}" and "kind2 \<in> {KindFlag, KindSetting}"
  shows "map_get s (Qualify kind2 key) = (if kind2 = kind then (case map_get src key of
       None \<Rightarrow> map_get dst (Qualify kind2 key) | Some raw \<Rightarrow> Some (projr (scalar ff raw))) else map_get dst (Qualify kind2 key))"
  using assms(1,2)
proof (induction src arbitrary: dst)
  case (Cons p src)
  obtain k raw where p: "p = (k, raw)" by (cases p)
  obtain t where t: "scalar ff raw = Inr t" using Cons.prems p by (auto split: sum.splits)
  have "map_get src k = None" using Cons.prems(2) p by (simp add: map_of_eq_None_iff)
  then show ?case
    using Cons.IH [of "map_set (Qualify kind k) t dst"] Cons.prems p t assms(3,4)
    by (cases "kind2 = kind \<and> k = key") (auto simp: Qualify_inject split: option.splits)
qed simp

lemma file_values_read_iff:
  assumes "is_map flags" and "is_map settings"
  shows "(isl (New_file ff flags settings) \<longleftrightarrow> (\<exists>(key, raw) \<in> set flags \<union> set settings. isl (scalar ff raw)))
     \<and> (\<forall>s key. New_file ff flags settings = Inr s \<longrightarrow>
          file_Flag s key = (case map_get flags key of None \<Rightarrow> False | Some raw \<Rightarrow> ParseFlag (projr (scalar ff raw)))
          \<and> file_Setting s key = (case map_get settings key of None \<Rightarrow> absent
               | Some raw \<Rightarrow> \<lparr> se_Value = projr (scalar ff raw), se_Found = True \<rparr>)
          \<and> (\<forall>c. fst (file_Set c s) \<noteq> None \<and> snd (file_Set c s) = s))"
proof (intro conjI allI impI)
  show "isl (New_file ff flags settings) \<longleftrightarrow> (\<exists>(key, raw) \<in> set flags \<union> set settings. isl (scalar ff raw))"
  proof (cases "fill ff [] KindFlag ''flags'' flags")
    case (Inl e)
    then show ?thesis using fill_fails_iff [of ff "[]" KindFlag "''flags''" flags] by (auto simp: New_file_def)
  next
    case (Inr v)
    then show ?thesis using fill_fails_iff [of ff "[]" KindFlag "''flags''" flags] fill_fails_iff [of ff v KindSetting "''settings''" settings]
      by (auto simp: New_file_def)
  qed
next
  fix s key c assume "New_file ff flags settings = Inr s"
  then obtain v where v: "fill ff [] KindFlag ''flags'' flags = Inr v" and s: "fill ff v KindSetting ''settings'' settings = Inr s"
    by (auto simp: New_file_def split: sum.splits)
  have ne: "KindFlag \<noteq> KindSetting" by (simp add: KindFlag_def KindSetting_def)
  show "file_Flag s key = (case map_get flags key of None \<Rightarrow> False | Some raw \<Rightarrow> ParseFlag (projr (scalar ff raw)))"
    using fill_reads [OF v assms(1), of KindFlag key] fill_reads [OF s assms(2), of KindFlag key] ne
    by (auto simp: file_Flag_def split: option.splits)
  show "file_Setting s key = (case map_get settings key of None \<Rightarrow> absent | Some raw \<Rightarrow> \<lparr> se_Value = projr (scalar ff raw), se_Found = True \<rparr>)"
    using fill_reads [OF v assms(1), of KindSetting key] fill_reads [OF s assms(2), of KindSetting key] ne
    by (auto simp: file_Setting_def absent_def split: option.splits)
  show "fst (file_Set c s) \<noteq> None" "snd (file_Set c s) = s" by (simp_all add: file_Set_def)
qed

text \<open>The file driver refuses to start exactly when some value of \<open>flags\<close> or \<open>settings\<close> is not a
  scalar; otherwise a flag reads what was written under it in \<open>flags\<close>, interpreted with the deny by
  default, a setting reads the text of its value in \<open>settings\<close> or is absent, the two natures never
  mix, and every write is refused and changes nothing.\<close>

theorem file_values_read:
  assumes "is_map flags" and "is_map settings"
  shows "(isl (New_file ff flags settings) \<longleftrightarrow> (\<exists>(key, raw) \<in> set flags \<union> set settings. isl (scalar ff raw)))
     \<and> (\<forall>s key. New_file ff flags settings = Inr s \<longrightarrow>
          file_Flag s key = (case map_get flags key of None \<Rightarrow> False | Some raw \<Rightarrow> ParseFlag (projr (scalar ff raw)))
          \<and> file_Setting s key = (case map_get settings key of None \<Rightarrow> absent
               | Some raw \<Rightarrow> \<lparr> se_Value = projr (scalar ff raw), se_Found = True \<rparr>)
          \<and> (\<forall>c. fst (file_Set c s) \<noteq> None \<and> snd (file_Set c s) = s))"
  by (rule file_values_read_iff [OF assms])

lemma file_values_read_witness:
  "\<not> isl (New_file (\<lambda>f. []) [(''beta'', VBool True)] [(''limit'', VInt 5)])
   \<and> file_Flag (projr (New_file (\<lambda>f. []) [(''beta'', VBool True)] [(''limit'', VInt 5)])) ''beta''"
proof -
  have "is_map [(''beta'', VBool True)]" and "is_map [(''limit'', VInt 5)]" by simp_all
  note read = file_values_read [OF this, of "\<lambda>f. []"]
  have ok: "\<not> isl (New_file (\<lambda>f. []) [(''beta'', VBool True)] [(''limit'', VInt 5)])"
    using read by (simp add: scalar_def)
  then obtain s where s: "New_file (\<lambda>f. []) [(''beta'', VBool True)] [(''limit'', VInt 5)] = Inr s"
    by (cases "New_file (\<lambda>f. []) [(''beta'', VBool True)] [(''limit'', VInt 5)]") auto
  then have "file_Flag s ''beta''"
    using read by (simp add: scalar_def format_bool_def ParseFlag_def parse_bool_def)
  then show ?thesis using ok s by simp
qed

end
