(* ===== verification/Dynconf_Postgres.thy ===== *)
theory Dynconf_Postgres
  imports Dynconf
begin

text \<open>
  The dynamic configuration on PostgreSQL (internal/core/dynconf/drivers/postgres/postgres.go): a
  table shared by the replicas and, in each of them, a cache whose entries live for the ttl. The
  second half runs several replicas and their readers in any interleaving, a lookup being the three
  atomic parts the lock and the query cut it into, and shows how stale an answer can be.
\<close>

section \<open>The driver\<close>

record cached =
  ca_value :: str
  ca_found :: bool
  ca_expires :: time

record dyn_store =
  dy_ttl :: duration
  dy_values :: "(str, cached) gomap"

text \<open>\<open>platform.dynamic_config\<close>, by nature and key.\<close>

type_synonym dyn_table = "(str \<times> str, str) gomap"

record dyn_world =
  dp_store :: dyn_store
  dp_table :: dyn_table
  dp_log :: "log_line list"

definition New_dynpg :: "duration \<Rightarrow> dyn_store" where
  "New_dynpg ttl = \<lparr> dy_ttl = ttl, dy_values = [] \<rparr>"

text \<open>The part of a lookup under the read lock.\<close>

definition live_answer :: "time \<Rightarrow> str \<Rightarrow> dyn_store \<Rightarrow> setting option" where
  "live_answer now full s =
     (case map_get (dy_values s) full of
        None \<Rightarrow> None
      | Some e \<Rightarrow> if now < ca_expires e then Some \<lparr> se_Value = ca_value e, se_Found = ca_found e \<rparr> else None)"

text \<open>\<open>fault\<close> is the failure of the query, if any; no row is not one.\<close>

definition dyn_load :: "err option \<Rightarrow> str \<Rightarrow> str \<Rightarrow> dyn_table \<Rightarrow> log_line list \<Rightarrow> (str \<times> bool) \<times> log_line list" where
  "dyn_load fault kind key tab logged =
     (case fault of
        Some e \<Rightarrow> (([], False), logged @ [\<lparr> l_level = LevelError,
            l_text = ''dynamic configuration unreadable, falling back on absence'',
            l_attrs = [(''kind'', AString kind), (''key'', AString key), (''error'', AString (err_text e))] \<rparr>])
      | None \<Rightarrow> (case map_get tab (kind, key) of
            Some v \<Rightarrow> ((v, True), logged)
          | None \<Rightarrow> (([], False), logged)))"

text \<open>The part under the write lock; \<open>now\<close> is still the instant the lookup began.\<close>

definition remember :: "time \<Rightarrow> str \<Rightarrow> str \<times> bool \<Rightarrow> dyn_store \<Rightarrow> dyn_store" where
  "remember now full r s =
     s\<lparr> dy_values := map_set full \<lparr> ca_value = fst r, ca_found = snd r, ca_expires = now + dy_ttl s \<rparr> (dy_values s) \<rparr>"

definition lookup :: "err option \<Rightarrow> time \<Rightarrow> str \<Rightarrow> str \<Rightarrow> dyn_world \<Rightarrow> setting \<times> dyn_world" where
  "lookup fault now kind key w =
     (let full = Qualify kind key in
      case live_answer now full (dp_store w) of
        Some a \<Rightarrow> (a, w)
      | None \<Rightarrow>
          (case dyn_load fault kind key (dp_table w) (dp_log w) of
             (r, logged) \<Rightarrow> (\<lparr> se_Value = fst r, se_Found = snd r \<rparr>,
                w\<lparr> dp_store := remember now full r (dp_store w), dp_log := logged \<rparr>)))"

definition dynpg_Flag :: "err option \<Rightarrow> time \<Rightarrow> str \<Rightarrow> dyn_world \<Rightarrow> bool \<times> dyn_world" where
  "dynpg_Flag fault now key w =
     (case lookup fault now KindFlag key w of
        (entry, w1) \<Rightarrow> (if \<not> se_Found entry then False else ParseFlag (se_Value entry), w1))"

definition dynpg_Setting :: "err option \<Rightarrow> time \<Rightarrow> str \<Rightarrow> dyn_world \<Rightarrow> setting \<times> dyn_world" where
  "dynpg_Setting fault now key w = lookup fault now KindSetting key w"

definition dynpg_Invalidate :: "dyn_store \<Rightarrow> dyn_store" where
  "dynpg_Invalidate s = s\<lparr> dy_values := [] \<rparr>"

definition upsert :: "change \<Rightarrow> dyn_table \<Rightarrow> dyn_table" where
  "upsert c tab = map_set (ch_Kind c, ch_Key c) (ch_Value c) tab"

definition dynpg_Set :: "err option \<Rightarrow> change \<Rightarrow> dyn_world \<Rightarrow> err option \<times> dyn_world" where
  "dynpg_Set fault c w =
     (if \<not> change_IsValid c then (Some (Errorf [W (Sentinel (Dyn ErrInvalidChange)), Lit ('': '' @ Describe c)]), w)
      else case fault of
        Some e \<Rightarrow> (Some (Errorf [Lit (''writing the dynamic configuration '' @ Describe c @ '': ''), W e]), w)
      | None \<Rightarrow> (None, w\<lparr> dp_table := upsert c (dp_table w), dp_store := dynpg_Invalidate (dp_store w) \<rparr>))"

section \<open>Several replicas\<close>

text \<open>
  A reader is inside a lookup on a replica: waiting for the query since the instant it began, holding
  the row it read, or answered. \<open>sy_history\<close> is every table the system went through, with its instant.
\<close>

datatype reader =
    Reading nat str str time
  | Holding nat str str time "str \<times> bool"
  | Answered str str time setting

record dyn_sys =
  sy_clock :: time
  sy_table :: dyn_table
  sy_stores :: "nat \<Rightarrow> dyn_store"
  sy_readers :: "(nat, reader) gomap"
  sy_log :: "log_line list"
  sy_history :: "(time \<times> dyn_table) list"

datatype dyn_event =
    Passes nat
  | Writes change
  | Invalidates nat
  | Begins nat nat bool str          \<comment> \<open>reader, replica, a flag or a setting, key\<close>
  | Loads nat "err option"
  | Stores nat

definition kind_of :: "bool \<Rightarrow> str" where
  "kind_of flag = (if flag then KindFlag else KindSetting)"

definition dyn_start :: "duration \<Rightarrow> dyn_table \<Rightarrow> dyn_sys" where
  "dyn_start ttl tab = \<lparr> sy_clock = 0, sy_table = tab, sy_stores = (\<lambda>r. New_dynpg ttl), sy_readers = [],
     sy_log = [], sy_history = [(0, tab)] \<rparr>"

definition dyn_move :: "dyn_event \<Rightarrow> dyn_sys \<Rightarrow> dyn_sys" where
  "dyn_move ev y =
     (case ev of
        Passes n \<Rightarrow> y\<lparr> sy_clock := sy_clock y + int n \<rparr>
      | Writes c \<Rightarrow> if change_IsValid c then y\<lparr> sy_table := upsert c (sy_table y) \<rparr> else y
      | Invalidates r \<Rightarrow> y\<lparr> sy_stores := (sy_stores y)(r := dynpg_Invalidate (sy_stores y r)) \<rparr>
      | Begins t r flag key \<Rightarrow>
          (let kind = kind_of flag; now = sy_clock y in
           y\<lparr> sy_readers := map_set t
             (case live_answer now (Qualify kind key) (sy_stores y r) of
                Some a \<Rightarrow> Answered kind key now a
              | None \<Rightarrow> Reading r kind key now) (sy_readers y) \<rparr>)
      | Loads t fault \<Rightarrow>
          (case map_get (sy_readers y) t of
             Some (Reading r kind key now) \<Rightarrow>
               (case dyn_load fault kind key (sy_table y) (sy_log y) of
                  (v, logged) \<Rightarrow> y\<lparr> sy_readers := map_set t (Holding r kind key now v) (sy_readers y), sy_log := logged \<rparr>)
           | _ \<Rightarrow> y)
      | Stores t \<Rightarrow>
          (case map_get (sy_readers y) t of
             Some (Holding r kind key now v) \<Rightarrow>
               y\<lparr> sy_readers := map_set t (Answered kind key now \<lparr> se_Value = fst v, se_Found = snd v \<rparr>) (sy_readers y),
                  sy_stores := (sy_stores y)(r := remember now (Qualify kind key) v (sy_stores y r)) \<rparr>
           | _ \<Rightarrow> y))"

definition dyn_step :: "dyn_event \<Rightarrow> dyn_sys \<Rightarrow> dyn_sys" where
  "dyn_step ev y = (let z = dyn_move ev y in z\<lparr> sy_history := (sy_clock z, sy_table z) # sy_history z \<rparr>)"

abbreviation dyn_run :: "dyn_event list \<Rightarrow> dyn_sys \<Rightarrow> dyn_sys" where
  "dyn_run evs y \<equiv> fold dyn_step evs y"

text \<open>A lookup nobody interrupts is its three parts.\<close>

lemma lookup_is_its_parts:
  assumes "dp_store w = sy_stores y r" and "dp_table w = sy_table y" and "dp_log w = sy_log y"
    and "lookup fault (sy_clock y) (kind_of flag) key w = (a, w')"
  shows "let z = dyn_run [Begins t r flag key, Loads t fault, Stores t] y in
     map_get (sy_readers z) t = Some (Answered (kind_of flag) key (sy_clock y) a)
     \<and> sy_stores z r = dp_store w' \<and> sy_table z = dp_table w' \<and> sy_log z = dp_log w'"
proof (cases "live_answer (sy_clock y) (Qualify (kind_of flag) key) (sy_stores y r)")
  case (Some b)
  then show ?thesis using assms by (auto simp: lookup_def dyn_step_def dyn_move_def Let_def)
next
  case None
  obtain v logged where "dyn_load fault (kind_of flag) key (sy_table y) (sy_log y) = (v, logged)" by fastforce
  then show ?thesis using assms None by (auto simp: lookup_def dyn_step_def dyn_move_def Let_def)
qed

section \<open>The promise: bounded staleness\<close>

text \<open>
  What a lookup of \<open>kind\<close> and \<open>key\<close> promises: the value the table held at some instant after \<open>since\<close>;
  or absence, if a failure has been logged.
\<close>

definition row_of :: "str \<Rightarrow> str \<Rightarrow> dyn_table \<Rightarrow> setting" where
  "row_of kind key tab =
     (case map_get tab (kind, key) of None \<Rightarrow> absent | Some v \<Rightarrow> \<lparr> se_Value = v, se_Found = True \<rparr>)"

definition held_since :: "dyn_sys \<Rightarrow> str \<Rightarrow> str \<Rightarrow> time \<Rightarrow> setting \<Rightarrow> bool" where
  "held_since y kind key since a \<longleftrightarrow>
     (\<exists>(t, tab) \<in> set (sy_history y). since \<le> t \<and> a = row_of kind key tab) \<or> (a = absent \<and> sy_log y \<noteq> [])"

lemma held_since_mono:
  "held_since y kind key since a \<Longrightarrow> since2 \<le> since \<Longrightarrow> set (sy_history y) \<subseteq> set (sy_history z)
     \<Longrightarrow> (sy_log y \<noteq> [] \<longrightarrow> sy_log z \<noteq> []) \<Longrightarrow> held_since z kind key since2 a"
  unfolding held_since_def by fastforce

text \<open>Every entry of every cache and every reader keeps it.\<close>

definition entry_kept :: "dyn_sys \<Rightarrow> str \<Rightarrow> str \<Rightarrow> cached \<Rightarrow> bool" where
  "entry_kept y kind key e \<longleftrightarrow>
     (\<exists>t0. ca_expires e = t0 + dy_ttl (sy_stores y 0) \<and> held_since y kind key t0 \<lparr> se_Value = ca_value e, se_Found = ca_found e \<rparr>)"

fun reader_kept :: "dyn_sys \<Rightarrow> reader \<Rightarrow> bool" where
  "reader_kept y (Reading r kind key now) \<longleftrightarrow> now \<le> sy_clock y \<and> kind \<in> {KindFlag, KindSetting}"
| "reader_kept y (Holding r kind key now v) \<longleftrightarrow> kind \<in> {KindFlag, KindSetting}
     \<and> held_since y kind key now \<lparr> se_Value = fst v, se_Found = snd v \<rparr>"
| "reader_kept y (Answered kind key now a) \<longleftrightarrow> held_since y kind key (now - dy_ttl (sy_stores y 0) + 1) a"

definition dyn_inv :: "dyn_sys \<Rightarrow> bool" where
  "dyn_inv y \<longleftrightarrow> (sy_clock y, sy_table y) \<in> set (sy_history y)
     \<and> 0 < dy_ttl (sy_stores y 0) \<and> (\<forall>r. dy_ttl (sy_stores y r) = dy_ttl (sy_stores y 0))
     \<and> (\<forall>r kind key e. kind \<in> {KindFlag, KindSetting} \<longrightarrow> map_get (dy_values (sy_stores y r)) (Qualify kind key) = Some e
          \<longrightarrow> entry_kept y kind key e)
     \<and> (\<forall>t p. map_get (sy_readers y) t = Some p \<longrightarrow> reader_kept y p)"

lemma dyn_inv_entry:
  assumes "dyn_inv y" and "kind \<in> {KindFlag, KindSetting}" and "map_get (dy_values (sy_stores y r)) (Qualify kind key) = Some e"
  shows "entry_kept y kind key e"
proof -
  have "\<forall>r kind key e. kind \<in> {KindFlag, KindSetting} \<longrightarrow> map_get (dy_values (sy_stores y r)) (Qualify kind key) = Some e
          \<longrightarrow> entry_kept y kind key e"
    using assms(1) unfolding dyn_inv_def by (elim conjE)
  then show ?thesis using assms(2,3) by (elim allE [of _ r] allE [of _ kind] allE [of _ key] allE [of _ e] impE)
qed

lemma dyn_start_inv: "0 < ttl \<Longrightarrow> dyn_inv (dyn_start ttl tab)"
  by (simp add: dyn_inv_def dyn_start_def New_dynpg_def)

text \<open>Keeping survives any growth of the history, of the log and of the clock.\<close>

definition grows :: "dyn_sys \<Rightarrow> dyn_sys \<Rightarrow> bool" where
  "grows y z \<longleftrightarrow> set (sy_history y) \<subseteq> set (sy_history z) \<and> (sy_log y \<noteq> [] \<longrightarrow> sy_log z \<noteq> [])
     \<and> sy_clock y \<le> sy_clock z \<and> dy_ttl (sy_stores z 0) = dy_ttl (sy_stores y 0)"

lemma grows_entry: "entry_kept y kind key e \<Longrightarrow> grows y z \<Longrightarrow> entry_kept z kind key e"
  unfolding entry_kept_def grows_def by (metis held_since_mono order_refl)

lemma grows_reader: "reader_kept y p \<Longrightarrow> grows y z \<Longrightarrow> reader_kept z p"
  by (cases p) (auto simp: grows_def intro: held_since_mono [OF _ order_refl])

lemma dyn_step_ttl: "dy_ttl (sy_stores (dyn_step ev y) r) = dy_ttl (sy_stores y r)"
  by (auto simp: dyn_step_def dyn_move_def Let_def dynpg_Invalidate_def remember_def
      split: dyn_event.splits option.splits reader.splits prod.splits)

lemma dyn_load_log: "dyn_load fault kind key tab logged = (v, logged2) \<Longrightarrow> logged \<noteq> [] \<longrightarrow> logged2 \<noteq> []"
  by (auto simp: dyn_load_def split: option.splits)

lemma dyn_step_grows: "grows y (dyn_step ev y)"
proof -
  have "set (sy_history y) \<subseteq> set (sy_history (dyn_step ev y))" "sy_clock y \<le> sy_clock (dyn_step ev y)"
    by (auto simp: dyn_step_def dyn_move_def Let_def split: dyn_event.splits option.splits reader.splits prod.splits)
  moreover have "sy_log y \<noteq> [] \<longrightarrow> sy_log (dyn_step ev y) \<noteq> []"
    by (auto simp: dyn_step_def dyn_move_def Let_def dest: dyn_load_log split: dyn_event.splits option.splits reader.splits prod.splits)
  ultimately show ?thesis by (simp add: grows_def dyn_step_ttl)
qed

lemma load_held:
  assumes "dyn_load fault kind key (sy_table y) (sy_log y) = (v, logged)" and "(sy_clock y, sy_table y) \<in> set (sy_history z)"
    and "sy_log z = logged" and "now \<le> sy_clock y"
  shows "held_since z kind key now \<lparr> se_Value = fst v, se_Found = snd v \<rparr>"
proof (cases fault)
  case None
  then have "\<lparr> se_Value = fst v, se_Found = snd v \<rparr> = row_of kind key (sy_table y)"
    using assms(1) by (auto simp: dyn_load_def row_of_def absent_def split: option.splits)
  then show ?thesis unfolding held_since_def using assms(2,4) by blast
next
  case (Some e)
  then have "v = ([], False)" and "logged \<noteq> []" using assms(1) by (auto simp: dyn_load_def)
  then show ?thesis unfolding held_since_def using assms(3) by (simp add: absent_def)
qed

lemma live_answer_held:
  assumes "dyn_inv y" and "kind \<in> {KindFlag, KindSetting}" and "live_answer (sy_clock y) (Qualify kind key) (sy_stores y r) = Some a"
  shows "held_since y kind key (sy_clock y - dy_ttl (sy_stores y 0) + 1) a"
proof -
  obtain e where e: "map_get (dy_values (sy_stores y r)) (Qualify kind key) = Some e" and live: "sy_clock y < ca_expires e"
    and a: "a = \<lparr> se_Value = ca_value e, se_Found = ca_found e \<rparr>"
    using assms(3) by (auto simp: live_answer_def split: option.splits if_splits)
  then obtain t0 where "ca_expires e = t0 + dy_ttl (sy_stores y 0)" and h: "held_since y kind key t0 a"
    using assms(1,2) unfolding dyn_inv_def entry_kept_def by blast
  then have "sy_clock y - dy_ttl (sy_stores y 0) + 1 \<le> t0" using live by simp
  then show ?thesis by (rule held_since_mono [OF h]) auto
qed

lemma dyn_move_readers:
  assumes "dyn_inv y" and "map_get (sy_readers (dyn_step ev y)) t = Some p"
  shows "reader_kept (dyn_step ev y) p"
proof -
  let ?z = "dyn_step ev y"
  have g: "grows y ?z" by (rule dyn_step_grows)
  have kinds: "kind_of f \<in> {KindFlag, KindSetting}" for f by (simp add: kind_of_def)
  have old: "reader_kept ?z p" if "map_get (sy_readers y) t = Some p"
    using that assms(1) grows_reader [OF _ g] unfolding dyn_inv_def by blast
  show ?thesis
  proof (cases ev)
    case (Begins u r flag key)
    show ?thesis
    proof (cases "u = t")
      case True
      then have "p = (case live_answer (sy_clock y) (Qualify (kind_of flag) key) (sy_stores y r) of
            Some a \<Rightarrow> Answered (kind_of flag) key (sy_clock y) a | None \<Rightarrow> Reading r (kind_of flag) key (sy_clock y))"
        using assms(2) Begins by (simp add: dyn_step_def dyn_move_def Let_def)
      then have "reader_kept y p"
        using live_answer_held [OF assms(1) kinds] kinds by (auto split: option.splits)
      then show ?thesis by (rule grows_reader [OF _ g])
    next
      case False
      then show ?thesis using assms(2) Begins old by (simp add: dyn_step_def dyn_move_def Let_def)
    qed
  next
    case (Loads u fault)
    show ?thesis
    proof (cases "u = t \<and> (\<exists>r kind key now. map_get (sy_readers y) t = Some (Reading r kind key now))")
      case True
      then obtain r kind key now where rd: "map_get (sy_readers y) t = Some (Reading r kind key now)" and u: "u = t" by blast
      obtain v logged where l: "dyn_load fault kind key (sy_table y) (sy_log y) = (v, logged)" by fastforce
      have z: "p = Holding r kind key now v" "sy_log ?z = logged" "(sy_clock y, sy_table y) \<in> set (sy_history ?z)"
        using assms(1,2) Loads rd u l by (auto simp: dyn_step_def dyn_move_def Let_def dyn_inv_def)
      have "reader_kept y (Reading r kind key now)" using assms(1) rd unfolding dyn_inv_def by blast
      then show ?thesis using load_held [OF l z(3,2)] z(1) by simp
    next
      case False
      then have "map_get (sy_readers y) t = Some p"
        using assms(2) Loads by (auto simp: dyn_step_def dyn_move_def Let_def split: option.splits reader.splits prod.splits if_splits)
      then show ?thesis by (rule old)
    qed
  next
    case (Stores u)
    show ?thesis
    proof (cases "u = t \<and> (\<exists>r kind key now v. map_get (sy_readers y) t = Some (Holding r kind key now v))")
      case True
      then obtain r kind key now v where rd: "map_get (sy_readers y) t = Some (Holding r kind key now v)" and u: "u = t" by blast
      have p: "p = Answered kind key now \<lparr> se_Value = fst v, se_Found = snd v \<rparr>"
        using assms(2) Stores rd u by (auto simp: dyn_step_def dyn_move_def Let_def)
      have h: "held_since y kind key now \<lparr> se_Value = fst v, se_Found = snd v \<rparr>" and ttl: "0 < dy_ttl (sy_stores y 0)"
        using assms(1) rd unfolding dyn_inv_def by force+
      have "reader_kept y p" using held_since_mono [OF h, of "now - dy_ttl (sy_stores y 0) + 1" y] ttl by (simp add: p)
      then show ?thesis by (rule grows_reader [OF _ g])
    next
      case False
      then have "map_get (sy_readers y) t = Some p"
        using assms(2) Stores by (auto simp: dyn_step_def dyn_move_def Let_def split: option.splits reader.splits prod.splits if_splits)
      then show ?thesis by (rule old)
    qed
  qed (use assms(2) old in \<open>auto simp: dyn_step_def dyn_move_def Let_def split: if_splits\<close>)
qed

lemma dyn_move_entries:
  assumes "dyn_inv y" and "kind \<in> {KindFlag, KindSetting}"
    and "map_get (dy_values (sy_stores (dyn_step ev y) r)) (Qualify kind key) = Some e"
  shows "entry_kept (dyn_step ev y) kind key e"
proof -
  let ?z = "dyn_step ev y"
  have g: "grows y ?z" by (rule dyn_step_grows)
  have old: "entry_kept ?z kind key e" if "map_get (dy_values (sy_stores y r)) (Qualify kind key) = Some e"
    by (rule grows_entry [OF dyn_inv_entry [OF assms(1,2) that] g])
  show ?thesis
  proof (cases ev)
    case (Invalidates u)
    then show ?thesis using assms(3) old by (auto simp: dyn_step_def dyn_move_def Let_def dynpg_Invalidate_def split: if_splits)
  next
    case (Loads u fault)
    then have "sy_stores ?z = sy_stores y"
      by (auto simp: dyn_step_def dyn_move_def Let_def split: option.splits reader.splits prod.splits)
    then show ?thesis using assms(3) old by simp
  next
    case (Stores u)
    show ?thesis
    proof (cases "\<exists>kind2 key2 now v. map_get (sy_readers y) u = Some (Holding r kind2 key2 now v) \<and> Qualify kind2 key2 = Qualify kind key")
      case True
      then obtain kind2 key2 now v where rd: "map_get (sy_readers y) u = Some (Holding r kind2 key2 now v)"
        and q: "Qualify kind2 key2 = Qualify kind key" by blast
      have "reader_kept y (Holding r kind2 key2 now v)" using assms(1) rd unfolding dyn_inv_def by blast
      then have k: "kind2 = kind" "key2 = key" and h: "held_since y kind key now \<lparr> se_Value = fst v, se_Found = snd v \<rparr>"
        using Qualify_inject [of kind2 kind key2 key] q assms(2) by auto
      have ttl: "dy_ttl (sy_stores y r) = dy_ttl (sy_stores y 0)" using assms(1) unfolding dyn_inv_def by blast
      have "e = \<lparr> ca_value = fst v, ca_found = snd v, ca_expires = now + dy_ttl (sy_stores y 0) \<rparr>"
        using assms(3) Stores rd q ttl by (simp add: dyn_step_def dyn_move_def Let_def remember_def)
      then have "entry_kept y kind key e" using h by (auto simp: entry_kept_def)
      then show ?thesis by (rule grows_entry [OF _ g])
    next
      case False
      then have "map_get (dy_values (sy_stores y r)) (Qualify kind key) = Some e"
        using assms(3) Stores
        by (auto simp: dyn_step_def dyn_move_def Let_def remember_def split: option.splits reader.splits if_splits)
      then show ?thesis by (rule old)
    qed
  qed (use assms(3) old in \<open>auto simp: dyn_step_def dyn_move_def Let_def split: if_splits\<close>)
qed

lemma dyn_step_inv: "dyn_inv y \<Longrightarrow> dyn_inv (dyn_step ev y)"
proof -
  assume inv: "dyn_inv y"
  have "(sy_clock (dyn_step ev y), sy_table (dyn_step ev y)) \<in> set (sy_history (dyn_step ev y))"
    by (simp add: dyn_step_def Let_def)
  moreover have "0 < dy_ttl (sy_stores y 0)" using inv unfolding dyn_inv_def by (elim conjE)
  moreover have "\<forall>r. dy_ttl (sy_stores y r) = dy_ttl (sy_stores y 0)" using inv unfolding dyn_inv_def by (elim conjE)
  ultimately show ?thesis
    unfolding dyn_inv_def dyn_step_ttl
    by (intro conjI allI impI) (simp_all del: insert_iff add: dyn_move_readers [OF inv] dyn_move_entries [OF inv])
qed

lemma dyn_run_inv: "dyn_inv y \<Longrightarrow> dyn_inv (dyn_run evs y)"
  by (induction evs arbitrary: y) (simp_all add: dyn_step_inv)

lemma dyn_run_ttl: "dy_ttl (sy_stores (dyn_run evs y) r) = dy_ttl (sy_stores y r)"
  by (induction evs arbitrary: y) (simp_all add: dyn_step_ttl)

text \<open>C33: The cached driver refines a register of bounded staleness: whatever the interleaving of
  writes, invalidations, and lookups of any number of readers on any number of replicas, each lookup
  answers with the value the table held at some instant less than one ttl before the lookup began, or
  later; an answer that is none of these is the absence, and then a failure of the database has been
  logged. The races between a query and an invalidation are among the interleavings.\<close>

theorem reads_refine_bounded_staleness:
  assumes "0 < ttl" and "map_get (sy_readers (dyn_run evs (dyn_start ttl tab))) t = Some (Answered kind key began a)"
  shows "(\<exists>(at_time, rows) \<in> set (sy_history (dyn_run evs (dyn_start ttl tab))). began - ttl < at_time \<and> a = row_of kind key rows)
     \<or> (a = absent \<and> sy_log (dyn_run evs (dyn_start ttl tab)) \<noteq> [])"
proof -
  let ?y = "dyn_run evs (dyn_start ttl tab)"
  have inv: "dyn_inv ?y" by (rule dyn_run_inv [OF dyn_start_inv [OF assms(1)]])
  have "dy_ttl (sy_stores ?y 0) = ttl" by (simp add: dyn_run_ttl) (simp add: dyn_start_def New_dynpg_def)
  moreover have "reader_kept ?y (Answered kind key began a)" using inv assms(2) unfolding dyn_inv_def by blast
  ultimately have "held_since ?y kind key (began - ttl + 1) a" by simp
  then show ?thesis by (simp only: held_since_def add1_zle_eq)
qed

text \<open>The example: replica 0 caches an absence, replica 1 sets the flag, replica 0 still answers absent
  within the ttl of 30 seconds.\<close>

definition flag_on :: change where
  "flag_on = \<lparr> ch_Kind = KindFlag, ch_Key = ''beta'', ch_Value = ''true'' \<rparr>"

definition another_replica :: "dyn_event list" where
  "another_replica = [Begins 1 0 True ''beta'', Loads 1 None, Stores 1, Writes flag_on, Invalidates 1, Passes 29, Begins 2 0 True ''beta'']"

lemma reads_refine_bounded_staleness_witness:
  "\<exists>(at_time, rows) \<in> set (sy_history (dyn_run another_replica (dyn_start 30 []))). 29 - 30 < at_time \<and> absent = row_of ''flag'' ''beta'' rows"
proof -
  have r: "map_get (sy_readers (dyn_run another_replica (dyn_start 30 []))) 2 = Some (Answered ''flag'' ''beta'' 29 absent)" by code_simp
  have l: "sy_log (dyn_run another_replica (dyn_start 30 [])) = []" by code_simp
  have ttl: "0 < (30 :: int)" by simp
  show ?thesis using reads_refine_bounded_staleness [OF ttl r] l by simp
qed

section \<open>A write is seen everywhere\<close>

fun writes_row :: "str \<Rightarrow> str \<Rightarrow> dyn_event \<Rightarrow> bool" where
  "writes_row kind key (Writes c) \<longleftrightarrow> change_IsValid c \<and> ch_Kind c = kind \<and> ch_Key c = key"
| "writes_row kind key _ \<longleftrightarrow> False"

fun passed :: "dyn_event \<Rightarrow> int" where
  "passed (Passes n) = int n"
| "passed _ = 0"

lemma dyn_step_clock: "sy_clock (dyn_step ev y) = sy_clock y + passed ev"
  by (cases ev) (auto simp: dyn_step_def dyn_move_def Let_def split: option.splits reader.splits prod.splits)

lemma dyn_run_clock: "sy_clock (dyn_run evs y) = sy_clock y + sum_list (map passed evs)"
  by (induction evs arbitrary: y) (simp_all add: dyn_step_clock)

lemma dyn_step_history: "sy_history (dyn_step ev y) = (sy_clock (dyn_step ev y), sy_table (dyn_step ev y)) # sy_history y"
  by (auto simp: dyn_step_def dyn_move_def Let_def split: dyn_event.splits option.splits reader.splits prod.splits)

lemma dyn_run_history: "\<forall>(at_time, rows) \<in> set (sy_history y). at_time \<le> sy_clock y \<Longrightarrow>
    \<forall>(at_time, rows) \<in> set (sy_history (dyn_run evs y)). at_time \<le> sy_clock (dyn_run evs y)"
proof (induction evs arbitrary: y)
  case (Cons ev evs)
  have "0 \<le> passed ev" by (cases ev) auto
  then have "\<forall>(at_time, rows) \<in> set (sy_history (dyn_step ev y)). at_time \<le> sy_clock (dyn_step ev y)"
    using Cons.prems unfolding dyn_step_history dyn_step_clock by fastforce
  then show ?case using Cons.IH by simp
qed simp

lemma dyn_step_row:
  "\<not> writes_row kind key ev \<Longrightarrow> map_get (sy_table (dyn_step ev y)) (kind, key) = map_get (sy_table y) (kind, key)"
  by (cases ev) (auto simp: dyn_step_def dyn_move_def Let_def upsert_def split: option.splits reader.splits prod.splits)

lemma row_stays:
  assumes "\<forall>ev \<in> set evs. \<not> writes_row kind key ev" and "map_get (sy_table y) (kind, key) = Some v"
    and "\<forall>(at_time, rows) \<in> set (sy_history y). since < at_time \<longrightarrow> map_get rows (kind, key) = Some v"
  shows "map_get (sy_table (dyn_run evs y)) (kind, key) = Some v
     \<and> (\<forall>(at_time, rows) \<in> set (sy_history (dyn_run evs y)). since < at_time \<longrightarrow> map_get rows (kind, key) = Some v)"
  using assms
proof (induction evs arbitrary: y)
  case (Cons ev evs)
  have "map_get (sy_table (dyn_step ev y)) (kind, key) = Some v" using Cons.prems(1,2) dyn_step_row by simp
  then show ?case using Cons.IH [of "dyn_step ev y"] Cons.prems(1,3) by (simp add: dyn_step_history)
qed simp

text \<open>A write reaches every replica: once a flag or a setting has been written, and one ttl has
  passed with no other write of it and no failure logged, a lookup on any replica, whatever its cache
  holds and whatever ran in between, answers with the value written.\<close>

theorem write_seen_everywhere:
  assumes "0 < ttl" and "change_IsValid c" and "ch_Kind c = kind_of flag"
    and "\<forall>ev \<in> set later. \<not> writes_row (ch_Kind c) (ch_Key c) ev" and "ttl \<le> sum_list (map passed later)"
    and "sy_log (dyn_run (before @ Writes c # later) (dyn_start ttl tab)) = []"
  shows "map_get (sy_readers (dyn_run (before @ Writes c # later @ [Begins t r flag (ch_Key c), Loads t None, Stores t]) (dyn_start ttl tab))) t
     = Some (Answered (ch_Kind c) (ch_Key c) (sum_list (map passed (before @ later))) \<lparr> se_Value = ch_Value c, se_Found = True \<rparr>)"
proof -
  let ?y0 = "dyn_run before (dyn_start ttl tab)"
  let ?y1 = "dyn_step (Writes c) ?y0"
  let ?y2 = "dyn_run later ?y1"
  let ?v = "\<lparr> se_Value = ch_Value c, se_Found = True \<rparr>"
  have y2: "dyn_run (before @ Writes c # later) (dyn_start ttl tab) = ?y2" by simp
  have inv: "dyn_inv ?y2" using dyn_run_inv [OF dyn_start_inv [OF assms(1)], of "before @ Writes c # later" tab] y2 by simp
  have ttl: "dy_ttl (sy_stores ?y2 0) = ttl" by (simp add: dyn_run_ttl dyn_step_ttl) (simp add: dyn_start_def New_dynpg_def)
  have clock0: "sy_clock (dyn_start ttl tab) = 0" by (simp add: dyn_start_def)
  have clock: "sy_clock ?y2 = sy_clock ?y0 + sum_list (map passed later)" by (simp add: dyn_run_clock dyn_step_clock)
  have old: "\<forall>(at_time, rows) \<in> set (sy_history ?y0). at_time \<le> sy_clock ?y0"
    by (rule dyn_run_history) (simp add: dyn_start_def)
  have row1: "map_get (sy_table ?y1) (ch_Kind c, ch_Key c) = Some (ch_Value c)"
    using assms(2) by (simp add: dyn_step_def dyn_move_def Let_def upsert_def)
  have "\<forall>(at_time, rows) \<in> set (sy_history ?y1). sy_clock ?y0 < at_time \<longrightarrow> map_get rows (ch_Kind c, ch_Key c) = Some (ch_Value c)"
    using old row1 unfolding dyn_step_history by fastforce
  note stays = row_stays [OF assms(4) row1 this]
  have rowv: "map_get rows (ch_Kind c, ch_Key c) = Some (ch_Value c) \<Longrightarrow> row_of (ch_Kind c) (ch_Key c) rows = ?v" for rows
    by (simp add: row_of_def)
  have answer: "a = ?v" if "live_answer (sy_clock ?y2) (Qualify (ch_Kind c) (ch_Key c)) (sy_stores ?y2 r) = Some a" for a
  proof -
    have "ch_Kind c \<in> {KindFlag, KindSetting}" using assms(3) by (simp add: kind_of_def)
    from live_answer_held [OF inv this that]
    obtain at_time rows where h: "(at_time, rows) \<in> set (sy_history ?y2)" "sy_clock ?y2 - ttl + 1 \<le> at_time"
        "a = row_of (ch_Kind c) (ch_Key c) rows"
      using assms(6) y2 ttl by (auto simp: held_since_def)
    then have "sy_clock ?y0 < at_time" using clock assms(5) by simp
    then have "map_get rows (ch_Kind c, ch_Key c) = Some (ch_Value c)" using stays h(1) by blast
    then show ?thesis using h(3) rowv by simp
  qed
  have "map_get (sy_readers (dyn_run [Begins t r flag (ch_Key c), Loads t None, Stores t] ?y2)) t
      = Some (Answered (ch_Kind c) (ch_Key c) (sy_clock ?y2) ?v)"
  proof (cases "live_answer (sy_clock ?y2) (Qualify (ch_Kind c) (ch_Key c)) (sy_stores ?y2 r)")
    case (Some a)
    then show ?thesis using answer [OF Some] assms(3) by (simp add: dyn_step_def dyn_move_def Let_def)
  next
    case None
    then show ?thesis using stays assms(3) by (simp add: dyn_step_def dyn_move_def Let_def dyn_load_def)
  qed
  then show ?thesis using clock clock0 by (simp add: dyn_run_clock)
qed

lemma write_seen_everywhere_witness:
  "map_get (sy_readers (dyn_run ([Begins 1 0 True ''beta'', Loads 1 None, Stores 1] @ Writes flag_on #
      [Passes 10, Begins 2 0 True ''beta'', Passes 20] @ [Begins 3 0 True ''beta'', Loads 3 None, Stores 3]) (dyn_start 30 []))) 3
     = Some (Answered KindFlag ''beta'' 30 \<lparr> se_Value = ''true'', se_Found = True \<rparr>)"
proof -
  have "sy_log (dyn_run ([Begins 1 0 True ''beta'', Loads 1 None, Stores 1] @ Writes flag_on #
      [Passes 10, Begins 2 0 True ''beta'', Passes 20]) (dyn_start 30 [])) = []" by code_simp
  from write_seen_everywhere [OF _ _ _ _ _ this, of True 3 0]
  show ?thesis by (simp add: flag_on_def change_IsValid_def kind_of_def)
qed

text \<open>A \<open>Set\<close> that returned is not always seen by the next lookup of its own replica: a query in flight
  puts the previous value back into the cache the \<open>Set\<close> has just purged.\<close>

lemma own_set_not_seen:
  "let y = dyn_run [Begins 1 0 True ''beta'', Loads 1 None, Writes flag_on, Invalidates 0, Stores 1, Begins 2 0 True ''beta'']
             (dyn_start 30 []) in
   map_get (sy_table y) (''flag'', ''beta'') = Some ''true'' \<and> map_get (sy_readers y) 2 = Some (Answered ''flag'' ''beta'' 0 absent)"
  by code_simp

end
