(* ===== verification/Dynconf_Module.thy ===== *)
theory Dynconf_Module
  imports Dynconf_Postgres
begin

text \<open>
  The dynamic configuration as the composition root mounts it (internal/core/dynconf/module.go,
  catalog.go). The ports work on one state, the store of the driver that was chosen and the database
  it reads; the environment of a call is its instant and the failure its query meets.
\<close>

definition dynconf_Name :: str where "dynconf_Name = ''dynconf''"
definition driverFile :: str where "driverFile = ''file''"
definition dyn_driverPostgres :: str where "dyn_driverPostgres = ''postgres''"
definition OptionFlags :: str where "OptionFlags = ''flags''"
definition OptionSettings :: str where "OptionSettings = ''settings''"
definition dyn_OptionTTL :: str where "dyn_OptionTTL = ''ttl''"
definition dyn_defaultTTL :: duration where "dyn_defaultTTL = 30 * second"

definition dynconf_Catalog :: module_catalog where
  "dynconf_Catalog = [(dynconf_Name, \<lparr> Default = driverFile, Drivers =
     [(driverFile, \<lparr> SQL = False, Cache = False, Options = [OptionFlags, OptionSettings] \<rparr>),
      (dyn_driverPostgres, \<lparr> SQL = True, Cache = False, Options = [dyn_OptionTTL] \<rparr>)] \<rparr>)]"

record dyn_env =
  de_now :: time
  de_fault :: "err option"

record dynconf_module =
  dm_IsEnabled :: "dyn_env \<Rightarrow> str \<Rightarrow> dyn_world \<Rightarrow> bool \<times> dyn_world"
  dm_GetSetting :: "dyn_env \<Rightarrow> str \<Rightarrow> dyn_world \<Rightarrow> setting \<times> dyn_world"
  dm_Set :: "dyn_env \<Rightarrow> change \<Rightarrow> dyn_world \<Rightarrow> err option \<times> dyn_world"
  dm_Invalidate :: "dyn_world \<Rightarrow> dyn_world"
  dm_ttl :: duration  \<comment> \<open>of the cache the ports work on; 0 without one\<close>

definition disabled_dynconf :: dynconf_module where
  "disabled_dynconf = \<lparr>
     dm_IsEnabled = (\<lambda>e key w. (False, w)),
     dm_GetSetting = (\<lambda>e key w. (\<lparr> se_Value = [], se_Found = False \<rparr>, w)),
     dm_Set = (\<lambda>e c w. (Some (Sentinel (Dyn DynErrDisabled)), w)),
     dm_Invalidate = (\<lambda>w. w), dm_ttl = 0 \<rparr>"

definition fromFile :: "(rat \<Rightarrow> str) \<Rightarrow> module_config \<Rightarrow> err + dynconf_module" where
  "fromFile ff cfg =
     (case MapOption cfg OptionFlags of
        Inl e \<Rightarrow> Inl (Errorf [Lit (''modules.'' @ dynconf_Name @ ''.''), W e])
      | Inr flags \<Rightarrow>
     (case MapOption cfg OptionSettings of
        Inl e \<Rightarrow> Inl (Errorf [Lit (''modules.'' @ dynconf_Name @ ''.''), W e])
      | Inr settings \<Rightarrow>
     (case New_file ff flags settings of
        Inl e \<Rightarrow> Inl (Errorf [Lit (''modules.'' @ dynconf_Name @ ''.''), W e])
      | Inr s \<Rightarrow> Inr \<lparr>
          dm_IsEnabled = (\<lambda>e key w. (file_Flag s key, w)),
          dm_GetSetting = (\<lambda>e key w. (file_Setting s key, w)),
          dm_Set = (\<lambda>e c w. (fst (file_Set c s), w)),
          dm_Invalidate = (\<lambda>w. w), dm_ttl = 0 \<rparr>)))"

definition dyn_fromPostgres :: "bool \<Rightarrow> bool \<Rightarrow> module_config \<Rightarrow> err + dynconf_module" where
  "dyn_fromPostgres pool logger cfg =
     (if \<not> pool then Inl (Sentinel (Dyn DynErrPoolRequired))
      else if \<not> logger then Inl (Sentinel (Dyn DynErrLoggerRequired))
      else case DurationOption cfg dyn_OptionTTL dyn_defaultTTL of
        Inl e \<Rightarrow> Inl (Errorf [Lit (''modules.'' @ dynconf_Name @ ''.''), W e])
      | Inr ttl \<Rightarrow> Inr \<lparr>
          dm_IsEnabled = (\<lambda>e key w. dynpg_Flag (de_fault e) (de_now e) key w),
          dm_GetSetting = (\<lambda>e key w. dynpg_Setting (de_fault e) (de_now e) key w),
          dm_Set = (\<lambda>e c w. dynpg_Set (de_fault e) c w),
          dm_Invalidate = (\<lambda>w. w\<lparr> dp_store := dynpg_Invalidate (dp_store w) \<rparr>), dm_ttl = ttl \<rparr>)"

definition New_dynconf :: "(rat \<Rightarrow> str) \<Rightarrow> module_config \<Rightarrow> bool \<Rightarrow> bool \<Rightarrow> err + dynconf_module" where
  "New_dynconf ff cfg pool logger =
     (if \<not> enabled cfg then Inr disabled_dynconf
      else if driver cfg = driverFile then fromFile ff cfg
      else if driver cfg = dyn_driverPostgres then dyn_fromPostgres pool logger cfg
      else Inl (Errorf [W (Sentinel (Dyn DynErrUnknownDriver)), Lit ('': '' @ quote_text (driver cfg))]))"

text \<open>Flags deny by default under every driver: whichever module is mounted, and whatever its
  state, a flag is on only if some value is stored under it that reads as true; a query that fails on
  an uncached flag gives off and a logged error, and a disabled module has every flag off, every
  setting absent, and refuses writes.\<close>

theorem flags_deny_by_default:
  assumes "New_dynconf ff cfg pool logger = Inr md"
    and "is_map (projr (MapOption cfg OptionFlags))" and "is_map (projr (MapOption cfg OptionSettings))"
  shows "(fst (dm_IsEnabled md e key w) \<longrightarrow> enabled cfg
          \<and> ((driver cfg = driverFile
                \<and> (\<exists>raw t. map_get (projr (MapOption cfg OptionFlags)) key = Some raw \<and> scalar ff raw = Inr t \<and> ParseFlag t))
             \<or> (driver cfg = dyn_driverPostgres \<and>
                 ((\<exists>c. map_get (dy_values (dp_store w)) (Qualify KindFlag key) = Some c \<and> ca_found c \<and> de_now e < ca_expires c \<and> ParseFlag (ca_value c))
                  \<or> (de_fault e = None \<and> (\<exists>v. map_get (dp_table w) (KindFlag, key) = Some v \<and> ParseFlag v))))))
     \<and> (\<not> enabled cfg \<longrightarrow> dm_GetSetting md e key w = (absent, w) \<and> dm_Set md e c w = (Some (Sentinel (Dyn DynErrDisabled)), w))"
    (is "(_ \<longrightarrow> _ \<and> ?from) \<and> _")
proof (intro conjI impI)
  assume off: "\<not> enabled cfg"
  show "dm_GetSetting md e key w = (absent, w)" using off assms(1) by (auto simp: New_dynconf_def disabled_dynconf_def absent_def)
  show "dm_Set md e c w = (Some (Sentinel (Dyn DynErrDisabled)), w)" using off assms(1) by (auto simp: New_dynconf_def disabled_dynconf_def)
next
  assume on: "fst (dm_IsEnabled md e key w)"
  show en: "enabled cfg" using on assms(1) by (auto simp: New_dynconf_def disabled_dynconf_def split: if_splits)
  let ?fl = "projr (MapOption cfg OptionFlags)" and ?st = "projr (MapOption cfg OptionSettings)"
  consider (versioned) "driver cfg = driverFile" and "fromFile ff cfg = Inr md"
    | (shared) "driver cfg = dyn_driverPostgres" and "dyn_fromPostgres pool logger cfg = Inr md"
    using assms(1) en by (auto simp: New_dynconf_def split: if_splits)
  then show ?from
  proof cases
    case versioned
    then obtain s where s: "New_file ff ?fl ?st = Inr s" and md: "fst (dm_IsEnabled md e key w) = file_Flag s key"
      by (auto simp: fromFile_def split: sum.splits)
    have fl: "file_Flag s key = (case map_get ?fl key of None \<Rightarrow> False | Some raw \<Rightarrow> ParseFlag (projr (scalar ff raw)))"
      and all: "\<not> (\<exists>(k, raw) \<in> set ?fl \<union> set ?st. isl (scalar ff raw))"
      using file_values_read_iff [OF assms(2,3), of ff] s by auto
    then obtain raw where raw: "map_get ?fl key = Some raw" and "ParseFlag (projr (scalar ff raw))"
      using on md by (auto split: option.splits)
    moreover have "\<not> isl (scalar ff raw)" using all map_of_SomeD [OF raw] by blast
    ultimately show ?thesis using versioned by (cases "scalar ff raw") auto
  next
    case shared
    then have "fst (dynpg_Flag (de_fault e) (de_now e) key w)"
      using on by (auto simp: dyn_fromPostgres_def split: if_splits sum.splits)
    then show ?thesis using shared
      by (auto simp: dynpg_Flag_def lookup_def live_answer_def dyn_load_def Let_def split: option.splits if_splits)
  qed
qed

text \<open>A table that has the flag on, read through an empty cache.\<close>

lemma flags_deny_by_default_witness:
  "let cfg = \<lparr> enabled = True, driver = dyn_driverPostgres, options = [] \<rparr>;
       w = \<lparr> dp_store = New_dynpg dyn_defaultTTL, dp_table = [((KindFlag, ''beta''), ''true'')], dp_log = [] \<rparr>
   in \<exists>md. New_dynconf (\<lambda>f. []) cfg True True = Inr md
        \<and> fst (dm_IsEnabled md \<lparr> de_now = 0, de_fault = None \<rparr> ''beta'' w)
        \<and> \<not> fst (dm_IsEnabled md \<lparr> de_now = 0, de_fault = Some (Opaque ''down'') \<rparr> ''beta'' w)"
proof -
  let ?cfg = "\<lparr> enabled = True, driver = dyn_driverPostgres, options = [] \<rparr> :: module_config"
  let ?w = "\<lparr> dp_store = New_dynpg dyn_defaultTTL, dp_table = [((KindFlag, ''beta''), ''true'')], dp_log = [] \<rparr> :: dyn_world"
  obtain md where md: "New_dynconf (\<lambda>f. []) ?cfg True True = Inr md"
    and fl: "dm_IsEnabled md = (\<lambda>e key w. dynpg_Flag (de_fault e) (de_now e) key w)"
    by (simp add: New_dynconf_def dyn_fromPostgres_def driverFile_def dyn_driverPostgres_def DurationOption_def present_def)
  have maps: "is_map (projr (MapOption ?cfg OptionFlags))" "is_map (projr (MapOption ?cfg OptionSettings))"
    by (simp_all add: MapOption_def present_def)
  have "fst (dynpg_Flag None 0 ''beta'' ?w)" by code_simp
  then have "fst (dm_IsEnabled md \<lparr> de_now = 0, de_fault = None \<rparr> ''beta'' ?w)" by (simp add: fl)
  moreover have "\<not> fst (dm_IsEnabled md \<lparr> de_now = 0, de_fault = Some (Opaque ''down'') \<rparr> ''beta'' ?w)"
    using flags_deny_by_default [OF md maps, of "\<lparr> de_now = 0, de_fault = Some (Opaque ''down'') \<rparr>" "''beta''" ?w]
    by (auto simp: New_dynpg_def dyn_driverPostgres_def driverFile_def)
  ultimately show ?thesis using md by auto
qed

end
