(* ===== verification/Audit_Trail.thy ===== *)
theory Audit_Trail
  imports Database Logging
begin

text \<open>
  The audit log (internal/core/audit): the entry of the domain, the two drivers, which refuse the
  same entries, and the mounted module. The PostgreSQL driver writes on the querier of the context, so
  within a unit of work an entry stands or falls with the change it reports.
\<close>

section \<open>The domain\<close>

record audit_entry =
  au_Actor :: str
  au_Action :: str
  au_EntityType :: str
  au_EntityID :: str
  au_Metadata :: "(str, val) gomap option"
  au_At :: time

definition WithTime :: "audit_entry \<Rightarrow> time \<Rightarrow> audit_entry" where
  "WithTime e at_time = e\<lparr> au_At := at_time \<rparr>"

definition audit_IsComplete :: "audit_entry \<Rightarrow> bool" where
  "audit_IsComplete e \<longleftrightarrow> au_Actor e \<noteq> [] \<and> au_Action e \<noteq> [] \<and> au_EntityType e \<noteq> [] \<and> au_EntityID e \<noteq> []"

definition audit_incomplete :: "audit_entry \<Rightarrow> err" where
  "audit_incomplete e = Errorf [W (Sentinel (Aud AuditErrIncomplete)),
     Lit ('': action='' @ quote_text (au_Action e) @ '' entity='' @ quote_text (au_EntityType e))]"

section \<open>The drivers\<close>

definition audit_log_New :: "time \<Rightarrow> audit_entry \<Rightarrow> log_line list \<Rightarrow> err option \<times> log_line list" where
  "audit_log_New now entry logged =
     (if \<not> audit_IsComplete entry then (Some (audit_incomplete entry), logged)
      else (let stamped = WithTime entry now in
        (None, logged @ [\<lparr> l_level = LevelInfo, l_text = ''audit'',
           l_attrs = [(''actor'', AString (au_Actor stamped)), (''action'', AString (au_Action stamped)),
             (''entity_type'', AString (au_EntityType stamped)), (''entity_id'', AString (au_EntityID stamped)),
             (''occurred_at'', ATime (au_At stamped)), (''metadata'', AMap (au_Metadata stamped))] \<rparr>])))"

text \<open>A row of \<open>platform.audit_log\<close>. The database holds the data of the business beside it.\<close>

record audit_row =
  ar_actor :: str
  ar_action :: str
  ar_entity_type :: str
  ar_entity_id :: str
  ar_metadata :: str
  ar_occurred_at :: time

type_synonym 'b audited = "'b \<times> audit_row list"

definition insert_row :: "err option \<Rightarrow> audit_row \<Rightarrow> 'b audited \<Rightarrow> (err + unit) \<times> 'b audited" where
  "insert_row fault r d = (case fault of Some e \<Rightarrow> (Inl e, d) | None \<Rightarrow> (Inr (), (fst d, snd d @ [r])))"

text \<open>\<open>marshal\<close> is \<open>json.Marshal\<close> of the metadata.\<close>

definition audit_pg_New ::
    "((str, val) gomap \<Rightarrow> err + str) \<Rightarrow> err option \<Rightarrow> time \<Rightarrow> db_ctx \<Rightarrow> audit_entry
       \<Rightarrow> ('b audited, 'x) db_world \<Rightarrow> err option \<times> ('b audited, 'x) db_world" where
  "audit_pg_New marshal fault now ctx entry w =
     (if \<not> audit_IsComplete entry then (Some (audit_incomplete entry), w)
      else (let fields = (case au_Metadata entry of None \<Rightarrow> [] | Some m \<Rightarrow> m) in
        case marshal fields of
          Inl e \<Rightarrow> (Some (Errorf [Lit ''serialising the audit metadata: '', W e]), w)
        | Inr metadata \<Rightarrow>
            (let stamped = WithTime entry now in
             case QuerierFrom ctx (insert_row fault \<lparr> ar_actor = au_Actor stamped, ar_action = au_Action stamped,
                 ar_entity_type = au_EntityType stamped, ar_entity_id = au_EntityID stamped,
                 ar_metadata = metadata, ar_occurred_at = au_At stamped \<rparr>) w of
               (Inl e, w1) \<Rightarrow> (Some (Errorf [Lit ''writing the audit log: '', W e]), w1)
             | (Inr _, w1) \<Rightarrow> (None, w1))))"

section \<open>The mounted module\<close>

definition audit_Name :: str where "audit_Name = ''audit''"
definition audit_driverLog :: str where "audit_driverLog = ''log''"
definition audit_driverPostgres :: str where "audit_driverPostgres = ''postgres''"

definition audit_Catalog :: module_catalog where
  "audit_Catalog = [(audit_Name, \<lparr> Default = audit_driverLog, Drivers =
     [(audit_driverLog, no_resources), (audit_driverPostgres, no_resources\<lparr> SQL := True \<rparr>)] \<rparr>)]"

text \<open>What a recorder acts on: the log, and the database through the context of the call.\<close>

record 'b audit_world =
  aw_log :: "log_line list"
  aw_db :: "('b audited, unit) db_world"

record audit_call =
  ac_ctx :: db_ctx
  ac_now :: time
  ac_fault :: "err option"

type_synonym 'b audit_module = "audit_call \<Rightarrow> audit_entry \<Rightarrow> 'b audit_world \<Rightarrow> err option \<times> 'b audit_world"

definition disabled_audit :: "'b audit_module" where
  "disabled_audit c entry w = (Some (Sentinel (Aud AuditErrDisabled)), w)"

definition newLog :: "bool \<Rightarrow> err + 'b audit_module" where
  "newLog logger =
     (if \<not> logger then Inl (Sentinel (Aud AuditErrLoggerRequired))
      else Inr (\<lambda>c entry w. case audit_log_New (ac_now c) entry (aw_log w) of (r, l) \<Rightarrow> (r, w\<lparr> aw_log := l \<rparr>)))"

definition newPostgres :: "((str, val) gomap \<Rightarrow> err + str) \<Rightarrow> bool \<Rightarrow> err + 'b audit_module" where
  "newPostgres marshal pool =
     (if \<not> pool then Inl (Sentinel (Aud AuditErrPoolRequired))
      else Inr (\<lambda>c entry w. case audit_pg_New marshal (ac_fault c) (ac_now c) (ac_ctx c) entry (aw_db w) of
             (r, d) \<Rightarrow> (r, w\<lparr> aw_db := d \<rparr>)))"

definition New_audit :: "((str, val) gomap \<Rightarrow> err + str) \<Rightarrow> module_config \<Rightarrow> bool \<Rightarrow> bool \<Rightarrow> err + 'b audit_module" where
  "New_audit marshal cfg pool logger =
     (if \<not> enabled cfg then Inr disabled_audit
      else if driver cfg = audit_driverLog then newLog logger
      else if driver cfg = audit_driverPostgres then newPostgres marshal pool
      else Inl (Errorf [W (Sentinel (Aud AuditErrUnknownDriver)), Lit ('': '' @ quote_text (driver cfg))]))"

section \<open>Properties\<close>

text \<open>Both drivers refuse an incomplete entry with the same error and write nothing of it, and a
  complete one leaves exactly one trace, with its own actor, action and entity and the instant of the
  call, not the one it came with.\<close>

lemma audit_drivers_agree:
  assumes "marshal (case au_Metadata entry of None \<Rightarrow> [] | Some m \<Rightarrow> m) = Inr text_of_fields" and "\<not> InTx ctx"
  shows "(\<not> audit_IsComplete entry \<longrightarrow>
            audit_log_New now entry logged = (Some (audit_incomplete entry), logged)
            \<and> audit_pg_New marshal None now ctx entry w = (Some (audit_incomplete entry), w)
            \<and> errors_is (audit_incomplete entry) (Aud AuditErrIncomplete))
     \<and> (audit_IsComplete entry \<longrightarrow>
            (\<exists>line. audit_log_New now entry logged = (None, logged @ [line])
              \<and> {(''actor'', AString (au_Actor entry)), (''action'', AString (au_Action entry)), (''occurred_at'', ATime now)} \<subseteq> set (l_attrs line))
            \<and> audit_pg_New marshal None now ctx entry w = (None, w\<lparr> dw_committed := (fst (dw_committed w),
                snd (dw_committed w) @ [\<lparr> ar_actor = au_Actor entry, ar_action = au_Action entry, ar_entity_type = au_EntityType entry,
                  ar_entity_id = au_EntityID entry, ar_metadata = text_of_fields, ar_occurred_at = now \<rparr>]) \<rparr>))"
  using assms by (simp add: audit_log_New_def audit_pg_New_def audit_incomplete_def insert_row_def QuerierFrom_def WithTime_def Let_def)

text \<open>A business change that records itself, the way a use case runs both in one unit of work.\<close>

definition change_and_record ::
    "((str, val) gomap \<Rightarrow> err + str) \<Rightarrow> err option \<Rightarrow> time \<Rightarrow> ('b \<Rightarrow> (err + 'v) \<times> 'b) \<Rightarrow> ('v \<Rightarrow> audit_entry) \<Rightarrow> ('v, err, 'b audited, 'x) unit_fn" where
  "change_and_record marshal fault now change entry =
     after_stmt (\<lambda>c d. case change (fst d) of (r, b) \<Rightarrow> (r, (b, snd d)))
       (\<lambda>r. case r of
          Inl e \<Rightarrow> (\<lambda>c w. (Normal (Err e), w))
        | Inr v \<Rightarrow> (\<lambda>c w. case audit_pg_New marshal fault now c (entry v) w of
            (Some e, w1) \<Rightarrow> (Normal (Err e), w1)
          | (None, w1) \<Rightarrow> (Normal (Ok v), w1)))"

lemma audit_pg_disciplined:
  "through_querier (\<lambda>c (w :: ('b audited, 'x) db_world). case audit_pg_New marshal fault now c entry w of
     (Some e, w1) \<Rightarrow> (Normal (Err e), w1) | (None, w1) \<Rightarrow> (Normal (Ok v), w1))"
  unfolding through_querier_def
proof (intro allI impI, elim conjE)
  fix c :: db_ctx and w :: "('b audited, 'x) db_world" and t
  assume t: "InTx c" "dw_tx w = Some t"
  show "dw_committed (snd (case audit_pg_New marshal fault now c entry w of
       (Some e, w1) \<Rightarrow> (Normal (Err e), w1) | (None, w1) \<Rightarrow> (Normal (Ok v), w1))) = dw_committed w
     \<and> (\<exists>t'. dw_tx (snd (case audit_pg_New marshal fault now c entry w of
       (Some e, w1) \<Rightarrow> (Normal (Err e), w1) | (None, w1) \<Rightarrow> (Normal (Ok v), w1))) = Some t'
         \<and> tx_tenant t' = tx_tenant t \<and> (tx_aborted t \<longrightarrow> tx_aborted t'))"
    using t by (auto simp: audit_pg_New_def QuerierFrom_def insert_row_def Let_def split: option.splits sum.splits prod.splits)
qed

lemma change_and_record_disciplined: "through_querier (change_and_record marshal fault now change entry)"
  unfolding change_and_record_def
  by (intro through_querier_stmt) (auto intro!: audit_pg_disciplined through_querier_stop split: sum.split)

text \<open>C34: An audited change is never without its entry, nor an entry without its change: a unit of
  work that makes a business change and records it either returns a success, and then the database
  holds the change and exactly one more audit row, that of a complete entry; or it returns an error,
  or panics, and neither is there (unless the answer to the commit itself was lost).\<close>

theorem audit_stands_with_change:
  fixes w :: "('b audited, 'x) db_world"
  assumes run: "RunInTx z io (change_and_record marshal fault now change entry) ctx w = (r, w')"
    and out: "\<not> InTx ctx" and idle: "dw_tx w = None" and lost: "\<forall>e. tf_commit io \<noteq> Some (e, True)"
  shows "case r of
      Normal (Ok v) \<Rightarrow> (\<exists>row. change (fst (dw_committed w)) = (Inr v, fst (dw_committed w'))
         \<and> snd (dw_committed w') = snd (dw_committed w) @ [row] \<and> audit_IsComplete (entry v)
         \<and> ar_actor row = au_Actor (entry v) \<and> ar_action row = au_Action (entry v) \<and> ar_occurred_at row = now)
    | _ \<Rightarrow> dw_committed w' = dw_committed w"
proof -
  note atomic = atomic_unit [OF change_and_record_disciplined run out idle]
  show ?thesis
  proof (cases "\<exists>v. r = Normal (Ok v)")
    case False
    then show ?thesis using atomic lost by (auto split: returned.splits result.splits)
  next
    case True
    then obtain v where r: "r = Normal (Ok v)" by blast
    then obtain w1 w2 :: "('b audited, 'x) db_world" and t where w1: "dw_committed w1 = dw_committed w"
        "dw_tx w1 = Some \<lparr> tx_data = dw_committed w, tx_tenant = TenantFrom ctx, tx_aborted = False \<rparr>"
      and fn: "change_and_record marshal fault now change entry (ctx\<lparr> dc_tx := True \<rparr>) w1 = (Normal (Ok v), w2)"
      and t: "dw_tx w2 = Some t" "dw_committed w' = tx_data t"
    proof -
      have "\<exists>(w1 :: ('b audited, 'x) db_world) (w2 :: ('b audited, 'x) db_world) t. dw_committed w1 = dw_committed w
             \<and> dw_tx w1 = Some \<lparr> tx_data = dw_committed w, tx_tenant = TenantFrom ctx, tx_aborted = False \<rparr>
             \<and> change_and_record marshal fault now change entry (ctx\<lparr> dc_tx := True \<rparr>) w1 = (Normal (Ok v), w2) \<and> dw_tx w2 = Some t
             \<and> \<not> tx_aborted t \<and> dw_committed w' = tx_data t"
        using atomic r by simp
      then show thesis using that by blast
    qed
    have tx: "InTx (ctx\<lparr> dc_tx := True \<rparr>)" by (simp add: InTx_def)
    obtain v2 b where ch: "change (fst (dw_committed w)) = (Inr v2, b)"
      using fn w1 by (cases "change (fst (dw_committed w))"; cases "fst (change (fst (dw_committed w)))")
        (auto simp: change_and_record_def after_stmt_def QuerierFrom_def InTx_def)
    show ?thesis
      using fn w1 t ch unfolding r
      by (auto simp: change_and_record_def after_stmt_def QuerierFrom_def InTx_def audit_pg_New_def insert_row_def WithTime_def Let_def
          split: if_splits sum.splits option.splits)
  qed
qed

definition renamed :: "str \<Rightarrow> audit_entry" where
  "renamed v = \<lparr> au_Actor = ''u1'', au_Action = ''user.renamed'', au_EntityType = ''user'', au_EntityID = v,
     au_Metadata = None, au_At = 0 \<rparr>"

lemma audit_stands_with_change_witness:
  "\<exists>w'. RunInTx (Opaque []) no_tx_fault (change_and_record (\<lambda>m. Inr ''{}'') (Some (Opaque ''disk full'')) 7 (\<lambda>b. (Inr ''u2'', ''ada'')) renamed)
       background \<lparr> dw_committed = (''bob'', []), dw_tx = None, dw_rest = () \<rparr> = (Normal (Err (Errorf [Lit ''writing the audit log: '', W (Opaque ''disk full'')])), w')
     \<and> dw_committed w' = (''bob'', [])"
proof -
  let ?fn = "change_and_record (\<lambda>m. Inr ''{}'') (Some (Opaque ''disk full'')) 7 (\<lambda>b. (Inr ''u2'', ''ada'')) renamed"
  let ?w = "\<lparr> dw_committed = (''bob'', [] :: audit_row list), dw_tx = None, dw_rest = () \<rparr>"
  obtain r w' where run: "RunInTx (Opaque []) no_tx_fault ?fn background ?w = (r, w')"
    by (cases "RunInTx (Opaque []) no_tx_fault ?fn background ?w")
  have "r = Normal (Err (Errorf [Lit ''writing the audit log: '', W (Opaque ''disk full'')]))"
    using run by (simp add: RunInTx_def runWithRollback_def InTx_def background_def no_tx_fault_def TenantFrom_def begin_tx_def
        change_and_record_def after_stmt_def QuerierFrom_def audit_pg_New_def insert_row_def renamed_def audit_IsComplete_def Let_def)
  then show ?thesis
    using run audit_stands_with_change [OF run] by (simp add: background_def InTx_def no_tx_fault_def)
qed

end
