(* ===== verification/Notification.thy ===== *)
theory Notification
  imports Logging
begin

text \<open>
  The notification module (internal/core/notification): recipients and messages of the domain, the use
  case that revalidates a message before it leaves, the log driver and the mounted module.
\<close>

section \<open>The domain\<close>

definition recipientMaxLen :: nat where "recipientMaxLen = 254"
definition subjectMaxLen_notif :: nat where "subjectMaxLen_notif = 300"
definition bodyMaxLen :: nat where "bodyMaxLen = 1048576"
definition ChannelEmail :: str where "ChannelEmail = ''email''"

record recipient = rc_value :: str

definition notif_incomplete :: "str \<Rightarrow> err" where
  "notif_incomplete what = Errorf [W (Sentinel (Notif NotifErrIncomplete)), Lit ('': '' @ what)]"

definition backquote :: char where "backquote = CHR 0x60"

definition NewRecipient :: "str \<Rightarrow> err + recipient" where
  "NewRecipient raw =
     (let normalized = to_lower (trim_space raw) in
      case cut CHR ''@'' normalized of (local_part, domain_part, found) \<Rightarrow>
        if normalized = [] then Inl (notif_incomplete ''the recipient is required'')
        else if length normalized > recipientMaxLen then
          Inl (notif_incomplete (''the address exceeds '' @ show_nat recipientMaxLen @ '' bytes''))
        else if contains_any normalized [CHR '' '', CHR 0x09, CHR 0x0A] then
          Inl (notif_incomplete ''the address cannot contain whitespace'')
        else if \<not> found \<or> local_part = [] \<or> domain_part = [] then
          Inl (notif_incomplete (''address '' @ quote_text raw @ '' '' @ em_dash @ '' expected '' @ backquote # ''local@domain'' @ [backquote]))
        else if CHR ''@'' \<in> set domain_part then
          Inl (notif_incomplete (''address '' @ quote_text raw @ '' '' @ em_dash @ '' a single at-sign''))
        else Inr \<lparr> rc_value = normalized \<rparr>)"

definition recipient_IsZero :: "recipient \<Rightarrow> bool" where
  "recipient_IsZero r \<longleftrightarrow> rc_value r = []"

definition recipient_Masked :: "recipient \<Rightarrow> str" where
  "recipient_Masked r =
     (case cut CHR ''@'' (rc_value r) of (local_part, domain_part, found) \<Rightarrow>
        if \<not> found \<or> local_part = [] then ''***'' else take 1 local_part @ ''***@'' @ domain_part)"

record notif_message =
  no_Channel :: str
  no_To :: recipient
  no_Subject :: str
  no_Body :: str

definition NewMessage_notif :: "str \<Rightarrow> recipient \<Rightarrow> str \<Rightarrow> str \<Rightarrow> err + notif_message" where
  "NewMessage_notif channel addr subject body =
     (if channel \<noteq> ChannelEmail then
        Inl (Errorf [W (Sentinel (Notif ErrUnknownChannel)), Lit ('': '' @ quote_text channel @ '' '' @ em_dash
          @ '' only '' @ quote_text ChannelEmail @ '' is shipped'')])
      else if recipient_IsZero addr then Inl (notif_incomplete ''the recipient is required'')
      else (let trimmedSubject = trim_space subject in
        if trimmedSubject = [] then Inl (notif_incomplete ''the subject is required'')
        else if length trimmedSubject > subjectMaxLen_notif then
          Inl (notif_incomplete (''the subject exceeds '' @ show_nat subjectMaxLen_notif @ '' characters''))
        else if trim_space body = [] then Inl (notif_incomplete ''the body is required'')
        else if length body > bodyMaxLen then
          Inl (notif_incomplete (''the body exceeds '' @ show_nat bodyMaxLen @ '' bytes''))
        else Inr \<lparr> no_Channel = channel, no_To = addr, no_Subject = trimmedSubject, no_Body = body \<rparr>))"

definition notif_message_String :: "notif_message \<Rightarrow> str" where
  "notif_message_String m = ''Message{channel: '' @ no_Channel m @ '', to: '' @ recipient_Masked (no_To m)
     @ '', subject: '' @ quote_text (no_Subject m) @ '', body: *** ('' @ show_nat (length (no_Body m)) @ '' bytes)}''"

section \<open>The use case and the log driver\<close>

type_synonym 'w deliver = "notif_message \<Rightarrow> 'w \<Rightarrow> err option \<times> 'w"

definition NewSend :: "'w deliver \<Rightarrow> notif_message \<Rightarrow> 'w \<Rightarrow> err option \<times> 'w" where
  "NewSend deliver_port m w =
     (case NewMessage_notif (no_Channel m) (no_To m) (no_Subject m) (no_Body m) of
        Inl e \<Rightarrow> (Some (Errorf [Lit ''message: '', W e]), w)
      | Inr validated \<Rightarrow>
          (case deliver_port validated w of
             (Some e, w1) \<Rightarrow> (Some (Errorf [Lit ''delivery to the provider: '', W e]), w1)
           | (None, w1) \<Rightarrow> (None, w1)))"

definition fields :: "notif_message \<Rightarrow> (str \<times> attr) list" where
  "fields m = [(''channel'', AString (no_Channel m)), (''to'', AString (recipient_Masked (no_To m))),
     (''subject'', AString (no_Subject m)), (''body_bytes'', AInt (int (length (no_Body m))))]"

definition notif_log_New :: "log_line list deliver" where
  "notif_log_New m logged = (None, logged @ [\<lparr> l_level = LevelInfo, l_text = ''notification'', l_attrs = fields m \<rparr>])"

definition NewIncludingBody :: "log_line list deliver" where
  "NewIncludingBody m logged =
     (let withBody = fields m @ [(''body'', AString (no_Body m)),
        (''warning'', AString (''body logged '' @ em_dash @ '' development only''))]
      in (None, logged @ [\<lparr> l_level = LevelInfo, l_text = ''notification'', l_attrs = withBody \<rparr>]))"

section \<open>The mounted module\<close>

definition notif_Name :: str where "notif_Name = ''notification''"
definition notif_driverLog :: str where "notif_driverLog = ''log''"
definition OptionBody :: str where "OptionBody = ''body''"
definition BodyMasked :: str where "BodyMasked = ''masked''"
definition BodyLogged :: str where "BodyLogged = ''logged''"

definition notif_Catalog :: module_catalog where
  "notif_Catalog = [(notif_Name, \<lparr> Default = notif_driverLog,
     Drivers = [(notif_driverLog, no_resources\<lparr> Options := [OptionBody] \<rparr>)] \<rparr>)]"

type_synonym notif_module = "notif_message \<Rightarrow> log_line list \<Rightarrow> err option \<times> log_line list"

definition Disabled_notif :: notif_module where
  "Disabled_notif m logged = (Some (Sentinel (Notif NotifErrDisabled)), logged)"

definition logDriver :: "module_config \<Rightarrow> err + log_line list deliver" where
  "logDriver cfg =
     (case StringOption cfg OptionBody BodyMasked of
        Inl e \<Rightarrow> Inl (Errorf [Lit (''modules.'' @ notif_Name @ ''.''), W e])
      | Inr body \<Rightarrow>
          if body = BodyMasked then Inr notif_log_New
          else if body = BodyLogged then Inr NewIncludingBody
          else Inl (Errorf [W (Sentinel (Notif ErrUnknownBodyOption)), Lit ('': '' @ quote_text body @ '' '' @ em_dash
            @ '' expected '' @ quote_text BodyMasked @ '' or '' @ quote_text BodyLogged)]))"

definition New_notif :: "module_config \<Rightarrow> bool \<Rightarrow> err + notif_module" where
  "New_notif cfg logger =
     (if \<not> enabled cfg then Inr Disabled_notif
      else (let drv = (if driver cfg = [] then notif_driverLog else driver cfg) in
        if drv \<noteq> notif_driverLog then Inl (Errorf [W (Sentinel (Notif NotifErrUnknownDriver)), Lit ('': '' @ quote_text drv)])
        else if \<not> logger then Inl (Errorf [W (Sentinel (Notif NotifErrMissingDependency)), Lit '': Logger''])
        else (case logDriver cfg of Inl e \<Rightarrow> Inl e | Inr d \<Rightarrow> Inr (NewSend d))))"

section \<open>Properties\<close>

text \<open>A recipient accepted is in normal form: it parses again to itself, and has one at-sign between
  two parts, no blank, and at most 254 bytes.\<close>

lemma contains_any_iff: "contains_any s cs \<longleftrightarrow> (\<exists>c \<in> set s. c \<in> set cs)"
  by (simp add: contains_any_def list_ex_iff)

lemma NewRecipient_normal:
  assumes "NewRecipient raw = Inr r"
  shows "NewRecipient (rc_value r) = Inr r \<and> rc_value r = normalize raw \<and> length (rc_value r) \<le> 254
     \<and> (\<exists>a b. rc_value r = a @ CHR ''@'' # b \<and> a \<noteq> [] \<and> b \<noteq> [] \<and> CHR ''@'' \<notin> set a \<and> CHR ''@'' \<notin> set b)
     \<and> \<not> contains_any (rc_value r) [CHR '' '', CHR 0x09, CHR 0x0A]"
proof -
  obtain a b f where c: "cut CHR ''@'' (normalize raw) = (a, b, f)" by (cases "cut CHR ''@'' (normalize raw)") auto
  have n: "to_lower (trim_space raw) = normalize raw" by (simp add: Go_Prelude.normalize_def)
  have ok: "f" "a \<noteq> []" "b \<noteq> []" "CHR ''@'' \<notin> set b" "normalize raw \<noteq> []" "length (normalize raw) \<le> recipientMaxLen"
      "\<not> contains_any (normalize raw) [CHR '' '', CHR 0x09, CHR 0x0A]" "r = \<lparr> rc_value = normalize raw \<rparr>"
    using assms c unfolding NewRecipient_def n Let_def by (simp_all split: if_splits)
  have again: "NewRecipient (normalize raw) = Inr r"
    using ok c normalize_idem [of raw] unfolding NewRecipient_def Go_Prelude.normalize_def [of "normalize raw", symmetric] Let_def by simp
  have "normalize raw = a @ CHR ''@'' # b \<and> CHR ''@'' \<notin> set a" using cut_found [of "CHR ''@''" "normalize raw" a b] c ok(1) by simp
  then show ?thesis using ok again by (auto simp: recipientMaxLen_def)
qed

lemma NewMessage_notif_valid:
  "NewMessage_notif ch addr s b = Inr m \<Longrightarrow> m = \<lparr> no_Channel = ChannelEmail, no_To = addr, no_Subject = trim_space s, no_Body = b \<rparr>
     \<and> \<not> recipient_IsZero addr \<and> trim_space s \<noteq> [] \<and> length (trim_space s) \<le> 300 \<and> trim_space b \<noteq> [] \<and> length b \<le> 1048576"
  by (auto simp: NewMessage_notif_def Let_def subjectMaxLen_notif_def bodyMaxLen_def split: if_splits)

text \<open>C35: What is notified is validated and what is logged is masked. Whatever provider delivers, it is
  handed only messages on the email channel, to a recipient, with a trimmed subject of at most 300
  bytes and a body of at most a mebibyte, and a message that is not so is refused without reaching it.
  The module mounted with the body masked then logs two messages that differ in their body only, of
  the same length, or in what the mask hides of the address, in the same way; the body reaches the log
  only under the option that says so.\<close>

theorem notification_masks:
  assumes "New_notif cfg logger = Inr send" and "enabled cfg" and "StringOption cfg OptionBody BodyMasked = Inr BodyMasked"
  shows "(\<forall>(port :: 'w deliver) m w. NewSend port m w = (case NewMessage_notif (no_Channel m) (no_To m) (no_Subject m) (no_Body m) of
            Inl e \<Rightarrow> (Some (Errorf [Lit ''message: '', W e]), w)
          | Inr v \<Rightarrow> (case port v w of (r, w1) \<Rightarrow> (map_option (\<lambda>e. Errorf [Lit ''delivery to the provider: '', W e]) r, w1))))
     \<and> (\<forall>ch addr s b v. NewMessage_notif ch addr s b = Inr v \<longrightarrow> no_Channel v = ChannelEmail \<and> rc_value (no_To v) \<noteq> []
          \<and> no_Subject v = trim_space s \<and> length (no_Subject v) \<le> 300 \<and> length (no_Body v) \<le> 1048576)
     \<and> (\<forall>m m2 logged. no_Channel m2 = no_Channel m \<and> no_Subject m2 = no_Subject m \<and> length (no_Body m2) = length (no_Body m)
          \<and> recipient_Masked (no_To m2) = recipient_Masked (no_To m) \<and> fst (send m logged) = None \<and> fst (send m2 logged) = None
          \<longrightarrow> send m2 logged = send m logged)"
proof -
  have send: "send = NewSend notif_log_New"
    using assms by (auto simp: New_notif_def logDriver_def Let_def split: if_splits)
  have mask: "send m2 logged = send m logged"
    if same: "no_Channel m2 = no_Channel m" "no_Subject m2 = no_Subject m" "length (no_Body m2) = length (no_Body m)"
      "recipient_Masked (no_To m2) = recipient_Masked (no_To m)" "fst (send m logged) = None" "fst (send m2 logged) = None" for m m2 logged
  proof -
    obtain v where v: "NewMessage_notif (no_Channel m) (no_To m) (no_Subject m) (no_Body m) = Inr v"
      using same(5) by (auto simp: send NewSend_def split: sum.splits)
    obtain v2 where v2: "NewMessage_notif (no_Channel m2) (no_To m2) (no_Subject m2) (no_Body m2) = Inr v2"
      using same(6) by (auto simp: send NewSend_def split: sum.splits)
    have "fields v2 = fields v"
      using NewMessage_notif_valid [OF v] NewMessage_notif_valid [OF v2] same(2-4) by (simp add: fields_def)
    then show ?thesis using v v2 by (simp add: send NewSend_def notif_log_New_def)
  qed
  have sends: "NewSend port m w = (case NewMessage_notif (no_Channel m) (no_To m) (no_Subject m) (no_Body m) of
            Inl e \<Rightarrow> (Some (Errorf [Lit ''message: '', W e]), w)
          | Inr v \<Rightarrow> (case port v w of (r, w1) \<Rightarrow> (map_option (\<lambda>e. Errorf [Lit ''delivery to the provider: '', W e]) r, w1)))"
    for port :: "'w deliver" and m w
    by (auto simp: NewSend_def split: sum.splits option.splits prod.splits)
  have valid: "no_Channel v = ChannelEmail \<and> rc_value (no_To v) \<noteq> [] \<and> no_Subject v = trim_space s
      \<and> length (no_Subject v) \<le> 300 \<and> length (no_Body v) \<le> 1048576" if v: "NewMessage_notif ch addr s b = Inr v" for ch addr s b v
    using NewMessage_notif_valid [OF v] by (simp add: recipient_IsZero_def)
  show ?thesis
  proof (intro conjI allI impI)
    fix m m2 logged
    assume "no_Channel m2 = no_Channel m \<and> no_Subject m2 = no_Subject m \<and> length (no_Body m2) = length (no_Body m)
      \<and> recipient_Masked (no_To m2) = recipient_Masked (no_To m) \<and> fst (send m logged) = None \<and> fst (send m2 logged) = None"
    then show "send m2 logged = send m logged" by (elim conjE) (rule mask)
  qed (auto simp only: sends dest: valid)
qed

definition to_ada :: "str \<Rightarrow> notif_message" where
  "to_ada body = \<lparr> no_Channel = ''email'', no_To = \<lparr> rc_value = ''ada@example.org'' \<rparr>, no_Subject = '' hello '', no_Body = body \<rparr>"

lemma notification_masks_witness:
  "NewSend notif_log_New (to_ada ''pin 1234'') [] = NewSend notif_log_New (to_ada ''pin 9999'') []
   \<and> fst (NewSend notif_log_New (to_ada ''pin 1234'') []) = None"
proof -
  let ?cfg = "\<lparr> enabled = True, driver = [], options = [] \<rparr> :: module_config"
  have new: "New_notif ?cfg True = Inr (NewSend notif_log_New)"
    by (simp add: New_notif_def logDriver_def StringOption_def present_def notif_driverLog_def)
  have opt: "StringOption ?cfg OptionBody BodyMasked = Inr BodyMasked" by (simp add: StringOption_def present_def)
  have sent: "fst (NewSend notif_log_New (to_ada ''pin 1234'') []) = None" "fst (NewSend notif_log_New (to_ada ''pin 9999'') []) = None"
    by (simp_all add: NewSend_def NewMessage_notif_def notif_log_New_def to_ada_def ChannelEmail_def recipient_IsZero_def
        trim_space_def is_space_def subjectMaxLen_notif_def bodyMaxLen_def Let_def)
  have on: "enabled ?cfg" by simp
  have same: "no_Channel (to_ada ''pin 9999'') = no_Channel (to_ada ''pin 1234'') \<and> no_Subject (to_ada ''pin 9999'') = no_Subject (to_ada ''pin 1234'')
      \<and> length (no_Body (to_ada ''pin 9999'')) = length (no_Body (to_ada ''pin 1234''))
      \<and> recipient_Masked (no_To (to_ada ''pin 9999'')) = recipient_Masked (no_To (to_ada ''pin 1234''))"
    by (simp add: to_ada_def)
  have "NewSend notif_log_New (to_ada ''pin 9999'') [] = NewSend notif_log_New (to_ada ''pin 1234'') []"
    by (rule notification_masks [OF new on opt, THEN conjunct2, THEN conjunct2, THEN spec, THEN spec, THEN spec, THEN mp])
      (intro conjI same [THEN conjunct1] same [THEN conjunct2, THEN conjunct1] same [THEN conjunct2, THEN conjunct2, THEN conjunct1]
         same [THEN conjunct2, THEN conjunct2, THEN conjunct2] sent)
  then show ?thesis using sent by simp
qed

end
