(* ===== verification/Security.thy ===== *)
theory Security
  imports Go_Base64
begin

text \<open>
  Hashing and encryption at rest (internal/infrastructure/security): the self-describing digest of a
  password and its decoder, the cipher, the blind index. Argon2id, AES-GCM and SHA-256 are parameters:
  code outside the repository.
\<close>

section \<open>What the decoder reads\<close>

text \<open>\<open>base64.RawStdEncoding\<close>: the standard alphabet without padding.\<close>

definition to_std :: "char \<Rightarrow> char" where
  "to_std c = (if c = CHR ''-'' then CHR ''+'' else if c = CHR ''_'' then CHR ''/'' else c)"

definition raw_std_encode :: "bytes \<Rightarrow> str" where
  "raw_std_encode bs = map to_std (b64_encode bs)"

definition raw_std_decode :: "str \<Rightarrow> bytes option" where
  "raw_std_decode s =
     (case all_some (map std_value (filter (\<lambda>c. c \<noteq> CHR 0x0A \<and> c \<noteq> CHR 0x0D) s)) of
        None \<Rightarrow> None | Some ns \<Rightarrow> b64_groups ns)"

text \<open>
  \<open>fmt.Sscanf\<close> of a \<open>%d\<close>: blanks are skipped (ASCII ones here), a line break is an error, and what
  follows the digits is left. An unsigned operand takes no sign and refuses what its width cannot hold.
\<close>

fun skip_space :: "str \<Rightarrow> str option" where
  "skip_space [] = Some []"
| "skip_space (c # cs) =
     (if c = CHR 0x0A then None else if is_space c then skip_space cs else Some (c # cs))"

definition is_decimal :: "char \<Rightarrow> bool" where
  "is_decimal c \<longleftrightarrow> digit_value c \<noteq> None"

definition scan_nat :: "str \<Rightarrow> (nat \<times> str) option" where
  "scan_nat s =
     (let ds = takeWhile is_decimal s in
      if ds = [] then None
      else (case read_digits 0 ds of None \<Rightarrow> None | Some n \<Rightarrow> Some (n, dropWhile is_decimal s)))"

definition scan_int :: "str \<Rightarrow> (int \<times> str) option" where
  "scan_int s =
     (case skip_space s of
        None \<Rightarrow> None
      | Some s1 \<Rightarrow>
          (let neg = (s1 \<noteq> [] \<and> hd s1 = CHR ''-'');
               s2 = (if s1 \<noteq> [] \<and> (hd s1 = CHR ''-'' \<or> hd s1 = CHR ''+'') then tl s1 else s1)
           in case scan_nat s2 of
                None \<Rightarrow> None
              | Some (n, rest) \<Rightarrow>
                  (let i = (if neg then - int n else int n) in if int64_range i then Some (i, rest) else None)))"

definition scan_uint :: "nat \<Rightarrow> str \<Rightarrow> (nat \<times> str) option" where
  "scan_uint bits s =
     (case skip_space s of
        None \<Rightarrow> None
      | Some s1 \<Rightarrow> (case scan_nat s1 of None \<Rightarrow> None | Some (n, rest) \<Rightarrow> if n < 2 ^ bits then Some (n, rest) else None))"

definition scan_literal :: "str \<Rightarrow> str \<Rightarrow> str option" where
  "scan_literal lit s = (if has_prefix s lit then Some (drop (length lit) s) else None)"

section \<open>Passwords\<close>

record argon2_params =
  ap_MemoryKiB :: "32 word"
  ap_Iterations :: "32 word"
  ap_Threads :: "8 word"

definition argon2SaltLen :: nat where "argon2SaltLen = 16"
definition argon2KeyLen :: nat where "argon2KeyLen = 32"
definition argon2Version :: int where "argon2Version = 19"
definition argon2Parts :: nat where "argon2Parts = 6"
definition argon2MinKeyLen :: nat where "argon2MinKeyLen = 16"
definition argon2MaxKeyLen :: nat where "argon2MaxKeyLen = 64"

text \<open>
  \<open>argon2.IDKey(password, salt, time, memory, threads, keyLen)\<close>; \<open>None\<close> is its panic, which it
  documents for a time or a number of threads below one.
\<close>

type_synonym idkey = "bytes \<Rightarrow> bytes \<Rightarrow> 32 word \<Rightarrow> 32 word \<Rightarrow> 8 word \<Rightarrow> nat \<Rightarrow> bytes option"

record decoded_hash =
  dh_params :: argon2_params
  dh_salt :: bytes
  dh_key :: bytes

definition invalid_hash :: "str \<Rightarrow> err" where
  "invalid_hash what = Errorf [W (Sentinel (Infra ErrInvalidHash)), Lit ('': '' @ what)]"

definition Hash_encode :: "argon2_params \<Rightarrow> bytes \<Rightarrow> bytes \<Rightarrow> str" where
  "Hash_encode p salt key = ''$argon2id$v='' @ show_int argon2Version @ ''$m='' @ show_nat (unat (ap_MemoryKiB p))
     @ '',t='' @ show_nat (unat (ap_Iterations p)) @ '',p='' @ show_nat (unat (ap_Threads p))
     @ ''$'' @ raw_std_encode salt @ ''$'' @ raw_std_encode key"

text \<open>The random source gives the salt or an error. \<open>None\<close> is a panic.\<close>

definition Hash :: "idkey \<Rightarrow> argon2_params \<Rightarrow> err + bytes \<Rightarrow> str \<Rightarrow> (err + str) option" where
  "Hash idkey p rand plain =
     (case rand of
        Inl e \<Rightarrow> Some (Inl (Errorf [Lit ''salt generation: '', W e]))
      | Inr salt \<Rightarrow>
          (case idkey plain salt (ap_Iterations p) (ap_MemoryKiB p) (ap_Threads p) argon2KeyLen of
             None \<Rightarrow> None
           | Some key \<Rightarrow> Some (Inr (Hash_encode p salt key))))"

definition scan_version :: "str \<Rightarrow> int option" where
  "scan_version s =
     (case scan_literal ''v='' s of
        None \<Rightarrow> None
      | Some s1 \<Rightarrow> (case scan_int s1 of None \<Rightarrow> None | Some (v, _) \<Rightarrow> Some v))"

definition scan_params :: "str \<Rightarrow> argon2_params option" where
  "scan_params s =
     (case scan_literal ''m='' s of None \<Rightarrow> None | Some s1 \<Rightarrow>
     (case scan_uint 32 s1 of None \<Rightarrow> None | Some (m, s2) \<Rightarrow>
     (case scan_literal '',t='' s2 of None \<Rightarrow> None | Some s3 \<Rightarrow>
     (case scan_uint 32 s3 of None \<Rightarrow> None | Some (t, s4) \<Rightarrow>
     (case scan_literal '',p='' s4 of None \<Rightarrow> None | Some s5 \<Rightarrow>
     (case scan_uint 8 s5 of None \<Rightarrow> None | Some (p, _) \<Rightarrow>
        Some \<lparr> ap_MemoryKiB = word_of_nat m, ap_Iterations = word_of_nat t, ap_Threads = word_of_nat p \<rparr>))))))"

definition decodeHash :: "str \<Rightarrow> err + decoded_hash" where
  "decodeHash encoded =
     (let parts = split_char (CHR ''$'') encoded in
      if length parts \<noteq> argon2Parts \<or> parts ! 1 \<noteq> ''argon2id'' then Inl (invalid_hash ''prefix'')
      else if scan_version (parts ! 2) \<noteq> Some argon2Version then Inl (invalid_hash ''version'')
      else case scan_params (parts ! 3) of
        None \<Rightarrow> Inl (invalid_hash ''parameters'')
      | Some params \<Rightarrow>
          (case raw_std_decode (parts ! 4) of
             None \<Rightarrow> Inl (invalid_hash ''salt'')
           | Some salt \<Rightarrow>
               (case raw_std_decode (parts ! 5) of
                  None \<Rightarrow> Inl (invalid_hash ''key'')
                | Some key \<Rightarrow>
                    if length key < argon2MinKeyLen \<or> length key > argon2MaxKeyLen then
                      Inl (invalid_hash (''key length ('' @ show_nat (length key) @ '' bytes)''))
                    else Inr \<lparr> dh_params = params, dh_salt = salt, dh_key = key \<rparr>)))"

definition Verify_hash :: "idkey \<Rightarrow> str \<Rightarrow> str \<Rightarrow> (err + bool) option" where
  "Verify_hash idkey plain encoded =
     (case decodeHash encoded of
        Inl e \<Rightarrow> Some (Inl e)
      | Inr d \<Rightarrow>
          (case idkey plain (dh_salt d) (ap_Iterations (dh_params d)) (ap_MemoryKiB (dh_params d)) (ap_Threads (dh_params d)) (length (dh_key d)) of
             None \<Rightarrow> None
           | Some candidate \<Rightarrow> Some (Inr (dh_key d = candidate))))"

definition NeedsRehash :: "argon2_params \<Rightarrow> str \<Rightarrow> bool" where
  "NeedsRehash p encoded =
     (case decodeHash encoded of
        Inl e \<Rightarrow> True
      | Inr d \<Rightarrow> ap_MemoryKiB (dh_params d) < ap_MemoryKiB p \<or> ap_Iterations (dh_params d) < ap_Iterations p)"

section \<open>The cipher and the blind index\<close>

text \<open>
  An AEAD of package \<open>crypto/cipher\<close>: \<open>ae_seal nonce plaintext\<close> is what \<open>Seal\<close> appends to its first
  argument, \<open>ae_open nonce ciphertext\<close> the plaintext, or \<open>None\<close> for its error.
\<close>

record aead =
  ae_NonceSize :: nat
  ae_seal :: "bytes \<Rightarrow> bytes \<Rightarrow> bytes"
  ae_open :: "bytes \<Rightarrow> bytes \<Rightarrow> bytes option"

definition aesKeyLen :: nat where "aesKeyLen = 32"

definition NewCipher :: "(bytes \<Rightarrow> err + 'block) \<Rightarrow> ('block \<Rightarrow> err + aead) \<Rightarrow> bytes \<Rightarrow> err + aead" where
  "NewCipher aes gcm key =
     (if length key \<noteq> aesKeyLen then
        Inl (Errorf [W (Sentinel (Infra ErrInvalidKey)), Lit ('': '' @ show_nat (length key) @ '' bytes supplied, ''
          @ show_nat aesKeyLen @ '' expected (AES-256)'')])
      else case aes key of
        Inl e \<Rightarrow> Inl (Errorf [Lit ''invalid AES key: '', W e])
      | Inr block \<Rightarrow>
          (case gcm block of
             Inl e \<Rightarrow> Inl (Errorf [Lit ''GCM initialisation: '', W e])
           | Inr a \<Rightarrow> Inr a))"

definition Encrypt :: "aead \<Rightarrow> err + bytes \<Rightarrow> bytes \<Rightarrow> err + str" where
  "Encrypt a rand plaintext =
     (case rand of
        Inl e \<Rightarrow> Inl (Errorf [Lit ''nonce generation: '', W e])
      | Inr nonce \<Rightarrow> Inr (b64_encode (nonce @ ae_seal a nonce plaintext)))"

definition Decrypt :: "aead \<Rightarrow> str \<Rightarrow> err + bytes" where
  "Decrypt a encoded =
     (case b64_decode encoded of
        None \<Rightarrow> Inl (Errorf [Lit ''unreadable ciphertext: '', W (Opaque ''illegal base64 data'')])
      | Some raw \<Rightarrow>
          (let size = ae_NonceSize a in
           if length raw < size then Inl (Opaque ''ciphertext too short'')
           else case ae_open a (take size raw) (drop size raw) of
             None \<Rightarrow> Inl (Opaque ''decryption refused'')
           | Some plaintext \<Rightarrow> Inr plaintext))"

definition BlindIndex :: "(bytes \<Rightarrow> bytes) \<Rightarrow> bytes \<Rightarrow> bytes \<Rightarrow> str" where
  "BlindIndex sha256 key v = b64_encode (sha256 (key @ v))"

section \<open>Reading back\<close>

lemma in_alphabet: "n < 64 \<Longrightarrow> \<exists>m < 64. b64_char n = b64_char m"
  by blast

lemma b64_alphabet: "list_all (\<lambda>c. \<exists>n < 64. c = b64_char n) (b64_encode bs)"
  by (induction bs rule: b64_encode.induct) (simp_all add: in_alphabet)

lemma std_of_b64:
  assumes "n < 64"
  shows "std_value (to_std (b64_char n)) = Some n" and "to_std (b64_char n) \<notin> {CHR 0x0A, CHR 0x0D, CHR ''$''}"
proof -
  have v: "b64_value (b64_char n) = Some n" using assms by simp
  have none: "b64_value (CHR ''+'') = None" "b64_value (CHR ''/'') = None" "b64_value (CHR 0x0A) = None" "b64_value (CHR 0x0D) = None"
      "b64_value (CHR ''$'') = None" and signs: "b64_value (CHR ''-'') = Some 62" "b64_value (CHR ''_'') = Some 63"
    by (simp_all add: b64_value_def)
  show "std_value (to_std (b64_char n)) = Some n" using v none signs by (auto simp: std_value_def to_std_def)
  have "b64_char n \<notin> {CHR 0x0A, CHR 0x0D, CHR ''$''}" using v none by auto
  then show "to_std (b64_char n) \<notin> {CHR 0x0A, CHR 0x0D, CHR ''$''}" by (auto simp: to_std_def)
qed

lemma raw_std_no_dollar: "CHR ''$'' \<notin> set (raw_std_encode bs)"
proof
  assume "CHR ''$'' \<in> set (raw_std_encode bs)"
  then obtain c where c: "c \<in> set (b64_encode bs)" "CHR ''$'' = to_std c" by (auto simp: raw_std_encode_def)
  then obtain n where "n < 64" "c = b64_char n" using b64_alphabet [of bs] by (auto simp: list_all_iff)
  then show False using std_of_b64(2) [of n] c(2) by simp
qed

lemma raw_std_decode_encode: "raw_std_decode (raw_std_encode bs) = Some bs"
proof -
  have "list_all (\<lambda>c. \<exists>n < 64. c = b64_char n) cs \<Longrightarrow>
      map std_value (filter (\<lambda>c. c \<noteq> CHR 0x0A \<and> c \<noteq> CHR 0x0D) (map to_std cs)) = map b64_value cs" for cs
  proof (induction cs)
    case (Cons c cs)
    then obtain n where "n < 64" "c = b64_char n" by auto
    then show ?case using Cons std_of_b64 [of n] by simp
  qed simp
  from this [OF b64_alphabet [of bs]] show ?thesis
    using b64_decode_encode [of bs] unfolding raw_std_decode_def raw_std_encode_def b64_decode_def b64_values by simp
qed

lemma show_nat_decimal: "list_all is_decimal (show_nat n)"
  using set_show_nat [of _ n] by (simp add: list_all_iff is_decimal_def)

lemma takeWhile_show_nat: "rest = [] \<or> \<not> is_decimal (hd rest) \<Longrightarrow> takeWhile is_decimal (show_nat n @ rest) = show_nat n
    \<and> dropWhile is_decimal (show_nat n @ rest) = rest"
proof -
  assume r: "rest = [] \<or> \<not> is_decimal (hd rest)"
  have "list_all is_decimal xs \<Longrightarrow> takeWhile is_decimal (xs @ rest) = xs \<and> dropWhile is_decimal (xs @ rest) = rest" for xs
    using r by (induction xs) (cases rest; auto)+
  then show ?thesis using show_nat_decimal by blast
qed

lemma decimal_not_space: "is_decimal c \<Longrightarrow> c \<noteq> CHR 0x0A \<and> \<not> is_space c \<and> c \<noteq> CHR ''-'' \<and> c \<noteq> CHR ''+'' \<and> c \<noteq> CHR ''$''"
  by (auto simp: is_decimal_def digit_value_def is_space_def Let_def split: if_splits)

lemma show_nat_Cons: "\<exists>d ds. show_nat n = d # ds \<and> is_decimal d"
  using show_nat_decimal [of n] by (cases "show_nat n") auto

lemma scan_nat_show: "rest = [] \<or> \<not> is_decimal (hd rest) \<Longrightarrow> scan_nat (show_nat n @ rest) = Some (n, rest)"
  using takeWhile_show_nat [of rest n] read_show_nat [of n] by (simp add: scan_nat_def)

lemma skip_space_show: "skip_space (show_nat n @ rest) = Some (show_nat n @ rest)"
  using show_nat_Cons [of n] decimal_not_space by (auto split: if_splits)

lemma scan_uint_show: "n < 2 ^ bits \<Longrightarrow> rest = [] \<or> \<not> is_decimal (hd rest) \<Longrightarrow> scan_uint bits (show_nat n @ rest) = Some (n, rest)"
  by (simp add: scan_uint_def skip_space_show scan_nat_show)

lemma scan_params_show:
  "scan_params (''m='' @ show_nat (unat (ap_MemoryKiB p)) @ '',t='' @ show_nat (unat (ap_Iterations p)) @ '',p='' @ show_nat (unat (ap_Threads p))) = Some p"
proof -
  have lt: "unat (ap_MemoryKiB p) < 2 ^ 32" "unat (ap_Iterations p) < 2 ^ 32" "unat (ap_Threads p) < 2 ^ 8"
    using unsigned_less [of "ap_MemoryKiB p"] unsigned_less [of "ap_Iterations p"] unsigned_less [of "ap_Threads p"] by simp_all
  have comma: "\<not> is_decimal CHR '',''" by code_simp
  show ?thesis
    using scan_uint_show [OF lt(1), of "'',t='' @ show_nat (unat (ap_Iterations p)) @ '',p='' @ show_nat (unat (ap_Threads p))"]
      scan_uint_show [OF lt(2), of "'',p='' @ show_nat (unat (ap_Threads p))"] scan_uint_show [OF lt(3), of "[]"] comma
    by (simp add: scan_params_def scan_literal_def has_prefix_def)
qed

lemma show_nat_no_dollar: "CHR ''$'' \<notin> set (show_nat n)"
  using show_nat_decimal [of n] decimal_not_space by (auto simp: list_all_iff)

lemma split_char_alone: "c \<notin> set s \<Longrightarrow> split_char c s = [s]"
  by (induction s) auto

lemma split_char_at: "c \<notin> set a \<Longrightarrow> split_char c (a @ c # b) = a # split_char c b"
  by (induction a) auto

lemma split_six:
  assumes "c \<notin> set a1" "c \<notin> set a2" "c \<notin> set a3" "c \<notin> set a4" "c \<notin> set a5"
  shows "split_char c (c # a1 @ c # a2 @ c # a3 @ c # a4 @ c # a5) = [[], a1, a2, a3, a4, a5]"
  using assms by (simp add: split_char_at split_char_alone)

lemma decodeHash_encode:
  assumes "argon2MinKeyLen \<le> length key" and "length key \<le> argon2MaxKeyLen"
  shows "decodeHash (Hash_encode p salt key) = Inr \<lparr> dh_params = p, dh_salt = salt, dh_key = key \<rparr>"
proof -
  let ?ps = "''m='' @ show_nat (unat (ap_MemoryKiB p)) @ '',t='' @ show_nat (unat (ap_Iterations p)) @ '',p='' @ show_nat (unat (ap_Threads p))"
  have ps: "CHR ''$'' \<notin> set ?ps" using show_nat_no_dollar by simp
  have v: "''v='' @ show_int argon2Version = ''v=19''" by code_simp
  have e: "Hash_encode p salt key = CHR ''$'' # ''argon2id'' @ CHR ''$'' # ''v=19'' @ CHR ''$'' # ?ps
      @ CHR ''$'' # raw_std_encode salt @ CHR ''$'' # raw_std_encode key"
    unfolding v [symmetric] by (simp add: Hash_encode_def)
  have "split_char (CHR ''$'') (Hash_encode p salt key) = [[], ''argon2id'', ''v=19'', ?ps, raw_std_encode salt, raw_std_encode key]"
    unfolding e by (rule split_six) (use ps raw_std_no_dollar in simp_all)
  moreover have "scan_version ''v=19'' = Some argon2Version" by code_simp
  ultimately show ?thesis
    using assms scan_params_show [of p] raw_std_decode_encode by (simp add: decodeHash_def argon2Parts_def Let_def)
qed

section \<open>Properties\<close>

text \<open>C38: A password verifies against the digest made of it, under any cost, and another one verifies
  exactly when Argon2id gives it the same key; the digest carries its own cost, so a hasher of another
  cost verifies it too, and asks for a rehash exactly when its own memory or iterations are higher.
  The digest of two hashes of the same password differs as soon as the salts do.\<close>

theorem hashed_password_verifies:
  assumes "idkey plain salt (ap_Iterations p) (ap_MemoryKiB p) (ap_Threads p) argon2KeyLen = Some key" and "length key = argon2KeyLen"
  shows "\<exists>digest. Hash idkey p (Inr salt) plain = Some (Inr digest)
     \<and> Verify_hash idkey plain digest = Some (Inr True)
     \<and> (\<forall>other k. idkey other salt (ap_Iterations p) (ap_MemoryKiB p) (ap_Threads p) argon2KeyLen = Some k
          \<longrightarrow> Verify_hash idkey other digest = Some (Inr (key = k)))
     \<and> (\<forall>q. NeedsRehash q digest \<longleftrightarrow> ap_MemoryKiB p < ap_MemoryKiB q \<or> ap_Iterations p < ap_Iterations q)
     \<and> (\<forall>salt2 key2. salt2 \<noteq> salt \<and> length key2 = argon2KeyLen \<longrightarrow> Hash_encode p salt2 key2 \<noteq> digest)"
proof -
  have dec: "decodeHash (Hash_encode p s2 k2) = Inr \<lparr> dh_params = p, dh_salt = s2, dh_key = k2 \<rparr>" if "length k2 = argon2KeyLen" for s2 k2
    using decodeHash_encode [of k2 p s2] that by (simp add: argon2KeyLen_def argon2MinKeyLen_def argon2MaxKeyLen_def)
  have "Hash_encode p salt2 key2 \<noteq> Hash_encode p salt key" if "salt2 \<noteq> salt" "length key2 = argon2KeyLen" for salt2 key2
  proof
    assume "Hash_encode p salt2 key2 = Hash_encode p salt key"
    then have "decodeHash (Hash_encode p salt2 key2) = decodeHash (Hash_encode p salt key)" by simp
    then show False using dec [OF that(2), of salt2] dec [OF assms(2), of salt] that(1) by simp
  qed
  then show ?thesis
    using dec [OF assms(2)] assms by (intro exI [of _ "Hash_encode p salt key"]) (simp add: Hash_def Verify_hash_def NeedsRehash_def)
qed

definition toy_idkey :: idkey where
  "toy_idkey plain salt t m p n = (if t < 1 \<or> p < 1 then None else Some (take n (plain @ replicate n (char_of n))))"

definition cost_one :: argon2_params where
  "cost_one = \<lparr> ap_MemoryKiB = 64, ap_Iterations = 3, ap_Threads = 4 \<rparr>"

lemma hashed_password_verifies_witness:
  "\<exists>digest. Hash toy_idkey cost_one (Inr (replicate 16 (CHR ''s''))) ''correct horse'' = Some (Inr digest)
     \<and> Verify_hash toy_idkey ''correct horse'' digest = Some (Inr True)
     \<and> Verify_hash toy_idkey ''wrong'' digest = Some (Inr False)"
proof -
  let ?key = "take 32 (''correct horse'' @ replicate 32 (char_of (32 :: nat)))"
  have key: "toy_idkey ''correct horse'' (replicate 16 (CHR ''s'')) (ap_Iterations cost_one) (ap_MemoryKiB cost_one) (ap_Threads cost_one) argon2KeyLen = Some ?key"
    by (simp add: toy_idkey_def cost_one_def argon2KeyLen_def)
  have other: "toy_idkey ''wrong'' (replicate 16 (CHR ''s'')) (ap_Iterations cost_one) (ap_MemoryKiB cost_one) (ap_Threads cost_one) argon2KeyLen
      = Some (take 32 (''wrong'' @ replicate 32 (char_of (32 :: nat))))"
    by (simp add: toy_idkey_def cost_one_def argon2KeyLen_def)
  have len: "length ?key = argon2KeyLen" by (simp add: argon2KeyLen_def)
  have "hd ?key \<noteq> hd (take 32 (''wrong'' @ replicate 32 (char_of (32 :: nat))))" by simp
  then have ne: "?key \<noteq> take 32 (''wrong'' @ replicate 32 (char_of (32 :: nat)))" by metis
  have "\<exists>digest. Hash toy_idkey cost_one (Inr (replicate 16 (CHR ''s''))) ''correct horse'' = Some (Inr digest)
     \<and> Verify_hash toy_idkey ''correct horse'' digest = Some (Inr True)
     \<and> (\<forall>other k. toy_idkey other (replicate 16 (CHR ''s'')) (ap_Iterations cost_one) (ap_MemoryKiB cost_one) (ap_Threads cost_one) argon2KeyLen = Some k
          \<longrightarrow> Verify_hash toy_idkey other digest = Some (Inr (?key = k)))
     \<and> (\<forall>q. NeedsRehash q digest \<longleftrightarrow> ap_MemoryKiB cost_one < ap_MemoryKiB q \<or> ap_Iterations cost_one < ap_Iterations q)
     \<and> (\<forall>salt2 key2. salt2 \<noteq> replicate 16 (CHR ''s'') \<and> length key2 = argon2KeyLen \<longrightarrow> Hash_encode cost_one salt2 key2 \<noteq> digest)"
    by (rule hashed_password_verifies) (rule key, rule len)
  then obtain digest where d: "Hash toy_idkey cost_one (Inr (replicate 16 (CHR ''s''))) ''correct horse'' = Some (Inr digest)"
      "Verify_hash toy_idkey ''correct horse'' digest = Some (Inr True)"
    and wrong: "\<forall>other k. toy_idkey other (replicate 16 (CHR ''s'')) (ap_Iterations cost_one) (ap_MemoryKiB cost_one) (ap_Threads cost_one) argon2KeyLen = Some k
          \<longrightarrow> Verify_hash toy_idkey other digest = Some (Inr (?key = k))" by blast
  have "Verify_hash toy_idkey ''wrong'' digest = Some (Inr False)"
    using wrong [THEN spec, THEN spec, THEN mp, OF other] ne by (simp only: refl)
  then show ?thesis using d by blast
qed

text \<open>What is encrypted decrypts to itself under the same key, and what Decrypt accepts is exactly
  what the authenticated cipher opens: a text that does not decode, is shorter than a nonce, or was
  altered so that the cipher refuses it gives an error and no plaintext. A key of any length but 32
  bytes, those AES accepts included, is refused.\<close>

theorem encrypted_round_trip:
  assumes "\<And>nonce plaintext. length nonce = ae_NonceSize a \<Longrightarrow> ae_open a nonce (ae_seal a nonce plaintext) = Some plaintext"
    and "length nonce = ae_NonceSize a"
  shows "\<exists>c. Encrypt a (Inr nonce) plaintext = Inr c \<and> Decrypt a c = Inr plaintext
     \<and> (\<forall>c2 q. Decrypt a c2 = Inr q \<longleftrightarrow> (\<exists>n e. b64_decode c2 = Some (n @ e) \<and> length n = ae_NonceSize a \<and> ae_open a n e = Some q))
     \<and> (\<forall>aes gcm key. length key \<noteq> 32 \<longrightarrow> (\<exists>e. NewCipher aes gcm key = Inl e \<and> errors_is e (Infra ErrInvalidKey)))"
proof -
  have rt: "Decrypt a (b64_encode (nonce @ ae_seal a nonce plaintext)) = Inr plaintext"
    using assms by (simp add: Decrypt_def Let_def)
  have iff: "Decrypt a c2 = Inr q \<longleftrightarrow> (\<exists>n e. b64_decode c2 = Some (n @ e) \<and> length n = ae_NonceSize a \<and> ae_open a n e = Some q)" for c2 q
  proof
    assume "Decrypt a c2 = Inr q"
    then obtain raw where "b64_decode c2 = Some raw" "ae_NonceSize a \<le> length raw"
        "ae_open a (take (ae_NonceSize a) raw) (drop (ae_NonceSize a) raw) = Some q"
      by (auto simp: Decrypt_def Let_def not_less split: option.splits if_splits)
    then show "\<exists>n e. b64_decode c2 = Some (n @ e) \<and> length n = ae_NonceSize a \<and> ae_open a n e = Some q"
      by (intro exI [of _ "take (ae_NonceSize a) raw"] exI [of _ "drop (ae_NonceSize a) raw"]) simp
  next
    assume "\<exists>n e. b64_decode c2 = Some (n @ e) \<and> length n = ae_NonceSize a \<and> ae_open a n e = Some q"
    then show "Decrypt a c2 = Inr q" by (auto simp: Decrypt_def Let_def)
  qed
  show ?thesis
    using rt iff by (intro exI [of _ "b64_encode (nonce @ ae_seal a nonce plaintext)"]) (simp add: Encrypt_def NewCipher_def aesKeyLen_def)
qed

definition toy_aead :: aead where
  "toy_aead = \<lparr> ae_NonceSize = 12, ae_seal = (\<lambda>n p. p @ n), ae_open = (\<lambda>n c.
     if drop (length c - 12) c = n then Some (take (length c - 12) c) else None) \<rparr>"

lemma encrypted_round_trip_witness:
  "\<exists>c. Encrypt toy_aead (Inr (replicate 12 (CHR ''n''))) ''card'' = Inr c \<and> Decrypt toy_aead c = Inr ''card''"
proof -
  have "ae_open toy_aead nonce (ae_seal toy_aead nonce plaintext) = Some plaintext" if "length nonce = ae_NonceSize toy_aead" for nonce plaintext
    using that by (simp add: toy_aead_def)
  moreover have "length (replicate 12 (CHR ''n'')) = ae_NonceSize toy_aead" by (simp add: toy_aead_def)
  ultimately have "\<exists>c. Encrypt toy_aead (Inr (replicate 12 (CHR ''n''))) ''card'' = Inr c \<and> Decrypt toy_aead c = Inr ''card''
      \<and> (\<forall>c2 q. Decrypt toy_aead c2 = Inr q \<longleftrightarrow> (\<exists>n e. b64_decode c2 = Some (n @ e) \<and> length n = ae_NonceSize toy_aead \<and> ae_open toy_aead n e = Some q))
      \<and> (\<forall>aes gcm key. length key \<noteq> 32 \<longrightarrow> (\<exists>e. NewCipher aes gcm key = Inl e \<and> errors_is e (Infra ErrInvalidKey)))"
    by (rule encrypted_round_trip)
  then show ?thesis by blast
qed

text \<open>The index finds what it indexed: two values have one index exactly when they have one digest. The
  key is a prefix of what is hashed, without a mark between the two.\<close>

lemma BlindIndex_equal: "BlindIndex sha key v = BlindIndex sha key w \<longleftrightarrow> sha (key @ v) = sha (key @ w)"
  by (simp add: BlindIndex_def b64_encode_inject)

lemma BlindIndex_unframed: "BlindIndex sha (key @ x) v = BlindIndex sha key (x @ v)"
  by (simp add: BlindIndex_def)

text \<open>The bounds of a decoded digest are on its key only: one that announces four terabytes of memory,
  or no iteration and no thread, is decoded, and it is the key derivation that meets them.\<close>

definition forged_digest :: str where
  "forged_digest = ''$argon2id$v=19$m=4294967295,t=0,p=0$c2FsdHNhbHRzYWx0c2FsdA$AAAAAAAAAAAAAAAAAAAAAA''"

lemma forged_cost_accepted:
  "\<exists>d. decodeHash forged_digest = Inr d \<and> dh_params d = \<lparr> ap_MemoryKiB = 4294967295, ap_Iterations = 0, ap_Threads = 0 \<rparr>
     \<and> Verify_hash toy_idkey plain forged_digest = None"
proof -
  have parts: "split_char (CHR ''$'') forged_digest = [[], ''argon2id'', ''v=19'', ''m=4294967295,t=0,p=0'',
      ''c2FsdHNhbHRzYWx0c2FsdA'', ''AAAAAAAAAAAAAAAAAAAAAA'']"
    by (simp add: forged_digest_def)
  have ver: "scan_version ''v=19'' = Some argon2Version" by code_simp
  let ?p = "\<lparr> ap_MemoryKiB = 4294967295, ap_Iterations = 0, ap_Threads = 0 \<rparr> :: argon2_params"
  have "''m='' @ show_nat (unat (ap_MemoryKiB ?p)) @ '',t='' @ show_nat (unat (ap_Iterations ?p)) @ '',p='' @ show_nat (unat (ap_Threads ?p))
      = ''m=4294967295,t=0,p=0''"
    by (simp add: show_nat.simps)
  then have par: "scan_params ''m=4294967295,t=0,p=0'' = Some ?p" using scan_params_show [of ?p] by simp
  have salt: "raw_std_decode ''c2FsdHNhbHRzYWx0c2FsdA'' = Some ''saltsaltsaltsalt''" by code_simp
  have key: "raw_std_decode ''AAAAAAAAAAAAAAAAAAAAAA'' = Some (replicate 16 (CHR 0x00))" by code_simp
  have dec: "decodeHash forged_digest = Inr \<lparr> dh_params = ?p, dh_salt = ''saltsaltsaltsalt'', dh_key = replicate 16 (CHR 0x00) \<rparr>"
    using ver par salt key by (simp add: decodeHash_def parts argon2Parts_def argon2MinKeyLen_def argon2MaxKeyLen_def)
  then show ?thesis by (simp add: Verify_hash_def toy_idkey_def)
qed

end
