(* ===== verification/Middleware.thy ===== *)
theory Middleware
  imports Logging Config_Core
begin

text \<open>
  The cross-cutting concerns of the HTTP transport (internal/pkg/middleware), one group of definitions
  per file, on a model of what they use of \<open>net/http\<close>: a request, a response writer that sends its
  headers once, handlers that return, panic or abort. The token bucket of \<open>golang.org/x/time/rate\<close> is
  a parameter of the rate limiter.
\<close>

section \<open>Requests, responses, handlers\<close>

text \<open>Header names are in canonical form.\<close>

type_synonym header = "(str, str list) gomap"

definition header_Get :: "header \<Rightarrow> str \<Rightarrow> str" where
  "header_Get h name = (case map_get h name of Some (v # vs) \<Rightarrow> v | _ \<Rightarrow> [])"

definition header_Set :: "str \<Rightarrow> str \<Rightarrow> header \<Rightarrow> header" where
  "header_Set name v h = map_set name [v] h"

definition header_Add :: "str \<Rightarrow> str \<Rightarrow> header \<Rightarrow> header" where
  "header_Add name v h = map_set name ((case map_get h name of None \<Rightarrow> [] | Some vs \<Rightarrow> vs) @ [v]) h"

record request =
  rq_Method :: str
  rq_Path :: str
  rq_RemoteAddr :: str
  rq_Header :: header
  rq_ContentLength :: int     \<comment> \<open>as declared, -1 when unknown\<close>
  rq_Body :: bytes
  rq_Limit :: "int option"    \<comment> \<open>of the \<open>MaxBytesReader\<close> around the body\<close>
  rq_id :: str                \<comment> \<open>the correlation identifier of the context, or empty\<close>

text \<open>\<open>hw_recs\<close> are the recorders around the writer, innermost first: status and bytes of each.\<close>

record 'x http_world =
  hw_Header :: header
  hw_Status :: "nat option"
  hw_Sent :: header
  hw_Body :: bytes
  hw_recs :: "(nat \<times> nat) list"
  hw_log :: "log_line list"
  hw_clock :: time
  hw_rest :: 'x

datatype flow = Served | Panicked str | Aborted

type_synonym 'x http_handler = "request \<Rightarrow> 'x http_world \<Rightarrow> flow \<times> 'x http_world"
type_synonym 'x middleware = "'x http_handler \<Rightarrow> 'x http_handler"

text \<open>The writer of the server: the first \<open>WriteHeader\<close> sends the headers, the others are superfluous;
  a \<open>Write\<close> before it sends 200, and writes nothing where the status allows no body.\<close>

definition send_header :: "nat \<Rightarrow> 'x http_world \<Rightarrow> 'x http_world" where
  "send_header code w = (if hw_Status w = None then w\<lparr> hw_Status := Some code, hw_Sent := hw_Header w \<rparr> else w)"

definition WriteHeader :: "nat \<Rightarrow> 'x http_world \<Rightarrow> 'x http_world" where
  "WriteHeader code w = send_header code (w\<lparr> hw_recs := map (\<lambda>(s, n). (code, n)) (hw_recs w) \<rparr>)"

definition body_allowed :: "nat \<Rightarrow> bool" where
  "body_allowed code \<longleftrightarrow> \<not> (100 \<le> code \<and> code \<le> 199) \<and> code \<noteq> 204 \<and> code \<noteq> 304"

definition Write :: "bytes \<Rightarrow> 'x http_world \<Rightarrow> 'x http_world" where
  "Write b w =
     (let w1 = send_header 200 w in
      if (case hw_Status w1 of Some code \<Rightarrow> body_allowed code | None \<Rightarrow> False)
      then w1\<lparr> hw_Body := hw_Body w1 @ b, hw_recs := map (\<lambda>(s, n). (s, n + length b)) (hw_recs w1) \<rparr>
      else w1)"

definition set_header :: "str \<Rightarrow> str \<Rightarrow> 'x http_world \<Rightarrow> 'x http_world" where
  "set_header name v w = w\<lparr> hw_Header := header_Set name v (hw_Header w) \<rparr>"

definition http_Error :: "str \<Rightarrow> nat \<Rightarrow> 'x http_world \<Rightarrow> 'x http_world" where
  "http_Error what code w =
     Write (what @ [CHR 0x0A]) (WriteHeader code
       (set_header ''X-Content-Type-Options'' ''nosniff'' (set_header ''Content-Type'' ''text/plain; charset=utf-8''
         (w\<lparr> hw_Header := map_del ''Content-Length'' (hw_Header w) \<rparr>))))"

text \<open>What a handler that reads the whole body gets: an error above the limit.\<close>

definition read_body :: "request \<Rightarrow> err + bytes" where
  "read_body rq =
     (case rq_Limit rq of
        None \<Rightarrow> Inr (rq_Body rq)
      | Some n \<Rightarrow> if int (length (rq_Body rq)) \<le> max 0 n then Inr (rq_Body rq) else Inl (Opaque ''http: request body too large''))"

section \<open>The middlewares\<close>

text \<open>The loop runs from the last to the first: the first listed is the outermost.\<close>

definition Chain_mw :: "'x middleware list \<Rightarrow> 'x middleware" where
  "Chain_mw ms next_handler = foldr (\<lambda>m h. m h) ms next_handler"

definition RequestIDHeader :: str where "RequestIDHeader = ''X-Request-Id''"

text \<open>\<open>uuid\<close> is the identifier \<open>uuid.NewString\<close> draws for this request.\<close>

definition RequestID :: "str \<Rightarrow> 'x middleware" where
  "RequestID uuid next_handler rq w =
     (let given = header_Get (rq_Header rq) RequestIDHeader;
          id = (if given = [] \<or> length given > 64 \<or> contains_any given [CHR 0x0D, CHR 0x0A] then uuid else given)
      in next_handler (rq\<lparr> rq_id := id \<rparr>) (set_header RequestIDHeader id w))"

definition RequestIDFrom :: "request \<Rightarrow> str" where
  "RequestIDFrom rq = rq_id rq"

text \<open>A panic unwinds to here, and with it the recorders of the middlewares inside.\<close>

definition Recover :: "'x middleware" where
  "Recover next_handler rq w =
     (case next_handler rq w of
        (Panicked v, w1) \<Rightarrow>
          (Served, http_Error ''{\"title\":\"Internal Server Error\",\"status\":500}'' 500
             (w1\<lparr> hw_recs := drop (length (hw_recs w1) - length (hw_recs w)) (hw_recs w1),
                  hw_log := hw_log w1 @ [\<lparr> l_level = LevelError, l_text = ''panic in an HTTP handler'',
                    l_attrs = [(''recovered'', AString v), (''method'', AString (rq_Method rq)), (''path'', AString (rq_Path rq)),
                      (''request_id'', AString (RequestIDFrom rq))] \<rparr>] \<rparr>))
      | r \<Rightarrow> r)"

definition hstsOneYear :: str where "hstsOneYear = ''max-age=31536000; includeSubDomains''"

definition hardening :: "(str \<times> str) list" where
  "hardening = [(''X-Content-Type-Options'', ''nosniff''), (''X-Frame-Options'', ''DENY''),
     (''Referrer-Policy'', ''strict-origin-when-cross-origin''), (''Cross-Origin-Opener-Policy'', ''same-origin''),
     (''Permissions-Policy'', ''geolocation=(), camera=(), microphone=()''),
     (''Content-Security-Policy'', ''default-src 'none'; frame-ancestors 'none'; base-uri 'none'' @ [CHR 0x27])]"

definition hardeningHeaders :: "str \<Rightarrow> 'x middleware" where
  "hardeningHeaders hsts next_handler rq w =
     (let w1 = fold (\<lambda>(name, v). set_header name v) hardening w;
          w2 = (if hsts \<noteq> [] then set_header ''Strict-Transport-Security'' hsts w1 else w1)
      in next_handler rq w2)"

definition SecurityHeaders :: "'x middleware" where
  "SecurityHeaders = hardeningHeaders hstsOneYear"

definition SecurityHeadersWithoutHSTS :: "'x middleware" where
  "SecurityHeadersWithoutHSTS = hardeningHeaders []"

definition cors_headers :: "str \<Rightarrow> 'x http_world \<Rightarrow> 'x http_world" where
  "cors_headers origin w =
     (let w1 = set_header ''Access-Control-Max-Age'' ''600''
        (set_header ''Access-Control-Allow-Headers'' (''Content-Type, Authorization, '' @ RequestIDHeader)
        (set_header ''Access-Control-Allow-Methods'' ''GET, POST, PUT, PATCH, DELETE, OPTIONS''
        (set_header ''Access-Control-Allow-Credentials'' ''true''
        (set_header ''Access-Control-Allow-Origin'' origin w))))
      in w1\<lparr> hw_Header := header_Add ''Vary'' ''Origin'' (hw_Header w1) \<rparr>)"

definition CORS :: "str list \<Rightarrow> 'x middleware" where
  "CORS allowedOrigins next_handler rq w =
     (let origin = header_Get (rq_Header rq) ''Origin'';
          w1 = (if origin \<noteq> [] \<and> origin \<in> set allowedOrigins then cors_headers origin w else w)
      in if rq_Method rq = ''OPTIONS'' then (Served, WriteHeader 204 w1) else next_handler rq w1)"

definition refuseTooLarge :: "int \<Rightarrow> 'x http_world \<Rightarrow> 'x http_world" where
  "refuseTooLarge limit w =
     Write (''{\"title\":\"Request Entity Too Large\",\"status\":413,\"detail\":\"request body is too large limit='' @ show_int limit @ '' bytes\"}'')
       (WriteHeader 413 (set_header ''Content-Type'' ''application/problem+json'' w))"

definition MaxBody :: "int \<Rightarrow> 'x middleware" where
  "MaxBody limit next_handler rq w =
     (if limit > 0 \<and> rq_ContentLength rq > limit then (Served, refuseTooLarge limit w)
      else next_handler (rq\<lparr> rq_Limit := Some limit \<rparr>) w)"

text \<open>The line is written when the handler returns: a panic passes by.\<close>

definition AccessLog :: "'x middleware" where
  "AccessLog next_handler rq w =
     (let started = hw_clock w in
      case next_handler rq (w\<lparr> hw_recs := (200, 0) # hw_recs w \<rparr>) of
        (Served, w1) \<Rightarrow>
          (case hw_recs w1 of
             [] \<Rightarrow> (Served, w1)
           | (status, written) # recs \<Rightarrow>
               (Served, w1\<lparr> hw_recs := recs, hw_log := hw_log w1 @ [\<lparr> l_level = LevelInfo, l_text = ''request handled'',
                  l_attrs = [(''method'', AString (rq_Method rq)), (''path'', AString (rq_Path rq)), (''status'', AInt (int status)),
                    (''bytes'', AInt (int written)), (''duration'', ADuration (time_sub (hw_clock w1) started)),
                    (''request_id'', AString (RequestIDFrom rq))] \<rparr>] \<rparr>))
      | r \<Rightarrow> r)"

section \<open>The rate limiter\<close>

text \<open>\<open>ra_new rps burst\<close> is a fresh bucket, \<open>ra_allow now\<close> its \<open>Allow\<close>.\<close>

record 'l rate_lib =
  ra_new :: "float64 \<Rightarrow> int \<Rightarrow> 'l"
  ra_allow :: "time \<Rightarrow> 'l \<Rightarrow> bool \<times> 'l"

record 'l visitor =
  vi_limiter :: 'l
  vi_seen :: time

record 'l rate_limiter =
  rl_visitors :: "(str, 'l visitor) gomap"
  rl_rps :: float64
  rl_burst :: int
  rl_ttl :: duration

definition NewRateLimiter :: "float64 \<Rightarrow> int \<Rightarrow> duration \<Rightarrow> 'l rate_limiter" where
  "NewRateLimiter rps burst ttl = \<lparr> rl_visitors = [], rl_rps = rps, rl_burst = burst, rl_ttl = ttl \<rparr>"

definition evictLocked :: "time \<Rightarrow> 'l rate_limiter \<Rightarrow> 'l rate_limiter" where
  "evictLocked now l = l\<lparr> rl_visitors := filter (\<lambda>(key, v). \<not> time_sub now (vi_seen v) > rl_ttl l) (rl_visitors l) \<rparr>"

definition allow :: "'l rate_lib \<Rightarrow> time \<Rightarrow> str \<Rightarrow> 'l rate_limiter \<Rightarrow> bool \<times> 'l rate_limiter" where
  "allow lib now key l =
     (case (case map_get (rl_visitors l) key of
              None \<Rightarrow> (\<lparr> vi_limiter = ra_new lib (rl_rps l) (rl_burst l), vi_seen = now \<rparr>, evictLocked now l)
            | Some v \<Rightarrow> (v, l)) of
        (v, l1) \<Rightarrow>
          (case ra_allow lib now (vi_limiter v) of
             (ok, b) \<Rightarrow> (ok, l1\<lparr> rl_visitors := map_set key \<lparr> vi_limiter = b, vi_seen = now \<rparr> (rl_visitors l1) \<rparr>)))"

text \<open>\<open>net.SplitHostPort\<close>: the host, or \<open>None\<close> for its error.\<close>

definition after_last_colon :: "str \<Rightarrow> str" where
  "after_last_colon s = rev (takeWhile (\<lambda>c. c \<noteq> CHR '':'') (rev s))"

definition split_host :: "str \<Rightarrow> str option" where
  "split_host s =
     (if CHR '':'' \<notin> set s then None
      else (let port = after_last_colon s; before = take (length s - length port - 1) s in
        if s \<noteq> [] \<and> hd s = CHR ''['' then
          (let host = takeWhile (\<lambda>c. c \<noteq> CHR '']'') (tl s) in
           if CHR '']'' \<notin> set s \<or> before \<noteq> CHR ''['' # host @ [CHR '']''] then None
           else if CHR ''['' \<in> set (tl s) \<or> CHR '']'' \<in> set port then None else Some host)
        else if CHR '':'' \<in> set before \<or> CHR ''['' \<in> set s \<or> CHR '']'' \<in> set s then None
        else Some before))"

definition clientKey :: "request \<Rightarrow> str" where
  "clientKey rq = (case split_host (rq_RemoteAddr rq) of None \<Rightarrow> rq_RemoteAddr rq | Some host \<Rightarrow> host)"

definition rate_Middleware :: "'l rate_lib \<Rightarrow> ('l rate_limiter) middleware" where
  "rate_Middleware lib next_handler rq w =
     (case allow lib (hw_clock w) (clientKey rq) (hw_rest w) of
        (False, l) \<Rightarrow> (Served, http_Error ''{\"title\":\"Too Many Requests\",\"status\":429}'' 429
                        (set_header ''Retry-After'' ''1'' (w\<lparr> hw_rest := l \<rparr>)))
      | (True, l) \<Rightarrow> next_handler rq (w\<lparr> hw_rest := l \<rparr>))"

section \<open>One bucket per client\<close>

text \<open>The answers a limiter gives to a sequence of calls, and those of one bucket.\<close>

fun answers :: "'l rate_lib \<Rightarrow> (time \<times> str) list \<Rightarrow> 'l rate_limiter \<Rightarrow> (str \<times> bool) list" where
  "answers lib [] l = []"
| "answers lib ((now, key) # calls) l = (case allow lib now key l of (ok, l1) \<Rightarrow> (key, ok) # answers lib calls l1)"

fun bucket :: "'l rate_lib \<Rightarrow> time list \<Rightarrow> 'l \<Rightarrow> bool list" where
  "bucket lib [] b = []"
| "bucket lib (now # ts) b = (case ra_allow lib now b of (ok, b1) \<Rightarrow> ok # bucket lib ts b1)"

text \<open>Successive instants at most a ttl apart.\<close>

fun steady :: "duration \<Rightarrow> time list \<Rightarrow> bool" where
  "steady ttl (s # t # ts) \<longleftrightarrow> t - s \<le> ttl \<and> steady ttl (t # ts)"
| "steady ttl _ \<longleftrightarrow> True"

definition calls_of :: "str \<Rightarrow> (time \<times> str) list \<Rightarrow> time list" where
  "calls_of key calls = map fst (filter (\<lambda>(t, k). k = key) calls)"

lemma not_evicted: "t - s \<le> ttl \<Longrightarrow> 0 \<le> ttl \<Longrightarrow> \<not> time_sub t s > ttl"
  by (auto simp: time_sub_def)

lemma evict_keeps:
  assumes "is_map (rl_visitors l)" and "map_get (rl_visitors l) key = Some v" and "now - vi_seen v \<le> rl_ttl l" and "0 \<le> rl_ttl l"
  shows "map_get (rl_visitors (evictLocked now l)) key = Some v"
  using map_of_filter_key [OF assms(1), of "\<lambda>k v. \<not> time_sub now (vi_seen v) > rl_ttl l" key] assms(2)
    not_evicted [OF assms(3,4)]
  by (simp add: evictLocked_def)

lemma is_map_evict: "is_map (rl_visitors l) \<Longrightarrow> is_map (rl_visitors (evictLocked now l))"
  by (simp add: evictLocked_def distinct_map_filter)

lemma allow_fields: "allow lib now key l = (ok, l1) \<Longrightarrow> is_map (rl_visitors l) \<Longrightarrow>
    rl_ttl l1 = rl_ttl l \<and> rl_rps l1 = rl_rps l \<and> rl_burst l1 = rl_burst l \<and> is_map (rl_visitors l1)"
  using is_map_evict [of l now] by (auto simp: allow_def evictLocked_def split: option.splits prod.splits)

lemma allow_own:
  "map_get (rl_visitors l) key = Some v \<Longrightarrow> allow lib now key l = (ok, l1) \<Longrightarrow>
     \<exists>b. ra_allow lib now (vi_limiter v) = (ok, b) \<and> map_get (rl_visitors l1) key = Some \<lparr> vi_limiter = b, vi_seen = now \<rparr>"
  by (auto simp: allow_def split: prod.splits)

lemma allow_other:
  assumes "k \<noteq> key" and "is_map (rl_visitors l)" and "map_get (rl_visitors l) key = Some v" and "allow lib now k l = (ok, l1)"
    and "now - vi_seen v \<le> rl_ttl l" and "0 \<le> rl_ttl l"
  shows "map_get (rl_visitors l1) key = Some v"
  using assms(1,3,4) evict_keeps [OF assms(2,3,5,6)] by (auto simp: allow_def split: option.splits prod.splits)

lemma answers_known:
  assumes "sorted (map fst calls)" and "is_map (rl_visitors l)" and "map_get (rl_visitors l) key = Some v" and "0 \<le> rl_ttl l"
    and "steady (rl_ttl l) (vi_seen v # calls_of key calls)"
  shows "map snd (filter (\<lambda>(k, ok). k = key) (answers lib calls l)) = bucket lib (calls_of key calls) (vi_limiter v)"
  using assms
proof (induction calls arbitrary: l v)
  case (Cons c calls)
  obtain now k where c: "c = (now, k)" by (cases c)
  obtain ok l1 where a: "allow lib now k l = (ok, l1)" by (cases "allow lib now k l")
  note l1 = allow_fields [OF a Cons.prems(2)] and prems = Cons.prems and IH = Cons.IH
  show ?case
  proof (cases "k = key")
    case True
    then obtain b where b: "ra_allow lib now (vi_limiter v) = (ok, b)" "map_get (rl_visitors l1) key = Some \<lparr> vi_limiter = b, vi_seen = now \<rparr>"
      using allow_own [OF Cons.prems(3)] a by blast
    have "steady (rl_ttl l1) (now # calls_of key calls)" using Cons.prems(5) c True l1 by (simp add: calls_of_def)
    then show ?thesis
      using Cons.IH [OF _ _ b(2)] Cons.prems(1,4) l1 c True a b(1) by (simp add: calls_of_def)
  next
    case False
    then have same: "calls_of key (c # calls) = calls_of key calls" using c by (simp add: calls_of_def)
    show ?thesis
    proof (cases "calls_of key calls")
      case Nil
      have "filter (\<lambda>(k, ok). k = key) (answers lib cs m) = []" if "calls_of key cs = []" for cs and m :: "'a rate_limiter"
        using that by (induction cs arbitrary: m) (auto simp: calls_of_def split: prod.splits if_splits)
      then show ?thesis using Nil same by (metis bucket.simps(1) list.map(1))
    next
      case (Cons t ts)
      have "\<forall>t \<in> set (calls_of key calls). now \<le> t" using prems(1) c by (auto simp: calls_of_def)
      then have "now - vi_seen v \<le> rl_ttl l" using prems(5) same Cons by simp
      then have "map_get (rl_visitors l1) key = Some v" by (rule allow_other [OF False prems(2,3) a _ prems(4)])
      then show ?thesis using IH [of l1 v] prems l1 c False a same by simp
    qed
  qed
qed (simp add: calls_of_def)

end
