(* ===== verification/Http_Stack.thy ===== *)
theory Http_Stack
  imports Middleware
begin

text \<open>
  The middleware stack the router mounts and its probes (internal/infrastructure/httpserver/httpserver.go).
  The router of chi that picks a handler by path is outside: the stack is around any handler.
\<close>

section \<open>The router\<close>

definition securityHeadersFor :: "Environment \<Rightarrow> 'x middleware" where
  "securityHeadersFor env = (if IsDevelopment env then SecurityHeadersWithoutHSTS else SecurityHeaders)"

definition stack :: "'l rate_lib \<Rightarrow> str \<Rightarrow> config \<Rightarrow> ('l rate_limiter) middleware" where
  "stack lib uuid cfg = Chain_mw [RequestID uuid, Recover, securityHeadersFor (app_Env (App cfg)),
     CORS (h_AllowedOrigins (HTTP cfg)), MaxBody (h_MaxBodyBytes (HTTP cfg)), AccessLog, rate_Middleware lib]"

definition NewRouter :: "config \<Rightarrow> 'l rate_limiter" where
  "NewRouter cfg = NewRateLimiter (l_RPS (Limits cfg)) (l_Burst (Limits cfg)) (10 * minute)"

text \<open>What the server does with a handler: a request whose handler wrote nothing is answered 200.\<close>

definition serve :: "'x http_handler \<Rightarrow> 'x http_handler" where
  "serve h rq w = (case h rq w of (Served, w1) \<Rightarrow> (Served, send_header 200 w1) | r \<Rightarrow> r)"

text \<open>A probe gives \<open>nil\<close> or why its dependency is not there; the map gives the order they are asked in.\<close>

definition healthz :: "'x http_handler" where
  "healthz rq w = (Served, Write ''{\"status\":\"ok\"}'' (set_header ''Content-Type'' ''application/json'' w))"

fun readyz :: "(str, err option) gomap \<Rightarrow> 'x http_handler" where
  "readyz [] rq w = (Served, Write ''{\"status\":\"ready\"}'' (set_header ''Content-Type'' ''application/json'' w))"
| "readyz ((name, probe) # probes) rq w =
     (case probe of
        Some e \<Rightarrow> (Served, Write (''{\"status\":\"unavailable\",\"dependency\":'' @ quote_text name @ ''}'')
                     (WriteHeader 503 (set_header ''Content-Type'' ''application/json'' w)))
      | None \<Rightarrow> readyz probes rq w)"

section \<open>What the stack answers\<close>

definition fresh_writer :: "'x http_world \<Rightarrow> bool" where
  "fresh_writer w \<longleftrightarrow> hw_Status w = None \<and> hw_Header w = [] \<and> hw_Body w = [] \<and> hw_recs w = []"

text \<open>The identifier of a request, and the headers every answer carries.\<close>

definition correlation :: "str \<Rightarrow> request \<Rightarrow> str" where
  "correlation uuid rq =
     (let given = header_Get (rq_Header rq) RequestIDHeader in
      if given = [] \<or> length given > 64 \<or> contains_any given [CHR 0x0D, CHR 0x0A] then uuid else given)"

definition guard_values :: "str \<Rightarrow> request \<Rightarrow> (str \<times> str) list" where
  "guard_values uuid rq = (RequestIDHeader, correlation uuid rq) # hardening"

definition hardened_names :: "str list" where
  "hardened_names = RequestIDHeader # map fst hardening"

definition guarded_header :: "str \<Rightarrow> request \<Rightarrow> header \<Rightarrow> bool" where
  "guarded_header uuid rq h \<longleftrightarrow> (\<forall>p \<in> set (guard_values uuid rq). map_get h (fst p) = Some [snd p])"

lemma guard_values_names: "p \<in> set (guard_values uuid rq) \<Longrightarrow> fst p \<in> set hardened_names"
  by (auto simp: guard_values_def hardened_names_def)

text \<open>A handler that leaves the headers it is given as they are, and adds its own; whatever it sends
  includes them, and it puts back the recorders it finds.\<close>

definition keeps_headers :: "'x http_handler \<Rightarrow> bool" where
  "keeps_headers h \<longleftrightarrow> (\<forall>rq w f w1. h rq w = (f, w1) \<longrightarrow>
     (\<forall>name \<in> set hardened_names. map_get (hw_Header w1) name = map_get (hw_Header w) name)
     \<and> (hw_Status w = None \<longrightarrow> (case hw_Status w1 of None \<Rightarrow> hw_Sent w1 = hw_Sent w
          | Some c \<Rightarrow> (\<forall>name \<in> set hardened_names. map_get (hw_Sent w1) name = map_get (hw_Header w) name)))
     \<and> (hw_Status w \<noteq> None \<longrightarrow> hw_Status w1 = hw_Status w \<and> hw_Sent w1 = hw_Sent w)
     \<and> length (hw_recs w) \<le> length (hw_recs w1))"

definition answers_guarded :: "str \<Rightarrow> request \<Rightarrow> 'x http_world \<Rightarrow> bool" where
  "answers_guarded uuid rq w \<longleftrightarrow> guarded_header uuid rq (hw_Header w) \<and> (hw_Status w \<noteq> None \<longrightarrow> guarded_header uuid rq (hw_Sent w))"

lemma guarded_header_other:
  "name \<notin> set hardened_names \<Longrightarrow> guarded_header uuid rq (map_set name vs h) \<longleftrightarrow> guarded_header uuid rq h"
  "name \<notin> set hardened_names \<Longrightarrow> guarded_header uuid rq (map_del name h) \<longleftrightarrow> guarded_header uuid rq h"
proof -
  assume n: "name \<notin> set hardened_names"
  have "\<forall>p \<in> set (guard_values uuid rq). fst p \<noteq> name" using n guard_values_names by metis
  then show "guarded_header uuid rq (map_set name vs h) \<longleftrightarrow> guarded_header uuid rq h"
    "guarded_header uuid rq (map_del name h) \<longleftrightarrow> guarded_header uuid rq h"
    unfolding guarded_header_def by simp_all
qed

lemma guarded_nosniff: "guarded_header uuid rq h \<Longrightarrow> guarded_header uuid rq (map_set ''X-Content-Type-Options'' [''nosniff''] h)"
  by (auto simp: guarded_header_def guard_values_def hardening_def RequestIDHeader_def)

lemma other_names [simp]:
  "''Content-Type'' \<notin> set hardened_names" "''Content-Length'' \<notin> set hardened_names"
  "''Retry-After'' \<notin> set hardened_names" "''Vary'' \<notin> set hardened_names"
  "''Access-Control-Max-Age'' \<notin> set hardened_names"
  "''Access-Control-Allow-Headers'' \<notin> set hardened_names"
  "''Access-Control-Allow-Methods'' \<notin> set hardened_names"
  "''Access-Control-Allow-Credentials'' \<notin> set hardened_names"
  "''Access-Control-Allow-Origin'' \<notin> set hardened_names"
  by (simp_all add: hardened_names_def RequestIDHeader_def hardening_def)

lemma guarded_set: "answers_guarded uuid rq w \<Longrightarrow> name \<notin> set hardened_names \<Longrightarrow> answers_guarded uuid rq (set_header name v w)"
  by (simp add: answers_guarded_def set_header_def header_Set_def guarded_header_other(1))

lemma guarded_send: "answers_guarded uuid rq w \<Longrightarrow> answers_guarded uuid rq (send_header code w) \<and> hw_Status (send_header code w) \<noteq> None"
  by (auto simp: answers_guarded_def send_header_def)

lemma guarded_WriteHeader: "answers_guarded uuid rq w \<Longrightarrow> answers_guarded uuid rq (WriteHeader code w) \<and> hw_Status (WriteHeader code w) \<noteq> None"
  unfolding WriteHeader_def by (rule guarded_send) (simp add: answers_guarded_def)

lemma guarded_Write: "answers_guarded uuid rq w \<Longrightarrow> answers_guarded uuid rq (Write b w) \<and> hw_Status (Write b w) \<noteq> None"
  using guarded_send [of uuid rq w 200] by (auto simp: answers_guarded_def Write_def Let_def)

lemma guarded_Error: "answers_guarded uuid rq w \<Longrightarrow> answers_guarded uuid rq (http_Error what code w) \<and> hw_Status (http_Error what code w) \<noteq> None"
proof -
  assume g: "answers_guarded uuid rq w"
  have "answers_guarded uuid rq (w\<lparr> hw_Header := map_del ''Content-Length'' (hw_Header w) \<rparr>)"
    using g guarded_header_other(2) [OF other_names(2)] by (simp add: answers_guarded_def)
  then have "answers_guarded uuid rq (set_header ''Content-Type'' ''text/plain; charset=utf-8'' (w\<lparr> hw_Header := map_del ''Content-Length'' (hw_Header w) \<rparr>))"
    by (rule guarded_set) simp
  then have "answers_guarded uuid rq (set_header ''X-Content-Type-Options'' ''nosniff''
      (set_header ''Content-Type'' ''text/plain; charset=utf-8'' (w\<lparr> hw_Header := map_del ''Content-Length'' (hw_Header w) \<rparr>)))"
    using guarded_nosniff by (simp add: answers_guarded_def set_header_def header_Set_def)
  then show ?thesis using guarded_Write guarded_WriteHeader unfolding http_Error_def by blast
qed

text \<open>One middleware at a time: what is around a guarded answer is guarded.\<close>

definition guards :: "str \<Rightarrow> request \<Rightarrow> 'x http_handler \<Rightarrow> bool" where
  "guards uuid rq h \<longleftrightarrow> (\<forall>r w f w1. h r w = (f, w1) \<longrightarrow> answers_guarded uuid rq w \<longrightarrow> answers_guarded uuid rq w1)"

lemma keeps_headers_guards: "keeps_headers h \<Longrightarrow> guards uuid rq h"
  unfolding guards_def
proof (intro allI impI)
  fix r w f w1
  assume k: "keeps_headers h" and run: "h r w = (f, w1)" and g: "answers_guarded uuid rq w"
  from k run have same: "\<forall>name \<in> set hardened_names. map_get (hw_Header w1) name = map_get (hw_Header w) name"
    and fresh: "hw_Status w = None \<longrightarrow> (case hw_Status w1 of None \<Rightarrow> hw_Sent w1 = hw_Sent w
          | Some c \<Rightarrow> (\<forall>name \<in> set hardened_names. map_get (hw_Sent w1) name = map_get (hw_Header w) name))"
    and sent: "hw_Status w \<noteq> None \<longrightarrow> hw_Status w1 = hw_Status w \<and> hw_Sent w1 = hw_Sent w"
    unfolding keeps_headers_def by blast+
  have copy: "guarded_header uuid rq h2"
    if "\<forall>name \<in> set hardened_names. map_get h2 name = map_get (hw_Header w) name" for h2
    using that g guard_values_names unfolding answers_guarded_def guarded_header_def by metis
  show "answers_guarded uuid rq w1"
  proof (cases "hw_Status w")
    case None
    then show ?thesis using copy same fresh by (auto simp: answers_guarded_def split: option.splits)
  next
    case (Some c)
    then show ?thesis using copy [OF same] sent g by (simp add: answers_guarded_def)
  qed
qed

lemma guards_rate: "guards uuid rq h \<Longrightarrow> guards uuid rq (rate_Middleware lib h)"
  unfolding guards_def
proof (intro allI impI)
  fix r and w :: "'a rate_limiter http_world" and f w1
  assume h: "\<forall>r w f w1. h r w = (f, w1) \<longrightarrow> answers_guarded uuid rq w \<longrightarrow> answers_guarded uuid rq w1"
    and run: "rate_Middleware lib h r w = (f, w1)" and g: "answers_guarded uuid rq w"
  obtain ok l where a: "allow lib (hw_clock w) (clientKey r) (hw_rest w) = (ok, l)" by fastforce
  have gl: "answers_guarded uuid rq (w\<lparr> hw_rest := l \<rparr>)" using g by (simp add: answers_guarded_def)
  show "answers_guarded uuid rq w1"
  proof (cases ok)
    case True
    then show ?thesis using h run gl a by (simp add: rate_Middleware_def)
  next
    case False
    then show ?thesis using run a guarded_Error [OF guarded_set [OF gl, of "''Retry-After''" "''1''"]]
      by (simp add: rate_Middleware_def) blast
  qed
qed

lemma guards_AccessLog: "guards uuid rq h \<Longrightarrow> guards uuid rq (AccessLog h)"
  unfolding guards_def AccessLog_def answers_guarded_def
  by (fastforce simp: Let_def split: prod.splits flow.splits list.splits)

lemma guards_MaxBody: "guards uuid rq h \<Longrightarrow> guards uuid rq (MaxBody limit h)"
  unfolding guards_def
proof (intro allI impI)
  fix r w f w1
  assume h: "\<forall>r w f w1. h r w = (f, w1) \<longrightarrow> answers_guarded uuid rq w \<longrightarrow> answers_guarded uuid rq w1"
    and run: "MaxBody limit h r w = (f, w1)" and g: "answers_guarded uuid rq w"
  have "answers_guarded uuid rq (refuseTooLarge limit w)"
    unfolding refuseTooLarge_def
    using guarded_Write [OF guarded_WriteHeader [OF guarded_set [OF g other_names(1)], THEN conjunct1], THEN conjunct1] .
  then show "answers_guarded uuid rq w1" using h run g by (auto simp: MaxBody_def split: if_splits)
qed

lemma guarded_vary: "answers_guarded uuid rq w \<Longrightarrow> answers_guarded uuid rq (w\<lparr> hw_Header := header_Add ''Vary'' v (hw_Header w) \<rparr>)"
  by (simp add: answers_guarded_def header_Add_def guarded_header_other(1))

lemma guarded_cors: "answers_guarded uuid rq w \<Longrightarrow> answers_guarded uuid rq (cors_headers origin w)"
  unfolding cors_headers_def Let_def by (intro guarded_vary guarded_set other_names)

lemma guards_CORS: "guards uuid rq h \<Longrightarrow> guards uuid rq (CORS origins h)"
  unfolding guards_def
proof (intro allI impI)
  fix r w f w1
  assume h: "\<forall>r w f w1. h r w = (f, w1) \<longrightarrow> answers_guarded uuid rq w \<longrightarrow> answers_guarded uuid rq w1"
    and run: "CORS origins h r w = (f, w1)" and g: "answers_guarded uuid rq w"
  define w2 where "w2 = (if header_Get (rq_Header r) ''Origin'' \<noteq> [] \<and> header_Get (rq_Header r) ''Origin'' \<in> set origins
    then cors_headers (header_Get (rq_Header r) ''Origin'') w else w)"
  have "answers_guarded uuid rq w2" using g by (simp add: w2_def guarded_cors)
  moreover have "CORS origins h r w = (if rq_Method r = ''OPTIONS'' then (Served, WriteHeader 204 w2) else h r w2)"
    by (simp add: CORS_def w2_def Let_def)
  ultimately show "answers_guarded uuid rq w1"
    using h run by (cases "rq_Method r = ''OPTIONS''") (auto simp: guarded_WriteHeader, metis)
qed

text \<open>From a writer that carries the identifier only, the hardening headers make the guard.\<close>

definition identified :: "str \<Rightarrow> request \<Rightarrow> 'x http_world \<Rightarrow> bool" where
  "identified uuid rq w \<longleftrightarrow> hw_Status w = None \<and> map_get (hw_Header w) RequestIDHeader = Some [correlation uuid rq]"

definition hardens :: "str \<Rightarrow> request \<Rightarrow> 'x http_handler \<Rightarrow> bool" where
  "hardens uuid rq h \<longleftrightarrow> (\<forall>r w f w1. h r w = (f, w1) \<longrightarrow> identified uuid rq w \<longrightarrow> answers_guarded uuid rq w1)"

lemma hardening_sets:
  assumes "identified uuid rq w"
  shows "answers_guarded uuid rq (fold (\<lambda>(name, v). set_header name v) hardening w)"
  using assms
  by (simp add: identified_def answers_guarded_def guarded_header_def guard_values_def hardening_def set_header_def header_Set_def RequestIDHeader_def)

lemma hardens_headers: "guards uuid rq h \<Longrightarrow> hardens uuid rq (hardeningHeaders hsts h)"
  unfolding hardens_def
proof (intro allI impI)
  fix r and w :: "'a http_world" and f w1
  assume h: "guards uuid rq h" and run: "hardeningHeaders hsts h r w = (f, w1)" and i: "identified uuid rq w"
  have sts: "''Strict-Transport-Security'' \<notin> set hardened_names" by (simp add: hardened_names_def RequestIDHeader_def hardening_def)
  have "answers_guarded uuid rq (if hsts \<noteq> [] then set_header ''Strict-Transport-Security'' hsts (fold (\<lambda>(name, v). set_header name v) hardening w)
      else fold (\<lambda>(name, v). set_header name v) hardening w)"
    using guarded_set [OF hardening_sets [OF i] sts] hardening_sets [OF i] by simp
  then show "answers_guarded uuid rq w1" using h run unfolding guards_def hardeningHeaders_def Let_def by blast
qed

lemma hardens_for_env: "guards uuid rq h \<Longrightarrow> hardens uuid rq (securityHeadersFor env h)"
  by (simp add: securityHeadersFor_def SecurityHeaders_def SecurityHeadersWithoutHSTS_def hardens_headers)

lemma Recover_hardens:
  assumes "hardens uuid rq h" and "identified uuid rq w" and "Recover h r w = (f, w1)"
  shows "answers_guarded uuid rq w1 \<and> (\<forall>v. f \<noteq> Panicked v)"
proof -
  obtain f2 w2 where h: "h r w = (f2, w2)" by fastforce
  have g: "answers_guarded uuid rq w2" using assms(1,2) h unfolding hardens_def by blast
  show ?thesis
  proof (cases f2)
    case (Panicked v)
    define w3 where "w3 = w2\<lparr> hw_recs := drop (length (hw_recs w2) - length (hw_recs w)) (hw_recs w2),
                  hw_log := hw_log w2 @ [\<lparr> l_level = LevelError, l_text = ''panic in an HTTP handler'',
                    l_attrs = [(''recovered'', AString v), (''method'', AString (rq_Method r)), (''path'', AString (rq_Path r)),
                      (''request_id'', AString (RequestIDFrom r))] \<rparr>] \<rparr>"
    have "answers_guarded uuid rq w3" using g by (simp add: w3_def answers_guarded_def)
    then show ?thesis using assms(3) h Panicked guarded_Error by (simp add: Recover_def w3_def [symmetric]) blast
  qed (use assms(3) h g in \<open>simp_all add: Recover_def\<close>)
qed


definition toy_lib :: "nat rate_lib" where
  "toy_lib = \<lparr> ra_new = (\<lambda>rps burst. nat burst), ra_allow = (\<lambda>now n. (0 < n, n - 1)) \<rparr>"

definition panics :: "'x http_handler" where
  "panics rq w = (Panicked ''nil map'', w)"

definition get_request :: request where
  "get_request = \<lparr> rq_Method = ''GET'', rq_Path = ''/v1/x'', rq_RemoteAddr = ''10.0.0.1:4000'', rq_Header = [], rq_ContentLength = 0,
     rq_Body = [], rq_Limit = None, rq_id = [] \<rparr>"

definition new_writer :: "'x \<Rightarrow> 'x http_world" where
  "new_writer x = \<lparr> hw_Header = [], hw_Status = None, hw_Sent = [], hw_Body = [], hw_recs = [], hw_log = [], hw_clock = 0, hw_rest = x \<rparr>"


text \<open>What is left of the stack once the identifier and the hardening headers are set.\<close>

definition limits_and_log :: "'l rate_lib \<Rightarrow> config \<Rightarrow> ('l rate_limiter) middleware" where
  "limits_and_log lib cfg h = CORS (h_AllowedOrigins (HTTP cfg)) (MaxBody (h_MaxBodyBytes (HTTP cfg)) (AccessLog (rate_Middleware lib h)))"

lemma stack_inside:
  assumes "fresh_writer w"
  obtains wH where "hw_rest wH = hw_rest w" "hw_log wH = hw_log w" "hw_clock wH = hw_clock w" "hw_Status wH = None" "hw_recs wH = []"
      "map_get (hw_Header wH) ''Access-Control-Allow-Origin'' = None"
    and "stack lib uuid cfg h rq w = Recover (\<lambda>r v. limits_and_log lib cfg h r wH) (rq\<lparr> rq_id := correlation uuid rq \<rparr>) wH"
proof -
  define w0 where "w0 = set_header RequestIDHeader (correlation uuid rq) w"
  define w1 where "w1 = fold (\<lambda>(name, v). set_header name v) hardening w0"
  define wH where "wH = (if IsDevelopment (app_Env (App cfg)) then w1 else set_header ''Strict-Transport-Security'' hstsOneYear w1)"
  note defs = wH_def w1_def w0_def hardening_def set_header_def header_Set_def hstsOneYear_def RequestIDHeader_def
  have f: "hw_rest wH = hw_rest w" "hw_log wH = hw_log w" "hw_clock wH = hw_clock w" "hw_Status wH = None" "hw_recs wH = []"
      "map_get (hw_Header wH) ''Access-Control-Allow-Origin'' = None" and r0: "hw_recs w0 = []"
    using assms by (simp_all add: defs fresh_writer_def)
  have "stack lib uuid cfg h rq w = Recover (securityHeadersFor (app_Env (App cfg)) (limits_and_log lib cfg h)) (rq\<lparr> rq_id := correlation uuid rq \<rparr>) w0"
    by (simp add: stack_def Chain_mw_def RequestID_def Let_def correlation_def w0_def limits_and_log_def)
  also have "\<dots> = Recover (\<lambda>r v. limits_and_log lib cfg h r wH) (rq\<lparr> rq_id := correlation uuid rq \<rparr>) wH"
  proof -
    have i: "securityHeadersFor (app_Env (App cfg)) (limits_and_log lib cfg h) r w0 = limits_and_log lib cfg h r wH" for r
      by (simp add: securityHeadersFor_def SecurityHeaders_def SecurityHeadersWithoutHSTS_def hardeningHeaders_def
        hstsOneYear_def wH_def w1_def)
    show ?thesis unfolding Recover_def i r0 f(5) by (rule refl)
  qed
  finally show thesis using that f by blast
qed

lemma Write_fields [simp]:
  "hw_log (Write b w) = hw_log w" "hw_rest (Write b w) = hw_rest w" "hw_clock (Write b w) = hw_clock w"
  "hw_Status (Write b w) = (if hw_Status w = None then Some 200 else hw_Status w)"
  by (simp_all add: Write_def send_header_def Let_def)

lemma WriteHeader_fields [simp]:
  "hw_log (WriteHeader c w) = hw_log w" "hw_rest (WriteHeader c w) = hw_rest w" "hw_clock (WriteHeader c w) = hw_clock w"
  "hw_Status (WriteHeader c w) = (if hw_Status w = None then Some c else hw_Status w)"
  by (simp_all add: WriteHeader_def send_header_def)

lemma set_header_fields [simp]:
  "hw_log (set_header n v w) = hw_log w" "hw_rest (set_header n v w) = hw_rest w" "hw_clock (set_header n v w) = hw_clock w"
  "hw_Status (set_header n v w) = hw_Status w" "hw_recs (set_header n v w) = hw_recs w"
  by (simp_all add: set_header_def)

lemma Error_fields [simp]:
  "hw_log (http_Error t c w) = hw_log w" "hw_rest (http_Error t c w) = hw_rest w"
  "hw_Status (http_Error t c w) = (if hw_Status w = None then Some c else hw_Status w)"
  by (simp_all add: http_Error_def)

lemma Error_recs: "hw_recs w = (s, n) # recs \<Longrightarrow> \<exists>n2. hw_recs (http_Error t c w) = (c, n2) # map (\<lambda>(s, n). (c, n)) recs
    \<or> (\<exists>m. hw_recs (http_Error t c w) = (c, n2) # m)"
  by (auto simp: http_Error_def Write_def WriteHeader_def send_header_def Let_def)

lemma cors_fields [simp]:
  "hw_log (cors_headers o1 w) = hw_log w" "hw_rest (cors_headers o1 w) = hw_rest w" "hw_Status (cors_headers o1 w) = hw_Status w"
  "hw_clock (cors_headers o1 w) = hw_clock w" "hw_recs (cors_headers o1 w) = hw_recs w"
  "map_get (hw_Header (cors_headers o1 w)) ''Access-Control-Allow-Origin'' = Some [o1]"
  by (simp_all add: cors_headers_def set_header_def header_Set_def header_Add_def Let_def)

text \<open>The world a request reaches the limits in.\<close>

definition after_cors :: "config \<Rightarrow> request \<Rightarrow> 'x http_world \<Rightarrow> 'x http_world" where
  "after_cors cfg rq w =
     (let origin = header_Get (rq_Header rq) ''Origin'' in
      if origin \<noteq> [] \<and> origin \<in> set (h_AllowedOrigins (HTTP cfg)) then cors_headers origin w else w)"

lemma after_cors_fields [simp]:
  "hw_log (after_cors cfg rq w) = hw_log w" "hw_rest (after_cors cfg rq w) = hw_rest w" "hw_Status (after_cors cfg rq w) = hw_Status w"
  "hw_clock (after_cors cfg rq w) = hw_clock w" "hw_recs (after_cors cfg rq w) = hw_recs w"
  by (simp_all add: after_cors_def Let_def)

lemma limits_and_log_cases:
  "limits_and_log lib cfg h rq w =
     (if rq_Method rq = ''OPTIONS'' then (Served, WriteHeader 204 (after_cors cfg rq w))
      else if 0 < h_MaxBodyBytes (HTTP cfg) \<and> h_MaxBodyBytes (HTTP cfg) < rq_ContentLength rq
        then (Served, refuseTooLarge (h_MaxBodyBytes (HTTP cfg)) (after_cors cfg rq w))
      else AccessLog (rate_Middleware lib h) (rq\<lparr> rq_Limit := Some (h_MaxBodyBytes (HTTP cfg)) \<rparr>) (after_cors cfg rq w))"
  by (simp add: limits_and_log_def CORS_def MaxBody_def after_cors_def Let_def)

lemma AccessLog_throttled:
  assumes "allow lib (hw_clock w) (clientKey rq) (hw_rest w) = (False, l)" and "hw_Status w = None" and "hw_recs w = []"
  shows "\<exists>w2 line. AccessLog (rate_Middleware lib h) rq w = (Served, w2) \<and> hw_Status w2 = Some 429 \<and> hw_rest w2 = l
     \<and> hw_log w2 = hw_log w @ [line] \<and> (''status'', AInt 429) \<in> set (l_attrs line)"
proof -
  let ?in = "set_header ''Retry-After'' ''1'' (w\<lparr> hw_recs := (200, 0) # hw_recs w, hw_rest := l \<rparr>)"
  let ?e = "http_Error ''{\"title\":\"Too Many Requests\",\"status\":429}'' 429 ?in"
  obtain n m where r: "hw_recs ?e = (429, n) # m" using Error_recs [of ?in 200 0 "[]" "''{\"title\":\"Too Many Requests\",\"status\":429}''" 429] assms(3) by auto
  have "rate_Middleware lib h rq (w\<lparr> hw_recs := (200, 0) # hw_recs w \<rparr>) = (Served, ?e)"
    using assms(1) by (simp add: rate_Middleware_def)
  then show ?thesis using r assms(2) by (simp add: AccessLog_def Let_def)
qed

text \<open>C40: Which guard answers, in which order: a preflight is answered 204 with the CORS headers of a listed
  origin only and never reaches the limits, nor the log; a body declared above the limit is answered 413,
  unlogged and uncounted; then a client without a token is answered 429 and logged; every other request
  reaches the handler, once, with its body bounded and its identifier in its context, and is logged when
  the handler returns. A panic before anything was sent is answered 500 and logged as an error, without
  an access line.\<close>

theorem guards_answer_in_order:
  assumes "fresh_writer w"
  shows "(let origin = header_Get (rq_Header rq) ''Origin''; limit = h_MaxBodyBytes (HTTP cfg);
              answer = snd (serve (stack lib uuid cfg h) rq w); too_large = (0 < limit \<and> limit < rq_ContentLength rq) in
       (rq_Method rq = ''OPTIONS'' \<longrightarrow> hw_Status answer = Some 204 \<and> hw_log answer = hw_log w \<and> hw_rest answer = hw_rest w
          \<and> map_get (hw_Sent answer) ''Access-Control-Allow-Origin''
              = (if origin \<noteq> [] \<and> origin \<in> set (h_AllowedOrigins (HTTP cfg)) then Some [origin] else None))
     \<and> (rq_Method rq \<noteq> ''OPTIONS'' \<and> too_large \<longrightarrow> hw_Status answer = Some 413 \<and> hw_log answer = hw_log w \<and> hw_rest answer = hw_rest w)
     \<and> (\<forall>l. rq_Method rq \<noteq> ''OPTIONS'' \<and> \<not> too_large \<and> allow lib (hw_clock w) (clientKey rq) (hw_rest w) = (False, l)
          \<longrightarrow> hw_Status answer = Some 429 \<and> hw_rest answer = l
            \<and> (\<exists>line. hw_log answer = hw_log w @ [line] \<and> (''status'', AInt 429) \<in> set (l_attrs line)))
     \<and> (\<forall>l. rq_Method rq \<noteq> ''OPTIONS'' \<and> \<not> too_large \<and> allow lib (hw_clock w) (clientKey rq) (hw_rest w) = (True, l)
          \<longrightarrow> (\<exists>w0. hw_rest w0 = l \<and> hw_Status w0 = None \<and> hw_log w0 = hw_log w \<and>
                (case h (rq\<lparr> rq_id := correlation uuid rq, rq_Limit := Some limit \<rparr>) w0 of
                   (Served, w2) \<Rightarrow> hw_recs w2 \<noteq> [] \<longrightarrow> hw_Status answer = (if hw_Status w2 = None then Some 200 else hw_Status w2)
                      \<and> (\<exists>line. hw_log answer = hw_log w2 @ [line] \<and> l_text line = ''request handled'')
                 | (Panicked v, w2) \<Rightarrow> (hw_Status w2 = None \<longrightarrow> hw_Status answer = Some 500)
                      \<and> (\<exists>line. hw_log answer = hw_log w2 @ [line] \<and> l_level line = LevelError)
                 | (Aborted, w2) \<Rightarrow> answer = w2))))"
proof -
  let ?limit = "h_MaxBodyBytes (HTTP cfg)" and ?rq = "rq\<lparr> rq_id := correlation uuid rq \<rparr>"
  let ?answer = "snd (serve (stack lib uuid cfg h) rq w)" and ?large = "0 < h_MaxBodyBytes (HTTP cfg) \<and> h_MaxBodyBytes (HTTP cfg) < rq_ContentLength rq"
  obtain wH where f: "hw_rest wH = hw_rest w" "hw_log wH = hw_log w" "hw_clock wH = hw_clock w" "hw_Status wH = None" "hw_recs wH = []"
      "map_get (hw_Header wH) ''Access-Control-Allow-Origin'' = None"
    and st: "stack lib uuid cfg h rq w = Recover (\<lambda>r v. limits_and_log lib cfg h r wH) ?rq wH"
    by (rule stack_inside [OF assms])
  define wC where "wC = after_cors cfg ?rq wH"
  have c: "hw_rest wC = hw_rest w" "hw_log wC = hw_log w" "hw_clock wC = hw_clock w" "hw_Status wC = None" "hw_recs wC = []"
    using f by (simp_all add: wC_def)
  have cors: "map_get (hw_Header wC) ''Access-Control-Allow-Origin'' = (if header_Get (rq_Header rq) ''Origin'' \<noteq> []
      \<and> header_Get (rq_Header rq) ''Origin'' \<in> set (h_AllowedOrigins (HTTP cfg)) then Some [header_Get (rq_Header rq) ''Origin''] else None)"
    using f(6) by (simp add: wC_def after_cors_def Let_def)
  have client: "clientKey (rq\<lparr> rq_id := i, rq_Limit := m \<rparr>) = clientKey rq" for i m
    by (cases "split_host (rq_RemoteAddr rq)") (simp_all add: clientKey_def)
  have preflight: "hw_Status ?answer = Some 204 \<and> hw_log ?answer = hw_log w \<and> hw_rest ?answer = hw_rest w
      \<and> map_get (hw_Sent ?answer) ''Access-Control-Allow-Origin'' = map_get (hw_Header wC) ''Access-Control-Allow-Origin''"
    if "rq_Method rq = ''OPTIONS''"
    using that st c by (simp add: serve_def Recover_def limits_and_log_cases wC_def [symmetric]) (simp add: send_header_def WriteHeader_def)
  have large: "hw_Status ?answer = Some 413 \<and> hw_log ?answer = hw_log w \<and> hw_rest ?answer = hw_rest w"
    if "rq_Method rq \<noteq> ''OPTIONS''" "?large"
    using that st c by (simp add: serve_def Recover_def limits_and_log_cases wC_def [symmetric]) (simp add: send_header_def refuseTooLarge_def)
  have inside: "stack lib uuid cfg h rq w = Recover (\<lambda>r v. AccessLog (rate_Middleware lib h) (rq\<lparr> rq_id := correlation uuid rq, rq_Limit := Some ?limit \<rparr>) wC) ?rq wH"
    if m: "rq_Method rq \<noteq> ''OPTIONS''" "\<not> ?large"
  proof -
    have eq: "limits_and_log lib cfg h ?rq wH = AccessLog (rate_Middleware lib h) (rq\<lparr> rq_id := correlation uuid rq, rq_Limit := Some ?limit \<rparr>) wC"
      using m by (subst limits_and_log_cases, subst if_not_P, simp, subst if_not_P, simp) (simp add: wC_def)
    show ?thesis unfolding st Recover_def eq by (rule refl)
  qed
  have throttled: "hw_Status ?answer = Some 429 \<and> hw_rest ?answer = l \<and> (\<exists>line. hw_log ?answer = hw_log w @ [line] \<and> (''status'', AInt 429) \<in> set (l_attrs line))"
    if m: "rq_Method rq \<noteq> ''OPTIONS''" "\<not> ?large" and a: "allow lib (hw_clock w) (clientKey rq) (hw_rest w) = (False, l)" for l
  proof -
    have "allow lib (hw_clock wC) (clientKey (rq\<lparr> rq_id := correlation uuid rq, rq_Limit := Some ?limit \<rparr>)) (hw_rest wC) = (False, l)"
      using a c client by simp
    from AccessLog_throttled [OF this c(4,5), of h] obtain w2 line where
      run: "AccessLog (rate_Middleware lib h) (rq\<lparr> rq_id := correlation uuid rq, rq_Limit := Some ?limit \<rparr>) wC = (Served, w2)"
      and w2: "hw_Status w2 = Some 429" "hw_rest w2 = l" "hw_log w2 = hw_log w @ [line]" "(''status'', AInt 429) \<in> set (l_attrs line)"
      unfolding c(2) by blast
    have "stack lib uuid cfg h rq w = (Served, w2)" unfolding inside [OF m] Recover_def run by simp
    then have "?answer = w2" using w2(1) by (simp add: serve_def send_header_def)
    then show ?thesis using w2 by blast
  qed
  have handled: "\<exists>w0. hw_rest w0 = l \<and> hw_Status w0 = None \<and> hw_log w0 = hw_log w \<and>
                (case h (rq\<lparr> rq_id := correlation uuid rq, rq_Limit := Some ?limit \<rparr>) w0 of
                   (Served, w2) \<Rightarrow> hw_recs w2 \<noteq> [] \<longrightarrow> hw_Status ?answer = (if hw_Status w2 = None then Some 200 else hw_Status w2)
                      \<and> (\<exists>line. hw_log ?answer = hw_log w2 @ [line] \<and> l_text line = ''request handled'')
                 | (Panicked v, w2) \<Rightarrow> (hw_Status w2 = None \<longrightarrow> hw_Status ?answer = Some 500)
                      \<and> (\<exists>line. hw_log ?answer = hw_log w2 @ [line] \<and> l_level line = LevelError)
                 | (Aborted, w2) \<Rightarrow> ?answer = w2)"
    if m: "rq_Method rq \<noteq> ''OPTIONS''" "\<not> ?large" and a: "allow lib (hw_clock w) (clientKey rq) (hw_rest w) = (True, l)" for l
  proof -
    define w0 where "w0 = wC\<lparr> hw_recs := (200, 0) # hw_recs wC, hw_rest := l \<rparr>"
    have w0: "hw_rest w0 = l \<and> hw_Status w0 = None \<and> hw_log w0 = hw_log w" using c by (simp add: w0_def)
    obtain f2 w2 where hr: "h (rq\<lparr> rq_id := correlation uuid rq, rq_Limit := Some ?limit \<rparr>) w0 = (f2, w2)" by fastforce
    have rate: "rate_Middleware lib h (rq\<lparr> rq_id := correlation uuid rq, rq_Limit := Some ?limit \<rparr>) (wC\<lparr> hw_recs := (200, 0) # hw_recs wC \<rparr>) = (f2, w2)"
      using a c client hr by (simp add: rate_Middleware_def w0_def)
    note run = AccessLog_def [of "rate_Middleware lib h" "rq\<lparr> rq_id := correlation uuid rq, rq_Limit := Some ?limit \<rparr>" wC, unfolded rate Let_def]
    show ?thesis
    proof (intro exI [of _ w0] conjI)
      show "case h (rq\<lparr> rq_id := correlation uuid rq, rq_Limit := Some ?limit \<rparr>) w0 of
                   (Served, w2) \<Rightarrow> hw_recs w2 \<noteq> [] \<longrightarrow> hw_Status ?answer = (if hw_Status w2 = None then Some 200 else hw_Status w2)
                      \<and> (\<exists>line. hw_log ?answer = hw_log w2 @ [line] \<and> l_text line = ''request handled'')
                 | (Panicked v, w2) \<Rightarrow> (hw_Status w2 = None \<longrightarrow> hw_Status ?answer = Some 500)
                      \<and> (\<exists>line. hw_log ?answer = hw_log w2 @ [line] \<and> l_level line = LevelError)
                 | (Aborted, w2) \<Rightarrow> ?answer = w2"
      proof (cases f2)
        case Served
        show ?thesis
        proof (cases "hw_recs w2")
          case (Cons x recs)
          obtain status written where x: "x = (status, written)" by (cases x)
          obtain line where "AccessLog (rate_Middleware lib h) (rq\<lparr> rq_id := correlation uuid rq, rq_Limit := Some ?limit \<rparr>) wC
              = (Served, w2\<lparr> hw_recs := recs, hw_log := hw_log w2 @ [line] \<rparr>)" and "l_text line = ''request handled''"
            using run hr Served Cons x by simp
          then show ?thesis using hr Served inside [OF m] by (simp add: serve_def Recover_def send_header_def)
        qed (use hr Served in simp)
      next
        case (Panicked v)
        then have "AccessLog (rate_Middleware lib h) (rq\<lparr> rq_id := correlation uuid rq, rq_Limit := Some ?limit \<rparr>) wC = (Panicked v, w2)"
          using run hr by simp
        then show ?thesis using hr Panicked inside [OF m] by (simp add: serve_def Recover_def send_header_def)
      next
        case Aborted
        then have "AccessLog (rate_Middleware lib h) (rq\<lparr> rq_id := correlation uuid rq, rq_Limit := Some ?limit \<rparr>) wC = (Aborted, w2)"
          using run hr by simp
        then show ?thesis using hr Aborted inside [OF m] by (simp add: serve_def Recover_def)
      qed
    qed (use w0 in simp_all)
  qed
  show ?thesis
    unfolding Let_def
  proof (intro conjI allI impI)
    assume o1: "rq_Method rq = ''OPTIONS''"
    show "hw_Status ?answer = Some 204" using preflight [OF o1] by (elim conjE)
    show "hw_log ?answer = hw_log w" using preflight [OF o1] by (elim conjE)
    show "hw_rest ?answer = hw_rest w" using preflight [OF o1] by (elim conjE)
    show "map_get (hw_Sent ?answer) ''Access-Control-Allow-Origin'' = (if header_Get (rq_Header rq) ''Origin'' \<noteq> []
        \<and> header_Get (rq_Header rq) ''Origin'' \<in> set (h_AllowedOrigins (HTTP cfg)) then Some [header_Get (rq_Header rq) ''Origin''] else None)"
      using preflight [OF o1] cors by metis
  qed (use large throttled handled in blast)+
qed

lemma guards_answer_in_order_witness:
  "hw_Status (snd (serve (stack toy_lib ''id-1'' zero_config panics) (get_request\<lparr> rq_Method := ''OPTIONS'' \<rparr>)
     (new_writer (NewRateLimiter (Finite 20) 40 minute)))) = Some 204"
proof -
  have "fresh_writer (new_writer (NewRateLimiter (Finite 20) 40 minute) :: nat rate_limiter http_world)"
    by (simp add: fresh_writer_def new_writer_def)
  moreover have "rq_Method (get_request\<lparr> rq_Method := ''OPTIONS'' \<rparr>) = ''OPTIONS''" by simp
  ultimately show ?thesis
    by (rule guards_answer_in_order [unfolded Let_def, THEN conjunct1, THEN mp, THEN conjunct1])
qed

text \<open>The limit is per client and really limits: however many other clients call in between, the
  answers one client gets are those of one token bucket fed with its own calls, from its first call on,
  as long as it is never silent for more than the ttl.\<close>

theorem throttled_per_client:
  assumes "sorted (map fst calls)" and "0 \<le> ttl" and "steady ttl (calls_of key calls)"
  shows "map snd (filter (\<lambda>(k, ok). k = key) (answers lib calls (NewRateLimiter rps burst ttl))) = bucket lib (calls_of key calls) (ra_new lib rps burst)"
proof -
  have "map snd (filter (\<lambda>(k, ok). k = key) (answers lib calls l)) = bucket lib (calls_of key calls) (ra_new lib rps burst)"
    if "is_map (rl_visitors l)" "map_get (rl_visitors l) key = None" "rl_ttl l = ttl" "rl_rps l = rps" "rl_burst l = burst" for l
    using assms that
  proof (induction calls arbitrary: l)
    case (Cons c calls)
    obtain now k where c: "c = (now, k)" by (cases c)
    obtain ok l1 where a: "allow lib now k l = (ok, l1)" by (cases "allow lib now k l")
    note l1 = allow_fields [OF a Cons.prems(4)]
    show ?case
    proof (cases "k = key")
      case True
      obtain b where b: "ra_allow lib now (ra_new lib rps burst) = (ok, b)" "map_get (rl_visitors l1) key = Some \<lparr> vi_limiter = b, vi_seen = now \<rparr>"
        using a True Cons.prems(5,7,8) by (auto simp: allow_def split: prod.splits)
      have "steady (rl_ttl l1) (now # calls_of key calls)" using Cons.prems(3,6) c True l1 by (simp add: calls_of_def)
      then show ?thesis
        using answers_known [of calls l1 key "\<lparr> vi_limiter = b, vi_seen = now \<rparr>" lib] b l1 Cons.prems(1,2,6) c True a
        by (simp add: calls_of_def)
    next
      case False
      have "map_of xs key = None \<Longrightarrow> map_of (filter P xs) key = None" for xs :: "(str \<times> 'a visitor) list" and P
        by (induction xs) (auto split: if_splits)
      then have "map_get (rl_visitors l1) key = None"
        using a False Cons.prems(5) by (auto simp: allow_def evictLocked_def split: prod.splits option.splits)
      then show ?thesis
        using Cons.IH [of l1] Cons.prems l1 c False a by (simp add: calls_of_def)
    qed
  qed (simp add: calls_of_def)
  then show ?thesis by (simp add: NewRateLimiter_def)
qed

lemma throttled_per_client_witness:
  "map snd (filter (\<lambda>(k, ok). k = ''a'') (answers toy_lib [(0, ''a''), (1, ''b''), (2, ''a''), (3, ''a'')] (NewRateLimiter (Finite 20) 2 minute)))
     = [True, True, False]"
proof -
  have "sorted (map fst [(0 :: int, ''a''), (1, ''b''), (2, ''a''), (3, ''a'')])" and "0 \<le> minute"
    and "steady minute (calls_of ''a'' [(0, ''a''), (1, ''b''), (2, ''a''), (3, ''a'')])"
    by (simp_all add: minute_def calls_of_def)
  from throttled_per_client [OF this, of toy_lib "Finite 20" 2]
  show ?thesis by (simp add: calls_of_def toy_lib_def)
qed

end
