(* ===== verification/Go_Text.thy ===== *)
theory Go_Text
  imports Pagination
begin

text \<open>
  More of the \<open>strings\<close>, \<open>strconv\<close> and \<open>bufio\<close> packages: substrings, fields, replacement,
  decimal integers, and the lines of a file.
\<close>

section \<open>Substrings\<close>

fun contains_str :: "str \<Rightarrow> str \<Rightarrow> bool" where
  "contains_str [] p = (p = [])"
| "contains_str (c # s) p = (has_prefix (c # s) p \<or> contains_str s p)"

definition trim_prefix :: "str \<Rightarrow> str \<Rightarrow> str" where
  "trim_prefix s p = (if has_prefix s p then drop (length p) s else s)"

definition has_suffix :: "str \<Rightarrow> str \<Rightarrow> bool" where
  "has_suffix s p \<longleftrightarrow> has_prefix (rev s) (rev p)"

definition trim_suffix :: "str \<Rightarrow> str \<Rightarrow> str" where
  "trim_suffix s p = (if has_suffix s p then take (length s - length p) s else s)"

text \<open>\<open>strings.CutPrefix\<close>.\<close>

definition cut_prefix :: "str \<Rightarrow> str \<Rightarrow> str option" where
  "cut_prefix s p = (if has_prefix s p then Some (drop (length p) s) else None)"

text \<open>\<open>s[:strings.LastIndex(s, c)]\<close>, or \<open>s\<close> when there is none.\<close>

definition before_last :: "char \<Rightarrow> str \<Rightarrow> str" where
  "before_last c s = (if c \<in> set s then rev (tl (dropWhile (\<lambda>x. x \<noteq> c) (rev s))) else s)"

text \<open>\<open>strings.Fields\<close>: what lies between runs of white space.\<close>

definition str_fields :: "str \<Rightarrow> str list" where
  "str_fields s = filter (\<lambda>f. f \<noteq> []) (split_char CHR '' '' (map (\<lambda>c. if is_space c then CHR '' '' else c) s))"

text \<open>\<open>strings.ReplaceAll\<close> of a text that is not empty.\<close>

function replace_all :: "str \<Rightarrow> str \<Rightarrow> str \<Rightarrow> str" where
  "replace_all old new [] = []"
| "replace_all old new (c # s) =
     (if old \<noteq> [] \<and> has_prefix (c # s) old then new @ replace_all old new (drop (length old) (c # s))
      else c # replace_all old new s)"
  by pat_completeness auto
termination by (relation "measure (\<lambda>(old, new, s). length s)") (auto simp: neq_Nil_conv)

text \<open>\<open>strconv.Atoi\<close>, whose errors nobody looks into.\<close>

definition Atoi :: "str \<Rightarrow> int option" where
  "Atoi s = (case ParseInt s of Inr n \<Rightarrow> Some n | Inl e \<Rightarrow> None)"

section \<open>Lines\<close>

abbreviation newline :: char where "newline \<equiv> CHR 0x0A"
abbreviation carriage_return :: char where "carriage_return \<equiv> CHR 0x0D"

definition drop_cr :: "str \<Rightarrow> str" where
  "drop_cr l = (if l \<noteq> [] \<and> last l = carriage_return then butlast l else l)"

text \<open>
  What a \<open>bufio.Scanner\<close> gives of a text with its default split and its buffer of 64 KiB: the lines
  up to the first too long one, and whether it met one.
\<close>

definition scan_lines :: "bytes \<Rightarrow> str list \<times> bool" where
  "scan_lines s =
     (let raw = split_char newline s;
          ls = (if last raw = [] then butlast raw else raw);
          fit = takeWhile (\<lambda>l. int (length l) < 65536) ls
      in (map drop_cr fit, length fit < length ls))"

section \<open>Facts\<close>

lemma has_prefix_append [simp]: "has_prefix (p @ s) p"
  by (simp add: has_prefix_def)

lemma has_prefix_iff: "has_prefix s p \<longleftrightarrow> (\<exists>t. s = p @ t)"
proof
  assume "has_prefix s p"
  then have "s = p @ drop (length p) s" by (metis append_take_drop_id has_prefix_def)
  then show "\<exists>t. s = p @ t" by blast
qed (auto simp: has_prefix_def)

lemma contains_str_iff: "contains_str s p \<longleftrightarrow> (\<exists>a b. s = a @ p @ b)"
proof (induction s)
  case (Cons c s)
  show ?case
  proof
    assume "contains_str (c # s) p"
    then consider "has_prefix (c # s) p" | "contains_str s p" by auto
    then show "\<exists>a b. c # s = a @ p @ b"
    proof cases
      case 1
      then obtain t where "c # s = p @ t" by (auto simp: has_prefix_iff)
      then show ?thesis by (intro exI [of _ "[]"] exI [of _ t]) simp
    next
      case 2
      then obtain a b where "s = a @ p @ b" using Cons.IH by blast
      then show ?thesis by (intro exI [of _ "c # a"] exI [of _ b]) simp
    qed
  next
    assume "\<exists>a b. c # s = a @ p @ b"
    then obtain a b where ab: "c # s = a @ p @ b" by blast
    show "contains_str (c # s) p"
    proof (cases a)
      case Nil
      then have "has_prefix (c # s) p" using ab by simp
      then show ?thesis by simp
    next
      case (Cons d a')
      then have "s = a' @ p @ b" using ab by simp
      then show ?thesis using Cons.IH by auto
    qed
  qed
qed simp

end
