(* ===== verification/Go_Float.thy ===== *)
theory Go_Float
  imports Complex_Main Go_Prelude
begin

text \<open>
  The arithmetic of \<open>float64\<close> on finite values, as exact rationals rounded to 53 significant bits, to
  the nearest and to the even one of two. The range of the exponent is left out: no value the program
  computes this way comes near the largest or the smallest \<open>float64\<close>.
\<close>

section \<open>Rounding\<close>

fun bit_len :: "nat \<Rightarrow> nat" where
  "bit_len n = (if n = 0 then 0 else Suc (bit_len (n div 2)))"

declare bit_len.simps [simp del]

text \<open>The exponent of the leading bit of a positive quotient.\<close>

definition lead_bit :: "rat \<Rightarrow> int" where
  "lead_bit q = (case quotient_of q of (n, d) \<Rightarrow>
     let k = int (bit_len (nat n)) - int (bit_len (nat d)) in if 2 powi k \<le> q then k else k - 1)"

definition round_even :: "rat \<Rightarrow> int" where
  "round_even x = (let f = \<lfloor>x\<rfloor>; r = x - of_int f in
     if r < 1 / 2 then f else if 1 / 2 < r then f + 1 else if even f then f else f + 1)"

definition round_float :: "rat \<Rightarrow> rat" where
  "round_float q =
     (if q = 0 then 0
      else let u = 2 powi (lead_bit \<bar>q\<bar> - 52) in of_int (round_even (q / u)) * u)"

definition float_of_int :: "int \<Rightarrow> rat" where
  "float_of_int n = round_float (of_int n)"

definition float_mul :: "rat \<Rightarrow> rat \<Rightarrow> rat" where
  "float_mul a b = round_float (a * b)"

definition float_div :: "rat \<Rightarrow> rat \<Rightarrow> rat" where
  "float_div a b = round_float (a / b)"

section \<open>What rounding keeps\<close>

lemma bit_len_bounds: "0 < n \<Longrightarrow> 2 ^ (bit_len n - 1) \<le> n \<and> n < 2 ^ bit_len n \<and> 0 < bit_len n"
proof (induction n rule: bit_len.induct)
  case (1 n)
  show ?case
  proof (cases "n div 2 = 0")
    case True
    then have "n = 1" using 1(2) by simp
    then show ?thesis by (simp add: bit_len.simps)
  next
    case False
    then obtain k where k: "bit_len (n div 2) = Suc k"
      using 1 by (cases "bit_len (n div 2)") auto
    have ih: "2 ^ k \<le> n div 2" "n div 2 < 2 ^ Suc k" using 1 False k by auto
    have "bit_len n = Suc (Suc k)" using 1(2) k by (simp add: bit_len.simps [of n])
    moreover have "2 * 2 ^ k \<le> n" "n < 4 * 2 ^ k" using ih [unfolded power_Suc] by linarith+
    ultimately show ?thesis by simp
  qed
qed

lemma lead_bit_le:
  assumes "0 < q"
  shows "2 powi lead_bit q \<le> q"
proof -
  obtain n d where nd: "quotient_of q = (n, d)" by (cases "quotient_of q")
  have q: "q = of_int n / of_int d" and d: "0 < d" using quotient_of_div [OF nd] quotient_of_denom_pos [OF nd] by auto
  have n: "0 < n" using assms d unfolding q by (simp add: zero_less_divide_iff)
  define a where "a = bit_len (nat n)"
  define b where "b = bit_len (nat d)"
  have an: "(2::nat) ^ (a - 1) \<le> nat n" "0 < a" using bit_len_bounds [of "nat n"] n by (auto simp: a_def)
  have bd: "nat d < 2 ^ b" using bit_len_bounds [of "nat d"] d by (auto simp: b_def)
  have n_ge: "(2::rat) ^ (a - 1) \<le> of_int n"
  proof -
    have "of_nat ((2::nat) ^ (a - 1)) \<le> (of_nat (nat n) :: rat)" using an by (simp only: of_nat_le_iff)
    then show ?thesis using n by simp
  qed
  have d_le: "(of_int d :: rat) \<le> 2 ^ b"
  proof -
    have "(of_nat (nat d) :: rat) \<le> of_nat ((2::nat) ^ b)" using bd by (simp only: of_nat_le_iff)
    then show ?thesis using d by simp
  qed
  have "(2::rat) powi (int a - int b - 1) = 2 powi (int (a - 1) - int b)"
    using an(2) by (simp add: of_nat_diff algebra_simps)
  also have "\<dots> = 2 ^ (a - 1) / 2 ^ b"
    by (simp add: power_int_diff)
  also have "\<dots> \<le> of_int n / of_int d"
    using n_ge d_le d n by (intro frac_le) auto
  finally have "2 powi (int a - int b - 1) \<le> q" by (simp add: q)
  then show ?thesis by (simp add: lead_bit_def nd Let_def a_def b_def)
qed

lemma lead_bit_less:
  assumes "0 < q" and "q < 2 powi k"
  shows "lead_bit q < k"
proof -
  have "(2::rat) powi lead_bit q < 2 powi k" using lead_bit_le [OF assms(1)] assms(2) by simp
  then show ?thesis using power_int_increasing [of k "lead_bit q" "2::rat"] by (cases "k \<le> lead_bit q") auto
qed

lemma round_even_near: "\<bar>of_int (round_even x) - x\<bar> \<le> 1 / 2"
proof -
  have "of_int \<lfloor>x\<rfloor> \<le> x" "x < of_int \<lfloor>x\<rfloor> + 1" by linarith+
  then show ?thesis by (auto simp: round_even_def Let_def abs_le_iff)
qed

lemma round_even_ge:
  assumes "of_int k \<le> x"
  shows "k \<le> round_even x"
proof -
  have "k \<le> \<lfloor>x\<rfloor>" using assms by (simp add: le_floor_iff)
  then show ?thesis by (auto simp: round_even_def Let_def)
qed

lemma round_even_int [simp]: "round_even (of_int k) = k"
  by (simp add: round_even_def)

text \<open>An integer below \<open>2 ^ 53\<close> is a \<open>float64\<close>, and rounding does not pass one.\<close>

lemma unit_small:
  assumes "0 < q" and "q < 2 ^ 53"
  obtains m where "of_int m * (2::rat) powi (lead_bit q - 52) = 1"
proof -
  have "lead_bit q < 53" using lead_bit_less [of q 53] assms by simp
  then obtain j where j: "lead_bit q - 52 = - int j"
    by (intro that [of "nat (52 - lead_bit q)"]) auto
  have "of_int (2 ^ j) * (2::rat) powi (lead_bit q - 52) = 1"
    unfolding j by (simp add: power_int_minus)
  then show ?thesis using that by blast
qed

lemma round_float_ge:
  assumes "of_int k \<le> q" and "0 < q" and "q < 2 ^ 53"
  shows "of_int k \<le> round_float q"
proof -
  define u where "u = (2::rat) powi (lead_bit q - 52)"
  have u: "0 < u" by (simp add: u_def)
  obtain m where m: "of_int m * u = 1" using unit_small [OF assms(2,3)] unfolding u_def by blast
  have "of_int (k * m) * u \<le> q" using assms(1) m by (simp add: mult.assoc)
  then have "of_int (k * m) \<le> q / u" using u by (simp add: pos_le_divide_eq)
  then have "k * m \<le> round_even (q / u)" by (rule round_even_ge)
  then have "(of_int (k * m) :: rat) * u \<le> of_int (round_even (q / u)) * u"
    using u by (simp only: of_int_le_iff mult_le_cancel_right_pos)
  then show ?thesis using assms(2) m by (simp add: round_float_def Let_def u_def [symmetric] mult.assoc)
qed

lemma round_float_near:
  assumes "0 < q" and "q < 2 powi k"
  shows "\<bar>round_float q - q\<bar> \<le> 2 powi (k - 54)"
proof -
  define u where "u = (2::rat) powi (lead_bit q - 52)"
  have u: "0 < u" by (simp add: u_def)
  have "u \<le> 2 powi (k - 53)" unfolding u_def using lead_bit_less [OF assms] by (intro power_int_increasing) auto
  moreover have "(2::rat) powi (k - 53) = 2 * 2 powi (k - 54)" using power_int_add [of "2::rat" 1 "k - 54"] by simp
  moreover have "\<bar>of_int (round_even (q / u)) * u - q\<bar> \<le> u / 2"
  proof -
    have "\<bar>of_int (round_even (q / u)) - q / u\<bar> * u \<le> 1 / 2 * u"
      using round_even_near [of "q / u"] u by (intro mult_right_mono) auto
    moreover have "\<bar>of_int (round_even (q / u)) - q / u\<bar> * u = \<bar>of_int (round_even (q / u)) * u - q\<bar>"
      using u abs_mult [of "of_int (round_even (q / u)) - q / u" u] by (simp add: left_diff_distrib)
    ultimately show ?thesis by simp
  qed
  ultimately show ?thesis using assms(1) by (simp add: round_float_def Let_def u_def [symmetric])
qed

lemma round_float_int:
  assumes "0 \<le> n" and "n < 2 ^ 53"
  shows "round_float (of_int n) = of_int n"
proof (cases "n = 0")
  case False
  then have q0: "(0::rat) < of_int n" using assms by simp
  have "(of_int n :: rat) < of_int (2 ^ 53)" using assms(2) by (simp only: of_int_less_iff)
  then have q1: "(of_int n :: rat) < 2 ^ 53" by simp
  note q = q0 q1
  define u where "u = (2::rat) powi (lead_bit (of_int n) - 52)"
  have u: "0 < u" by (simp add: u_def)
  obtain m where m: "of_int m * u = 1" using unit_small [OF q] unfolding u_def by blast
  have nm: "of_int (n * m) * u = (of_int n :: rat)" using m by (simp add: mult.assoc)
  then have "(of_int n :: rat) / u = of_int (n * m)" using u by (simp add: nonzero_divide_eq_eq)
  then have "of_int (round_even (of_int n / u)) * u = (of_int n :: rat)" using nm by (simp only: round_even_int)
  then show ?thesis using False assms by (simp add: round_float_def Let_def u_def [symmetric])
qed (simp add: round_float_def)

end
