(* ===== verification/Covergate.thy ===== *)
theory Covergate
  imports Go_Text Go_Float Config_Module "HOL-Library.Multiset"
begin

text \<open>
  The coverage ratchets (tools/covergate/main.go): reading a profile, merging the occurrences of a
  range, and the verdict of the three gates with the exclusions of the unit scope. The files the
  program reads are an argument, a missing one its error; what it prints is kept as the operands of
  its format strings.
\<close>

section \<open>Thresholds and exclusions\<close>

definition unitThreshold :: rat where "unitThreshold = 70"
definition coreThreshold :: rat where "coreThreshold = 90"
definition productFloor :: rat where "productFloor = 59"
definition buildTooling :: str where "buildTooling = ''tools/''"

record exclusion =
  ex_prefix :: str
  ex_reason :: str

definition reasonNeedsPostgres :: str where
  "reasonNeedsPostgres = ''requires Postgres: outside the unit scope, covered by tests/integration (integration tag)''"
definition reasonNeedsRedis :: str where
  "reasonNeedsRedis = ''requires Redis: outside the unit scope, covered by tests/integration (integration tag)''"

definition exclusions :: "exclusion list" where
  "exclusions =
    [\<lparr> ex_prefix = ''internal/core/audit/drivers/postgres/'', ex_reason = reasonNeedsPostgres \<rparr>,
     \<lparr> ex_prefix = ''internal/core/dynconf/drivers/postgres/'', ex_reason = reasonNeedsPostgres \<rparr>,
     \<lparr> ex_prefix = ''internal/core/idempotency/drivers/postgres/'', ex_reason = reasonNeedsPostgres \<rparr>,
     \<lparr> ex_prefix = ''internal/core/idempotency/drivers/redis/'', ex_reason = reasonNeedsRedis \<rparr>,
     \<lparr> ex_prefix = ''internal/core/outbox/drivers/postgres/'', ex_reason = reasonNeedsPostgres \<rparr>,
     \<lparr> ex_prefix = ''internal/core/scheduler/drivers/postgres/'', ex_reason = reasonNeedsPostgres \<rparr>,
     \<lparr> ex_prefix = ''internal/infrastructure/database/'',
       ex_reason = ''opens a pgx pool on construction '' @ em_dash @ '' traversed by tests/integration, never tested DIRECTLY (#37)'' \<rparr>,
     \<lparr> ex_prefix = ''internal/infrastructure/cache/'', ex_reason = reasonNeedsRedis \<rparr>,
     \<lparr> ex_prefix = ''cmd/'', ex_reason = ''composition root: exercised by tests/e2e (e2e tag), CI e2e job'' \<rparr>,
     \<lparr> ex_prefix = ''tools/'',
       ex_reason = ''build tooling, not product code '' @ em_dash @ '' including itself would skew the measurement'' \<rparr>]"

record block =
  bl_path :: str
  bl_statements :: int
  bl_covered :: bool

section \<open>The gates\<close>

definition isCore :: "block \<Rightarrow> bool" where
  "isCore b \<longleftrightarrow> contains_str (bl_path b) ''/domain/'' \<or> contains_str (bl_path b) ''/application/''"

definition isProduct :: "block \<Rightarrow> bool" where
  "isProduct b \<longleftrightarrow> \<not> has_prefix (bl_path b) buildTooling"

definition isExcluded :: "str \<Rightarrow> bool" where
  "isExcluded path \<longleftrightarrow> list_ex (\<lambda>x. has_prefix path (ex_prefix x)) exclusions"

definition contains_block :: "block list \<Rightarrow> (block \<Rightarrow> bool) \<Rightarrow> bool" where
  "contains_block blocks match \<longleftrightarrow> list_ex match blocks"

text \<open>The statements of some blocks, as an \<open>int\<close> of the program adds them.\<close>

definition sum_statements :: "block list \<Rightarrow> int" where
  "sum_statements blocks = foldl (\<lambda>n b. wrap64 (n + bl_statements b)) 0 blocks"

definition rate :: "block list \<Rightarrow> (block \<Rightarrow> bool) \<Rightarrow> rat" where
  "rate blocks keep =
     (let total = sum_statements (filter keep blocks);
          covered = sum_statements (filter bl_covered (filter keep blocks))
      in if total = 0 then 0 else float_div (float_mul 100 (float_of_int covered)) (float_of_int total))"

record gate =
  ga_name :: str
  ga_got :: rat
  ga_threshold :: rat
  ga_pass :: bool

definition printGate :: "str \<Rightarrow> rat \<Rightarrow> rat \<Rightarrow> gate" where
  "printGate name got threshold = \<lparr> ga_name = name, ga_got = got, ga_threshold = threshold, ga_pass = (\<not> got < threshold) \<rparr>"

definition printExcluded :: "block list \<Rightarrow> (str \<times> rat \<times> int \<times> str) list" where
  "printExcluded blocks =
     map (\<lambda>x. let matched = filter (\<lambda>b. has_prefix (bl_path b) (ex_prefix x)) blocks
               in (ex_prefix x, rate matched (\<lambda>b. True), sum_statements matched, ex_reason x)) exclusions"

definition checkExclusionsAreAlive :: "block list \<Rightarrow> err option" where
  "checkExclusionsAreAlive blocks =
     (let dead = map ex_prefix (filter (\<lambda>x. \<not> contains_block blocks (\<lambda>b. has_prefix (bl_path b) (ex_prefix x))) exclusions)
      in if dead = [] then None
         else Some (Errorf [Lit (''exclusion(s) matching no measured code: '' @ join_items (sort_strings dead) @ '' '' @ em_dash
                @ '' path renamed or removed? drop the entry from tools/covergate'')]))"

record gate_report =
  rp_dead :: "err option"
  rp_gates :: "gate list"
  rp_excluded :: "(str \<times> rat \<times> int \<times> str) list"
  rp_code :: int

definition gates_report :: "block list \<Rightarrow> gate_report" where
  "gates_report blocks =
     (let dead = checkExclusionsAreAlive blocks;
          product = rate blocks isProduct;
          unit = rate blocks (\<lambda>b. \<not> isExcluded (bl_path b));
          core = rate blocks isCore;
          gates = [printGate ''unit scope'' unit unitThreshold, printGate ''core (domain + application)'' core coreThreshold,
                   printGate ''product code (ratchet)'' product productFloor]
      in \<lparr> rp_dead = dead, rp_gates = gates, rp_excluded = printExcluded blocks,
           rp_code = (if dead \<noteq> None \<or> \<not> list_all ga_pass gates then 1 else 0) \<rparr>)"

section \<open>Reading a profile\<close>

definition modulePath :: "str \<Rightarrow> str \<Rightarrow> str" where
  "modulePath raw modulePrefix = trim_prefix (before_last CHR '':'' raw) modulePrefix"

definition parseLine :: "str \<Rightarrow> str \<Rightarrow> err + (str \<times> block)" where
  "parseLine raw modulePrefix =
     (case str_fields raw of
        [key, stmts, runs] \<Rightarrow>
          (case Atoi stmts of
             None \<Rightarrow> Inl (Errorf [Lit (''unreadable statement count: '' @ quote_text stmts)])
           | Some n \<Rightarrow>
               (case Atoi runs of
                  None \<Rightarrow> Inl (Errorf [Lit (''unreadable execution count: '' @ quote_text runs)])
                | Some k \<Rightarrow> Inr (key, \<lparr> bl_path = modulePath key modulePrefix, bl_statements = n, bl_covered = (0 < k) \<rparr>)))
      | fs \<Rightarrow> Inl (Errorf [Lit (show_nat (length fs) @ '' fields, 3 expected: '' @ quote_text raw)]))"

text \<open>A line of the file that is not a block: empty, or the header.\<close>

definition skipped :: "str \<Rightarrow> bool" where
  "skipped raw \<longleftrightarrow> raw = [] \<or> has_prefix raw ''mode:''"

definition merge_block :: "str \<Rightarrow> block \<Rightarrow> (str, block) gomap \<Rightarrow> (str, block) gomap" where
  "merge_block key b merged =
     (case map_get merged key of
        Some seen \<Rightarrow> map_set key (b\<lparr> bl_covered := bl_covered b \<or> bl_covered seen \<rparr>) merged
      | None \<Rightarrow> map_set key b merged)"

fun merge_lines :: "str \<Rightarrow> nat \<Rightarrow> str list \<Rightarrow> (str, block) gomap \<Rightarrow> err + (str, block) gomap" where
  "merge_lines modulePrefix n [] merged = Inr merged"
| "merge_lines modulePrefix n (l # ls) merged =
     (let raw = trim_space l in
      if skipped raw then merge_lines modulePrefix (Suc n) ls merged
      else case parseLine raw modulePrefix of
        Inl e \<Rightarrow> Inl (Errorf [Lit (''profile line '' @ show_nat n @ '': ''), W e])
      | Inr (key, b) \<Rightarrow> merge_lines modulePrefix (Suc n) ls (merge_block key b merged))"

definition parseProfile :: "err + bytes \<Rightarrow> str \<Rightarrow> err + block list" where
  "parseProfile file modulePrefix =
     (case file of
        Inl e \<Rightarrow> Inl (Errorf [Lit ''reading the profile: '', W e])
      | Inr content \<Rightarrow>
          (case scan_lines content of (ls, too_long) \<Rightarrow>
             (case merge_lines modulePrefix 1 ls [] of
                Inl e \<Rightarrow> Inl e
              | Inr merged \<Rightarrow>
                  if too_long then Inl (Errorf [Lit ''walking the profile: '', W (Opaque ''bufio.Scanner: token too long'')])
                  else Inr (map snd merged))))"

fun module_line :: "str list \<Rightarrow> str option" where
  "module_line [] = None"
| "module_line (l # ls) = (case cut_prefix (trim_space l) ''module '' of Some rest \<Rightarrow> Some (trim_space rest) | None \<Rightarrow> module_line ls)"

definition readModulePrefix :: "str \<Rightarrow> err + bytes \<Rightarrow> err + str" where
  "readModulePrefix path file =
     (case file of
        Inl e \<Rightarrow> Inl (Errorf [Lit (''reading '' @ path @ '': ''), W e])
      | Inr content \<Rightarrow>
          (case module_line (split_char newline content) of
             Some m \<Rightarrow> Inr (m @ ''/'')
           | None \<Rightarrow> Inl (Errorf [Lit (''no `module` directive in '' @ path)])))"

text \<open>The program exits 1 with a message, or with the code of its report.\<close>

datatype gate_run = Failed str | Reported gate_report

definition covergate_main :: "str list \<Rightarrow> (str \<Rightarrow> err + bytes) \<Rightarrow> gate_run" where
  "covergate_main args files =
     (case args of
        prog # profile # rest \<Rightarrow>
          (case readModulePrefix ''go.mod'' (files ''go.mod'') of
             Inl e \<Rightarrow> Failed (err_text e)
           | Inr prefix \<Rightarrow>
               (case parseProfile (files profile) prefix of
                  Inl e \<Rightarrow> Failed (err_text e)
                | Inr blocks \<Rightarrow>
                    if blocks = [] then Failed (''EMPTY coverage profile '' @ em_dash @ '' the test command measured nothing'')
                    else Reported (gates_report blocks)))
      | _ \<Rightarrow> Failed ''usage: covergate <coverage.out>'')"

section \<open>What the gates decide\<close>

text \<open>The statements of the kept blocks, and those a test executed, as exact integers.\<close>

definition statements_in :: "(block \<Rightarrow> bool) \<Rightarrow> block list \<Rightarrow> int" where
  "statements_in keep blocks = sum_list (map bl_statements (filter keep blocks))"

definition covered_in :: "(block \<Rightarrow> bool) \<Rightarrow> block list \<Rightarrow> int" where
  "covered_in keep blocks = statements_in (\<lambda>b. keep b \<and> bl_covered b) blocks"

definition meets :: "int \<Rightarrow> (block \<Rightarrow> bool) \<Rightarrow> block list \<Rightarrow> bool" where
  "meets percent keep blocks \<longleftrightarrow>
     0 < statements_in keep blocks \<and> percent * statements_in keep blocks \<le> 100 * covered_in keep blocks"

lemma wrap64_add: "wrap64 (wrap64 a + b) = wrap64 (a + b)"
proof -
  have "(wrap64 a + b + 2 ^ 63) mod 2 ^ 64 = ((a + 2 ^ 63) mod 2 ^ 64 + b) mod 2 ^ 64" by (simp add: wrap64_def)
  also have "\<dots> = (a + 2 ^ 63 + b) mod 2 ^ 64" by (rule mod_add_left_eq)
  also have "\<dots> = (a + b + 2 ^ 63) mod 2 ^ 64" by (simp add: ac_simps)
  finally show ?thesis by (simp add: wrap64_def [of "wrap64 a + b"] wrap64_def [of "a + b"])
qed

lemma sum_statements_wrap: "sum_statements bs = wrap64 (sum_list (map bl_statements bs))"
proof -
  have "foldl (\<lambda>n b. wrap64 (n + bl_statements b)) (wrap64 n) bs = wrap64 (n + sum_list (map bl_statements bs))" for n
    by (induction bs arbitrary: n) (simp_all add: wrap64_add add.assoc)
  from this [of 0] show ?thesis by (simp add: sum_statements_def int64_range_def)
qed

lemma statements_in_bounds:
  assumes "\<And>b. b \<in> set bs \<Longrightarrow> 0 \<le> bl_statements b"
  shows "0 \<le> statements_in keep bs" and "covered_in keep bs \<le> statements_in keep bs"
    and "statements_in keep bs \<le> sum_list (map bl_statements bs)" and "0 \<le> covered_in keep bs"
  using assms by (induction bs) (fastforce simp: statements_in_def covered_in_def)+

lemma rate_meets:
  assumes nonneg: "\<And>b. b \<in> set bs \<Longrightarrow> 0 \<le> bl_statements b" and small: "sum_list (map bl_statements bs) < 2 ^ 46"
    and percent: "0 < percent" "percent \<le> 100"
  shows "of_int percent \<le> rate bs keep \<longleftrightarrow> meets percent keep bs"
proof (cases "statements_in keep bs = 0")
  case True
  then show ?thesis using percent by (simp add: rate_def sum_statements_wrap statements_in_def meets_def int64_range_def)
next
  case False
  define c where "c = covered_in keep bs"
  define t where "t = statements_in keep bs"
  note bnds = statements_in_bounds [where bs = bs and keep = keep, OF nonneg]
  have t: "0 < t" "t < 2 ^ 46" and c: "0 \<le> c" "c \<le> t" using False bnds small by (auto simp: c_def t_def)
  have "sum_statements (filter keep bs) = t"
    using t by (simp add: sum_statements_wrap t_def [symmetric, unfolded statements_in_def] int64_range_def)
  moreover have "sum_statements (filter bl_covered (filter keep bs)) = c"
  proof -
    have "filter bl_covered (filter keep bs) = filter (\<lambda>b. keep b \<and> bl_covered b) bs"
      by (induction bs) auto
    then show ?thesis using t c by (simp add: sum_statements_wrap c_def [symmetric, unfolded covered_in_def statements_in_def] int64_range_def del: filter_filter)
  qed
  ultimately have r: "rate bs keep = round_float (of_int (100 * c) / of_int t)"
    using t c round_float_int [of "100 * c"] round_float_int [of c] round_float_int [of t]
    by (simp add: rate_def float_div_def float_mul_def float_of_int_def)
  define q where "q = (of_int (100 * c) / of_int t :: rat)"
  have q0: "0 \<le> q" using t c by (simp add: q_def)
  have t0: "(0::rat) < of_int t" using t by simp
  have qT: "of_int percent \<le> q \<longleftrightarrow> percent * t \<le> 100 * c"
    unfolding q_def using t0 by (simp add: pos_le_divide_eq of_int_mult [symmetric] del: of_int_mult)
  show ?thesis
  proof (cases "percent * t \<le> 100 * c")
    case True
    then have "of_int percent \<le> q" using qT by blast
    moreover have "q < 2 ^ 53"
    proof -
      have "q \<le> 100" using c t0 by (simp add: q_def pos_divide_le_eq)
      then show ?thesis by simp
    qed
    ultimately have "of_int percent \<le> round_float q" using percent by (intro round_float_ge) auto
    then show ?thesis using True t by (simp add: r q_def meets_def c_def t_def)
  next
    case False
    have "round_float q < of_int percent"
    proof (cases "q = 0")
      case True
      then show ?thesis using percent by (simp add: round_float_def)
    next
      case q: False
      have "of_int (100 * c + 1) \<le> (of_int (percent * t) :: rat)" using False by (subst of_int_le_iff) simp
      then have gap: "q + 1 / of_int t \<le> of_int percent" using t0 by (simp add: q_def field_simps)
      have less: "1 / 2 ^ 46 < 1 / (of_int t :: rat)"
      proof -
        have "(of_int t :: rat) < of_int (2 ^ 46)" using t by (subst of_int_less_iff) simp
        then show ?thesis using t0 by (intro divide_strict_left_mono) auto
      qed
      have "q < 2 powi 7"
      proof -
        have "(of_int percent :: rat) \<le> 100" using percent by simp
        moreover have "0 < 1 / (of_int t :: rat)" using t0 by simp
        ultimately have "q < 100" using gap by linarith
        then show ?thesis by simp
      qed
      then have "\<bar>round_float q - q\<bar> \<le> 2 powi (7 - 54)" using q q0 by (intro round_float_near) auto
      moreover have "(2::rat) powi (7 - 54) = 1 / 2 ^ 47" by (simp add: power_int_def field_simps)
      ultimately have "round_float q - q \<le> 1 / 2 ^ 47" by (simp only: abs_le_iff)
      then have "round_float q \<le> q + 1 / 2 ^ 47" by linarith
      then show ?thesis using gap less by (simp add: field_simps)
    qed
    then show ?thesis using False by (simp add: r q_def meets_def c_def t_def)
  qed
qed

text \<open>A scope that passes with a block no test executes passed without it.\<close>

lemma uncovered_code_lowers:
  assumes "\<And>b. b \<in> set bs \<Longrightarrow> 0 \<le> bl_statements b" and "meets percent keep (b # bs)" and "0 \<le> percent"
    and "\<not> bl_covered b" and "0 < bl_statements b" and "statements_in keep bs \<noteq> 0"
  shows "meets percent keep bs"
proof -
  have "0 < statements_in keep bs" using statements_in_bounds(1) [where bs = bs and keep = keep, OF assms(1)] assms(6) by simp
  moreover have "percent * statements_in keep bs \<le> percent * (bl_statements b + statements_in keep bs)"
    using assms(3,5) by (intro mult_left_mono) auto
  ultimately show ?thesis using assms by (auto simp: meets_def statements_in_def covered_in_def split: if_splits)
qed

text \<open>C31: The verdict is the one of exact integer arithmetic. For a profile of less than \<open>2 ^ 46\<close>
  statements the program exits 0 exactly when every exclusion still matches a measured block and, of
  the statements of each of the three scopes, the covered ones are at least 70, 90 and 59 in a hundred:
  neither the \<open>float64\<close> quotient nor the wrap-around of the sums decides a gate, and an empty scope fails.\<close>

theorem gate_verdict:
  assumes "\<And>b. b \<in> set blocks \<Longrightarrow> 0 \<le> bl_statements b" and "sum_list (map bl_statements blocks) < 2 ^ 46"
  shows "rp_code (gates_report blocks) = 0 \<longleftrightarrow>
    list_all (\<lambda>x. list_ex (\<lambda>b. has_prefix (bl_path b) (ex_prefix x)) blocks) exclusions
    \<and> meets 70 (\<lambda>b. \<not> isExcluded (bl_path b)) blocks \<and> meets 90 isCore blocks \<and> meets 59 isProduct blocks"
proof -
  note gate = rate_meets [OF assms]
  have "checkExclusionsAreAlive blocks = None \<longleftrightarrow>
      list_all (\<lambda>x. list_ex (\<lambda>b. has_prefix (bl_path b) (ex_prefix x)) blocks) exclusions"
    by (auto simp: checkExclusionsAreAlive_def contains_block_def Let_def filter_empty_conv list_all_iff)
  then show ?thesis
    using gate [of 70 "\<lambda>b. \<not> isExcluded (bl_path b)"] gate [of 90 isCore] gate [of 59 isProduct]
    by (auto simp: gates_report_def Let_def printGate_def unitThreshold_def coreThreshold_def productFloor_def not_less)
qed

text \<open>One block per exclusion, and a covered rule of the core.\<close>

definition small_profile :: "block list" where
  "small_profile = \<lparr> bl_path = ''internal/core/auth/domain/token.go'', bl_statements = 40, bl_covered = True \<rparr> #
     map (\<lambda>x. \<lparr> bl_path = ex_prefix x @ ''a.go'', bl_statements = 1, bl_covered = False \<rparr>) exclusions"

lemma gate_verdict_witness: "rp_code (gates_report small_profile) = 0"
proof -
  have "list_all (\<lambda>b. 0 \<le> bl_statements b) small_profile" by code_simp
  then have "b \<in> set small_profile \<Longrightarrow> 0 \<le> bl_statements b" for b by (simp add: list_all_iff)
  moreover have "sum_list (map bl_statements small_profile) = 50" by code_simp
  then have "sum_list (map bl_statements small_profile) < 2 ^ 46" by simp
  moreover have "list_all (\<lambda>x. list_ex (\<lambda>b. has_prefix (bl_path b) (ex_prefix x)) small_profile) exclusions" by code_simp
  moreover have "meets 70 (\<lambda>b. \<not> isExcluded (bl_path b)) small_profile" by code_simp
  moreover have "meets 90 isCore small_profile" by code_simp
  moreover have "meets 59 isProduct small_profile" by code_simp
  ultimately show ?thesis using gate_verdict [of small_profile] by blast
qed

section \<open>What the profile is read as\<close>

text \<open>The occurrences a profile lists: the range and the block of each of its lines.\<close>

definition occurrences :: "str \<Rightarrow> str list \<Rightarrow> (str \<times> block) list" where
  "occurrences modulePrefix ls = concat (map (\<lambda>l. let raw = trim_space l in
     if skipped raw then [] else case parseLine raw modulePrefix of Inl e \<Rightarrow> [] | Inr kb \<Rightarrow> [kb]) ls)"

definition same_range :: "block \<Rightarrow> block \<Rightarrow> bool" where
  "same_range a b \<longleftrightarrow> bl_path a = bl_path b \<and> bl_statements a = bl_statements b"

text \<open>One occurrence of a range announces as many statements as another.\<close>

definition consistent :: "(str \<times> block) list \<Rightarrow> bool" where
  "consistent es \<longleftrightarrow> (\<forall>(k, a) \<in> set es. \<forall>(k', b) \<in> set es. k = k' \<longrightarrow> same_range a b)"

definition merged_from :: "(str \<times> block) list \<Rightarrow> (str, block) gomap \<Rightarrow> bool" where
  "merged_from es m \<longleftrightarrow> is_map m \<and> dom (map_get m) = fst ` set es \<and>
     (\<forall>k b. map_get m k = Some b \<longrightarrow> (\<exists>a. (k, a) \<in> set es \<and> same_range a b)
        \<and> (bl_covered b \<longleftrightarrow> (\<exists>a. (k, a) \<in> set es \<and> bl_covered a)))"

lemma merge_lines_foldl:
  "merge_lines p n ls m = Inr m' \<Longrightarrow> m' = foldl (\<lambda>m (k, b). merge_block k b m) m (occurrences p ls)"
  by (induction p n ls m rule: merge_lines.induct)
     (auto simp: occurrences_def Let_def split: if_splits sum.splits prod.splits)

lemma merge_block_get:
  "map_get (merge_block k b m) k' =
     (if k' = k then Some (b\<lparr> bl_covered := bl_covered b \<or> (\<exists>s. map_get m k = Some s \<and> bl_covered s) \<rparr>) else map_get m k')"
  by (cases "map_get m k") (auto simp: merge_block_def go_map)

lemma is_map_merge_block: "is_map m \<Longrightarrow> is_map (merge_block k b m)"
  by (simp add: merge_block_def is_map_set split: option.split)

lemma merged_from_step:
  assumes "merged_from es m"
  shows "merged_from (es @ [(k, b)]) (merge_block k b m)"
proof -
  from assms have m: "is_map m" "dom (map_get m) = fst ` set es"
    and from_m: "\<And>k b. map_get m k = Some b \<Longrightarrow> (\<exists>a. (k, a) \<in> set es \<and> same_range a b)"
      "\<And>k b. map_get m k = Some b \<Longrightarrow> bl_covered b \<longleftrightarrow> (\<exists>a. (k, a) \<in> set es \<and> bl_covered a)"
    by (auto simp: merged_from_def)
  have other: "(\<exists>s. map_get m k = Some s \<and> bl_covered s) \<longleftrightarrow> (\<exists>a. (k, a) \<in> set es \<and> bl_covered a)"
  proof (cases "map_get m k")
    case None
    then have "k \<notin> fst ` set es" using m(2) by (metis domIff)
    then show ?thesis using None by force
  qed (use from_m(2) in auto)
  have "map_get (merge_block k b m) k' = Some c \<Longrightarrow>
      (\<exists>a. (k', a) \<in> set (es @ [(k, b)]) \<and> same_range a c)
      \<and> (bl_covered c \<longleftrightarrow> (\<exists>a. (k', a) \<in> set (es @ [(k, b)]) \<and> bl_covered a))" for k' c
    using from_m other by (cases "k' = k") (auto simp: merge_block_get same_range_def)
  moreover have "dom (map_get (merge_block k b m)) = insert k (dom (map_get m))"
    by (auto simp: merge_block_get dom_def split: if_splits)
  ultimately show ?thesis using m is_map_merge_block [OF m(1)] by (auto simp: merged_from_def)
qed

lemma merged_from_foldl: "merged_from es (foldl (\<lambda>m (k, b). merge_block k b m) [] es)"
proof (induction es rule: rev_induct)
  case (snoc x xs)
  then show ?case using merged_from_step [of xs _ "fst x" "snd x"] by (cases x) simp
qed (simp add: merged_from_def)

lemma merged_fromD:
  assumes "merged_from es m" and "map_get m k = Some b"
  obtains a where "(k, a) \<in> set es" and "same_range a b" and "bl_covered b \<longleftrightarrow> (\<exists>a. (k, a) \<in> set es \<and> bl_covered a)"
  using assms unfolding merged_from_def by blast

text \<open>What is merged depends on which occurrences there are, not on their order or number.\<close>

lemma merged_from_unique:
  assumes "merged_from es m" and "merged_from es' m'" and same: "set es = set es'" and cons: "consistent es"
  shows "mset m = mset m'"
proof -
  have "map_get m k = map_get m' k" for k
  proof (cases "map_get m k")
    case None
    then have "k \<notin> fst ` set es'" using assms(1) same by (metis domIff merged_from_def)
    then show ?thesis using None assms(2) by (metis domIff merged_from_def)
  next
    case (Some b)
    then have "k \<in> dom (map_get m')" using assms(1,2) same by (metis domI merged_from_def)
    then obtain b' where b': "map_get m' k = Some b'" by blast
    from merged_fromD [OF assms(1) Some] obtain a
      where a: "(k, a) \<in> set es" "same_range a b" "bl_covered b \<longleftrightarrow> (\<exists>a. (k, a) \<in> set es \<and> bl_covered a)" by blast
    from merged_fromD [OF assms(2) b'] same obtain a'
      where a': "(k, a') \<in> set es" "same_range a' b'" "bl_covered b' \<longleftrightarrow> (\<exists>a. (k, a) \<in> set es \<and> bl_covered a)" by metis
    have "same_range a a'" using cons a(1) a'(1) by (auto simp: consistent_def)
    then have "bl_path b = bl_path b'" "bl_statements b = bl_statements b'" using a(2) a'(2) by (simp_all add: same_range_def)
    moreover have "bl_covered b \<longleftrightarrow> bl_covered b'" using a(3) a'(3) by simp
    ultimately show ?thesis using Some b' by simp
  qed
  then have "map_get m = map_get m'" by blast
  moreover have dm: "distinct (map fst m)" "distinct (map fst m')" using assms(1,2) by (auto simp: merged_from_def)
  ultimately have "set m = set m'" using map_of_inject_set [OF dm] by simp
  moreover have "distinct m" "distinct m'" using dm by (simp_all add: distinct_map)
  ultimately show ?thesis by (simp add: set_eq_iff_mset_eq_distinct [symmetric])
qed

lemma sum_statements_mset: "mset a = mset b \<Longrightarrow> sum_statements (filter P a) = sum_statements (filter P b)"
proof -
  assume "mset a = mset b"
  then have "sum_mset (image_mset bl_statements (filter_mset P (mset a))) = sum_mset (image_mset bl_statements (filter_mset P (mset b)))"
    by simp
  then show ?thesis by (simp add: sum_statements_wrap flip: mset_filter mset_map sum_mset_sum_list)
qed

lemma rate_mset: "mset a = mset b \<Longrightarrow> rate a keep = rate b keep"
  using sum_statements_mset [of a b keep] sum_statements_mset [of a b "\<lambda>b. keep b \<and> bl_covered b"]
  by (simp add: rate_def conj_commute)

lemma report_mset:
  assumes "mset a = mset b"
  shows "gates_report a = gates_report b"
proof -
  have sets: "set a = set b" using assms by (rule mset_eq_setD)
  have "checkExclusionsAreAlive a = checkExclusionsAreAlive b"
    by (simp add: checkExclusionsAreAlive_def contains_block_def list_ex_iff sets)
  moreover have "mset (filter P a) = mset (filter P b)" for P using assms by simp
  then have "printExcluded a = printExcluded b"
    unfolding printExcluded_def Let_def
    using rate_mset [of "filter P a" "filter P b" for P] sum_statements_mset [OF assms] by simp
  ultimately show ?thesis using rate_mset [OF assms] by (simp add: gates_report_def)
qed

text \<open>Reading a profile, the program keeps of each range that it is covered when one test binary
  at least executed it: two profiles of the same occurrences, in whatever order and however many times
  each is repeated, are given the same report, gates, exclusions and exit code.\<close>

theorem repeated_ranges_count_once:
  assumes "parseProfile (Inr c1) modulePrefix = Inr bs1" and "parseProfile (Inr c2) modulePrefix = Inr bs2"
    and "set (occurrences modulePrefix (fst (scan_lines c1))) = set (occurrences modulePrefix (fst (scan_lines c2)))"
    and "consistent (occurrences modulePrefix (fst (scan_lines c1)))"
  shows "gates_report bs1 = gates_report bs2"
proof -
  have merged: "\<exists>m. bs = map snd m \<and> merged_from (occurrences modulePrefix (fst (scan_lines c))) m"
    if "parseProfile (Inr c) modulePrefix = Inr bs" for c bs
    using that merge_lines_foldl [of modulePrefix 1 "fst (scan_lines c)" "[]"] merged_from_foldl
    by (auto simp: parseProfile_def split: prod.splits sum.splits if_splits)
  from merged [OF assms(1)] merged [OF assms(2)] obtain m1 m2 where m: "bs1 = map snd m1" "bs2 = map snd m2"
    and from_occ: "merged_from (occurrences modulePrefix (fst (scan_lines c1))) m1"
      "merged_from (occurrences modulePrefix (fst (scan_lines c2))) m2" by blast
  have "mset bs1 = mset bs2" using merged_from_unique [OF from_occ assms(3,4)] by (simp add: m)
  then show ?thesis by (rule report_mset)
qed

definition profile_a :: bytes where
  "profile_a = ''mode: count'' @ newline # ''m/cmd/a.go:1.2,3.4 2 0'' @ newline # ''m/cmd/b.go:1.2,3.4 1 0''
     @ newline # ''m/cmd/a.go:1.2,3.4 2 7'' @ [newline]"
definition profile_b :: bytes where
  "profile_b = ''mode: count'' @ newline # ''m/cmd/b.go:1.2,3.4 1 0'' @ newline # ''m/cmd/a.go:1.2,3.4 2 7''
     @ newline # ''m/cmd/a.go:1.2,3.4 2 0'' @ newline # ''m/cmd/b.go:1.2,3.4 1 0'' @ [newline]"

definition cmd_block :: "str \<Rightarrow> int \<Rightarrow> bool \<Rightarrow> block" where
  "cmd_block name n covered = \<lparr> bl_path = ''cmd/'' @ name, bl_statements = n, bl_covered = covered \<rparr>"

lemma repeated_ranges_count_once_witness:
  "gates_report [cmd_block ''a.go'' 2 True, cmd_block ''b.go'' 1 False] = gates_report [cmd_block ''b.go'' 1 False, cmd_block ''a.go'' 2 True]"
proof -
  have "parseProfile (Inr profile_a) ''m/'' = Inr [cmd_block ''a.go'' 2 True, cmd_block ''b.go'' 1 False]" by code_simp
  moreover have "parseProfile (Inr profile_b) ''m/'' = Inr [cmd_block ''b.go'' 1 False, cmd_block ''a.go'' 2 True]" by code_simp
  moreover have "set (occurrences ''m/'' (fst (scan_lines profile_a))) = set (occurrences ''m/'' (fst (scan_lines profile_b)))" by code_simp
  moreover have "consistent (occurrences ''m/'' (fst (scan_lines profile_a)))" by code_simp
  ultimately show ?thesis using repeated_ranges_count_once [of profile_a "''m/''" _ profile_b] by metis
qed

end
