(* ===== verification/Connections.thy ===== *)
theory Connections
  imports Config_Core Result
begin

text \<open>
  The connections a process opens (internal/infrastructure/resources/resources.go, with \<open>New\<close> of
  database.go and cache.go): those the enabled modules require, and no other. What a driver of the
  network answers to each call is an argument; the state is the list of the connections left open.
\<close>

section \<open>Opening one connection\<close>

datatype handle = PoolHandle | CacheHandle

text \<open>What \<open>pgxpool.ParseConfig\<close>, \<open>pgxpool.NewWithConfig\<close> and the two pings report.\<close>

record net =
  nt_parse :: "str \<Rightarrow> err option"
  nt_open :: "err option"
  nt_ping :: "err option"
  nt_cache_ping :: "err option"

definition close_handle :: "handle \<Rightarrow> handle list \<Rightarrow> handle list" where
  "close_handle h hs = remove1 h hs"

definition database_New :: "net \<Rightarrow> db_config \<Rightarrow> handle list \<Rightarrow> err option \<times> handle list" where
  "database_New n cfg hs =
     (case nt_parse n (db_DSN cfg) of
        Some e \<Rightarrow> (Some (Errorf [Lit ''invalid DSN: '', W e]), hs)
      | None \<Rightarrow>
          (case nt_open n of
             Some e \<Rightarrow> (Some (Errorf [Lit ''opening the pool: '', W e]), hs)
           | None \<Rightarrow>
               (case nt_ping n of
                  Some e \<Rightarrow> (Some (Errorf [Lit ''database unreachable: '', W e]), close_handle PoolHandle (PoolHandle # hs))
                | None \<Rightarrow> (None, PoolHandle # hs))))"

definition cache_New :: "net \<Rightarrow> cache_config \<Rightarrow> handle list \<Rightarrow> err option \<times> handle list" where
  "cache_New n cfg hs =
     (case nt_cache_ping n of
        Some e \<Rightarrow> (Some (Errorf [Lit ''cache unreachable: '', W e]), close_handle CacheHandle (CacheHandle # hs))
      | None \<Rightarrow> (None, CacheHandle # hs))"

section \<open>Opening what is required\<close>

record connections =
  cn_Pool :: bool
  cn_Cache :: bool

definition no_connections :: connections where
  "no_connections = \<lparr> cn_Pool = False, cn_Cache = False \<rparr>"

definition Close_connections :: "connections \<Rightarrow> handle list \<Rightarrow> handle list" where
  "Close_connections c hs =
     (let hs1 = (if cn_Pool c then close_handle PoolHandle hs else hs)
      in if cn_Cache c then close_handle CacheHandle hs1 else hs1)"

definition Open :: "net \<Rightarrow> config \<Rightarrow> module_catalog \<Rightarrow> handle list \<Rightarrow> (err + connections) \<times> handle list" where
  "Open n cfg catalog hs =
     (case (if RequiresSQL catalog (Modules cfg) then database_New n (Database cfg) hs else (None, hs)) of
        (Some e, hs1) \<Rightarrow> (Inl (Errorf [Lit ''an enabled module requires a database: '', W e]), hs1)
      | (None, hs1) \<Rightarrow>
          (let opened = no_connections\<lparr> cn_Pool := RequiresSQL catalog (Modules cfg) \<rparr> in
           case (if RequiresCache catalog (Modules cfg) then cache_New n (CacheGroup cfg) hs1 else (None, hs1)) of
             (Some e, hs2) \<Rightarrow> (Inl (Errorf [Lit ''an enabled module requires a cache: '', W e]), Close_connections opened hs2)
           | (None, hs2) \<Rightarrow> (Inr (opened\<lparr> cn_Cache := RequiresCache catalog (Modules cfg) \<rparr>), hs2)))"

section \<open>The typed cache\<close>

text \<open>The three functions of \<open>cache.JSON\<close> over the commands of the client, whose failures they hide.\<close>

definition full_key :: "str \<Rightarrow> str \<Rightarrow> str" where
  "full_key namespace key = namespace @ '':'' @ key"

definition cache_get :: "(str \<Rightarrow> 'd \<Rightarrow> err + bytes) \<Rightarrow> (bytes \<Rightarrow> 'v option) \<Rightarrow> str \<Rightarrow> str \<Rightarrow> 'd \<Rightarrow> 'v fp_option" where
  "cache_get cmd unmarshal namespace key db =
     (case cmd (full_key namespace key) db of
        Inl e \<Rightarrow> None
      | Inr raw \<Rightarrow> unmarshal raw)"

definition cache_set :: "(str \<Rightarrow> bytes \<Rightarrow> 'd \<Rightarrow> err option \<times> 'd) \<Rightarrow> ('v \<Rightarrow> bytes option) \<Rightarrow> str \<Rightarrow> str \<Rightarrow> 'v \<Rightarrow> 'd \<Rightarrow> 'd" where
  "cache_set cmd marshal namespace key v db =
     (case marshal v of None \<Rightarrow> db | Some raw \<Rightarrow> snd (cmd (full_key namespace key) raw db))"

definition cache_del :: "(str \<Rightarrow> 'd \<Rightarrow> err option \<times> 'd) \<Rightarrow> str \<Rightarrow> str \<Rightarrow> 'd \<Rightarrow> 'd" where
  "cache_del cmd namespace key db = snd (cmd (full_key namespace key) db)"

definition IsMiss :: "err \<Rightarrow> bool" where
  "IsMiss e \<longleftrightarrow> errors_is e RedisNil"

section \<open>What is left open\<close>

lemma close_handle_opened [simp]: "close_handle h (h # hs) = hs"
  by (simp add: close_handle_def)

lemma database_New_cases:
  "case database_New n cfg hs of (Some e, hs') \<Rightarrow> hs' = hs | (None, hs') \<Rightarrow> hs' = PoolHandle # hs"
  by (auto simp: database_New_def split: option.splits)

lemma Open_effect:
  "case Open n cfg catalog hs of
     (Inl e, hs') \<Rightarrow> hs' = hs
   | (Inr c, hs') \<Rightarrow> cn_Pool c = RequiresSQL catalog (Modules cfg) \<and> cn_Cache c = RequiresCache catalog (Modules cfg)
       \<and> hs' = (if cn_Cache c then [CacheHandle] else []) @ (if cn_Pool c then [PoolHandle] else []) @ hs
       \<and> Close_connections c hs' = hs"
proof -
  define first where "first = (if RequiresSQL catalog (Modules cfg) then database_New n (Database cfg) hs else (None, hs))"
  have opened: "case first of (Some e, hs1) \<Rightarrow> hs1 = hs
      | (None, hs1) \<Rightarrow> hs1 = (if RequiresSQL catalog (Modules cfg) then [PoolHandle] else []) @ hs"
    using database_New_cases [where n = n and cfg = "Database cfg" and hs = hs] by (auto simp: first_def split: prod.splits option.splits)
  show ?thesis
  proof (cases first)
    case (Pair r hs1)
    then show ?thesis using opened
      by (auto simp: Open_def first_def [symmetric] cache_New_def no_connections_def Close_connections_def Let_def
          close_handle_def split: option.splits)
  qed
qed

lemma Open_handles:
  "case Open n cfg catalog hs of (Inl e, hs') \<Rightarrow> hs' = hs | (Inr c, hs') \<Rightarrow> Close_connections c hs' = hs"
  using Open_effect [where n = n and cfg = cfg and catalog = catalog and hs = hs] by (auto split: prod.splits sum.splits)

text \<open>A process opens the connections its configuration asks for and leaves none behind. When
  \<open>Open\<close> succeeds a pool is there exactly if an enabled module's driver requires a database, a cache
  client exactly if one requires a cache, those are the only connections opened, and closing gives back
  what was there before. When it fails, whichever call failed, nothing stays open.\<close>

theorem opens_what_is_required:
  "case Open n cfg catalog hs of
     (Inl e, hs') \<Rightarrow> hs' = hs
   | (Inr c, hs') \<Rightarrow> cn_Pool c = RequiresSQL catalog (Modules cfg) \<and> cn_Cache c = RequiresCache catalog (Modules cfg)
       \<and> hs' = (if cn_Cache c then [CacheHandle] else []) @ (if cn_Pool c then [PoolHandle] else []) @ hs
       \<and> Close_connections c hs' = hs"
  by (rule Open_effect)

end
