(* ===== verification/Application.thy ===== *)
theory Application
  imports Connections Outbox_Module Idempotency_Module Dynconf_Module Audit_Trail Storage_Module Scheduler_Module Auth_Module Notification User_Registration Config_Loader
begin

text \<open>
  What the binaries share: the catalogue of the modules a configuration may name
  (internal/core/catalog.go, internal/modules/catalog.go and the \<open>moduleCatalog\<close> of each binary).
\<close>

section \<open>The catalogue\<close>

definition wrap_catalog :: "str \<Rightarrow> err + module_catalog \<Rightarrow> err + module_catalog" where
  "wrap_catalog what r = (case r of Inl e \<Rightarrow> Inl (Errorf [Lit (what @ '': ''), W e]) | Inr c \<Rightarrow> Inr c)"

definition core_Catalog :: "err + module_catalog" where
  "core_Catalog = wrap_catalog ''core catalogue''
     (MergeCatalogs [outbox_Catalog, idem_Catalog, dynconf_Catalog, audit_Catalog, storage_Catalog, sched_Catalog,
        auth_Catalog, notif_Catalog])"

definition business_Catalog :: "err + module_catalog" where
  "business_Catalog = wrap_catalog ''business module catalogue'' (MergeCatalogs [user_Catalog])"

definition moduleCatalog :: "err + module_catalog" where
  "moduleCatalog =
     (case wrap_catalog ''core catalogue'' core_Catalog of
        Inl e \<Rightarrow> Inl e
      | Inr core \<Rightarrow>
          (case wrap_catalog ''business module catalogue'' business_Catalog of
             Inl e \<Rightarrow> Inl e
           | Inr business \<Rightarrow> wrap_catalog ''merging the catalogues'' (MergeCatalogs [core, business])))"

text \<open>The nine modules, as one catalogue.\<close>

definition all_modules :: module_catalog where
  "all_modules = outbox_Catalog @ idem_Catalog @ dynconf_Catalog @ audit_Catalog @ storage_Catalog @ sched_Catalog
     @ auth_Catalog @ notif_Catalog @ user_Catalog"

lemmas catalogues = outbox_Catalog_def idem_Catalog_def dynconf_Catalog_def audit_Catalog_def storage_Catalog_def
  sched_Catalog_def auth_Catalog_def notif_Catalog_def user_Catalog_def

lemmas module_names = Name_def idem_Name_def dynconf_Name_def audit_Name_def storage_Name_def sched_Name_def auth_Name_def
  notif_Name_def user_Name_def

lemma moduleCatalog_eq: "moduleCatalog = Inr all_modules"
  by (simp add: moduleCatalog_def core_Catalog_def business_Catalog_def wrap_catalog_def MergeCatalogs_def all_modules_def
      catalogues module_names)

lemma all_modules_map: "is_map all_modules"
  by (simp add: all_modules_def catalogues module_names)

end
