(* ===== verification/Server.thy ===== *)
theory Server
  imports Application Http_Stack Auth_Http Security
begin

text \<open>
  The server binary (cmd/server): the modules it mounts over one configuration, what it asks the
  outbox when it is probed, the account it announces in a local environment.
\<close>

section \<open>The world of the server\<close>

text \<open>The outbox, and what the process reads from outside, call after call: the calls of the outbox and
  the clock share a counter, the identifiers of \<open>uuid.NewV7\<close> and \<open>uuid.NewString\<close> another.\<close>

record server_rest =
  sv_outbox :: outbox_state
  sv_env :: "nat \<Rightarrow> call_env"
  sv_calls :: nat
  sv_v7 :: "nat \<Rightarrow> err + str"
  sv_v4 :: "nat \<Rightarrow> str"
  sv_ids :: nat

type_synonym server_world = "server_rest reg_world"

definition generateUserID :: "server_world \<Rightarrow> str \<times> server_world" where
  "generateUserID w =
     (let r = rw_rest w; w1 = w\<lparr> rw_rest := r\<lparr> sv_ids := sv_ids r + 1 \<rparr> \<rparr>
      in (case sv_v7 r (sv_ids r) of Inl e \<Rightarrow> sv_v4 r (sv_ids r) | Inr i \<Rightarrow> i, w1))"

definition SystemClock :: "server_world \<Rightarrow> time \<times> server_world" where
  "SystemClock w =
     (let r = rw_rest w in (ce_now (sv_env r (sv_calls r)), w\<lparr> rw_rest := r\<lparr> sv_calls := sv_calls r + 1 \<rparr> \<rparr>))"

definition enqueue_in :: "outbox_module \<Rightarrow> new_message \<Rightarrow> server_world \<Rightarrow> (err + str) \<times> server_world" where
  "enqueue_in md msg w =
     (let r = rw_rest w in
      case m_Enqueue md (sv_env r (sv_calls r)) msg (sv_outbox r) of
        (x, st) \<Rightarrow> (x, w\<lparr> rw_rest := r\<lparr> sv_outbox := st, sv_calls := sv_calls r + 1 \<rparr> \<rparr>))"

section \<open>Composition\<close>

text \<open>The hasher at the costs of the configuration, as each of the two worlds calls it. A cost \<open>argon2\<close>
  panics on has no such function.\<close>

record 'e hashers =
  hs_user :: "argon2_params \<Rightarrow> str \<Rightarrow> server_world \<Rightarrow> (err + str) \<times> server_world"
  hs_auth :: "argon2_params \<Rightarrow> str \<Rightarrow> 'e \<Rightarrow> (err + str) \<times> 'e"
  hs_verify :: "str \<Rightarrow> str \<Rightarrow> err + bool"

definition hash_costs :: "config \<Rightarrow> argon2_params" where
  "hash_costs cfg =
     (let a = sec_Argon2 (Security cfg) in
      \<lparr> ap_MemoryKiB = ar_MemoryKiB a, ap_Iterations = ar_Iterations a, ap_Threads = ar_Threads a \<rparr>)"

text \<open>The orders Go gives the maps of missing dependencies, the clock and the random source of auth, the
  JSON of the event.\<close>

record 'e server_env =
  se_hash :: "'e hashers"
  se_now :: "'e \<Rightarrow> time \<times> 'e"
  se_rand :: "nat \<Rightarrow> 'e \<Rightarrow> (err + bytes) \<times> 'e"
  se_marshal :: "user_registered \<Rightarrow> err + bytes"
  se_is_ip :: "str \<Rightarrow> bool"
  se_pick :: "str list \<Rightarrow> str"
  se_order :: "(str \<times> bool) list \<Rightarrow> (str \<times> bool) list"

definition mountAuth :: "'e server_env \<Rightarrow> config \<Rightarrow> err + (auth_store, 'e) auth_world auth_module" where
  "mountAuth e cfg =
     (case New_auth (se_order e) (Get (Modules cfg) auth_Name)
         \<lparr> gd_HashSecret = Some (hs_auth (se_hash e) (hash_costs cfg)), gd_VerifySecret = Some (hs_verify (se_hash e)),
           gd_Now = Some (se_now e), gd_Rand = se_rand e \<rparr> of
        Inl x \<Rightarrow> Inl (Errorf [Lit ''auth module: '', W x])
      | Inr md \<Rightarrow> Inr md)"

record 'e assembled =
  as_outbox :: outbox_module
  as_auth :: "(auth_store, 'e) auth_world auth_module"
  as_users :: "server_rest user_module"

definition orDefault :: "str \<Rightarrow> str \<Rightarrow> str" where
  "orDefault v fallback = (if v = [] then fallback else v)"

definition driverOrDisabled :: "module_config \<Rightarrow> str" where
  "driverOrDisabled md = (if \<not> enabled md then ''disabled'' else driver md)"

definition mountRegistration :: "'e server_env \<Rightarrow> config \<Rightarrow> outbox_module \<Rightarrow> err + server_rest user_module" where
  "mountRegistration e cfg outbox =
     (case New_user (se_pick e) (se_is_ip e) (DriverOf (Modules cfg) user_Name)
         \<lparr> ud_HashPassword = Some (hashing_New (hs_user (se_hash e) (hash_costs cfg))),
           ud_PublishEvent = Some (outboxpub_New (se_marshal e) (enqueue_in outbox)),
           ud_GenerateID = Some generateUserID, ud_Now = Some SystemClock \<rparr> of
        Inl x \<Rightarrow> Inl (Errorf [Lit ''user_registration module: '', W x])
      | Inr md \<Rightarrow> Inr md)"

definition server_compose :: "'e server_env \<Rightarrow> config \<Rightarrow> bool \<Rightarrow> err + ('e assembled \<times> log_line)" where
  "server_compose e cfg pool =
     (case New_outbox (Get (Modules cfg) Name) pool of
        Inl x \<Rightarrow> Inl (Errorf [Lit ''outbox module: '', W x])
      | Inr outbox \<Rightarrow>
     (case mountAuth e cfg of
        Inl x \<Rightarrow> Inl x
      | Inr auth \<Rightarrow>
     (case mountRegistration e cfg outbox of
        Inl x \<Rightarrow> Inl x
      | Inr users \<Rightarrow>
          Inr (\<lparr> as_outbox = outbox, as_auth = auth, as_users = users \<rparr>,
            \<lparr> l_level = LevelInfo, l_text = ''modules mounted'',
              l_attrs = [(''outbox'', AString (DriverOf (Modules cfg) Name)),
                (''auth'', AString (driverOrDisabled (Get (Modules cfg) auth_Name))),
                (''user_registration'', AString (orDefault (DriverOf (Modules cfg) user_Name) user_DriverMemory))] \<rparr>))))"

section \<open>The account of a local start, and the probe\<close>

definition bootstrapAuthentication ::
    "((auth_store, 'e) auth_world \<Rightarrow> (err + str) \<times> (auth_store, 'e) auth_world) \<Rightarrow> (auth_store, 'e) auth_world auth_module \<Rightarrow>
     Environment \<Rightarrow> (auth_store, 'e) auth_world \<times> log_line list \<Rightarrow> err option \<times> (auth_store, 'e) auth_world \<times> log_line list" where
  "bootstrapAuthentication draw md env w =
     (case Bootstrap draw md env (fst w) of
        (Inl x, w1) \<Rightarrow> (Some (Errorf [Lit ''authentication bootstrap: '', W x]), w1, snd w)
      | (Inr r, w1) \<Rightarrow>
          if \<not> br_Created r then (None, w1, snd w)
          else (None, w1, snd w @ [\<lparr> l_level = LevelWarn,
            l_text = ''BOOTSTRAP ACCOUNT CREATED '' @ em_dash @ '' development only, shown a single time'',
            l_attrs = [(''sujet'', AString (br_Subject r)), (''secret'', AString (br_Secret r)),
              (''note'', AString ''lost on restart: the memory driver keeps nothing'')] \<rparr>]))"

text \<open>\<open>probes\<close>: what \<open>/readyz\<close> asks, at one call of the outbox.\<close>

definition probes :: "outbox_module \<Rightarrow> call_env \<Rightarrow> outbox_state \<Rightarrow> (str, err option) gomap" where
  "probes outbox env st =
     [(''outbox'', case m_PendingCount outbox env st of
        Inl x \<Rightarrow> Some (Errorf [Lit ''outbox unreachable: '', W x]) | Inr n \<Rightarrow> None)]"

section \<open>What a loaded configuration mounts\<close>

lemma catalogue_entries:
  "map_of all_modules Name = Some (snd (hd outbox_Catalog))" "map_of all_modules auth_Name = Some (snd (hd auth_Catalog))"
  "map_of all_modules user_Name = Some (snd (hd user_Catalog))"
  by (simp_all add: all_modules_def catalogues module_names)

lemma catalogue_drivers:
  "Default (snd (hd outbox_Catalog)) \<noteq> []" "fst ` set (Drivers (snd (hd outbox_Catalog))) = {driverMemory, driverPostgres}"
  "Default (snd (hd auth_Catalog)) \<noteq> []" "fst ` set (Drivers (snd (hd auth_Catalog))) = {auth_driverMemory}"
  "Default (snd (hd user_Catalog)) \<noteq> []" "fst ` set (Drivers (snd (hd user_Catalog))) = {user_DriverMemory}"
  by (simp_all add: catalogues driverMemory_def auth_driverMemory_def user_DriverMemory_def)

lemma resolved_entry:
  assumes "is_map m" and "validate_modules all_modules (Resolve all_modules m) = []" and "map_of all_modules name = Some ds"
    and "Default ds \<noteq> []"
  obtains x where "map_of (Resolve all_modules m) name = Some x" and "Get (Resolve all_modules m) name = x" and "driver x \<noteq> []"
    and "module_ok all_modules name x"
proof -
  note look = map_of_Resolve [OF all_modules_map assms(1), of name]
  from look assms(3) obtain x where x: "map_of (Resolve all_modules m) name = Some x"
    by (cases "map_of m name") auto
  then have "module_ok all_modules name x"
    using assms(2) by (auto simp: validate_modules_empty dest: map_of_SomeD)
  moreover have "driver x \<noteq> []"
    using look x assms(3,4) by (auto simp: DefaultDriver_def split: option.splits if_splits)
  ultimately show ?thesis using that [of x] x by (simp add: Get_def)
qed

lemma ok_driver:
  assumes "module_ok all_modules name x" and "map_of all_modules name = Some ds" and "enabled x" and "driver x \<noteq> []"
  shows "driver x \<in> fst ` set (Drivers ds)"
  using assms by (simp add: module_ok_def Let_def)

lemma mountAuth_enabled:
  assumes "driver (Get (Modules cfg) auth_Name) = auth_driverMemory"
    and "\<not> isl (DurationOption (Get (Modules cfg) auth_Name) OptionSessionTTL defaultSessionTTL)"
    and "\<And>xs. set (se_order e xs) \<subseteq> set xs"
  shows "\<not> isl (mountAuth e cfg)"
proof -
  have none: "list_all (\<lambda>p. \<not> snd p) ps \<Longrightarrow> first_missing ps = None" for ps :: "(str \<times> bool) list"
    by (induction ps rule: first_missing.induct) auto
  have "list_all (\<lambda>p. \<not> snd p) (se_order e [(a, False), (b, False), (c, False)])" for a b c
    using assms(3) [of "[(a, False), (b, False), (c, False)]"] by (auto simp: list_all_iff)
  then show ?thesis using assms(1,2)
    by (auto simp: mountAuth_def New_auth_def auth_validate_def none auth_driverMemory_def Let_def split: sum.splits)
qed


text \<open>A start over Postgres: the outbox on its database, the registration on its default driver.\<close>

definition demo_modules :: modules where
  "demo_modules = [(Name, \<lparr> enabled = True, driver = driverPostgres, options = [] \<rparr>),
     (user_Name, \<lparr> enabled = True, driver = [], options = [] \<rparr>)]"

definition demo_with :: "modules \<Rightarrow> loader" where
  "demo_with m = demo_loader\<lparr> ld_decode := (\<lambda>_. Inr (demo_config\<lparr> Modules := m \<rparr>)) \<rparr>"

definition loaded_with :: "modules \<Rightarrow> config" where
  "loaded_with m = (applyDefaults (demo_config\<lparr> Modules := m \<rparr>))\<lparr> Modules := Resolve all_modules m \<rparr>"

definition demo_start :: loader where
  "demo_start = demo_with demo_modules"

definition demo_loaded :: config where
  "demo_loaded = loaded_with demo_modules"

definition demo_net :: net where
  "demo_net = \<lparr> nt_parse = (\<lambda>_. None), nt_open = None, nt_ping = None, nt_cache_ping = None \<rparr>"

definition demo_env :: "unit server_env" where
  "demo_env = \<lparr> se_hash = \<lparr> hs_user = (\<lambda>c s w. (Inr s, w)), hs_auth = (\<lambda>c s w. (Inr s, w)), hs_verify = (\<lambda>a b. Inr (a = b)) \<rparr>,
     se_now = (\<lambda>w. (0, w)), se_rand = (\<lambda>n w. (Inr (replicate n CHR 0x00), w)), se_marshal = (\<lambda>u. Inr (ur_UserID u)),
     se_is_ip = (\<lambda>_. False), se_pick = hd, se_order = id \<rparr>"

lemma defaults_modules:
  "default_env (c\<lparr> Modules := m \<rparr>) = (default_env c)\<lparr> Modules := m \<rparr>"
  "default_migration (c\<lparr> Modules := m \<rparr>) = (default_migration c)\<lparr> Modules := m \<rparr>"
  "default_relay (c\<lparr> Modules := m \<rparr>) = (default_relay c)\<lparr> Modules := m \<rparr>"
  "default_transport (c\<lparr> Modules := m \<rparr>) = (default_transport c)\<lparr> Modules := m \<rparr>"
  "default_signals (c\<lparr> Modules := m \<rparr>) = (default_signals c)\<lparr> Modules := m \<rparr>"
  "default_locale (c\<lparr> Modules := m \<rparr>) = (default_locale c)\<lparr> Modules := m \<rparr>"
  "default_locales (c\<lparr> Modules := m \<rparr>) = (default_locales c)\<lparr> Modules := m \<rparr>"
  by (simp_all add: default_env_def default_migration_def default_relay_def default_transport_def
      default_signals_def default_locale_def default_locales_def)

lemma applyDefaults_modules: "applyDefaults (c\<lparr> Modules := m \<rparr>) = (applyDefaults c)\<lparr> Modules := m \<rparr>"
  by (simp only: applyDefaults_def defaults_modules)

lemma config_problems_modules:
  "config_problems (c\<lparr> Modules := m \<rparr>) catalog = [] \<longleftrightarrow>
     config_problems (c\<lparr> Modules := [] \<rparr>) catalog = [] \<and> validate_modules catalog m = []"
  by (auto simp: config_problems_def validateCore_empty validateHardening_empty core_ok_def hardened_ok_def validate_modules_def)

lemma demo_modules_accepted: "validate_modules all_modules (Resolve all_modules demo_modules) = []"
  by code_simp

lemma demo_with_loads:
  assumes "validate_modules all_modules (Resolve all_modules m) = []"
  shows "Load (demo_with m) all_modules = Inr (loaded_with m)"
proof -
  have "mergeLayers (demo_with m) (Dir (demo_with m)) EnvDevelopment
      = Inr [(''http'', VMap [(''port'', VInt 8080), (''host'', VString ''a'')])]"
    by code_simp
  moreover have "Getenv (demo_with m) EnvVarAppEnv = []" "expand (ld_getenv (demo_with m)) [] = Inr []"
    by (simp_all add: demo_with_def Getenv_def demo_loader_def expand_def List.map_filter_simps)
  moreover have "ld_marshal (demo_with m) x = Inr []" "ld_decode (demo_with m) t = Inr (demo_config\<lparr> Modules := m \<rparr>)" for x t
    by (simp_all add: demo_with_def demo_loader_def)
  moreover have "validate_config (loaded_with m) all_modules = None"
  proof -
    have "demo_config\<lparr> Modules := [] \<rparr> = demo_config" by (simp add: demo_config_def zero_config_def)
    then have "(applyDefaults demo_config)\<lparr> Modules := [] \<rparr> = applyDefaults demo_config"
      by (metis applyDefaults_modules)
    moreover have "config_problems (applyDefaults demo_config) all_modules = []"
      using demo_config_valid [of all_modules] by (simp add: validate_config_def Let_def split: if_splits)
    ultimately have "config_problems ((applyDefaults demo_config)\<lparr> Modules := [] \<rparr>) all_modules = []"
      by metis
    then have "config_problems ((applyDefaults demo_config)\<lparr> Modules := Resolve all_modules m \<rparr>) all_modules = []"
      by (rule iffD2 [OF config_problems_modules, OF conjI, OF _ assms])
    then show ?thesis by (simp add: validate_config_def loaded_with_def applyDefaults_modules)
  qed
  ultimately show ?thesis by (simp add: Load_def loaded_with_def applyDefaults_sel)
qed

lemma demo_start_loads: "Load demo_start all_modules = Inr demo_loaded"
  unfolding demo_start_def demo_loaded_def by (rule demo_with_loads [OF demo_modules_accepted])


end
