(* ===== verification/Worker.thy ===== *)
theory Worker
  imports Application Relay
begin

text \<open>
  The dispatcher binary (cmd/worker): what it refuses to start with, the consumer it subscribes to
  \<open>user.registered.v1\<close>, and the loop that holds both halves.
\<close>

section \<open>The published event\<close>

definition EventUserRegisteredV1 :: str where "EventUserRegisteredV1 = ''user.registered.v1''"

record user_registered_v1 =
  v1_UserID :: str
  v1_Email :: str
  v1_RegisteredAt :: time

section \<open>The welcome message\<close>

definition welcomeMessage :: "user_registered_v1 \<Rightarrow> err + notif_message" where
  "welcomeMessage ev =
     (case NewRecipient (v1_Email ev) of
        Inl e \<Rightarrow> Inl (Errorf [Lit (''recipient for '' @ EventUserRegisteredV1 @ '': ''), W e])
      | Inr recipient \<Rightarrow>
          (case NewMessage_notif ChannelEmail recipient ''Bienvenue''
              (''Votre compte a bien '' @ e_acute @ ''t'' @ e_acute @ '' cr'' @ e_acute @ e_acute
                 @ ''. Il attend la confirmation de votre adresse.'') of
             Inl e \<Rightarrow> Inl (Errorf [Lit ''welcome message: '', W e])
           | Inr message \<Rightarrow> Inr message))"

text \<open>The world of the worker: that of its dispatcher, and the store of keys of its consumers.\<close>

record app_world = worker_world +
  aw_keys :: idem_state
  aw_keys_env :: "nat \<Rightarrow> idem_env"
  aw_keys_calls :: nat

text \<open>\<open>decode\<close> is \<open>json.Unmarshal\<close> into the contract.\<close>

definition welcome_handler :: "(bytes \<Rightarrow> err + user_registered_v1) \<Rightarrow> notif_module \<Rightarrow> app_world handler" where
  "welcome_handler decode send env w =
     (case decode (env_Payload env) of
        Inl e \<Rightarrow> (Some (Errorf [Lit (''unreadable payload for '' @ env_Type env @ '': ''), W e]), w)
      | Inr ev \<Rightarrow>
          (case welcomeMessage ev of
             Inl e \<Rightarrow> (Some e, w)
           | Inr message \<Rightarrow>
               (case send message (ww_log w) of
                  (Some e, l) \<Rightarrow> (Some (Errorf [Lit ''sending the welcome email: '', W e]), w\<lparr> ww_log := l \<rparr>)
                | (None, l) \<Rightarrow> (None, w\<lparr> ww_log := l \<rparr>))))"

section \<open>The subscription\<close>

definition call_keys :: "(idem_env \<Rightarrow> idem_state \<Rightarrow> 'r \<times> idem_state) \<Rightarrow> app_world \<Rightarrow> 'r \<times> app_world" where
  "call_keys f w = (case f (aw_keys_env w (aw_keys_calls w)) (aw_keys w) of
     (r, st) \<Rightarrow> (r, w\<lparr> aw_keys := st, aw_keys_calls := aw_keys_calls w + 1 \<rparr>))"

definition guard_of :: "idem_module \<Rightarrow> app_world guard" where
  "guard_of idem =
     \<lparr> gd_Reserve = (\<lambda>rq. call_keys (\<lambda>e. im_Reserve idem e rq)),
       gd_Complete = (\<lambda>k resp. call_keys (\<lambda>e. im_Complete idem e k resp)),
       gd_Release = (\<lambda>k. call_keys (\<lambda>e. im_Release idem e k)) \<rparr>"

text \<open>\<open>WithTrace\<close> only changes the context the handler runs in, which carries no value a handler reads.\<close>

definition WithTrace :: "'w handler \<Rightarrow> 'w handler" where
  "WithTrace h env w = h env w"

definition warn_line :: "str \<Rightarrow> (str \<times> attr) list \<Rightarrow> log_line" where
  "warn_line what attrs = \<lparr> l_level = LevelWarn, l_text = what, l_attrs = attrs \<rparr>"

definition info_line :: "str \<Rightarrow> (str \<times> attr) list \<Rightarrow> log_line" where
  "info_line what attrs = \<lparr> l_level = LevelInfo, l_text = what, l_attrs = attrs \<rparr>"

text \<open>The consumers the broker knows after the call and the lines logged, or the refusal to start.\<close>

definition subscribe ::
    "(bytes \<Rightarrow> err + user_registered_v1) \<Rightarrow> modules \<Rightarrow> app_world broker \<Rightarrow> app_world inproc \<Rightarrow>
     err + (app_world inproc \<times> log_line list)" where
  "subscribe decode ms broker subs =
     (let notifCfg = Get ms notif_Name; idemCfg = Get ms idem_Name in
      if \<not> enabled notifCfg then
        Inr (subs, [warn_line (''no subscription to user.registered.v1 '' @ em_dash @ '' modules.notification is disabled'')
          [(''consequence'', AString ''the events are published and nobody reacts to them'')]])
      else if \<not> enabled idemCfg then Inl (Sentinel (Infra ErrIdempotencyRequired))
      else case New_notif notifCfg True of
        Inl e \<Rightarrow> Inl (Errorf [Lit ''notification module: '', W e])
      | Inr notif \<Rightarrow>
          (case New_idem idemCfg False False of
             Inl e \<Rightarrow> Inl (Errorf [Lit ''idempotency module: '', W e])
           | Inr idem \<Rightarrow>
               Inr (br_Subscribe broker EventUserRegisteredV1 (WithTrace (Once (guard_of idem) (welcome_handler decode notif))) subs,
                 [info_line ''subscription mounted''
                   [(''evenement'', AString EventUserRegisteredV1), (''notification'', AString (driver notifCfg)),
                    (''idempotence'', AString (driver idemCfg))]])))"

section \<open>The mounted worker\<close>

record mounted_worker =
  wk_dispatch :: "app_world dispatcher"
  wk_subs :: "app_world inproc"

text \<open>\<open>pool\<close> says whether a connection to the database was opened; \<open>new_broker\<close> is \<open>messaging.New\<close> with its
  network relays.\<close>

definition worker_compose ::
    "(bytes \<Rightarrow> err + user_registered_v1) \<Rightarrow> (messaging_config \<Rightarrow> err + app_world broker) \<Rightarrow> config \<Rightarrow> bool \<Rightarrow>
     err + (mounted_worker \<times> log_line list)" where
  "worker_compose decode new_broker cfg pool =
     (let outboxCfg = Get (Modules cfg) Name in
      if \<not> enabled outboxCfg then
        Inl (Errorf [W (Sentinel (Outbox OutboxErrDisabled)), Lit '': modules.outbox.enabled is false''])
      else case RequireSharedDriver (driver outboxCfg) of
        Some e \<Rightarrow> Inl (Errorf [Lit ''dispatcher configuration: '', W e])
      | None \<Rightarrow>
          (case new_broker (MessagingGroup cfg) of
             Inl e \<Rightarrow> Inl (Errorf [Lit ''messaging relay: '', W e])
           | Inr broker \<Rightarrow>
               (case subscribe decode (Modules cfg) broker NewInproc of
                  Inl e \<Rightarrow> Inl e
                | Inr (subs, logged) \<Rightarrow>
                    (case New_outbox outboxCfg pool of
                       Inl e \<Rightarrow> Inl (Errorf [Lit ''outbox module: '', W e])
                     | Inr md \<Rightarrow>
                         (case NewDispatcher_outbox md outboxCfg (Some (FromOutbox (br_Publish broker subs))) True of
                            Inl e \<Rightarrow> Inl (Errorf [Lit ''outbox dispatcher: '', W e])
                          | Inr d \<Rightarrow> Inr (\<lparr> wk_dispatch = d, wk_subs = subs \<rparr>, logged))))))"

text \<open>Both loops until the first one exits: \<open>dispatcher_first\<close> says which. The other then exits too.\<close>

definition worker_loop :: "bool \<Rightarrow> err option \<Rightarrow> err option \<Rightarrow> err option" where
  "worker_loop dispatcher_first dispatch consume =
     (let d = (case dispatch of Some e \<Rightarrow> Some (Errorf [Lit ''dispatcher: '', W e]) | None \<Rightarrow> None);
          c = (case consume of Some e \<Rightarrow> Some (Errorf [Lit ''event consumer: '', W e]) | None \<Rightarrow> None);
          first = (if dispatcher_first then d else c);
          second = (if dispatcher_first then c else d)
      in if first \<noteq> None then first else second)"

section \<open>What the worker starts with\<close>

text \<open>The two names the event goes by, in the module that emits it and in the contract.\<close>

lemma event_names_agree: "EventUserRegistered = EventUserRegisteredV1"
  by (simp add: EventUserRegistered_def EventUserRegisteredV1_def)

lemma New_idem_alone:
  "isl (New_idem cfg False False) \<longleftrightarrow>
     enabled cfg \<and> (driver cfg \<noteq> idem_driverMemory \<or> isl (DurationOption cfg OptionTTL defaultTTL))"
  using New_idem_without_connections [of cfg] by (auto simp: New_idem_def split: sum.split)

lemma worker_compose_shared:
  assumes "enabled (Get (Modules cfg) Name)" and drv: "driver (Get (Modules cfg) Name) = driverPostgres"
  shows "\<not> isl (worker_compose decode new_broker cfg pool) \<longleftrightarrow>
    (\<exists>broker subs. new_broker (MessagingGroup cfg) = Inr broker \<and> subscribe decode (Modules cfg) broker NewInproc = Inr subs)
    \<and> pool \<and> \<not> isl (policyFrom (Get (Modules cfg) Name))" (is "_ \<longleftrightarrow> ?mounts")
proof -
  define outboxCfg where "outboxCfg = Get (Modules cfg) Name"
  have True: "enabled outboxCfg" "driver outboxCfg = driverPostgres" using assms by (simp_all add: outboxCfg_def)
  have ok: "RequireSharedDriver (driver outboxCfg) = None" using True by (simp add: shared_driver_iff)
  have disp: "isl (NewDispatcher_outbox md outboxCfg (Some h) True) \<longleftrightarrow> isl (policyFrom outboxCfg)"
    for md and h :: "message \<Rightarrow> app_world \<Rightarrow> handled \<times> app_world"
    using policyFrom_valid [of outboxCfg] by (cases "policyFrom outboxCfg") (auto simp: NewDispatcher_outbox_def)
  have pg: "isl (New_outbox outboxCfg pool) \<longleftrightarrow> \<not> pool"
    using True by (simp add: New_outbox_def driverMemory_def driverPostgres_def)
  have "isl (worker_compose decode new_broker cfg pool) \<longleftrightarrow> \<not> ?mounts"
  proof (cases "new_broker (MessagingGroup cfg)")
    case broker: (Inr broker)
    show ?thesis
    proof (cases "subscribe decode (Modules cfg) broker NewInproc")
      case subs: (Inr subs)
      show ?thesis
      proof (cases "New_outbox outboxCfg pool")
        case md: (Inr md)
        define h where "h = FromOutbox (br_Publish broker (fst subs))"
        have "isl (worker_compose decode new_broker cfg pool) \<longleftrightarrow> isl (NewDispatcher_outbox md outboxCfg (Some h) True)"
          using True ok broker subs md
          by (cases subs) (simp add: worker_compose_def Let_def outboxCfg_def [symmetric] h_def isl_def split: sum.split)
        then show ?thesis using disp [of md h] pg True broker subs md by (auto simp: outboxCfg_def)
      qed (use True ok broker subs pg in \<open>auto simp: worker_compose_def Let_def outboxCfg_def [symmetric] split: prod.split\<close>)
    qed (use True ok broker in \<open>auto simp: worker_compose_def Let_def outboxCfg_def [symmetric]\<close>)
  qed (use True ok in \<open>auto simp: worker_compose_def Let_def outboxCfg_def [symmetric]\<close>)
  then show ?thesis by blast
qed

lemma worker_starts:
  "\<not> isl (worker_compose decode new_broker cfg pool) \<longleftrightarrow>
     (let outboxCfg = Get (Modules cfg) Name; notifCfg = Get (Modules cfg) notif_Name; idemCfg = Get (Modules cfg) idem_Name in
      enabled outboxCfg \<and> driver outboxCfg = driverPostgres \<and> pool \<and> \<not> isl (new_broker (MessagingGroup cfg))
      \<and> \<not> isl (policyFrom outboxCfg)
      \<and> (if enabled notifCfg then \<not> isl (New_notif notifCfg True) \<and> enabled idemCfg \<and> driver idemCfg = idem_driverMemory
            \<and> \<not> isl (DurationOption idemCfg OptionTTL defaultTTL)
         else True))"
proof -
  define outboxCfg where "outboxCfg = Get (Modules cfg) Name"
  define notifCfg where "notifCfg = Get (Modules cfg) notif_Name"
  define idemCfg where "idemCfg = Get (Modules cfg) idem_Name"
  have sub: "isl (subscribe decode (Modules cfg) broker subs) \<longleftrightarrow>
      enabled notifCfg \<and> (\<not> enabled idemCfg \<or> isl (New_notif notifCfg True) \<or> isl (New_idem idemCfg False False))"
    for broker :: "app_world broker" and subs
    by (auto simp: subscribe_def Let_def notifCfg_def idemCfg_def split: sum.split)
  show ?thesis
  proof (cases "enabled outboxCfg \<and> driver outboxCfg = driverPostgres")
    case False
    then show ?thesis
      by (auto simp: worker_compose_def Let_def outboxCfg_def shared_driver_iff [symmetric] split: option.split)
  next
    case True
    have mounts: "\<not> isl (worker_compose decode new_broker cfg pool) \<longleftrightarrow>
        (\<exists>broker subs. new_broker (MessagingGroup cfg) = Inr broker \<and> subscribe decode (Modules cfg) broker NewInproc = Inr subs)
        \<and> pool \<and> \<not> isl (policyFrom outboxCfg)"
      using True worker_compose_shared [of cfg] unfolding outboxCfg_def by blast
    have ex: "(\<exists>subs. subscribe decode (Modules cfg) broker NewInproc = Inr subs) \<longleftrightarrow>
        \<not> isl (subscribe decode (Modules cfg) broker NewInproc)" for broker :: "app_world broker"
      by (cases "subscribe decode (Modules cfg) broker NewInproc") auto
    have subs: "(\<exists>broker subs. new_broker (MessagingGroup cfg) = Inr broker \<and> subscribe decode (Modules cfg) broker NewInproc = Inr subs)
        \<longleftrightarrow> \<not> isl (new_broker (MessagingGroup cfg)) \<and>
          \<not> (enabled notifCfg \<and> (\<not> enabled idemCfg \<or> isl (New_notif notifCfg True) \<or> isl (New_idem idemCfg False False)))"
    proof (cases "new_broker (MessagingGroup cfg)")
      case (Inr broker)
      then show ?thesis using ex [of broker] sub [of broker NewInproc] by simp
    qed simp
    show ?thesis
      unfolding mounts subs Let_def outboxCfg_def [symmetric] notifCfg_def [symmetric] idemCfg_def [symmetric]
      using True New_idem_alone [of idemCfg] by auto
  qed
qed


section \<open>What it does with a registration\<close>

lemma welcomeMessage_Inr:
  assumes "NewRecipient (v1_Email ev) = Inr rcp"
  obtains m where "welcomeMessage ev = Inr m" and "NewMessage_notif (no_Channel m) (no_To m) (no_Subject m) (no_Body m) = Inr m"
    and "no_To m = rcp"
proof -
  have "\<not> recipient_IsZero rcp" using NewRecipient_normal [OF assms] by (auto simp: recipient_IsZero_def)
  then show ?thesis
    using assms by (intro that) (auto simp: welcomeMessage_def NewMessage_notif_def Let_def subjectMaxLen_notif_def bodyMaxLen_def
        trim_space_def is_space_def e_acute_def ChannelEmail_def)
qed

lemma New_notif_enabled:
  assumes "New_notif cfg True = Inr send" and "enabled cfg"
  obtains d where "send = NewSend d" and "d = notif_log_New \<or> d = NewIncludingBody"
  using assms by (auto simp: New_notif_def logDriver_def Let_def split: if_splits sum.splits)

lemma send_logs:
  assumes "d = notif_log_New \<or> d = NewIncludingBody" and "NewMessage_notif (no_Channel m) (no_To m) (no_Subject m) (no_Body m) = Inr m"
  obtains line where "NewSend d m l = (None, l @ [line])" and "l_text line = ''notification''"
    and "(''to'', AString (recipient_Masked (no_To m))) \<in> set (l_attrs line)"
  using assms by (auto simp: NewSend_def notif_log_New_def NewIncludingBody_def Let_def Notification.fields_def)

lemma dispatcher_handle: "NewDispatcher_outbox md cfg (Some h) logger = Inr d \<Longrightarrow> p_Handle (d_ports d) = h"
  by (auto simp: NewDispatcher_outbox_def split: sum.splits if_splits option.splits)

text \<open>The handler the dispatcher of a mounted worker runs, on the in-process relay.\<close>

lemma worker_handle:
  assumes composed: "worker_compose decode (\<lambda>mc. New_broker kafka rabbit warn debug (msg_Driver mc)) cfg pool = Inr (wk, logged)"
    and drv: "msg_Driver (MessagingGroup cfg) = ''inproc''" and notif: "enabled (Get (Modules cfg) notif_Name)"
    and ttl: "DurationOption (Get (Modules cfg) idem_Name) OptionTTL defaultTTL = Inr ttl"
  obtains d where "d = notif_log_New \<or> d = NewIncludingBody"
    and "p_Handle (d_ports (wk_dispatch wk)) =
      FromOutbox (Publish (Subscribe EventUserRegisteredV1 (Once (guard_of (fromMemory ttl)) (welcome_handler decode (NewSend d))) NewInproc) warn)"
proof -
  have starts: "\<not> isl (New_notif (Get (Modules cfg) notif_Name) True)" "enabled (Get (Modules cfg) idem_Name)"
      "driver (Get (Modules cfg) idem_Name) = idem_driverMemory" "driver (Get (Modules cfg) Name) = driverPostgres"
    using worker_starts [of decode "\<lambda>mc. New_broker kafka rabbit warn debug (msg_Driver mc)" cfg pool] composed notif
    by (auto simp: Let_def)
  then obtain send where send: "New_notif (Get (Modules cfg) notif_Name) True = Inr send"
    by (cases "New_notif (Get (Modules cfg) notif_Name) True") auto
  from New_notif_enabled [OF this notif] obtain d where d: "send = NewSend d" "d = notif_log_New \<or> d = NewIncludingBody" by blast
  have keys: "New_idem (Get (Modules cfg) idem_Name) False False = Inr (fromMemory ttl)"
    using starts ttl by (simp add: New_idem_def)
  have trace: "WithTrace h = h" for h :: "app_world handler" by (intro ext) (simp add: WithTrace_def)
  obtain md where disp: "NewDispatcher_outbox md (Get (Modules cfg) Name)
      (Some (FromOutbox (Publish (Subscribe EventUserRegisteredV1 (Once (guard_of (fromMemory ttl)) (welcome_handler decode send)) NewInproc) warn))) True
      = Inr (wk_dispatch wk)"
    using composed send keys starts notif
    by (auto simp: worker_compose_def Let_def New_broker_def drv NewInproc_broker_def subscribe_def trace
        split: if_splits option.splits sum.splits prod.splits)
  show ?thesis using that [OF d(2)] dispatcher_handle [OF disp] d(1) by simp
qed

lemma call_keys_memory:
  "call_keys (\<lambda>e. im_Reserve (fromMemory ttl) e rq) w = (case mem_Reserve ttl (ie_ctx (aw_keys_env w (aw_keys_calls w)))
       (ie_now (aw_keys_env w (aw_keys_calls w))) rq (is_memory (aw_keys w)) of (r, s) \<Rightarrow>
         (r, w\<lparr> aw_keys := (aw_keys w)\<lparr> is_memory := s \<rparr>, aw_keys_calls := aw_keys_calls w + 1 \<rparr>))"
  "call_keys (\<lambda>e. im_Complete (fromMemory ttl) e k resp) w = (case mem_Complete (ie_ctx (aw_keys_env w (aw_keys_calls w)))
       (ie_now (aw_keys_env w (aw_keys_calls w))) k resp (is_memory (aw_keys w)) of (r, s) \<Rightarrow>
         (r, w\<lparr> aw_keys := (aw_keys w)\<lparr> is_memory := s \<rparr>, aw_keys_calls := aw_keys_calls w + 1 \<rparr>))"
  by (simp_all add: call_keys_def fromMemory_def in_memory_def split: prod.split)

text \<open>A publication the bus hands to one consumer that succeeds.\<close>

lemma relayed_to_one:
  assumes "h (envelopeOf msg) w = (None, w')" and "msg_type msg = t"
  shows "FromOutbox (Publish (Subscribe t h NewInproc) warn) msg w = (Returned None, w')"
proof -
  have hs: "handlers_of (Subscribe t h NewInproc) (env_Type (envelopeOf msg)) = [h]"
    using assms(2) unfolding handlers_of_Subscribe by (simp add: handlers_of_def NewInproc_def envelopeOf_def)
  show ?thesis using assms(1) by (simp add: FromOutbox_def Publish_def hs Let_def)
qed

text \<open>The end of the chain, in the binary as it is composed: a worker on the in-process relay, with
  notifications enabled, that is handed the event of a registration whose address can be read sends one
  welcome message, logs it with the address masked and reports success; handed the same message again
  within the lifetime of its key, by whatever retry, it reports success and sends nothing.\<close>

lemma welcome_sent_once:
  assumes composed: "worker_compose decode (\<lambda>mc. New_broker kafka rabbit warn debug (msg_Driver mc)) cfg pool = Inr (wk, logged)"
    and drv: "msg_Driver (MessagingGroup cfg) = ''inproc''" and notif: "enabled (Get (Modules cfg) notif_Name)"
    and ttl: "DurationOption (Get (Modules cfg) idem_Name) OptionTTL defaultTTL = Inr ttl"
    and msg: "msg_id msg \<noteq> []" "msg_type msg = EventUserRegisteredV1" "decode (msg_payload msg) = Inr ev"
      "NewRecipient (v1_Email ev) = Inr rcp"
    and t1: "aw_keys_env w (aw_keys_calls w) = e1" "ie_ctx e1 = None"
    and t2: "aw_keys_env w (aw_keys_calls w + 1) = e2" "ie_now e2 < ie_now e1 + ttl"
    and fresh: "mem_view (is_memory (aw_keys w)) (ie_now e1) (msg_id msg) = None"
  shows "\<exists>w' line. p_Handle (d_ports (wk_dispatch wk)) msg w = (Returned None, w')
     \<and> ww_log w' = ww_log w @ [line] \<and> l_text line = ''notification''
     \<and> (''to'', AString (recipient_Masked rcp)) \<in> set (l_attrs line)
     \<and> (\<forall>w2. aw_keys w2 = aw_keys w' \<and> ie_ctx (aw_keys_env w2 (aw_keys_calls w2)) = None
           \<and> ie_now (aw_keys_env w2 (aw_keys_calls w2)) < ie_now e1 + ttl \<longrightarrow>
          (\<exists>w3. p_Handle (d_ports (wk_dispatch wk)) msg w2 = (Returned None, w3) \<and> ww_log w3 = ww_log w2 \<and> aw_keys w3 = aw_keys w2))"
proof -
  obtain d where d: "d = notif_log_New \<or> d = NewIncludingBody" and handle: "p_Handle (d_ports (wk_dispatch wk)) =
      FromOutbox (Publish (Subscribe EventUserRegisteredV1 (Once (guard_of (fromMemory ttl)) (welcome_handler decode (NewSend d))) NewInproc) warn)"
    using worker_handle [OF composed drv notif ttl] by blast
  obtain m where m: "welcomeMessage ev = Inr m" "NewMessage_notif (no_Channel m) (no_To m) (no_Subject m) (no_Body m) = Inr m" "no_To m = rcp"
    using welcomeMessage_Inr [OF msg(4)] by blast
  obtain line where line: "NewSend d m (ww_log w) = (None, ww_log w @ [line])" "l_text line = ''notification''"
      "(''to'', AString (recipient_Masked rcp)) \<in> set (l_attrs line)"
    using send_logs [OF d m(2), of "ww_log w"] m(3) by metis
  let ?env = "envelopeOf msg" and ?k = "msg_id msg"
  have env: "env_ID ?env = ?k" "env_Type ?env = EventUserRegisteredV1" "env_Payload ?env = msg_payload msg"
    using msg(2) by (simp_all add: envelopeOf_def)
  have rq: "request_of ?env = \<lparr> rq_key = ?k, rq_fingerprint = EventUserRegisteredV1 \<rparr>" "IsComplete (request_of ?env)"
    using msg(1) env by (simp_all add: request_of_def IsComplete_def EventUserRegisteredV1_def)
  let ?e = "\<lparr> fingerprint = EventUserRegisteredV1, entry_status = StatusInFlight, response = None, expiresAt = ie_now e1 + ttl \<rparr>"
  let ?s1 = "map_set ?k ?e (is_memory (aw_keys w))"
  let ?s2 = "map_set ?k (?e\<lparr> entry_status := IdemDone, response := None \<rparr>) ?s1"
  have res: "mem_Reserve ttl None (ie_now e1) (request_of ?env) (is_memory (aw_keys w)) = (Inr no_reservation, ?s1)"
    using fresh rq by (auto simp: mem_Reserve_def Let_def mem_view_def split: option.splits if_splits)
  have cmp: "mem_Complete c (ie_now e2) ?k None ?s1 = (None, ?s2)" for c
    using t2(2) by (simp add: mem_Complete_def)
  define w' where "w' = w\<lparr> aw_keys := (aw_keys w)\<lparr> is_memory := ?s2 \<rparr>, aw_keys_calls := aw_keys_calls w + 2, ww_log := ww_log w @ [line] \<rparr>"
  have once: "Once (guard_of (fromMemory ttl)) (welcome_handler decode (NewSend d)) ?env w = (None, w')"
    using msg(1,3) t1 t2(1) res cmp m(1) line(1)
    by (simp add: Once_def env guard_of_def call_keys_memory no_reservation_def welcome_handler_def w'_def)
  have again: "\<exists>w3. Once (guard_of (fromMemory ttl)) (welcome_handler decode (NewSend d)) ?env w2 = (None, w3)
      \<and> ww_log w3 = ww_log w2 \<and> aw_keys w3 = aw_keys w2"
    if "aw_keys w2 = aw_keys w'" "ie_ctx (aw_keys_env w2 (aw_keys_calls w2)) = None"
      "ie_now (aw_keys_env w2 (aw_keys_calls w2)) < ie_now e1 + ttl" for w2
  proof -
    have "mem_Reserve ttl None (ie_now (aw_keys_env w2 (aw_keys_calls w2))) (request_of ?env) ?s2
        = (Inr \<lparr> Replayed = True, Response = None \<rparr>, ?s2)"
      using that(3) rq by (simp add: mem_Reserve_def decide_def Let_def)
    then show ?thesis using that msg(1) by (simp add: Once_def env guard_of_def call_keys_memory w'_def)
  qed
  have "p_Handle (d_ports (wk_dispatch wk)) msg w = (Returned None, w')"
    unfolding handle by (rule relayed_to_one) (rule once, rule msg(2))
  moreover have "\<exists>w3. p_Handle (d_ports (wk_dispatch wk)) msg w2 = (Returned None, w3) \<and> ww_log w3 = ww_log w2 \<and> aw_keys w3 = aw_keys w2"
    if "aw_keys w2 = aw_keys w'" "ie_ctx (aw_keys_env w2 (aw_keys_calls w2)) = None"
      "ie_now (aw_keys_env w2 (aw_keys_calls w2)) < ie_now e1 + ttl" for w2
  proof -
    from again [OF that] obtain w3 where w3: "Once (guard_of (fromMemory ttl)) (welcome_handler decode (NewSend d)) ?env w2 = (None, w3)"
        "ww_log w3 = ww_log w2" "aw_keys w3 = aw_keys w2" by blast
    have "p_Handle (d_ports (wk_dispatch wk)) msg w2 = (Returned None, w3)"
      unfolding handle by (rule relayed_to_one) (rule w3(1), rule msg(2))
    then show ?thesis using w3 by blast
  qed
  ultimately show ?thesis using line by (intro exI [of _ w'] exI [of _ line]) (simp add: w'_def)
qed

definition demo_worker_config :: config where
  "demo_worker_config = demo_config\<lparr> MessagingGroup := (MessagingGroup demo_config)\<lparr> msg_Driver := ''inproc'' \<rparr>,
     Modules := [(Name, \<lparr> enabled = True, driver = driverPostgres, options = [] \<rparr>),
       (notif_Name, \<lparr> enabled = True, driver = notif_driverLog, options = [] \<rparr>),
       (idem_Name, \<lparr> enabled = True, driver = idem_driverMemory, options = [] \<rparr>)] \<rparr>"

definition no_keys :: app_world where
  "no_keys = \<lparr> ww_state = \<lparr> st_memory = new_mem_store, st_postgres = \<lparr> pg_rows = [], pg_locks = [] \<rparr> \<rparr>,
     ww_env = (\<lambda>n. \<lparr> ce_ctx = None, ce_now = 0, ce_fault = None, ce_uuid = Inr ''u'' \<rparr>), ww_calls = 0, ww_log = [],
     aw_keys = \<lparr> is_memory = [], is_postgres = [], is_redis = [] \<rparr>,
     aw_keys_env = (\<lambda>n. \<lparr> ie_ctx = None, ie_now = int n, ie_faults = (\<lambda>k. None) \<rparr>), aw_keys_calls = 0 \<rparr>"

definition ada_registered :: "bytes \<Rightarrow> err + user_registered_v1" where
  "ada_registered raw = Inr \<lparr> v1_UserID = ''u1'', v1_Email = ''ada@example.org'', v1_RegisteredAt = 0 \<rparr>"

definition no_server :: "err + app_world broker" where
  "no_server = Inl (Opaque ''connection refused'')"

lemma demo_worker_modules:
  "Get (Modules demo_worker_config) Name = \<lparr> enabled = True, driver = driverPostgres, options = [] \<rparr>"
  "Get (Modules demo_worker_config) notif_Name = \<lparr> enabled = True, driver = notif_driverLog, options = [] \<rparr>"
  "Get (Modules demo_worker_config) idem_Name = \<lparr> enabled = True, driver = idem_driverMemory, options = [] \<rparr>"
  "Get (Modules demo_worker_config) auth_Name = no_module" "Get (Modules demo_worker_config) user_Name = no_module"
  by (simp_all add: Get_def demo_worker_config_def module_names)

lemma demo_worker_composes:
  obtains wk logged where "worker_compose ada_registered (\<lambda>mc. New_broker no_server no_server (\<lambda>t w. w) (\<lambda>t w. w) (msg_Driver mc))
      demo_worker_config True = Inr (wk, logged)"
    and "msg_Driver (MessagingGroup demo_worker_config) = ''inproc''" and "enabled (Get (Modules demo_worker_config) notif_Name)"
    and "DurationOption (Get (Modules demo_worker_config) idem_Name) OptionTTL defaultTTL = Inr (24 * hour)"
proof -
  have options: "IntOption \<lparr> enabled = True, driver = drv, options = [] \<rparr> k n = Inr n"
      "DurationOption \<lparr> enabled = True, driver = drv, options = [] \<rparr> k n = Inr n"
      "StringOption \<lparr> enabled = True, driver = drv, options = [] \<rparr> k v = Inr v" for drv k n v
    by (simp_all add: IntOption_def DurationOption_def StringOption_def present_def)
  note mods = demo_worker_modules
  have drv: "msg_Driver (MessagingGroup demo_worker_config) = ''inproc''" by (simp add: demo_worker_config_def)
  have "\<not> isl (worker_compose ada_registered (\<lambda>mc. New_broker no_server no_server (\<lambda>t w. w) (\<lambda>t w. w) (msg_Driver mc)) demo_worker_config True)"
    unfolding worker_starts Let_def mods
    by (simp add: drv New_broker_def policyFrom_def New_notif_def logDriver_def options notif_driverLog_def Let_def)
  then obtain wk logged where "worker_compose ada_registered
      (\<lambda>mc. New_broker no_server no_server (\<lambda>t w. w) (\<lambda>t w. w) (msg_Driver mc)) demo_worker_config True = Inr (wk, logged)"
    by (metis isl_def sum.exhaust surj_pair sum.disc(1))
  then show ?thesis using that drv by (simp add: mods options defaultTTL_def)
qed

end
