(* ===== verification/Delivery.thy ===== *)
theory Delivery
  imports Server Worker
begin

text \<open>
  The two binaries together: a registration the server accepts, the message it leaves in the outbox they
  share, and the welcome the dispatcher sends for it.
\<close>

section \<open>An address the registration accepts, the notification accepts\<close>

text \<open>\<open>net.ParseIP\<close> accepts digits, hexadecimal letters, dots and colons only.\<close>

definition ip_text :: "str \<Rightarrow> bool" where
  "ip_text s \<longleftrightarrow> set s \<subseteq> set ''0123456789abcdefABCDEF.:''"

lemma atext_plain: "is_atext c \<Longrightarrow> c \<notin> {CHR ''@'', CHR '' '', CHR 0x09, CHR 0x0A}"
  by (auto simp: is_atext_def)

lemma domain_plain:
  assumes "dot_atom d \<or> address_literal is_ip d" and "\<And>s. is_ip s \<Longrightarrow> ip_text s"
  shows "d \<noteq> [] \<and> set d \<inter> {CHR ''@'', CHR '' '', CHR 0x09, CHR 0x0A} = {}"
proof (cases "dot_atom d")
  case True
  then show ?thesis using atext_plain by (fastforce simp: dot_atom_def list_all_iff)
next
  case False
  then have lit: "2 \<le> length d" "hd d = CHR ''[''" "last d = CHR '']''" "ip_text (butlast (tl d))"
    using assms by (auto simp: address_literal_def)
  have "d \<noteq> []" using lit(1) by auto
  then obtain c ds where d: "d = c # ds" by (meson list.exhaust)
  have "ds \<noteq> []" using lit(1) d by auto
  then have "set ds = insert (last ds) (set (butlast ds))"
    by (metis append_butlast_last_id list.simps(15) rotate1.simps(2) set_rotate1)
  then have eq: "set d = insert (CHR ''['') (insert (CHR '']'') (set (butlast (tl d))))"
    using lit(2,3) d \<open>ds \<noteq> []\<close> by simp
  have "set ''0123456789abcdefABCDEF.:'' \<inter> {CHR ''@'', CHR '' '', CHR 0x09, CHR 0x0A} = {}" by simp
  then have "set (butlast (tl d)) \<inter> {CHR ''@'', CHR '' '', CHR 0x09, CHR 0x0A} = {}"
    using lit(4) unfolding ip_text_def by blast
  then show ?thesis using \<open>d \<noteq> []\<close> unfolding eq by (simp only: Int_insert_left) simp
qed

lemma registered_address_is_a_recipient:
  assumes "NewEmail is_ip raw = Ok em" and "\<And>s. is_ip s \<Longrightarrow> ip_text s"
  shows "NewRecipient (em_value em) = Inr \<lparr> rc_value = em_value em \<rparr>"
proof -
  let ?n = "normalize raw"
  have em: "em_value em = ?n" "?n \<noteq> []" "length ?n \<le> 254" "parses_to_itself is_ip ?n"
    using assms(1) by (auto simp: NewEmail_Ok emailMaxLen_def)
  obtain l d f where c: "cut CHR ''@'' ?n = (l, d, f)" by (cases "cut CHR ''@'' ?n") auto
  have p: "f" "dot_atom l" "dot_atom d \<or> address_literal is_ip d" using em(4) by (simp_all add: parses_to_itself_def c)
  have d: "d \<noteq> []" "set d \<inter> {CHR ''@'', CHR '' '', CHR 0x09, CHR 0x0A} = {}" using domain_plain [OF p(3) assms(2)] by blast+
  have l: "l \<noteq> []" "set l \<inter> {CHR ''@'', CHR '' '', CHR 0x09, CHR 0x0A} = {}"
    using p(2) atext_plain by (fastforce simp: dot_atom_def list_all_iff)+
  have "?n = l @ CHR ''@'' # d" using c p(1) cut_found [of "CHR ''@''" ?n l d] by simp
  then have "\<not> contains_any ?n [CHR '' '', CHR 0x09, CHR 0x0A]" using d l by (auto simp: contains_any_def list_ex_iff)
  moreover have "to_lower (trim_space ?n) = ?n" using normalize_idem [of raw] by (simp only: Go_Prelude.normalize_def)
  ultimately show ?thesis using em(1-3) c p(1) d l by (simp add: NewRecipient_def recipientMaxLen_def)
qed

section \<open>What the server writes\<close>

definition server_rows :: "server_world \<Rightarrow> (str, pg_row) gomap" where
  "server_rows w = pg_rows (st_postgres (sv_outbox (rw_rest w)))"

text \<open>Hashing writes neither accounts nor messages.\<close>

definition keeps_server :: "(server_world \<Rightarrow> 'r \<times> server_world) \<Rightarrow> bool" where
  "keeps_server f \<longleftrightarrow> (\<forall>w. rw_users (snd (f w)) = rw_users w \<and> sv_outbox (rw_rest (snd (f w))) = sv_outbox (rw_rest w)
     \<and> sv_env (rw_rest (snd (f w))) = sv_env (rw_rest w))"

lemma server_composed:
  assumes "server_compose e cfg pool = Inr (srv, logged)"
    and "enabled (Get (Modules cfg) Name)" and "driver (Get (Modules cfg) Name) = driverPostgres"
  obtains outbox where "as_users srv = user_assemble (se_is_ip e) (hashing_New (hs_user (se_hash e) (hash_costs cfg)))
      (outboxpub_New (se_marshal e) (enqueue_in outbox)) generateUserID SystemClock"
    and "m_Enqueue outbox = (\<lambda>e msg. on_postgres (pg_Enqueue (ce_fault e) (ce_uuid e) (ce_now e) msg))"
proof -
  obtain outbox where o: "New_outbox (Get (Modules cfg) Name) pool = Inr outbox"
      and m: "mountRegistration e cfg outbox = Inr (as_users srv)"
    using assms(1) by (auto simp: server_compose_def split: sum.splits)
  have "m_Enqueue outbox = (\<lambda>e msg. on_postgres (pg_Enqueue (ce_fault e) (ce_uuid e) (ce_now e) msg))"
    using o assms(2,3) by (auto simp: New_outbox_def driverMemory_def driverPostgres_def split: if_splits)
  then show ?thesis using that [of outbox] m
    by (auto simp: mountRegistration_def New_user_def user_validate_def user_missing_def split: sum.splits if_splits)
qed

lemma enqueue_in_postgres:
  assumes "m_Enqueue outbox = (\<lambda>e msg. on_postgres (pg_Enqueue (ce_fault e) (ce_uuid e) (ce_now e) msg))"
    and "enqueue_in outbox msg w = (r, w')"
  shows "rw_users w' = rw_users w
     \<and> (case r of Inl e \<Rightarrow> server_rows w' = server_rows w
        | Inr i \<Rightarrow> ce_uuid (sv_env (rw_rest w) (sv_calls (rw_rest w))) = Inr i \<and> map_get (server_rows w) i = None
            \<and> (\<exists>row. server_rows w' = map_set i row (server_rows w) \<and> msg_id (r_message row) = i \<and> msg_type (r_message row) = nm_type msg
                 \<and> msg_payload (r_message row) = nm_payload msg \<and> msg_aggregate_id (r_message row) = nm_aggregate_id msg
                 \<and> msg_status (r_message row) = StatusPending))"
  using assms(2)
  by (auto simp: enqueue_in_def assms(1) on_postgres_def pg_Enqueue_def server_rows_def Let_def
      split: sum.splits option.splits if_splits)

lemma outboxpub_postgres:
  assumes "m_Enqueue outbox = (\<lambda>e msg. on_postgres (pg_Enqueue (ce_fault e) (ce_uuid e) (ce_now e) msg))"
    and "outboxpub_New marshal (enqueue_in outbox) ty ag ev w = (r, w')"
  shows "rw_users w' = rw_users w
     \<and> (case r of Err e \<Rightarrow> server_rows w' = server_rows w
        | Ok u \<Rightarrow> \<exists>raw i row. marshal ev = Inr raw \<and> map_get (server_rows w) i = None
            \<and> ce_uuid (sv_env (rw_rest w) (sv_calls (rw_rest w))) = Inr i
            \<and> server_rows w' = map_set i row (server_rows w) \<and> msg_id (r_message row) = i \<and> msg_type (r_message row) = ty
            \<and> msg_payload (r_message row) = raw \<and> msg_aggregate_id (r_message row) = ag
            \<and> msg_status (r_message row) = StatusPending)"
proof (cases "marshal ev")
  case (Inl x)
  then show ?thesis using assms(2) by (auto simp: outboxpub_New_def)
next
  case (Inr raw)
  define msg where "msg = \<lparr> nm_type = ty, nm_aggregate_id = ag, nm_payload = raw, nm_trace_parent = [], nm_headers = None \<rparr>"
  obtain q w1 where q: "enqueue_in outbox msg w = (q, w1)" by (cases "enqueue_in outbox msg w")
  note eff = enqueue_in_postgres [OF assms(1) q]
  have w1: "w' = w1" and r: "r = (case q of Inl e \<Rightarrow> r | Inr i \<Rightarrow> Ok ())" "isl q \<longleftrightarrow> (\<exists>e. r = Err e)"
    using assms(2) q Inr by (auto simp: outboxpub_New_def msg_def split: sum.splits)
  show ?thesis
  proof (cases q)
    case (Inl x)
    then show ?thesis using eff r w1 by auto
  next
    case i: (Inr i)
    then show ?thesis using eff r w1 Inr by (auto simp: msg_def)
  qed
qed

lemma keeps_server_sources: "keeps_server generateUserID" "keeps_server SystemClock"
  by (simp_all add: keeps_server_def generateUserID_def SystemClock_def Let_def split: sum.split)

lemma keeps_server_hashing:
  assumes "\<And>s. keeps_server (hash s)"
  shows "keeps_server (hashing_New hash pw)"
  using assms unfolding keeps_server_def
  by (auto simp: hashing_New_def split: prod.split sum.split) (metis snd_conv)+

lemma keeps_serverD:
  assumes "keeps_server f" and "f w = (r, w')"
  shows "rw_users w' = rw_users w" "server_rows w' = server_rows w" "sv_env (rw_rest w') = sv_env (rw_rest w)"
  using assms unfolding keeps_server_def server_rows_def by (metis snd_conv)+

text \<open>The row of one announcement.\<close>

definition announces :: "(user_registered \<Rightarrow> err + bytes) \<Rightarrow> user \<Rightarrow> message \<Rightarrow> bool" where
  "announces marshal u m \<longleftrightarrow> msg_type m = EventUserRegisteredV1 \<and> marshal (NewUserRegistered u) = Inr (msg_payload m)
     \<and> msg_aggregate_id m = us_ID u \<and> msg_status m = StatusPending"

lemma announced_row:
  assumes "server_compose e cfg pool = Inr (srv, logged)"
    and "enabled (Get (Modules cfg) Name)" and "driver (Get (Modules cfg) Name) = driverPostgres"
    and hash: "\<And>p s. keeps_server (hs_user (se_hash e) p s)"
    and run: "um_Register (as_users srv) cmd w = (r, w')"
  shows "case r of
      Ok u \<Rightarrow> NewEmail (se_is_ip e) (rc_Email cmd) = Ok (us_Email u) \<and> map_get (rw_users w) (us_Email u) = None
        \<and> rw_users w' = map_set (us_Email u) u (rw_users w)
        \<and> (\<exists>n i row. ce_uuid (sv_env (rw_rest w) n) = Inr i \<and> map_get (server_rows w) i = None
             \<and> server_rows w' = map_set i row (server_rows w) \<and> msg_id (r_message row) = i
             \<and> announces (se_marshal e) u (r_message row))
    | Err x \<Rightarrow> server_rows w' = server_rows w
        \<and> (rw_users w' = rw_users w
           \<or> (\<exists>u. map_get (rw_users w) (us_Email u) = None \<and> rw_users w' = map_set (us_Email u) u (rw_users w)))"
proof -
  define hash where "hash = hashing_New (hs_user (se_hash e) (hash_costs cfg))"
  obtain outbox where users: "as_users srv = user_assemble (se_is_ip e) hash
      (outboxpub_New (se_marshal e) (enqueue_in outbox)) generateUserID SystemClock"
    and enq: "m_Enqueue outbox = (\<lambda>e msg. on_postgres (pg_Enqueue (ce_fault e) (ce_uuid e) (ce_now e) msg))"
    using server_composed [OF assms(1-3)] unfolding hash_def by blast
  have keep: "keeps_server (hash pw)" for pw
    unfolding hash_def by (rule keeps_server_hashing) (rule assms(4))
  show ?thesis
  proof (cases "ParseRegistration (se_is_ip e) cmd")
    case (Err x)
    then show ?thesis using run by (auto simp: users Register_eq)
  next
    case p: (Ok p)
    have em: "NewEmail (se_is_ip e) (rc_Email cmd) = Ok (vr_Email p)"
      using p ParseRegistration_Ok [of "se_is_ip e" cmd "vr_Email p" "vr_Password p"] by simp
    show ?thesis
    proof (cases "map_get (rw_users w) (vr_Email p)")
      case (Some u)
      then show ?thesis using run p by (auto simp: users Register_eq)
    next
      case None
      obtain hr w0 where h: "hash (vr_Password p) w = (hr, w0)" by (cases "hash (vr_Password p) w")
      note k0 = keeps_serverD [OF keep h]
      show ?thesis
      proof (cases hr)
        case (Err x)
        then show ?thesis using run p None h k0 by (auto simp: users Register_eq)
      next
        case hOk: (Ok h0)
        obtain i w2 where i: "generateUserID w0 = (i, w2)" by (cases "generateUserID w0")
        obtain t w3 where t: "SystemClock w2 = (t, w3)" by (cases "SystemClock w2")
        note k = keeps_serverD [OF keeps_server_sources(1) i] keeps_serverD [OF keeps_server_sources(2) t]
        define u where "u = NewUser i (vr_Email p) h0 t"
        define w4 where "w4 = w3\<lparr> rw_users := map_set (vr_Email p) u (rw_users w) \<rparr>"
        have same: "server_rows w4 = server_rows w" "sv_env (rw_rest w4) = sv_env (rw_rest w)"
            "rw_users w4 = map_set (us_Email u) u (rw_users w)" and ue: "us_Email u = vr_Email p"
          using k k0 by (simp_all add: w4_def u_def server_rows_def NewUser_def)
        obtain q w5 where q: "outboxpub_New (se_marshal e) (enqueue_in outbox) EventUserRegistered (us_ID u) (NewUserRegistered u) w4 = (q, w5)"
          by (cases "outboxpub_New (se_marshal e) (enqueue_in outbox) EventUserRegistered (us_ID u) (NewUserRegistered u) w4")
        have "user_Save u (rw_users w3) = (Ok u, map_set (vr_Email p) u (rw_users w))"
          using None k k0 by (simp add: user_Save_def u_def NewUser_def)
        then have res: "(r, w') = (case q of Err x \<Rightarrow> (Err x, w5) | Ok _ \<Rightarrow> (Ok u, w5))"
          using run p None h hOk i t q by (simp add: users Register_eq u_def [symmetric] w4_def [symmetric])
        note pub = outboxpub_postgres [OF enq q, unfolded same]
        show ?thesis
        proof (cases q)
          case (Err x)
          then show ?thesis using res pub None ue by clarsimp (metis option.distinct(1))
        next
          case (Ok y)
          then show ?thesis using res pub None ue em
            by (auto simp: announces_def event_names_agree)
        qed
      qed
    qed
  qed
qed

section \<open>Ada registers\<close>

definition ada_event :: user_registered where
  "ada_event = \<lparr> ur_UserID = ''u1'', ur_Email = ''ada@example.org'', ur_RegisteredAt = 0 \<rparr>"

definition ada_env :: "unit server_env" where
  "ada_env = demo_env\<lparr> se_marshal := (\<lambda>ev. if ev = ada_event then Inr ''json'' else Inl (Opaque ''json: unsupported value'')) \<rparr>"

definition ada_command :: registration_command where
  "ada_command = \<lparr> rc_Email = '' Ada@Example.org'', rc_Password = ''correct horse'' \<rparr>"

definition empty_server :: server_world where
  "empty_server = \<lparr> rw_users = [], rw_rest =
     \<lparr> sv_outbox = \<lparr> st_memory = new_mem_store, st_postgres = \<lparr> pg_rows = [], pg_locks = [] \<rparr> \<rparr>,
       sv_env = (\<lambda>n. \<lparr> ce_ctx = None, ce_now = 0, ce_fault = None, ce_uuid = Inr ''m1'' \<rparr>), sv_calls = 0,
       sv_v7 = (\<lambda>n. Inr ''u1''), sv_v4 = (\<lambda>n. ''u1''), sv_ids = 0 \<rparr> \<rparr>"

lemma ada_registers:
  obtains srv logged u w' where "server_compose ada_env demo_worker_config True = Inr (srv, logged)"
    and "um_Register (as_users srv) ada_command empty_server = (Ok u, w')"
    and "email_Masked (us_Email u) = ''a***@example.org''"
proof -
  note mods = demo_worker_modules
  have "\<not> isl (server_compose ada_env demo_worker_config True)"
    by (simp add: server_compose_def mods New_outbox_def driverPostgres_def driverMemory_def mountAuth_def New_auth_def
        mountRegistration_def New_user_def user_validate_def user_missing_def DriverOf_def no_module_def)
  then obtain srv logged where c: "server_compose ada_env demo_worker_config True = Inr (srv, logged)"
    by (metis isl_def sum.exhaust surj_pair sum.disc(1))
  obtain outbox where users: "as_users srv = user_assemble (se_is_ip ada_env) (hashing_New (hs_user (se_hash ada_env) (hash_costs demo_worker_config)))
      (outboxpub_New (se_marshal ada_env) (enqueue_in outbox)) generateUserID SystemClock"
    and enq: "m_Enqueue outbox = (\<lambda>e msg. on_postgres (pg_Enqueue (ce_fault e) (ce_uuid e) (ce_now e) msg))"
    using server_composed [OF c] by (auto simp: mods)
  have parsed: "ParseRegistration (\<lambda>_. False) ada_command
      = Ok \<lparr> vr_Email = \<lparr> em_value = ''ada@example.org'' \<rparr>, vr_Password = \<lparr> rp_value = ''correct horse'' \<rparr> \<rparr>"
    by code_simp
  have "\<exists>u w'. um_Register (as_users srv) ada_command empty_server = (Ok u, w') \<and> us_Email u = \<lparr> em_value = ''ada@example.org'' \<rparr>"
    unfolding users Register_eq
    by (simp add: ada_env_def demo_env_def parsed empty_server_def hashing_New_def generateUserID_def SystemClock_def
        user_Save_def outboxpub_New_def NewUser_def NewUserRegistered_def ada_event_def enqueue_in_def enq on_postgres_def
        pg_Enqueue_def EventUserRegistered_def Let_def)
  moreover have "email_Masked \<lparr> em_value = ''ada@example.org'' \<rparr> = ''a***@example.org''" by code_simp
  ultimately show ?thesis using that c by metis
qed

lemma ada_world:
  "keeps_server (hs_user (se_hash ada_env) p s)" "\<not> se_is_ip ada_env s" "ce_uuid (sv_env (rw_rest empty_server) n) = Inr ''m1''"
  "se_marshal ada_env ev = Inr raw \<longleftrightarrow> ev = ada_event \<and> raw = ''json''" "server_rows empty_server = []"
  by (auto simp: ada_env_def demo_env_def keeps_server_def empty_server_def server_rows_def)

text \<open>The module is mounted whatever \<open>modules.user_registration.enabled\<close> says, and a configuration that
  never names the costs of argon2 passes the validation with costs of zero.\<close>

lemma disabled_registration_runs:
  "\<not> IsEnabled (Modules demo_worker_config) user_Name
     \<and> (\<exists>srv l u w'. server_compose ada_env demo_worker_config True = Inr (srv, l)
          \<and> um_Register (as_users srv) ada_command empty_server = (Ok u, w'))"
proof -
  obtain srv l u w' where "server_compose ada_env demo_worker_config True = Inr (srv, l)"
      "um_Register (as_users srv) ada_command empty_server = (Ok u, w')" "email_Masked (us_Email u) = ''a***@example.org''"
    by (rule ada_registers)
  then show ?thesis by (auto simp: IsEnabled_def demo_worker_modules no_module_def)
qed

lemma zero_costs_accepted:
  "validate_config (applyDefaults demo_config) all_modules = None
     \<and> hash_costs demo_config = \<lparr> ap_MemoryKiB = 0, ap_Iterations = 0, ap_Threads = 0 \<rparr>"
  using demo_config_valid by (simp add: hash_costs_def demo_config_def zero_config_def)

section \<open>The account and its announcement\<close>

text \<open>C2: Over the shared outbox, the account and its announcement. A registration the composed server
  accepts has stored one new account and added one pending message \<open>user.registered.v1\<close>, under a new
  identifier, with the identifier of the account and the JSON of its event, and changed no other row; one
  it refuses has added no message, and stored nothing but possibly the account whose announcement could
  not be written.\<close>

theorem registration_reaches_outbox:
  assumes "server_compose e cfg pool = Inr (srv, logged)"
    and "enabled (Get (Modules cfg) Name)" and "driver (Get (Modules cfg) Name) = driverPostgres"
    and "\<And>p s. keeps_server (hs_user (se_hash e) p s)"
    and "um_Register (as_users srv) cmd w = (r, w')"
  shows "case r of
      Ok u \<Rightarrow> map_get (rw_users w) (us_Email u) = None \<and> rw_users w' = map_set (us_Email u) u (rw_users w)
        \<and> (\<exists>i row. map_get (server_rows w) i = None \<and> server_rows w' = map_set i row (server_rows w)
             \<and> msg_id (r_message row) = i \<and> announces (se_marshal e) u (r_message row))
    | Err x \<Rightarrow> server_rows w' = server_rows w
        \<and> (rw_users w' = rw_users w
           \<or> (\<exists>u. map_get (rw_users w) (us_Email u) = None \<and> rw_users w' = map_set (us_Email u) u (rw_users w)))"
  using announced_row [OF assms] by (auto split: result.splits)

theorem registration_reaches_outbox_witness:
  "\<exists>srv l u w' i row. server_compose ada_env demo_worker_config True = Inr (srv, l)
     \<and> um_Register (as_users srv) ada_command empty_server = (Ok u, w')
     \<and> server_rows w' = [(i, row)] \<and> announces (se_marshal ada_env) u (r_message row)"
proof -
  obtain srv l u w' where run: "server_compose ada_env demo_worker_config True = Inr (srv, l)"
      "um_Register (as_users srv) ada_command empty_server = (Ok u, w')" "email_Masked (us_Email u) = ''a***@example.org''"
    by (rule ada_registers)
  have on: "enabled (Get (Modules demo_worker_config) Name)" "driver (Get (Modules demo_worker_config) Name) = driverPostgres"
    by (simp_all add: demo_worker_modules)
  from registration_reaches_outbox [OF run(1) on ada_world(1) run(2)]
  obtain i and row :: pg_row where "server_rows w' = map_set i row (server_rows empty_server)" "announces (se_marshal ada_env) u (r_message row)"
    unfolding result.case by (elim exE conjE) iprover
  then show ?thesis using run(1,2) unfolding ada_world AList.update.simps by iprover
qed

section \<open>From the registration to the welcome\<close>

text \<open>The account's event, as the consumer's contract reads it.\<close>

definition as_contract :: "user_registered \<Rightarrow> user_registered_v1" where
  "as_contract ev = \<lparr> v1_UserID = ur_UserID ev, v1_Email = ur_Email ev, v1_RegisteredAt = ur_RegisteredAt ev \<rparr>"

text \<open>What the dispatcher's handler does with a message it has never seen, and then with the same one again
  within the lifetime of its key.\<close>

definition welcomes_once :: "app_world dispatcher \<Rightarrow> duration \<Rightarrow> message \<Rightarrow> str \<Rightarrow> bool" where
  "welcomes_once d ttl m address \<longleftrightarrow>
     (\<forall>ww e1 e2. aw_keys_env ww (aw_keys_calls ww) = e1 \<and> ie_ctx e1 = None
           \<and> aw_keys_env ww (aw_keys_calls ww + 1) = e2 \<and> ie_now e2 < ie_now e1 + ttl
           \<and> mem_view (is_memory (aw_keys ww)) (ie_now e1) (msg_id m) = None \<longrightarrow>
         (\<exists>ww' line. p_Handle (d_ports d) m ww = (Returned None, ww')
           \<and> ww_log ww' = ww_log ww @ [line] \<and> l_text line = ''notification''
           \<and> (''to'', AString address) \<in> set (l_attrs line)
           \<and> (\<forall>w2. aw_keys w2 = aw_keys ww' \<and> ie_ctx (aw_keys_env w2 (aw_keys_calls w2)) = None
                \<and> ie_now (aw_keys_env w2 (aw_keys_calls w2)) < ie_now e1 + ttl \<longrightarrow>
              (\<exists>w3. p_Handle (d_ports d) m w2 = (Returned None, w3)
                \<and> ww_log w3 = ww_log w2 \<and> aw_keys w3 = aw_keys w2))))"

text \<open>C1: A registration is welcomed, once. Take one configuration, with an in-process relay and
  notifications enabled, that both binaries start with. The message that a successful registration leaves
  in the outbox is one the dispatcher's handler accepts: the first time it is handed over, on a store of
  keys that does not know it, the handler reports success and logs exactly one notification, to the
  registered address, masked; every later hand-over within the lifetime of the key reports success and
  logs nothing.\<close>

theorem registration_is_welcomed:
  assumes server: "server_compose e cfg pool = Inr (srv, l1)"
    and worker: "worker_compose decode (\<lambda>mc. New_broker kafka rabbit warn debug (msg_Driver mc)) cfg pool2 = Inr (wk, l2)"
    and drv: "msg_Driver (MessagingGroup cfg) = ''inproc''" and notif: "enabled (Get (Modules cfg) notif_Name)"
    and ttl: "DurationOption (Get (Modules cfg) idem_Name) OptionTTL defaultTTL = Inr ttl"
    and hash: "\<And>p s. keeps_server (hs_user (se_hash e) p s)" and ip: "\<And>s. se_is_ip e s \<Longrightarrow> ip_text s"
    and uuid: "\<And>n i. ce_uuid (sv_env (rw_rest w) n) = Inr i \<Longrightarrow> i \<noteq> []"
    and json: "\<And>ev raw. se_marshal e ev = Inr raw \<Longrightarrow> decode raw = Inr (as_contract ev)"
    and run: "um_Register (as_users srv) cmd w = (Ok u, w')"
  shows "\<exists>i row. map_get (server_rows w) i = None \<and> server_rows w' = map_set i row (server_rows w)
     \<and> welcomes_once (wk_dispatch wk) ttl (r_message row) (email_Masked (us_Email u))"
proof -
  have on: "enabled (Get (Modules cfg) Name)" "driver (Get (Modules cfg) Name) = driverPostgres"
    using worker_starts [of decode "\<lambda>mc. New_broker kafka rabbit warn debug (msg_Driver mc)" cfg pool2] worker
    by (simp_all add: Let_def)
  from announced_row [OF server on hash run] obtain n i row
    where em: "NewEmail (se_is_ip e) (rc_Email cmd) = Ok (us_Email u)" and i: "ce_uuid (sv_env (rw_rest w) n) = Inr i"
      and row: "map_get (server_rows w) i = None" "server_rows w' = map_set i row (server_rows w)" "msg_id (r_message row) = i"
      and ann: "announces (se_marshal e) u (r_message row)" by auto
  have msg: "msg_id (r_message row) \<noteq> []" "msg_type (r_message row) = EventUserRegisteredV1"
      "decode (msg_payload (r_message row)) = Inr (as_contract (NewUserRegistered u))"
    using uuid [OF i] row(3) ann json by (auto simp: announces_def)
  have rcp: "NewRecipient (v1_Email (as_contract (NewUserRegistered u))) = Inr \<lparr> rc_value = em_value (us_Email u) \<rparr>"
    using registered_address_is_a_recipient [OF em ip] by (simp add: as_contract_def NewUserRegistered_def)
  have masked: "recipient_Masked \<lparr> rc_value = em_value (us_Email u) \<rparr> = email_Masked (us_Email u)"
    by (simp add: recipient_Masked_def email_Masked_def)
  note once = welcome_sent_once [OF worker drv notif ttl msg rcp, unfolded masked]
  have "welcomes_once (wk_dispatch wk) ttl (r_message row) (email_Masked (us_Email u))"
    unfolding welcomes_once_def by (intro allI impI, elim conjE) (rule once)
  then show ?thesis using row(1,2) by blast
qed

theorem registration_is_welcomed_witness:
  "\<exists>srv l1 wk l2 u w' m ww' line. server_compose ada_env demo_worker_config True = Inr (srv, l1)
     \<and> worker_compose ada_registered (\<lambda>mc. New_broker no_server no_server (\<lambda>t w. w) (\<lambda>t w. w) (msg_Driver mc)) demo_worker_config True = Inr (wk, l2)
     \<and> um_Register (as_users srv) ada_command empty_server = (Ok u, w')
     \<and> p_Handle (d_ports (wk_dispatch wk)) m no_keys = (Returned None, ww')
     \<and> ww_log ww' = [line] \<and> (''to'', AString ''a***@example.org'') \<in> set (l_attrs line)"
proof -
  obtain srv l1 u w' where run: "server_compose ada_env demo_worker_config True = Inr (srv, l1)"
      "um_Register (as_users srv) ada_command empty_server = (Ok u, w')" "email_Masked (us_Email u) = ''a***@example.org''"
    by (rule ada_registers)
  obtain wk l2 where wk: "worker_compose ada_registered (\<lambda>mc. New_broker no_server no_server (\<lambda>t w. w) (\<lambda>t w. w) (msg_Driver mc))
      demo_worker_config True = Inr (wk, l2)" and cfg: "msg_Driver (MessagingGroup demo_worker_config) = ''inproc''"
      "enabled (Get (Modules demo_worker_config) notif_Name)"
      "DurationOption (Get (Modules demo_worker_config) idem_Name) OptionTTL defaultTTL = Inr (24 * hour)"
    by (rule demo_worker_composes)
  have ip: "ip_text s" if "se_is_ip ada_env s" for s using that ada_world(2) by simp
  have uuid: "i \<noteq> []" if "ce_uuid (sv_env (rw_rest empty_server) n) = Inr i" for n i using that ada_world(3) by auto
  have json: "ada_registered raw = Inr (as_contract ev)" if "se_marshal ada_env ev = Inr raw" for ev raw
    using that unfolding ada_world by (simp add: ada_registered_def as_contract_def ada_event_def)
  have fresh: "ie_ctx (aw_keys_env no_keys (aw_keys_calls no_keys)) = None"
      "ie_now (aw_keys_env no_keys (aw_keys_calls no_keys + 1)) < ie_now (aw_keys_env no_keys (aw_keys_calls no_keys)) + 24 * hour"
      "mem_view (is_memory (aw_keys no_keys)) (ie_now (aw_keys_env no_keys (aw_keys_calls no_keys))) i = None" "ww_log no_keys = []" for i
    by (simp_all add: no_keys_def mem_view_def hour_def)
  show ?thesis
  proof (rule exE [OF registration_is_welcomed [OF run(1) wk cfg ada_world(1) _ _ _ run(2)]], goal_cases)
    case (4 i)
    then obtain row :: pg_row where "welcomes_once (wk_dispatch wk) (24 * hour) (r_message row) ''a***@example.org''"
      unfolding run(3) by (elim exE conjE) (rule that)
    then obtain ww' line where "p_Handle (d_ports (wk_dispatch wk)) (r_message row) no_keys = (Returned None, ww')"
        "ww_log ww' = ww_log no_keys @ [line]" "(''to'', AString ''a***@example.org'') \<in> set (l_attrs line)"
      using fresh(1-3) unfolding welcomes_once_def by blast
    then show ?case using run(1,2) wk unfolding fresh(4) append_Nil by blast
  qed (use ip uuid json in auto)
qed

end
