(* ===== verification/Telemetry.thy ===== *)
theory Telemetry
  imports Config_Core Logging
begin

text \<open>
  The logger and the providers of a process (internal/infrastructure/telemetry/telemetry.go). What the
  libraries of OpenTelemetry answer is an argument; the state is which providers are installed.
\<close>

section \<open>The logger\<close>

datatype log_format = TextFormat | JSONFormat

text \<open>What \<open>slog\<close> is built with: \<open>HandlerOptions\<close>, the handler and the attributes of every line.\<close>

record logger_setup =
  lg_Level :: level
  lg_AddSource :: bool
  lg_Format :: log_format
  lg_With :: "(str \<times> attr) list"

definition parseLevel :: "str \<Rightarrow> level" where
  "parseLevel raw =
     (let l = to_lower raw in
      if l = ''debug'' then LevelDebug
      else if l = ''warn'' \<or> l = ''warning'' then LevelWarn
      else if l = ''error'' then LevelError
      else LevelInfo)"

definition newLoggerTo :: "config \<Rightarrow> logger_setup" where
  "newLoggerTo cfg =
     (let level = parseLevel (t_LogLevel (Telemetry cfg)) in
      \<lparr> lg_Level = level, lg_AddSource = (level = LevelDebug),
        lg_Format = (if t_LogFormat (Telemetry cfg) = ''json'' \<or> \<not> IsDevelopment (app_Env (App cfg)) then JSONFormat else TextFormat),
        lg_With = [(''service'', AString (app_Name (App cfg))), (''env'', AString (app_Env (App cfg))),
          (''version'', AString (app_Version (App cfg)))] \<rparr>)"

text \<open>The span of the context a line is logged in: a trace and a span, when there is a valid one.\<close>

type_synonym span_context = "(str \<times> str) option"

definition trace_Handle :: "span_context \<Rightarrow> log_line \<Rightarrow> log_line" where
  "trace_Handle sc line =
     (case sc of
        Some (trace, sid) \<Rightarrow> line\<lparr> l_attrs := l_attrs line @ [(''trace_id'', AString trace), (''span_id'', AString sid)] \<rparr>
      | None \<Rightarrow> line)"

primrec severity :: "level \<Rightarrow> nat" where
  "severity LevelDebug = 0"
| "severity LevelInfo = 1"
| "severity LevelWarn = 2"
| "severity LevelError = 3"

text \<open>One call of the logger: \<open>traceHandler.Enabled\<close> asks the inner handler, which keeps the lines at its
  level and above; \<open>WithAttrs\<close> has put the attributes of the process before those of the line.\<close>

definition log_to :: "logger_setup \<Rightarrow> span_context \<Rightarrow> log_line \<Rightarrow> log_line list \<Rightarrow> log_line list" where
  "log_to lg sc line out =
     (if severity (lg_Level lg) \<le> severity (l_level line)
      then out @ [(trace_Handle sc line)\<lparr> l_attrs := lg_With lg @ l_attrs (trace_Handle sc line) \<rparr>] else out)"

section \<open>The providers\<close>

record providers =
  pv_Tracer :: bool
  pv_Meter :: bool

definition no_providers :: providers where
  "no_providers = \<lparr> pv_Tracer = False, pv_Meter = False \<rparr>"

text \<open>What \<open>resource.New\<close>, \<open>otlptracegrpc.New\<close> and \<open>prometheus.New\<close> report, and then the two shutdowns.\<close>

record otel_net =
  on_resource :: "err option"
  on_traces :: "err option"
  on_metrics :: "err option"
  on_stop_tracer :: "err option"
  on_stop_meter :: "err option"

datatype shutdown = Inert | Flush

definition Setup :: "otel_net \<Rightarrow> config \<Rightarrow> providers \<Rightarrow> (err + shutdown) \<times> providers" where
  "Setup n cfg pv =
     (if \<not> t_Enabled (Telemetry cfg) then (Inr Inert, pv)
      else case on_resource n of
        Some e \<Rightarrow> (Inl (Errorf [Lit ''OpenTelemetry resource: '', W e]), pv)
      | None \<Rightarrow>
     (case on_traces n of
        Some e \<Rightarrow> (Inl (Errorf [Lit ''trace exporter: '', W e]), pv)
      | None \<Rightarrow>
     (case on_metrics n of
        Some e \<Rightarrow> (Inl (Errorf [Lit ''prometheus exporter: '', W e]), pv\<lparr> pv_Tracer := True \<rparr>)
      | None \<Rightarrow> (Inr Flush, pv\<lparr> pv_Tracer := True, pv_Meter := True \<rparr>))))"

definition run_shutdown :: "otel_net \<Rightarrow> shutdown \<Rightarrow> providers \<Rightarrow> err option \<times> providers" where
  "run_shutdown n sd pv =
     (case sd of
        Inert \<Rightarrow> (None, pv)
      | Flush \<Rightarrow>
          (case join_errors [on_stop_tracer n, on_stop_meter n] of
             Some e \<Rightarrow> (Some (Errorf [Lit ''telemetry shutdown: '', W e]), no_providers)
           | None \<Rightarrow> (None, no_providers)))"

section \<open>What a process can count on\<close>

text \<open>Outside development a line is JSON whatever the configuration asks for, and an unknown level hides no
  warning.\<close>

lemma newLoggerTo_hardened:
  "\<not> IsDevelopment (app_Env (App cfg)) \<Longrightarrow> lg_Format (newLoggerTo cfg) = JSONFormat"
  by (simp add: newLoggerTo_def Let_def)

lemma parseLevel_keeps_errors: "severity (parseLevel raw) \<le> severity LevelError"
  by (simp add: parseLevel_def Let_def)

lemma log_to_keeps: "\<exists>new. log_to lg sc line out = out @ new \<and> (\<forall>l \<in> set new. l_text l = l_text line \<and> set (lg_With lg) \<subseteq> set (l_attrs l))"
  by (auto simp: log_to_def trace_Handle_def split: option.split)

text \<open>Both shutdowns are attempted: the error tells of each that failed, and there is none when neither did.\<close>

lemma shutdown_tells:
  "run_shutdown n Flush pv = (r, pv') \<Longrightarrow>
     pv' = no_providers \<and> (r = None \<longleftrightarrow> on_stop_tracer n = None \<and> on_stop_meter n = None)
     \<and> (\<forall>e s. r = Some e \<and> (\<exists>c \<in> {on_stop_tracer n, on_stop_meter n}. \<exists>x. c = Some x \<and> errors_is x s) \<longrightarrow> errors_is e s)"
  by (auto simp: run_shutdown_def join_errors_def List.map_filter_simps split: option.splits if_splits)

lemma Setup_disabled: "\<not> t_Enabled (Telemetry cfg) \<Longrightarrow> Setup n cfg pv = (Inr Inert, pv)"
  by (simp add: Setup_def)

text \<open>A start that fails on the metric exporter leaves the tracer provider it has installed.\<close>

lemma failed_Setup_leaves_tracer:
  "t_Enabled (Telemetry cfg) \<Longrightarrow> on_resource n = None \<Longrightarrow> on_traces n = None \<Longrightarrow> on_metrics n = Some e \<Longrightarrow>
     isl (fst (Setup n cfg no_providers)) \<and> pv_Tracer (snd (Setup n cfg no_providers))"
  by (simp add: Setup_def)

end
