(* ===== verification/Process.thy ===== *)
theory Process
  imports Delivery Telemetry
begin

text \<open>
  The life of the two server processes (main.go and observabilite.go of cmd/server and cmd/worker,
  \<open>Server\<close> of internal/infrastructure/httpserver/httpserver.go): the steps of a start, each of which may
  fail, and what is released when the process ends, on whichever path.
\<close>

section \<open>The listening server\<close>

record http_server =
  hsv_Addr :: str
  hsv_ReadHeaderTimeout :: duration
  hsv_ReadTimeout :: duration
  hsv_WriteTimeout :: duration
  hsv_IdleTimeout :: duration
  hsv_Grace :: duration

definition http_New :: "config \<Rightarrow> http_server" where
  "http_New cfg = \<lparr> hsv_Addr = Addr (HTTP cfg), hsv_ReadHeaderTimeout = h_ReadTimeout (HTTP cfg),
     hsv_ReadTimeout = h_ReadTimeout (HTTP cfg), hsv_WriteTimeout = h_WriteTimeout (HTTP cfg),
     hsv_IdleTimeout = h_IdleTimeout (HTTP cfg), hsv_Grace = h_ShutdownTimeout (HTTP cfg) \<rparr>"

definition NewMetricsServer :: "int \<Rightarrow> http_server" where
  "NewMetricsServer port = \<lparr> hsv_Addr = ''127.0.0.1:'' @ show_int port, hsv_ReadHeaderTimeout = 5 * second,
     hsv_ReadTimeout = 0, hsv_WriteTimeout = 0, hsv_IdleTimeout = 0, hsv_Grace = 5 * second \<rparr>"

text \<open>How the listening ends: \<open>ListenAndServe\<close> returned first, by \<open>ErrServerClosed\<close> or another error, or the
  context was done and \<open>Shutdown\<close> reported.\<close>

datatype listen_end = ServerClosed | ListenFailed err | ContextDone "err option"

definition http_shutdown :: "http_server \<Rightarrow> err option \<Rightarrow> log_line list \<Rightarrow> err option \<times> log_line list" where
  "http_shutdown s r out =
     (let out1 = out @ [info_line ''shutting down the HTTP server'' [(''grace'', ADuration (hsv_Grace s))]]
      in case r of Some e \<Rightarrow> (Some (Errorf [Lit ''HTTP server shutdown: '', W e]), out1) | None \<Rightarrow> (None, out1))"

definition http_Run :: "http_server \<Rightarrow> listen_end \<Rightarrow> log_line list \<Rightarrow> err option \<times> log_line list" where
  "http_Run s end out =
     (let out1 = out @ [info_line ''HTTP server listening'' [(''addr'', AString (hsv_Addr s))]] in
      case end of
        ServerClosed \<Rightarrow> (None, out1)
      | ListenFailed e \<Rightarrow> (Some (Errorf [Lit ''HTTP server: '', W e]), out1)
      | ContextDone r \<Rightarrow> http_shutdown s r out1)"

section \<open>Observability\<close>

record process =
  pr_handles :: "handle list"
  pr_providers :: providers
  pr_relays :: nat
  pr_out :: "log_line list"

definition startObservability :: "otel_net \<Rightarrow> config \<Rightarrow> process \<Rightarrow> (err + shutdown) \<times> process" where
  "startObservability n cfg p =
     (case Setup n cfg (pr_providers p) of
        (Inl e, pv) \<Rightarrow> (Inl (Errorf [Lit ''telemetry: '', W e]), p\<lparr> pr_providers := pv \<rparr>)
      | (Inr sd, pv) \<Rightarrow> (Inr sd, p\<lparr> pr_providers := pv \<rparr>))"

definition error_line :: "str \<Rightarrow> (str \<times> attr) list \<Rightarrow> log_line" where
  "error_line what attrs = \<lparr> l_level = LevelError, l_text = what, l_attrs = attrs \<rparr>"

definition stopObservability :: "otel_net \<Rightarrow> shutdown \<Rightarrow> process \<Rightarrow> process" where
  "stopObservability n sd p =
     (case run_shutdown n sd (pr_providers p) of
        (Some e, pv) \<Rightarrow> p\<lparr> pr_providers := pv, pr_out := pr_out p @ [error_line ''telemetry shutdown'' [(''erreur'', AString (err_text e))]] \<rparr>
      | (None, pv) \<Rightarrow> p\<lparr> pr_providers := pv \<rparr>)"

text \<open>Whether the end of the metrics server cancels the service. \<open>subject\<close> is the word the binary uses of
  itself.\<close>

definition serveMetrics :: "str \<Rightarrow> config \<Rightarrow> listen_end \<Rightarrow> process \<Rightarrow> bool \<times> process" where
  "serveMetrics subject cfg end p =
     (if \<not> t_Enabled (Telemetry cfg) then (False, p)
      else case http_Run (NewMetricsServer (t_MetricsPort (Telemetry cfg))) end (pr_out p) of
        (None, out) \<Rightarrow> (False, p\<lparr> pr_out := out \<rparr>)
      | (Some e, out) \<Rightarrow>
          (let fields = [(''port'', AInt (t_MetricsPort (Telemetry cfg))), (''erreur'', AString (err_text e))] in
           if IsLocal (app_Env (App cfg)) then
             (False, p\<lparr> pr_out := out @ [warn_line (''metrics unavailable '' @ em_dash @ '' the '' @ subject @ '' continues (development)'') fields] \<rparr>)
           else (True, p\<lparr> pr_out := out @ [error_line (''metrics server '' @ em_dash @ '' stopping the '' @ subject) fields] \<rparr>)))"

section \<open>The server\<close>

text \<open>What a run of the process meets: the files, the network, the libraries, the random source of the
  bootstrap and how the two listeners end. \<open>ru_listen\<close> takes whether the metrics cancelled the service.\<close>

record 'e server_events =
  ru_loader :: loader
  ru_net :: net
  ru_otel :: otel_net
  ru_env :: "'e server_env"
  ru_draw :: "(auth_store, 'e) auth_world \<Rightarrow> (err + str) \<times> (auth_store, 'e) auth_world"
  ru_metrics :: listen_end
  ru_listen :: "bool \<Rightarrow> listen_end"

type_synonym 'e running = "process \<times> (auth_store, 'e) auth_world"

definition surfaces_mounted :: log_line where
  "surfaces_mounted = info_line ''surfaces mounted'' [(''docs'', AString ''/docs''),
     (''openapi'', AString (''/openapi.json '' @ [CHR 0xC2, CHR 0xB7] @ '' /openapi.yaml''))]"

definition server_serve :: "'e server_events \<Rightarrow> config \<Rightarrow> bool \<Rightarrow> bool \<Rightarrow> 'e running \<Rightarrow> err option \<times> 'e running" where
  "server_serve ru cfg pool cancelled w =
     (case server_compose (ru_env ru) cfg pool of
        Inl x \<Rightarrow> (Some x, w)
      | Inr (mods, line) \<Rightarrow>
          (case bootstrapAuthentication (ru_draw ru) (as_auth mods) (app_Env (App cfg)) (snd w, pr_out (fst w) @ [line]) of
             (Some x, aw, out) \<Rightarrow> (Some x, (fst w)\<lparr> pr_out := out \<rparr>, aw)
           | (None, aw, out) \<Rightarrow>
               (case http_Run (http_New cfg) (ru_listen ru cancelled) (out @ [surfaces_mounted]) of
                  (Some e, out1) \<Rightarrow> (Some (Errorf [Lit ''HTTP server: '', W e]), (fst w)\<lparr> pr_out := out1 \<rparr>, aw)
                | (None, out1) \<Rightarrow> (None, (fst w)\<lparr> pr_out := out1 \<rparr>, aw))))"

text \<open>The three values the build burns in.\<close>

definition build_attrs :: "str \<times> str \<times> str \<Rightarrow> (str \<times> attr) list" where
  "build_attrs b = (case b of (ver, sha, date) \<Rightarrow>
     [(''version'', AString ver), (''commit'', AString sha), (''build_date'', AString date)])"

text \<open>After the connections are asked for: the surfaces, and what is closed behind them.\<close>

definition server_connected :: "'e server_events \<Rightarrow> config \<Rightarrow> module_catalog \<Rightarrow> bool \<Rightarrow> 'e running \<Rightarrow> err option \<times> 'e running" where
  "server_connected ru cfg catalog cancelled w =
     (case Open (ru_net ru) cfg catalog (pr_handles (fst w)) of
        (Inl x, hs) \<Rightarrow> (Some (Errorf [Lit ''opening the connections: '', W x]), (fst w)\<lparr> pr_handles := hs \<rparr>, snd w)
      | (Inr c, hs) \<Rightarrow>
          (case server_serve ru cfg (cn_Pool c) cancelled ((fst w)\<lparr> pr_handles := hs \<rparr>, snd w) of
             (r, p, aw) \<Rightarrow> (r, p\<lparr> pr_handles := Close_connections c (pr_handles p) \<rparr>, aw)))"

definition server_run :: "str \<times> str \<times> str \<Rightarrow> 'e server_events \<Rightarrow> 'e running \<Rightarrow> err option \<times> 'e running" where
  "server_run build ru w =
     (case moduleCatalog of
        Inl x \<Rightarrow> (Some (Errorf [Lit ''module catalogue: '', W x]), w)
      | Inr catalog \<Rightarrow>
     (case Load (ru_loader ru) catalog of
        Inl x \<Rightarrow> (Some (Errorf [Lit ''configuration: '', W x]), w)
      | Inr cfg \<Rightarrow>
     (case startObservability (ru_otel ru) cfg (fst w) of
        (Inl x, p) \<Rightarrow> (Some x, p, snd w)
      | (Inr sd, p) \<Rightarrow>
     (case serveMetrics ''service'' cfg (ru_metrics ru) p of
        (cancelled, p1) \<Rightarrow>
     (case server_connected ru cfg catalog cancelled
         (p1\<lparr> pr_out := pr_out p1 @ [info_line ''starting''
            ((''service'', AString (app_Name (App cfg))) # (''env'', AString (app_Env (App cfg))) # build_attrs build)] \<rparr>, snd w) of
        (r, p2, aw) \<Rightarrow> (r, stopObservability (ru_otel ru) sd p2, aw))))))"

text \<open>What the shell sees: the exit code and the line on the standard error.\<close>

definition exit_status :: "err option \<Rightarrow> nat \<times> str" where
  "exit_status r = (case r of None \<Rightarrow> (0, []) | Some e \<Rightarrow> (1, ''cannot start: '' @ err_text e))"

section \<open>The dispatcher\<close>

record worker_events =
  wu_loader :: loader
  wu_net :: net
  wu_otel :: otel_net
  wu_decode :: "bytes \<Rightarrow> err + user_registered_v1"
  wu_broker :: "messaging_config \<Rightarrow> err + app_world broker"
  wu_close :: "err option"
  wu_metrics :: listen_end
  wu_dispatcher_first :: bool
  wu_dispatch :: "err option"
  wu_consume :: "err option"

text \<open>The relays \<open>compose\<close> has opened: the one \<open>messaging.New\<close> returned, if the composition got that far.\<close>

definition relays_opened :: "(messaging_config \<Rightarrow> err + app_world broker) \<Rightarrow> config \<Rightarrow> nat" where
  "relays_opened new_broker cfg =
     (if enabled (Get (Modules cfg) Name) \<and> RequireSharedDriver (driver (Get (Modules cfg) Name)) = None
         \<and> \<not> isl (new_broker (MessagingGroup cfg)) then 1 else 0)"

definition closeBroker :: "err option \<Rightarrow> process \<Rightarrow> process" where
  "closeBroker r p =
     p\<lparr> pr_relays := pr_relays p - 1,
        pr_out := pr_out p @ (case r of None \<Rightarrow> [] | Some e \<Rightarrow> [error_line ''closing the relay failed'' [(''error'', AString (err_text e))]]) \<rparr>"

definition worker_mounted :: "worker_events \<Rightarrow> config \<Rightarrow> bool \<Rightarrow> process \<Rightarrow> err option \<times> process" where
  "worker_mounted wu cfg pool p =
     (let p1 = p\<lparr> pr_relays := pr_relays p + relays_opened (wu_broker wu) cfg \<rparr> in
      case worker_compose (wu_decode wu) (wu_broker wu) cfg pool of
        Inl x \<Rightarrow> (Some x, p1)
      | Inr (wk, lines) \<Rightarrow>
          (let p2 = p1\<lparr> pr_out := pr_out p1 @ lines @ [info_line ''dispatching in progress''
                 [(''outbox_driver'', AString (driver (Get (Modules cfg) Name))), (''relais'', AString (msg_Driver (MessagingGroup cfg)))]] \<rparr> in
           case worker_loop (wu_dispatcher_first wu) (wu_dispatch wu) (wu_consume wu) of
             Some e \<Rightarrow> (Some e, closeBroker (wu_close wu) p2)
           | None \<Rightarrow> (None, closeBroker (wu_close wu) (p2\<lparr> pr_out := pr_out p2 @ [info_line ''dispatcher stopped gracefully'' []] \<rparr>))))"

definition runDispatcher :: "worker_events \<Rightarrow> config \<Rightarrow> module_catalog \<Rightarrow> process \<Rightarrow> err option \<times> process" where
  "runDispatcher wu cfg catalog p =
     (case Open (wu_net wu) cfg catalog (pr_handles p) of
        (Inl x, hs) \<Rightarrow> (Some (Errorf [Lit ''opening the connections: '', W x]), p\<lparr> pr_handles := hs \<rparr>)
      | (Inr c, hs) \<Rightarrow>
          (case worker_mounted wu cfg (cn_Pool c) (p\<lparr> pr_handles := hs \<rparr>) of
             (r, p1) \<Rightarrow> (r, p1\<lparr> pr_handles := Close_connections c (pr_handles p1) \<rparr>)))"

definition worker_run :: "str \<times> str \<times> str \<Rightarrow> worker_events \<Rightarrow> process \<Rightarrow> err option \<times> process" where
  "worker_run build wu p =
     (case moduleCatalog of
        Inl x \<Rightarrow> (Some (Errorf [Lit ''module catalogue: '', W x]), p)
      | Inr catalog \<Rightarrow>
     (case Load (wu_loader wu) catalog of
        Inl x \<Rightarrow> (Some (Errorf [Lit ''configuration: '', W x]), p)
      | Inr cfg \<Rightarrow>
     (case startObservability (wu_otel wu) cfg p of
        (Inl x, p1) \<Rightarrow> (Some x, p1)
      | (Inr sd, p1) \<Rightarrow>
     (case serveMetrics ''dispatcher'' cfg (wu_metrics wu) p1 of
        (cancelled, p2) \<Rightarrow>
     (case runDispatcher wu cfg catalog (p2\<lparr> pr_out := pr_out p2 @ [info_line ''dispatcher starting'' (build_attrs build)] \<rparr>) of
        (r, p3) \<Rightarrow> (r, stopObservability (wu_otel wu) sd p3))))))"

section \<open>What is left when a process ends\<close>

text \<open>The steps that touch neither connections, nor relays, nor providers.\<close>

lemma serveMetrics_keeps:
  "serveMetrics subject cfg end p = (b, p') \<Longrightarrow>
     pr_handles p' = pr_handles p \<and> pr_relays p' = pr_relays p \<and> pr_providers p' = pr_providers p"
  by (auto simp: serveMetrics_def Let_def split: if_splits prod.splits option.splits)

lemma server_serve_keeps:
  "server_serve ru cfg pool b (p, aw) = (r, p', aw') \<Longrightarrow>
     pr_handles p' = pr_handles p \<and> pr_relays p' = pr_relays p \<and> pr_providers p' = pr_providers p"
  by (auto simp: server_serve_def split: sum.splits prod.splits option.splits)

lemma stopObservability_keeps:
  "pr_handles (stopObservability n sd p) = pr_handles p \<and> pr_relays (stopObservability n sd p) = pr_relays p
     \<and> pr_providers (stopObservability n sd p) = (case sd of Inert \<Rightarrow> pr_providers p | Flush \<Rightarrow> no_providers)"
  by (auto simp: stopObservability_def run_shutdown_def split: shutdown.split option.split)

text \<open>A start of the providers: what a failure leaves behind.\<close>

definition start_leaves :: "otel_net \<Rightarrow> providers" where
  "start_leaves n = (if on_resource n = None \<and> on_traces n = None \<and> on_metrics n \<noteq> None
     then no_providers\<lparr> pv_Tracer := True \<rparr> else no_providers)"

lemma startObservability_cases:
  assumes "startObservability n cfg p = (x, p')" and "pr_providers p = no_providers"
  shows "pr_handles p' = pr_handles p \<and> pr_relays p' = pr_relays p
     \<and> (case x of Inl e \<Rightarrow> pr_providers p' = start_leaves n | Inr Inert \<Rightarrow> pr_providers p' = no_providers | Inr Flush \<Rightarrow> True)"
  using assms by (auto simp: startObservability_def Setup_def start_leaves_def split: if_splits option.splits)

lemma server_connected_keeps:
  assumes "server_connected ru cfg catalog b (p, aw) = (r, p', aw')"
  shows "pr_handles p' = pr_handles p \<and> pr_relays p' = pr_relays p \<and> pr_providers p' = pr_providers p"
proof (cases "Open (ru_net ru) cfg catalog (pr_handles p)")
  case (Pair x hs)
  note opened = Open_handles [where n = "ru_net ru" and cfg = cfg and catalog = catalog and hs = "pr_handles p", unfolded Pair prod.case]
  show ?thesis
  proof (cases x)
    case (Inl e)
    then show ?thesis using assms Pair opened by (auto simp: server_connected_def)
  next
    case (Inr c)
    obtain r1 p1 aw1 where s: "server_serve ru cfg (cn_Pool c) b (p\<lparr> pr_handles := hs \<rparr>, aw) = (r1, p1, aw1)"
      by (metis prod_cases3)
    then show ?thesis using assms Pair opened Inr server_serve_keeps [OF s] by (auto simp: server_connected_def)
  qed
qed

lemma closeBroker_keeps:
  "pr_handles (closeBroker c p) = pr_handles p \<and> pr_providers (closeBroker c p) = pr_providers p
     \<and> pr_relays (closeBroker c p) = pr_relays p - 1"
  by (simp add: closeBroker_def)

lemma composed_relays: "worker_compose decode nb cfg pool = Inr x \<Longrightarrow> relays_opened nb cfg = 1"
  by (auto simp: worker_compose_def relays_opened_def Let_def split: if_splits option.splits sum.splits prod.splits)

text \<open>The relays a failed composition leaves open.\<close>

definition mount_leaves :: "worker_events \<Rightarrow> config \<Rightarrow> bool \<Rightarrow> nat" where
  "mount_leaves wu cfg pool =
     (if isl (worker_compose (wu_decode wu) (wu_broker wu) cfg pool) then relays_opened (wu_broker wu) cfg else 0)"

lemma worker_mounted_keeps:
  assumes "worker_mounted wu cfg pool p = (r, p')"
  shows "pr_handles p' = pr_handles p \<and> pr_providers p' = pr_providers p
     \<and> pr_relays p' = pr_relays p + mount_leaves wu cfg pool"
proof (cases "worker_compose (wu_decode wu) (wu_broker wu) cfg pool")
  case (Inl x)
  then show ?thesis using assms by (auto simp: worker_mounted_def Let_def mount_leaves_def)
next
  case (Inr y)
  then show ?thesis using assms composed_relays [OF Inr]
    by (auto simp: worker_mounted_def Let_def mount_leaves_def closeBroker_keeps split: prod.splits option.splits)
qed

lemma runDispatcher_keeps:
  assumes "runDispatcher wu cfg catalog p = (r, p')"
  shows "pr_handles p' = pr_handles p \<and> pr_providers p' = pr_providers p
     \<and> pr_relays p' = pr_relays p + (case fst (Open (wu_net wu) cfg catalog (pr_handles p)) of
          Inl e \<Rightarrow> 0 | Inr c \<Rightarrow> mount_leaves wu cfg (cn_Pool c))"
proof (cases "Open (wu_net wu) cfg catalog (pr_handles p)")
  case (Pair x hs)
  note opened = Open_handles [where n = "wu_net wu" and cfg = cfg and catalog = catalog and hs = "pr_handles p", unfolded Pair prod.case]
  show ?thesis
  proof (cases x)
    case (Inl e)
    then show ?thesis using assms Pair opened by (auto simp: runDispatcher_def)
  next
    case (Inr c)
    obtain r1 p1 where s: "worker_mounted wu cfg (cn_Pool c) (p\<lparr> pr_handles := hs \<rparr>) = (r1, p1)" by fastforce
    then show ?thesis using assms Pair opened Inr worker_mounted_keeps [OF s] by (auto simp: runDispatcher_def)
  qed
qed

lemma stopped_providers:
  assumes "startObservability n cfg p = (Inr sd, p1)" and "pr_providers p = no_providers"
    and "pr_providers p2 = pr_providers p1"
  shows "pr_providers (stopObservability n sd p2) = no_providers"
  using startObservability_cases [OF assms(1,2)] assms(3) by (cases sd) (auto simp: stopObservability_keeps)

lemma server_run_releases:
  assumes idle: "pr_providers p = no_providers" and run: "server_run build ru (p, aw) = (r, p', aw')"
  shows "pr_handles p' = pr_handles p \<and> pr_relays p' = pr_relays p
     \<and> (pr_providers p' = no_providers
        \<or> (\<exists>e. r = Some (Errorf [Lit ''telemetry: '', W e]) \<and> pr_providers p' = start_leaves (ru_otel ru)))"
proof (cases "Load (ru_loader ru) all_modules")
  case (Inl x)
  then show ?thesis using run idle by (simp add: server_run_def moduleCatalog_eq)
next
  case (Inr cfg)
  obtain x p1 where st: "startObservability (ru_otel ru) cfg p = (x, p1)" by fastforce
  note started = startObservability_cases [OF st idle]
  show ?thesis
  proof (cases x)
    case (Inl e)
    then have "r = Some e \<and> p' = p1" using run Inr st by (simp add: server_run_def moduleCatalog_eq)
    moreover have "\<exists>y. e = Errorf [Lit ''telemetry: '', W y]"
      using st Inl by (auto simp: startObservability_def split: prod.splits sum.splits)
    ultimately show ?thesis using started Inl by auto
  next
    case sd: (Inr sd)
    obtain b p2 where m: "serveMetrics ''service'' cfg (ru_metrics ru) p1 = (b, p2)" by fastforce
    define p3 where "p3 = p2\<lparr> pr_out := pr_out p2 @ [info_line ''starting''
      ((''service'', AString (app_Name (App cfg))) # (''env'', AString (app_Env (App cfg))) # build_attrs build)] \<rparr>"
    obtain r4 p4 aw4 where c: "server_connected ru cfg all_modules b (p3, aw) = (r4, p4, aw4)" by (metis prod_cases3)
    have "p' = stopObservability (ru_otel ru) sd p4"
      using run Inr st sd m c by (simp add: server_run_def moduleCatalog_eq p3_def)
    moreover have "pr_handles p4 = pr_handles p \<and> pr_relays p4 = pr_relays p \<and> pr_providers p4 = pr_providers p1"
      using server_connected_keeps [OF c] serveMetrics_keeps [OF m] started by (simp add: p3_def)
    ultimately show ?thesis
      using stopped_providers [OF st [unfolded sd] idle, of p4] by (simp add: stopObservability_keeps)
  qed
qed

lemma worker_run_releases:
  assumes idle: "pr_providers p = no_providers" and run: "worker_run build wu p = (r, p')"
  shows "pr_handles p' = pr_handles p
     \<and> (pr_relays p' = pr_relays p
        \<or> (\<exists>cfg pool x. Load (wu_loader wu) all_modules = Inr cfg \<and> worker_compose (wu_decode wu) (wu_broker wu) cfg pool = Inl x
             \<and> relays_opened (wu_broker wu) cfg = 1 \<and> pr_relays p' = pr_relays p + 1))
     \<and> (pr_providers p' = no_providers
        \<or> (\<exists>e. r = Some (Errorf [Lit ''telemetry: '', W e]) \<and> pr_providers p' = start_leaves (wu_otel wu)))"
proof (cases "Load (wu_loader wu) all_modules")
  case (Inl x)
  then show ?thesis using run idle by (simp add: worker_run_def moduleCatalog_eq)
next
  case (Inr cfg)
  obtain x p1 where st: "startObservability (wu_otel wu) cfg p = (x, p1)" by fastforce
  note started = startObservability_cases [OF st idle]
  show ?thesis
  proof (cases x)
    case (Inl e)
    then have "r = Some e \<and> p' = p1" using run Inr st by (simp add: worker_run_def moduleCatalog_eq)
    moreover have "\<exists>y. e = Errorf [Lit ''telemetry: '', W y]"
      using st Inl by (auto simp: startObservability_def split: prod.splits sum.splits)
    ultimately show ?thesis using started Inl by auto
  next
    case sd: (Inr sd)
    obtain b p2 where m: "serveMetrics ''dispatcher'' cfg (wu_metrics wu) p1 = (b, p2)" by fastforce
    define p3 where "p3 = p2\<lparr> pr_out := pr_out p2 @ [info_line ''dispatcher starting'' (build_attrs build)] \<rparr>"
    obtain r4 p4 where c: "runDispatcher wu cfg all_modules p3 = (r4, p4)" by fastforce
    have p': "p' = stopObservability (wu_otel wu) sd p4"
      using run Inr st sd m c by (simp add: worker_run_def moduleCatalog_eq p3_def)
    have "pr_handles p4 = pr_handles p \<and> pr_providers p4 = pr_providers p1 \<and> pr_relays p4 = pr_relays p
        + (case fst (Open (wu_net wu) cfg all_modules (pr_handles p)) of Inl e \<Rightarrow> 0 | Inr c \<Rightarrow> mount_leaves wu cfg (cn_Pool c))"
      using runDispatcher_keeps [OF c] serveMetrics_keeps [OF m] started by (simp add: p3_def)
    moreover have "mount_leaves wu cfg pool = 0 \<or> mount_leaves wu cfg pool = 1 \<and> relays_opened (wu_broker wu) cfg = 1
        \<and> (\<exists>x. worker_compose (wu_decode wu) (wu_broker wu) cfg pool = Inl x)" for pool
      by (auto simp: mount_leaves_def relays_opened_def isl_def)
    ultimately show ?thesis
      using stopped_providers [OF st [unfolded sd] idle, of p4] Inr
      by (auto simp: p' stopObservability_keeps split: sum.splits) (metis One_nat_def less_irrefl)+
  qed
qed

text \<open>C16: A process leaves nothing open. On whichever path a run of the server or of the dispatcher ends,
  a refused configuration, a failed start, a listener that fails or a stop that is asked for, the
  connections are those of before, and the telemetry providers are shut down unless their own start failed
  halfway, which leaves the tracer. The dispatcher closes the relay it opened, unless the composition fails
  after opening it.\<close>

theorem processes_release:
  assumes "pr_providers p = no_providers"
  shows "(case server_run build ru (p, aw) of (r, p', aw') \<Rightarrow>
        pr_handles p' = pr_handles p \<and> pr_relays p' = pr_relays p
        \<and> (pr_providers p' = no_providers
           \<or> (\<exists>e. r = Some (Errorf [Lit ''telemetry: '', W e]) \<and> pr_providers p' = start_leaves (ru_otel ru))))
     \<and> (case worker_run build wu p of (r, p') \<Rightarrow>
        pr_handles p' = pr_handles p
        \<and> (pr_relays p' = pr_relays p
           \<or> (\<exists>cfg pool x. Load (wu_loader wu) all_modules = Inr cfg \<and> worker_compose (wu_decode wu) (wu_broker wu) cfg pool = Inl x
                \<and> relays_opened (wu_broker wu) cfg = 1 \<and> pr_relays p' = pr_relays p + 1))
        \<and> (pr_providers p' = no_providers
           \<or> (\<exists>e. r = Some (Errorf [Lit ''telemetry: '', W e]) \<and> pr_providers p' = start_leaves (wu_otel wu))))"
proof -
  obtain r p' aw' where s: "server_run build ru (p, aw) = (r, p', aw')" by (metis prod_cases3)
  obtain r2 p2 where w: "worker_run build wu p = (r2, p2)" by fastforce
  show ?thesis
    unfolding s w prod.case using server_run_releases [OF assms s] worker_run_releases [OF assms w] by blast
qed

definition demo_process :: process where
  "demo_process = \<lparr> pr_handles = [], pr_providers = no_providers, pr_relays = 0, pr_out = [] \<rparr>"

definition demo_otel :: otel_net where
  "demo_otel = \<lparr> on_resource = None, on_traces = None, on_metrics = Some (Opaque ''duplicate collector''),
     on_stop_tracer = None, on_stop_meter = None \<rparr>"

definition demo_serving :: "unit server_events" where
  "demo_serving = \<lparr> ru_loader = demo_start, ru_net = demo_net, ru_otel = demo_otel, ru_env = demo_env,
     ru_draw = (\<lambda>w. (Inr [], w)), ru_metrics = ServerClosed, ru_listen = (\<lambda>_. ContextDone None) \<rparr>"

definition demo_dispatching :: worker_events where
  "demo_dispatching = \<lparr> wu_loader = demo_start, wu_net = demo_net, wu_otel = demo_otel, wu_decode = ada_registered,
     wu_broker = (\<lambda>mc. New_broker no_server no_server (\<lambda>t w. w) (\<lambda>t w. w) (msg_Driver mc)), wu_close = None,
     wu_metrics = ServerClosed, wu_dispatcher_first = True, wu_dispatch = None, wu_consume = None \<rparr>"

theorem processes_release_witness:
  "pr_providers demo_process = no_providers
     \<and> (\<forall>aw. case server_run ([], [], []) demo_serving (demo_process, aw) of (r, p', aw') \<Rightarrow>
          pr_handles p' = [] \<and> pr_relays p' = 0
          \<and> (pr_providers p' = no_providers
             \<or> (\<exists>e. r = Some (Errorf [Lit ''telemetry: '', W e]) \<and> pr_providers p' = start_leaves demo_otel)))"
proof -
  have idle: "pr_providers demo_process = no_providers" "pr_handles demo_process = []" "pr_relays demo_process = 0"
    by (simp_all add: demo_process_def)
  have "ru_otel demo_serving = demo_otel" by (simp add: demo_serving_def)
  then show ?thesis
    using processes_release [OF idle(1), where build = "([], [], [])" and ru = demo_serving and wu = demo_dispatching] unfolding idle by auto
qed

end
