(* ===== verification/Cli.thy ===== *)
theory Cli
  imports Server User_Surfaces
begin

text \<open>
  The command line binary (cmd/cli): the dispatch of its commands, what it mounts over the configuration
  of the servers, the refusal to seed outside a local environment, and the exit codes.
\<close>

section \<open>Composition\<close>

definition exit_Config :: nat where "exit_Config = 78"
definition exit_NoPerm :: nat where "exit_NoPerm = 77"

definition newIdentifier :: "server_world \<Rightarrow> str \<times> server_world" where
  "newIdentifier w =
     (let r = rw_rest w; w1 = w\<lparr> rw_rest := r\<lparr> sv_ids := sv_ids r + 1 \<rparr> \<rparr>
      in (case sv_v7 r (sv_ids r) of Inl e \<Rightarrow> sv_v4 r (sv_ids r) | Inr i \<Rightarrow> i, w1))"

definition cli_mountRegistration :: "'e server_env \<Rightarrow> config \<Rightarrow> bool \<Rightarrow> err + server_rest user_module" where
  "cli_mountRegistration e cfg pool =
     (case New_outbox (Get (Modules cfg) Name) pool of
        Inl x \<Rightarrow> Inl (Errorf [Lit ''outbox module: '', W x])
      | Inr outbox \<Rightarrow>
          (case New_user (se_pick e) (se_is_ip e) (DriverOf (Modules cfg) user_Name)
             \<lparr> ud_HashPassword = Some (hashing_New (hs_user (se_hash e) (hash_costs cfg))),
               ud_PublishEvent = Some (outboxpub_New (se_marshal e) (enqueue_in outbox)),
               ud_GenerateID = Some newIdentifier, ud_Now = Some SystemClock \<rparr> of
             Inl x \<Rightarrow> Inl (Errorf [Lit ''user_registration module: '', W x])
           | Inr users \<Rightarrow> Inr users))"

definition warnVolatileStore :: "config \<Rightarrow> console \<Rightarrow> console" where
  "warnVolatileStore cfg con =
     (if DriverOf (Modules cfg) user_Name \<noteq> user_DriverMemory then con
      else say_err (''warning: `memory` driver '' @ em_dash @ '' the account created DIES with this process ''
        @ ''and will be visible to no other binary. No shared driver exists yet for user_registration.'') con)"

record cli_mounted =
  mt_cfg :: config
  mt_users :: "server_rest user_module"
  mt_conn :: connections

text \<open>What a command works on: the files, the network, the libraries, the standard input, what the flag sets
  print; and the state: the two outputs, the open connections, the stores.\<close>

record 'e cli_env =
  cl_loader :: loader
  cl_net :: net
  cl_env :: "'e server_env"
  cl_stdin :: "(bytes \<times> err option) option"
  cl_flags :: "console \<Rightarrow> console"

type_synonym cli_state = "console \<times> handle list \<times> server_world"

definition cli_compose :: "'e cli_env \<Rightarrow> cli_state \<Rightarrow> (err + cli_mounted) \<times> cli_state" where
  "cli_compose ce s =
     (case s of (con, hs, w) \<Rightarrow>
      case moduleCatalog of
        Inl x \<Rightarrow> (Inl x, s)
      | Inr catalog \<Rightarrow>
     (case Load (cl_loader ce) catalog of
        Inl x \<Rightarrow> (Inl (Errorf [Lit ''configuration: '', W x]), s)
      | Inr cfg \<Rightarrow>
     (case Open (cl_net ce) cfg catalog hs of
        (Inl x, hs1) \<Rightarrow> (Inl (Errorf [Lit ''opening the connections: '', W x]), con, hs1, w)
      | (Inr conn, hs1) \<Rightarrow>
     (case cli_mountRegistration (cl_env ce) cfg (cn_Pool conn) of
        Inl x \<Rightarrow> (Inl x, con, Close_connections conn hs1, w)
      | Inr users \<Rightarrow> (Inr \<lparr> mt_cfg = cfg, mt_users = users, mt_conn = conn \<rparr>, warnVolatileStore cfg con, hs1, w)))))"

section \<open>The commands\<close>

definition allowSeed :: "Environment \<Rightarrow> err option" where
  "allowSeed env =
     (if \<not> IsLocal env then
        Some (Errorf [W (Opaque ''seed refused outside development and test: demonstration accounts in production are a way in''),
          Lit ('' (env='' @ env @ '')'')])
      else None)"

definition commandRegister :: "'e cli_env \<Rightarrow> str list \<Rightarrow> cli_state \<Rightarrow> nat \<times> cli_state" where
  "commandRegister ce args s =
     (case cli_compose ce s of
        (Inl x, con, hs, w) \<Rightarrow> (exit_Config, say_err (''error: '' @ err_text x) con, hs, w)
      | (Inr a, con, hs, w) \<Rightarrow>
          (case cli_Register (mt_users a) (cl_flags ce) args (cl_stdin ce) (con, w) of
             (code, con1, w1) \<Rightarrow> (code, con1, Close_connections (mt_conn a) hs, w1)))"

definition commandSeed :: "'e cli_env \<Rightarrow> str list \<Rightarrow> cli_state \<Rightarrow> nat \<times> cli_state" where
  "commandSeed ce args s =
     (case cli_compose ce s of
        (Inl x, con, hs, w) \<Rightarrow> (exit_Config, say_err (''error: '' @ err_text x) con, hs, w)
      | (Inr a, con, hs, w) \<Rightarrow>
          (case allowSeed (app_Env (App (mt_cfg a))) of
             Some x \<Rightarrow> (exit_NoPerm, say_err (''refused: '' @ err_text x) con, Close_connections (mt_conn a) hs, w)
           | None \<Rightarrow>
               (case Seed (mt_users a) (cl_flags ce) args (con, w) of
                  (code, con1, w1) \<Rightarrow> (code, con1, Close_connections (mt_conn a) hs, w1))))"

definition bool_text :: "bool \<Rightarrow> str" where
  "bool_text b = (if b then ''true'' else ''false'')"

definition commandHealth :: "'e cli_env \<Rightarrow> cli_state \<Rightarrow> nat \<times> cli_state" where
  "commandHealth ce s =
     (case cli_compose ce s of
        (Inl x, con, hs, w) \<Rightarrow> (exit_Config, say_err (''error: '' @ err_text x) con, hs, w)
      | (Inr a, con, hs, w) \<Rightarrow>
          (exit_OK, say_out (''ok'' @ CHR 0x09 # ''env='' @ app_Env (App (mt_cfg a)) @ CHR 0x09 # ''db=''
              @ bool_text (cn_Pool (mt_conn a)) @ CHR 0x09 # ''cache='' @ bool_text (cn_Cache (mt_conn a))) con,
            Close_connections (mt_conn a) hs, w))"

definition cli_usage :: "console \<Rightarrow> console" where
  "cli_usage con = fold say_err
     [''usage: hexa-cli <command> [options]'', [],
      ''  register --email <address>   register an account; the password is read from stdin'',
      ''  seed --profile <dev|demo>    seed the starter THROUGH THE USE CASES '' @ em_dash @ '' never in production'',
      ''  health                       check that this binary could start'', [],
      ''The migration status is returned by `task migrate:status`, not by this command:'',
      ''a second source of truth on the schema is one source of truth too many.''] con"

definition cli_run :: "'e cli_env \<Rightarrow> str list \<Rightarrow> cli_state \<Rightarrow> nat \<times> cli_state" where
  "cli_run ce args s =
     (case args of
        [] \<Rightarrow> (exit_Usage, cli_usage (fst s), snd s)
      | cmd # rest \<Rightarrow>
          if cmd = ''register'' then commandRegister ce rest s
          else if cmd = ''seed'' then commandSeed ce rest s
          else if cmd = ''health'' then commandHealth ce s
          else if cmd = ''-h'' \<or> cmd = ''--help'' \<or> cmd = ''help'' then (exit_OK, cli_usage (fst s), snd s)
          else (exit_Usage, cli_usage (say_err [] (say_err (''unknown command: '' @ quote_text cmd) (fst s))), snd s))"

section \<open>The same module as the server\<close>

lemma newIdentifier_is_generateUserID: "newIdentifier = generateUserID"
  by (intro ext) (simp add: newIdentifier_def generateUserID_def)

lemma cli_mounts_what_the_server_mounts:
  "cli_mountRegistration e cfg pool =
     (case New_outbox (Get (Modules cfg) Name) pool of
        Inl x \<Rightarrow> Inl (Errorf [Lit ''outbox module: '', W x])
      | Inr outbox \<Rightarrow> mountRegistration e cfg outbox)"
  by (simp add: cli_mountRegistration_def mountRegistration_def newIdentifier_is_generateUserID split: sum.split)

section \<open>What a call of the binary can do\<close>

lemma registerAccount_codes:
  "fst (registerAccount md em pw cw) \<in> {exit_OK, exit_DataErr, exit_Unavailable, exit_Software}"
  by (auto simp: registerAccount_def codeFor_def Let_def split: prod.split result.split error_code.split)

lemma populate_codes: "fst (populate md profile i n cw) \<in> {exit_OK, exit_DataErr, exit_Unavailable, exit_Software}"
proof (induction md profile i n cw rule: populate.induct)
  case (2 md profile i left cw)
  obtain code cw1 where r: "registerAccount md (seed_email profile i) seedSecret cw = (code, cw1)"
    by (cases "registerAccount md (seed_email profile i) seedSecret cw") auto
  then have "code \<in> {exit_OK, exit_DataErr, exit_Unavailable, exit_Software}" by (metis registerAccount_codes fst_conv)
  then show ?case using "2.IH" [OF r [symmetric]] r by auto
qed simp

lemma command_codes:
  "fst (cli_Register md usage args input cw) \<in> {exit_OK, exit_Usage, exit_DataErr, exit_Unavailable, exit_Software}"
  "fst (Seed md usage args cw) \<in> {exit_OK, exit_Usage, exit_DataErr, exit_Unavailable, exit_Software}"
  using registerAccount_codes [of md _ _ cw] populate_codes [of md _ _ _ cw]
  by (simp_all add: cli_Register_def Seed_def split: option.split sum.split) blast+

lemma cli_compose_handles:
  "case cli_compose ce (con, hs, w) of
     (Inl x, con', hs', w') \<Rightarrow> hs' = hs \<and> w' = w
   | (Inr a, con', hs', w') \<Rightarrow> Close_connections (mt_conn a) hs' = hs \<and> w' = w
       \<and> Load (cl_loader ce) all_modules = Inr (mt_cfg a)"
proof (cases "Load (cl_loader ce) all_modules")
  case (Inl x)
  then show ?thesis by (simp add: cli_compose_def moduleCatalog_eq)
next
  case (Inr cfg)
  then show ?thesis
    using Open_handles [where n = "cl_net ce" and cfg = cfg and hs = hs and catalog = all_modules]
    by (auto simp: cli_compose_def moduleCatalog_eq split: prod.split sum.split)
qed

definition cli_safe :: "'e cli_env \<Rightarrow> cli_state \<Rightarrow> bool \<Rightarrow> nat \<times> cli_state \<Rightarrow> bool" where
  "cli_safe ce s writes r \<longleftrightarrow>
     (case (s, r) of ((con, hs, w), (code, con', hs', w')) \<Rightarrow>
        hs' = hs \<and> code \<in> {exit_OK, exit_Usage, exit_DataErr, exit_Unavailable, exit_Software, exit_NoPerm, exit_Config}
        \<and> (w' = w \<or> writes \<and> code \<notin> {exit_NoPerm, exit_Config}))"

lemmas exit_codes = exit_OK_def exit_Usage_def exit_DataErr_def exit_Unavailable_def exit_Software_def exit_NoPerm_def exit_Config_def

lemma commandRegister_safe: "cli_safe ce s True (commandRegister ce args s)"
proof -
  obtain con hs w where s: "s = (con, hs, w)" by (cases s) auto
  obtain x con1 hs1 w1 where c: "cli_compose ce (con, hs, w) = (x, con1, hs1, w1)" by (cases "cli_compose ce (con, hs, w)") auto
  note eff = cli_compose_handles [where ce = ce and con = con and hs = hs and w = w, unfolded c prod.case]
  show ?thesis
  proof (cases x)
    case (Inl e)
    then show ?thesis using eff by (simp add: s c commandRegister_def cli_safe_def)
  next
    case (Inr a)
    obtain code con2 w2 where r: "cli_Register (mt_users a) (cl_flags ce) args (cl_stdin ce) (con1, w) = (code, con2, w2)"
      by (cases "cli_Register (mt_users a) (cl_flags ce) args (cl_stdin ce) (con1, w)") auto
    have "code \<in> {exit_OK, exit_Usage, exit_DataErr, exit_Unavailable, exit_Software}"
      using command_codes(1) [of "mt_users a" "cl_flags ce" args "cl_stdin ce" "(con1, w)"] unfolding r by simp
    then show ?thesis using eff Inr by (auto simp: s c r commandRegister_def cli_safe_def exit_codes)
  qed
qed

lemma commandSeed_safe:
  "cli_safe ce s True (commandSeed ce args s)
     \<and> (Load (cl_loader ce) all_modules = Inr cfg \<and> \<not> IsLocal (app_Env (App cfg)) \<longrightarrow> cli_safe ce s False (commandSeed ce args s)
          \<and> fst (commandSeed ce args s) \<in> {exit_NoPerm, exit_Config})"
proof -
  obtain con hs w where s: "s = (con, hs, w)" by (cases s) auto
  obtain x con1 hs1 w1 where c: "cli_compose ce (con, hs, w) = (x, con1, hs1, w1)" by (cases "cli_compose ce (con, hs, w)") auto
  note eff = cli_compose_handles [where ce = ce and con = con and hs = hs and w = w, unfolded c prod.case]
  show ?thesis
  proof (cases x)
    case (Inl e)
    then show ?thesis using eff by (simp add: s c commandSeed_def cli_safe_def)
  next
    case (Inr a)
    note loaded = eff [unfolded Inr sum.case]
    obtain code con2 w2 where r: "Seed (mt_users a) (cl_flags ce) args (con1, w) = (code, con2, w2)"
      by (cases "Seed (mt_users a) (cl_flags ce) args (con1, w)") auto
    have "code \<in> {exit_OK, exit_Usage, exit_DataErr, exit_Unavailable, exit_Software}"
      using command_codes(2) [of "mt_users a" "cl_flags ce" args "(con1, w)"] unfolding r by simp
    then show ?thesis using loaded Inr by (auto simp: s c r commandSeed_def cli_safe_def allowSeed_def exit_codes)
  qed
qed

lemma commandHealth_safe: "cli_safe ce s False (commandHealth ce s)"
proof -
  obtain con hs w where s: "s = (con, hs, w)" by (cases s) auto
  obtain x con1 hs1 w1 where c: "cli_compose ce (con, hs, w) = (x, con1, hs1, w1)" by (cases "cli_compose ce (con, hs, w)") auto
  show ?thesis
    using cli_compose_handles [where ce = ce and con = con and hs = hs and w = w] by (auto simp: s c commandHealth_def cli_safe_def split: sum.split)
qed

text \<open>C23: What a script can rely on. Whatever its arguments, the command line gives back the connections
  it opened and ends with one of the seven documented exit codes; only \<open>register\<close> and \<open>seed\<close> can write, and
  never under the codes of a refusal or of a bad configuration; \<open>seed\<close> over a configuration that is neither
  development nor test writes nothing and ends with one of those two codes.\<close>

theorem cli_answers_scripts:
  "case cli_run ce args (con, hs, w) of (code, con', hs', w') \<Rightarrow>
     hs' = hs
     \<and> code \<in> {exit_OK, exit_Usage, exit_DataErr, exit_Unavailable, exit_Software, exit_NoPerm, exit_Config}
     \<and> (w' \<noteq> w \<longrightarrow> args \<noteq> [] \<and> hd args \<in> {''register'', ''seed''} \<and> code \<notin> {exit_NoPerm, exit_Config})
     \<and> (\<forall>cfg. args \<noteq> [] \<and> hd args = ''seed'' \<and> Load (cl_loader ce) all_modules = Inr cfg \<and> \<not> IsLocal (app_Env (App cfg))
          \<longrightarrow> w' = w \<and> code \<in> {exit_NoPerm, exit_Config})"
proof (cases args)
  case Nil
  then show ?thesis by (simp add: cli_run_def exit_codes)
next
  case (Cons cmd rest)
  consider "cmd = ''register''" | "cmd = ''seed''" | "cmd = ''health''" | "cmd \<notin> {''register'', ''seed'', ''health''}" by blast
  then show ?thesis
  proof cases
    case 1
    then show ?thesis using commandRegister_safe [of ce "(con, hs, w)" rest] Cons
      by (auto simp: cli_run_def cli_safe_def split: prod.splits)
  next
    case 2
    then show ?thesis using commandSeed_safe [of ce "(con, hs, w)" rest] Cons
      by (auto simp: cli_run_def cli_safe_def split: prod.splits)
  next
    case 3
    then show ?thesis using commandHealth_safe [of ce "(con, hs, w)"] Cons
      by (auto simp: cli_run_def cli_safe_def split: prod.splits)
  next
    case 4
    then show ?thesis using Cons by (simp add: cli_run_def exit_codes)
  qed
qed

text \<open>A production configuration, and a call of \<open>seed\<close> over it.\<close>

definition prod_config :: config where
  "prod_config = demo_config
     \<lparr> App := (App demo_config)\<lparr> app_Env := EnvProduction \<rparr>,
       Database := (Database demo_config)\<lparr> db_MigrationDSN := ''postgres://migrations'' \<rparr>,
       HTTP := (HTTP demo_config)\<lparr> h_AllowedOrigins := [''https://example.org''] \<rparr>,
       Telemetry := (Telemetry demo_config)\<lparr> t_Enabled := True \<rparr> \<rparr>"

definition prod_cli :: "unit cli_env" where
  "prod_cli = \<lparr> cl_loader = demo_loader\<lparr> ld_decode := (\<lambda>_. Inr prod_config) \<rparr>, cl_net = demo_net, cl_env = demo_env,
     cl_stdin = None, cl_flags = id \<rparr>"

definition no_accounts :: server_world where
  "no_accounts = \<lparr> rw_users = [], rw_rest =
     \<lparr> sv_outbox = \<lparr> st_memory = new_mem_store, st_postgres = \<lparr> pg_rows = [], pg_locks = [] \<rparr> \<rparr>,
       sv_env = (\<lambda>n. \<lparr> ce_ctx = None, ce_now = 0, ce_fault = None, ce_uuid = Inr ''m1'' \<rparr>), sv_calls = 0,
       sv_v7 = (\<lambda>n. Inr ''u1''), sv_v4 = (\<lambda>n. ''u1''), sv_ids = 0 \<rparr> \<rparr>"

lemma prod_core: "core_ok (applyDefaults prod_config)"
proof -
  have "std_decode (sec_EncryptionKey (Security prod_config)) = Some (replicate 32 CHR 0x00)"
    using demo_key by (simp add: prod_config_def)
  then show ?thesis
    by (auto simp: core_ok_def applyDefaults_sel prod_config_def demo_config_def zero_config_def environments one_of_def second_def)
qed

lemma prod_hardened: "hardened_ok (applyDefaults prod_config)"
  by (simp add: hardened_ok_def applyDefaults_sel prod_config_def demo_config_def zero_config_def origin_ok_def
      observability_applyDefaults_def or_default_def sinkStdout_def sinkFile_def relayInproc_def relayKafka_def has_prefix_def)

lemma prod_loads:
  "Load (cl_loader prod_cli) all_modules = Inr ((applyDefaults prod_config)\<lparr> Modules := Resolve all_modules [] \<rparr>)"
proof -
  let ?ld = "cl_loader prod_cli"
  have "mergeLayers ?ld (Dir ?ld) EnvDevelopment = Inr [(''http'', VMap [(''port'', VInt 8080), (''host'', VString ''a'')])]"
    by code_simp
  moreover have "Getenv ?ld EnvVarAppEnv = []" "expand (ld_getenv ?ld) [] = Inr []"
    by (simp_all add: prod_cli_def Getenv_def demo_loader_def expand_def List.map_filter_simps)
  moreover have "ld_marshal ?ld x = Inr []" "ld_decode ?ld t = Inr prod_config" for x t
    by (simp_all add: prod_cli_def demo_loader_def)
  moreover have "Modules (applyDefaults prod_config) = []"
    by (simp add: applyDefaults_sel prod_config_def demo_config_def zero_config_def)
  moreover have "validate_config ((applyDefaults prod_config)\<lparr> Modules := Resolve all_modules [] \<rparr>) all_modules = None"
  proof -
    have "signals_ok (Observability (applyDefaults prod_config))" "interop_ok (Interop (applyDefaults prod_config))"
      by (simp_all add: signals_ok_def interop_ok_def TransportFor_def applyDefaults_sel observability_applyDefaults_def
          or_default_def prod_config_def demo_config_def zero_config_def one_of_def ratio_accepted_def transports_def transportInproc_def)
    moreover have "validate_modules all_modules (Resolve all_modules []) = []" by code_simp
    ultimately have "config_problems ((applyDefaults prod_config)\<lparr> Modules := Resolve all_modules [] \<rparr>) all_modules = []"
      using prod_core prod_hardened
      by (simp add: config_problems_def validateCore_empty validateHardening_empty observability_validate_empty
          interop_validate_empty core_ok_def hardened_ok_def)
    then show ?thesis by (simp add: validate_config_def)
  qed
  ultimately show ?thesis by (simp add: Load_def)
qed

theorem cli_answers_scripts_witness:
  "\<not> IsLocal (app_Env (App ((applyDefaults prod_config)\<lparr> Modules := Resolve all_modules [] \<rparr>)))
     \<and> (case cli_run prod_cli [''seed''] (\<lparr> con_out = [], con_err = [] \<rparr>, [], no_accounts) of (code, con', hs', w') \<Rightarrow>
          hs' = [] \<and> w' = no_accounts \<and> code \<in> {exit_NoPerm, exit_Config})"
proof
  show prod: "\<not> IsLocal (app_Env (App ((applyDefaults prod_config)\<lparr> Modules := Resolve all_modules [] \<rparr>)))"
    by (simp add: applyDefaults_sel prod_config_def IsLocal_def environments)
  let ?r = "cli_run prod_cli [''seed''] (\<lparr> con_out = [], con_err = [] \<rparr>, [], no_accounts)"
  obtain code con' hs' w' where r: "?r = (code, con', hs', w')" by (cases ?r) auto
  show "case ?r of (code, con', hs', w') \<Rightarrow> hs' = [] \<and> w' = no_accounts \<and> code \<in> {exit_NoPerm, exit_Config}"
    using cli_answers_scripts [where ce = prod_cli and args = "[''seed'']" and con = "\<lparr> con_out = [], con_err = [] \<rparr>" and hs = "[]" and w = no_accounts] prod prod_loads
    unfolding r prod.case by simp
qed

text \<open>The health check does not mount the authentication: it is green over a configuration the server
  refuses to start with.\<close>

definition unread_ttl :: modules where
  "unread_ttl = [(auth_Name, \<lparr> enabled = True, driver = auth_driverMemory, options = [(OptionSessionTTL, VString ''soon'')] \<rparr>)]"

lemma green_health_refused_start:
  "fst (commandHealth (prod_cli\<lparr> cl_loader := demo_with unread_ttl \<rparr>) (con, hs, w)) = exit_OK
     \<and> isl (server_compose demo_env (loaded_with unread_ttl) pool)"
proof
  have m: "Modules (loaded_with unread_ttl) = Resolve all_modules unread_ttl" by (simp add: loaded_with_def)
  have "validate_modules all_modules (Resolve all_modules unread_ttl) = []" by code_simp
  note loads = demo_with_loads [OF this]
  have off: "Get (Modules (loaded_with unread_ttl)) Name = \<lparr> enabled = False, driver = driverMemory, options = [] \<rparr>"
    and mem: "DriverOf (Modules (loaded_with unread_ttl)) user_Name = user_DriverMemory"
    and auth: "Get (Modules (loaded_with unread_ttl)) auth_Name
      = \<lparr> enabled = True, driver = auth_driverMemory, options = [(OptionSessionTTL, VString ''soon'')] \<rparr>"
    unfolding m by code_simp+
  have req: "\<not> RequiresSQL all_modules (Modules (loaded_with unread_ttl))" "\<not> RequiresCache all_modules (Modules (loaded_with unread_ttl))"
    unfolding m by code_simp+
  show "fst (commandHealth (prod_cli\<lparr> cl_loader := demo_with unread_ttl \<rparr>) (con, hs, w)) = exit_OK"
    by (simp add: commandHealth_def cli_compose_def moduleCatalog_eq loads Open_def req no_connections_def off mem
        cli_mountRegistration_def New_outbox_def New_user_def user_validate_def user_missing_def)
  have "isl (DurationOption \<lparr> enabled = True, driver = auth_driverMemory, options = [(OptionSessionTTL, VString ''soon'')] \<rparr>
      OptionSessionTTL defaultSessionTTL)"
    by code_simp
  then show "isl (server_compose demo_env (loaded_with unread_ttl) pool)"
    by (auto simp: server_compose_def off New_outbox_def mountAuth_def auth New_auth_def auth_validate_def auth_driverMemory_def
        demo_env_def Let_def isl_def split: sum.splits option.splits)
qed

end
