(* ===== verification/Generator.thy ===== *)
theory Generator
  imports Go_Text Go_Path Config_Module
begin

text \<open>
  The project generator (internal/generator): sorting the arguments, planning and creating a project out of
  the starter; the modules of a project are in \<open>Feature\<close>. The disk is the state; what git, the
  Go tool chain and a failing call answer are arguments.
\<close>

section \<open>Arguments\<close>

text \<open>The options of a flag set in both spellings; the map says which are known.\<close>

definition FlagsWithValue :: "str list \<Rightarrow> (str, bool) gomap" where
  "FlagsWithValue names = fold (\<lambda>n m. map_set (''--'' @ n) True (map_set (CHR ''-'' # n) True m)) names []"

fun SplitArguments :: "str list \<Rightarrow> (str, bool) gomap \<Rightarrow> str list \<times> str list" where
  "SplitArguments [] withValue = ([], [])"
| "SplitArguments [arg] withValue = (if \<not> has_prefix arg ''-'' then ([], [arg]) else ([arg], []))"
| "SplitArguments (arg # v # rest) withValue =
     (if \<not> has_prefix arg ''-'' then (case SplitArguments (v # rest) withValue of (os, ps) \<Rightarrow> (os, arg # ps))
      else if map_get withValue arg = Some True then
        (case SplitArguments rest withValue of (os, ps) \<Rightarrow> (arg # v # os, ps))
      else (case SplitArguments (v # rest) withValue of (os, ps) \<Rightarrow> (arg # os, ps)))"

section \<open>The disk\<close>

text \<open>A file with its content and permissions, or a symbolic link with what reading through it gives. A path
  is a directory when it was made one or when something lies below it. Paths are absolute and clean.\<close>

datatype node = Regular bytes nat | Symlink "err + bytes"

record disk =
  dk_nodes :: "(str, node) gomap"
  dk_dirs :: "str list"

definition below :: "str \<Rightarrow> str \<Rightarrow> bool" where
  "below dir path \<longleftrightarrow> has_prefix path (dir @ [slash])"

definition entries :: "str \<Rightarrow> disk \<Rightarrow> str list" where
  "entries dir d = filter (below dir) (map fst (dk_nodes d) @ dk_dirs d)"

datatype fs_op = ReadDirOp | LstatOp | ReadOp | MkdirOp | WriteOp | WalkOp

text \<open>The calls that fail for a reason of their own.\<close>

type_synonym fs_faults = "fs_op \<Rightarrow> str \<Rightarrow> err option"

definition os_ReadDir :: "fs_faults \<Rightarrow> str \<Rightarrow> disk \<Rightarrow> err + str list" where
  "os_ReadDir ff path d =
     (case ff ReadDirOp path of
        Some e \<Rightarrow> Inl e
      | None \<Rightarrow>
          if entries path d \<noteq> [] \<or> path \<in> set (dk_dirs d) then Inr (entries path d)
          else if map_get (dk_nodes d) path \<noteq> None then Inl (Opaque ''not a directory'') else Inl (Sentinel NotExist))"

definition os_ReadFile :: "fs_faults \<Rightarrow> str \<Rightarrow> disk \<Rightarrow> err + bytes" where
  "os_ReadFile ff path d =
     (case ff ReadOp path of
        Some e \<Rightarrow> Inl e
      | None \<Rightarrow>
          (case map_get (dk_nodes d) path of
             Some (Regular content perm) \<Rightarrow> Inr content
           | Some (Symlink through) \<Rightarrow> through
           | None \<Rightarrow> Inl (Sentinel NotExist)))"

definition os_Lstat :: "fs_faults \<Rightarrow> str \<Rightarrow> disk \<Rightarrow> err + node" where
  "os_Lstat ff path d =
     (case ff LstatOp path of
        Some e \<Rightarrow> Inl e
      | None \<Rightarrow> (case map_get (dk_nodes d) path of Some n \<Rightarrow> Inr n | None \<Rightarrow> Inl (Sentinel NotExist)))"

definition os_MkdirAll :: "fs_faults \<Rightarrow> str \<Rightarrow> disk \<Rightarrow> err option \<times> disk" where
  "os_MkdirAll ff dir d =
     (case ff MkdirOp dir of
        Some e \<Rightarrow> (Some e, d)
      | None \<Rightarrow>
          if list_ex (\<lambda>p. p = dir \<or> below p dir) (map fst (dk_nodes d)) then (Some (Opaque ''not a directory''), d)
          else (None, d\<lparr> dk_dirs := List.insert dir (dk_dirs d) \<rparr>))"

text \<open>A file that exists keeps its permissions. A call that fails leaves the disk.\<close>

definition os_WriteFile :: "fs_faults \<Rightarrow> str \<Rightarrow> bytes \<Rightarrow> nat \<Rightarrow> disk \<Rightarrow> err option \<times> disk" where
  "os_WriteFile ff path content perm d =
     (case ff WriteOp path of
        Some e \<Rightarrow> (Some e, d)
      | None \<Rightarrow>
          if path \<in> set (dk_dirs d) \<or> entries path d \<noteq> [] then (Some (Opaque ''is a directory''), d)
          else (None, d\<lparr> dk_nodes := map_set path (Regular content
            (case map_get (dk_nodes d) path of Some (Regular c p) \<Rightarrow> p | _ \<Rightarrow> perm)) (dk_nodes d) \<rparr>))"

text \<open>\<open>filepath.Abs\<close> and \<open>filepath.Dir\<close>; \<open>cwd\<close> is the working directory of the process.\<close>

definition path_Abs :: "err + str \<Rightarrow> str \<Rightarrow> err + str" where
  "path_Abs cwd p =
     (if is_rooted p then Inr (path_Clean p) else case cwd of Inl e \<Rightarrow> Inl e | Inr dir \<Rightarrow> Inr (path_Join dir p))"

definition path_Dir :: "str \<Rightarrow> str" where
  "path_Dir p = path_Clean (if slash \<in> set p then before_last slash p @ [slash] else [])"

section \<open>What is read of a project\<close>

definition EmptyDestination :: "fs_faults \<Rightarrow> str \<Rightarrow> disk \<Rightarrow> err option" where
  "EmptyDestination ff path d =
     (case os_ReadDir ff path d of
        Inl e \<Rightarrow> if errors_is e NotExist then None else Some (Errorf [Lit ''reading the destination: '', W e])
      | Inr es \<Rightarrow>
          if es \<noteq> [] then Some (Opaque (path @ '' is not empty '' @ em_dash @ '' pick a fresh directory'')) else None)"

fun module_directive :: "str list \<Rightarrow> str option" where
  "module_directive [] = None"
| "module_directive (l # ls) =
     (case cut_prefix (trim_space l) ''module '' of
        Some rest \<Rightarrow> Some (trim_space rest)
      | None \<Rightarrow> module_directive ls)"

definition ModulePathOf :: "fs_faults \<Rightarrow> str \<Rightarrow> disk \<Rightarrow> err + str" where
  "ModulePathOf ff dir d =
     (case os_ReadFile ff (path_Join dir ''go.mod'') d of
        Inl e \<Rightarrow> Inl (Errorf [Lit (dir @ '' has no go.mod '' @ em_dash @ '' is this really the project root? ''), W e])
      | Inr raw \<Rightarrow>
          (case module_directive (split_char newline raw) of
             Some m \<Rightarrow> Inr m
           | None \<Rightarrow> Inl (Opaque (''no `module` directive in '' @ dir @ ''/go.mod''))))"

section \<open>Planning a project\<close>

record project_plan =
  pp_Source :: str
  pp_Destination :: str
  pp_SocleModule :: str
  pp_TargetModule :: str

definition PlanProject :: "fs_faults \<Rightarrow> err + str \<Rightarrow> str \<Rightarrow> str \<Rightarrow> str \<Rightarrow> disk \<Rightarrow> err + project_plan" where
  "PlanProject ff cwd destination targetModule source d =
     (if targetModule = [] then Inl (Opaque ''--module is mandatory: a project without a module path does not build'')
      else if CHR ''/'' \<notin> set targetModule then
        Inl (Opaque (''--module='' @ quote_text targetModule @ '' does not look like a module path (expected: host/organisation/name)''))
      else case path_Abs cwd source of
        Inl e \<Rightarrow> Inl (Errorf [Lit ''starter path: '', W e])
      | Inr absSource \<Rightarrow>
     (case ModulePathOf ff absSource d of
        Inl e \<Rightarrow> Inl e
      | Inr socleModule \<Rightarrow>
          if socleModule = targetModule then
            Inl (Opaque (''--module='' @ quote_text targetModule @ '' is already the starter's module: nothing to rewrite''))
          else
     (case path_Abs cwd destination of
        Inl e \<Rightarrow> Inl (Errorf [Lit ''destination path: '', W e])
      | Inr absDest \<Rightarrow>
     (case EmptyDestination ff absDest d of
        Some occupied \<Rightarrow> Inl occupied
      | None \<Rightarrow> Inr \<lparr> pp_Source = absSource, pp_Destination = absDest, pp_SocleModule = socleModule,
          pp_TargetModule = targetModule \<rparr>))))"

section \<open>Copying\<close>

text \<open>\<open>out\<close> is what \<open>git ls-files -z\<close> printed.\<close>

definition TrackedFiles :: "err + bytes \<Rightarrow> str \<Rightarrow> err + str list" where
  "TrackedFiles out dir =
     (case out of
        Inl e \<Rightarrow> Inl (Errorf [Lit (dir @ '' is not a git repository '' @ em_dash
          @ '' `hexa new` copies TRACKED files, which requires a repository: ''), W e])
      | Inr raw \<Rightarrow>
          (let files = filter (\<lambda>n. n \<noteq> []) (split_char CHR 0x00 raw) in
           if files = [] then Inl (Opaque (''no tracked file in '' @ dir @ '': there would be nothing to copy''))
           else Inr files))"

definition CitesSocleByHistory :: "str \<Rightarrow> bool" where
  "CitesSocleByHistory relative \<longleftrightarrow>
     relative = ''documentation/AMORCAGE.md'' \<or> relative = ''documentation/process/REPRISE.md''
     \<or> has_prefix relative ''documentation/adr/''"

definition rewritten :: "project_plan \<Rightarrow> str \<Rightarrow> bytes \<Rightarrow> bytes" where
  "rewritten p relative content =
     (if \<not> CitesSocleByHistory relative then replace_all (pp_SocleModule p) (pp_TargetModule p) content else content)"

definition copyOne :: "fs_faults \<Rightarrow> project_plan \<Rightarrow> str \<Rightarrow> disk \<Rightarrow> err option \<times> disk" where
  "copyOne ff p relative d =
     (let source = path_Join (pp_Source p) relative; target = path_Join (pp_Destination p) relative in
      if \<not> has_prefix target (pp_Destination p @ [slash]) then
        (Some (Opaque (relative @ '' escapes the destination: path refused'')), d)
      else case os_Lstat ff source d of
        Inl e \<Rightarrow> (Some (Errorf [Lit (''reading '' @ relative @ '': ''), W e]), d)
      | Inr (Symlink through) \<Rightarrow>
          (Some (Opaque (relative @ '' is a symbolic link: unhandled case, to be decided before versioning it'')), d)
      | Inr (Regular c perm) \<Rightarrow>
     (case os_ReadFile ff source d of
        Inl e \<Rightarrow> (Some (Errorf [Lit (''reading '' @ relative @ '': ''), W e]), d)
      | Inr content \<Rightarrow>
     (case os_MkdirAll ff (path_Dir target) d of
        (Some e, d1) \<Rightarrow> (Some (Errorf [Lit (''creating the directory of '' @ relative @ '': ''), W e]), d1)
      | (None, d1) \<Rightarrow>
     (case os_WriteFile ff target (rewritten p relative content) perm d1 of
        (Some e, d2) \<Rightarrow> (Some (Errorf [Lit (''writing '' @ relative @ '': ''), W e]), d2)
      | (None, d2) \<Rightarrow> (None, d2)))))"

fun CopyProject :: "fs_faults \<Rightarrow> project_plan \<Rightarrow> str list \<Rightarrow> disk \<Rightarrow> err option \<times> disk" where
  "CopyProject ff p [] d = (None, d)"
| "CopyProject ff p (relative # files) d =
     (case copyOne ff p relative d of
        (Some e, d1) \<Rightarrow> (Some e, d1)
      | (None, d1) \<Rightarrow> CopyProject ff p files d1)"

section \<open>Verifying and creating\<close>

text \<open>The order of \<open>WalkDir\<close>: names compared directory by directory, which is the order of the paths with the
  separator below every byte.\<close>

definition walk_files :: "str \<Rightarrow> disk \<Rightarrow> str list" where
  "walk_files dir d =
     map (map (\<lambda>c. if c = CHR 0x00 then slash else c))
       (sort_strings (map (map (\<lambda>c. if c = slash then CHR 0x00 else c)) (filter (below dir) (map fst (dk_nodes d)))))"

definition relative_to :: "str \<Rightarrow> str \<Rightarrow> str" where
  "relative_to dir path = drop (length dir + 1) path"

fun verify_files :: "fs_faults \<Rightarrow> project_plan \<Rightarrow> disk \<Rightarrow> str list \<Rightarrow> str list \<Rightarrow> err + str list" where
  "verify_files ff p d [] remaining = Inr remaining"
| "verify_files ff p d (path # paths) remaining =
     (case ff WalkOp path of
        Some e \<Rightarrow> Inl e
      | None \<Rightarrow>
          (let relative = relative_to (pp_Destination p) path in
           if CitesSocleByHistory relative then verify_files ff p d paths remaining
           else case os_ReadFile ff path d of
             Inl e \<Rightarrow> Inl (Errorf [Lit (''re-reading '' @ relative @ '': ''), W e])
           | Inr content \<Rightarrow>
               verify_files ff p d paths (if contains_str content (pp_SocleModule p) then remaining @ [relative] else remaining)))"

definition VerifyNoTrace :: "fs_faults \<Rightarrow> project_plan \<Rightarrow> disk \<Rightarrow> err + str list" where
  "VerifyNoTrace ff p d =
     (case (case ff WalkOp (pp_Destination p) of
              Some e \<Rightarrow> Inl e
            | None \<Rightarrow> verify_files ff p d (walk_files (pp_Destination p) d) []) of
        Inl e \<Rightarrow> Inl (Errorf [Lit ''verifying the generated project: '', W e])
      | Inr remaining \<Rightarrow> Inr remaining)"

record project_report =
  prp_Files :: nat
  prp_GitInitialised :: bool

text \<open>What the tools answer: \<open>git ls-files\<close> in the starter, \<open>go build\<close> and the two git commands in the project,
  whose effect on the disk is theirs.\<close>

record tools =
  tl_ls_files :: "err + bytes"
  tl_build :: "str option"
  tl_init :: "err option"
  tl_hooks :: "err option"

definition compile :: "tools \<Rightarrow> err option" where
  "compile t =
     (case tl_build t of
        Some out \<Rightarrow> Some (Opaque (''the generated project does not build '' @ em_dash
          @ '' the generation is at fault, not the project:'' @ newline # out))
      | None \<Rightarrow> None)"

definition initGit :: "tools \<Rightarrow> err option" where
  "initGit t =
     (case tl_init t of
        Some e \<Rightarrow> Some (Errorf [Lit ''git repository not initialised: '', W e])
      | None \<Rightarrow>
          (case tl_hooks t of Some e \<Rightarrow> Some (Errorf [Lit ''git repository not initialised: '', W e]) | None \<Rightarrow> None))"

definition CreateProject :: "fs_faults \<Rightarrow> tools \<Rightarrow> project_plan \<Rightarrow> disk \<Rightarrow> (err + project_report) \<times> disk" where
  "CreateProject ff t p d =
     (case TrackedFiles (tl_ls_files t) (pp_Source p) of
        Inl e \<Rightarrow> (Inl e, d)
      | Inr files \<Rightarrow>
     (case CopyProject ff p files d of
        (Some e, d1) \<Rightarrow> (Inl e, d1)
      | (None, d1) \<Rightarrow>
     (case VerifyNoTrace ff p d1 of
        Inl e \<Rightarrow> (Inl e, d1)
      | Inr remaining \<Rightarrow>
          if remaining \<noteq> [] then
            (Inl (Opaque (''the starter path remains in '' @ show_nat (length remaining) @ '' file(s) '' @ em_dash
              @ '' the project would silently depend on another repository:'' @ concat (map (\<lambda>f. newline # ''  '' @ f) remaining)
              @ newline # newline # ''Add them to the rewrite, or declare them in CitesSocleByHistory '' @ em_dash
              @ '' never let them through'')), d1)
          else
     (case compile t of
        Some e \<Rightarrow> (Inl e, d1)
      | None \<Rightarrow> (Inr \<lparr> prp_Files = length files, prp_GitInitialised = (initGit t = None) \<rparr>, d1)))))"

section \<open>What the copy leaves\<close>

lemma copyOne_cases:
  assumes "copyOne ff p f d = (r, d')"
  shows "(\<exists>e. r = Some e) \<and> dk_nodes d' = dk_nodes d
     \<or> r = None \<and> has_prefix (path_Join (pp_Destination p) f) (pp_Destination p @ [slash])
       \<and> (\<exists>c perm content. map_get (dk_nodes d) (path_Join (pp_Source p) f) = Some (Regular c perm)
            \<and> os_ReadFile ff (path_Join (pp_Source p) f) d = Inr content
            \<and> dk_nodes d' = map_set (path_Join (pp_Destination p) f) (Regular (rewritten p f content)
                (case map_get (dk_nodes d) (path_Join (pp_Destination p) f) of Some (Regular c q) \<Rightarrow> q | _ \<Rightarrow> perm)) (dk_nodes d))"
  using assms
  by (auto simp: copyOne_def Let_def os_Lstat_def os_MkdirAll_def os_WriteFile_def
      split: if_splits sum.splits node.splits option.splits prod.splits)

text \<open>Nothing outside the destination is touched, whatever the names of the files.\<close>

lemma CopyProject_stays:
  "CopyProject ff p fs d = (r, d') \<Longrightarrow> \<not> below (pp_Destination p) path \<Longrightarrow>
     map_get (dk_nodes d') path = map_get (dk_nodes d) path"
proof (induction fs arbitrary: d)
  case (Cons f fs)
  obtain q d1 where c: "copyOne ff p f d = (q, d1)" by fastforce
  have "map_get (dk_nodes d1) path = map_get (dk_nodes d) path"
    using copyOne_cases [OF c] Cons.prems(2) by (auto simp: below_def update_conv)
  then show ?case using Cons c by (cases q) auto
qed simp

definition faults_are_not_absence :: "fs_faults \<Rightarrow> bool" where
  "faults_are_not_absence ff \<longleftrightarrow> (\<forall>op path e. ff op path = Some e \<longrightarrow> \<not> errors_is e NotExist)"

lemma EmptyDestination_none:
  assumes "EmptyDestination ff path d = None" and "faults_are_not_absence ff" and "below path q"
  shows "map_get (dk_nodes d) q = None"
proof -
  have "entries path d = []"
    using assms(1,2) by (auto simp: EmptyDestination_def os_ReadDir_def faults_are_not_absence_def split: option.splits if_splits)
  then have "\<forall>x \<in> set (map fst (dk_nodes d)). \<not> below path x"
    by (auto simp: entries_def filter_empty_conv)
  then show ?thesis using assms(3) by (metis map_of_eq_None_iff set_map)
qed

lemma PlanProject_cases:
  assumes "PlanProject ff cwd destination target source d = Inr p"
  shows "EmptyDestination ff (pp_Destination p) d = None" and "pp_TargetModule p = target"
    and "pp_SocleModule p \<noteq> pp_TargetModule p"
  using assms by (auto simp: PlanProject_def split: if_splits sum.splits option.splits)

text \<open>Every file of the list is at its place, rewritten, with the permissions of its source, and nothing else is
  below the destination.\<close>

lemma CopyProject_copies:
  assumes run: "CopyProject ff p fs d = (None, d')" and inj: "inj_on (path_Join (pp_Destination p)) (set fs)" and "distinct fs"
    and src: "\<And>f. f \<in> set fs \<Longrightarrow> \<not> below (pp_Destination p) (path_Join (pp_Source p) f)"
    and empty: "\<And>f. f \<in> set fs \<Longrightarrow> map_get (dk_nodes d) (path_Join (pp_Destination p) f) = None"
  shows "(\<forall>f \<in> set fs. \<exists>content perm. map_get (dk_nodes d) (path_Join (pp_Source p) f) = Some (Regular content perm)
       \<and> map_get (dk_nodes d') (path_Join (pp_Destination p) f) = Some (Regular (rewritten p f content) perm))
     \<and> (\<forall>path. path \<notin> path_Join (pp_Destination p) ` set fs \<longrightarrow> map_get (dk_nodes d') path = map_get (dk_nodes d) path)"
  using assms
proof (induction fs arbitrary: d)
  case (Cons f fs)
  let ?t = "path_Join (pp_Destination p)" and ?s = "path_Join (pp_Source p)"
  obtain q d1 where c: "copyOne ff p f d = (q, d1)" by fastforce
  then have q: "q = None" using Cons.prems(1) by (cases q) auto
  then have rest: "CopyProject ff p fs d1 = (None, d')" using Cons.prems(1) c by simp
  from copyOne_cases [OF c] q obtain cc perm content where one: "has_prefix (?t f) (pp_Destination p @ [slash])"
      "map_get (dk_nodes d) (?s f) = Some (Regular cc perm)" "os_ReadFile ff (?s f) d = Inr content"
      "dk_nodes d1 = map_set (?t f) (Regular (rewritten p f content) perm) (dk_nodes d)"
    using Cons.prems(5) [of f] by auto
  have cc: "cc = content" using one(2,3) by (auto simp: os_ReadFile_def split: option.splits)
  have d1: "map_get (dk_nodes d1) x = (if x = ?t f then Some (Regular (rewritten p f content) perm) else map_get (dk_nodes d) x)" for x
    using one(4) by (simp add: update_conv)
  have below_t: "below (pp_Destination p) (?t f)" using one(1) by (simp add: below_def)
  have fresh: "?t g \<noteq> ?t f" if "g \<in> set fs" for g
    using Cons.prems(2,3) that by (auto simp: inj_on_def)
  have src1: "map_get (dk_nodes d1) (?s g) = map_get (dk_nodes d) (?s g)" if "g \<in> set (f # fs)" for g
    using d1 [of "?s g"] below_t Cons.prems(4) [OF that] by auto
  have ih: "(\<forall>g \<in> set fs. \<exists>content perm. map_get (dk_nodes d1) (?s g) = Some (Regular content perm)
       \<and> map_get (dk_nodes d') (?t g) = Some (Regular (rewritten p g content) perm))
     \<and> (\<forall>path. path \<notin> ?t ` set fs \<longrightarrow> map_get (dk_nodes d') path = map_get (dk_nodes d1) path)"
  proof (rule Cons.IH [OF rest])
    show "inj_on ?t (set fs)" using Cons.prems(2) by (auto simp: inj_on_def)
    show "map_get (dk_nodes d1) (?t g) = None" if "g \<in> set fs" for g
      using d1 [of "?t g"] fresh [OF that] Cons.prems(5) [of g] that by simp
  qed (use Cons.prems in auto)
  have "?t f \<notin> ?t ` set fs" using fresh by (metis imageE)
  then have "map_get (dk_nodes d') (?t f) = Some (Regular (rewritten p f content) perm)" using ih d1 by simp
  then have "\<exists>content perm. map_get (dk_nodes d) (?s f) = Some (Regular content perm)
       \<and> map_get (dk_nodes d') (?t f) = Some (Regular (rewritten p f content) perm)"
    using one(2) cc by blast
  moreover have "\<exists>content perm. map_get (dk_nodes d) (?s g) = Some (Regular content perm)
       \<and> map_get (dk_nodes d') (?t g) = Some (Regular (rewritten p g content) perm)" if "g \<in> set fs" for g
    using ih src1 [of g] that by (metis list.set_intros(2))
  moreover have "map_get (dk_nodes d') path = map_get (dk_nodes d) path" if "path \<notin> ?t ` set (f # fs)" for path
    using ih d1 [of path] that by simp
  ultimately show ?case by auto
qed simp

lemma verify_files_clean:
  assumes "verify_files ff p d paths acc = Inr []"
  shows "acc = [] \<and> (\<forall>path \<in> set paths. CitesSocleByHistory (relative_to (pp_Destination p) path)
     \<or> (\<exists>content. os_ReadFile ff path d = Inr content \<and> \<not> contains_str content (pp_SocleModule p)))"
  using assms
proof (induction paths arbitrary: acc)
  case (Cons path paths)
  then show ?case by (auto simp: Let_def split: option.splits if_splits sum.splits)
qed simp

lemma set_walk_files:
  assumes "\<And>path. path \<in> fst ` set (dk_nodes d) \<Longrightarrow> below dir path \<Longrightarrow> CHR 0x00 \<notin> set path"
  shows "set (walk_files dir d) = {path \<in> fst ` set (dk_nodes d). below dir path}"
proof -
  have again: "map (\<lambda>c. if c = CHR 0x00 then slash else c) (map (\<lambda>c. if c = slash then CHR 0x00 else c) s) = s"
    if "CHR 0x00 \<notin> set s" for s :: str
    using that by (induction s) auto
  have "set (walk_files dir d) = (\<lambda>s. map (\<lambda>c. if c = CHR 0x00 then slash else c) (map (\<lambda>c. if c = slash then CHR 0x00 else c) s))
      ` {path \<in> fst ` set (dk_nodes d). below dir path}"
    by (simp only: walk_files_def set_map set_sort_strings set_filter image_image)
  also have "\<dots> = (\<lambda>s. s) ` {path \<in> fst ` set (dk_nodes d). below dir path}"
    by (rule image_cong [OF refl]) (use assms again in auto)
  finally show ?thesis by simp
qed

lemma CopyProject_within:
  "CopyProject ff p fs d = (None, d') \<Longrightarrow> f \<in> set fs \<Longrightarrow> below (pp_Destination p) (path_Join (pp_Destination p) f)"
proof (induction fs arbitrary: d)
  case (Cons g gs)
  obtain q d1 where c: "copyOne ff p g d = (q, d1)" by fastforce
  then have "q = None" using Cons.prems(1) by (cases q) auto
  then show ?case using Cons c copyOne_cases [OF c] by (auto simp: below_def)
qed simp

lemma tracked_no_nul:
  assumes "TrackedFiles out root_dir = Inr fs" and "f \<in> set fs"
  shows "CHR 0x00 \<notin> set f"
  using assms split_char_segments by (fastforce simp: TrackedFiles_def Let_def split: sum.splits if_splits)

lemma join_no_nul:
  assumes "CHR 0x00 \<notin> set a" and "CHR 0x00 \<notin> set b"
  shows "CHR 0x00 \<notin> set (path_Join a b)"
  using assms chars_of_Clean [of a] chars_of_Clean [of b] chars_of_Clean [of "a @ slash # b"]
  by (auto simp: path_Join_def)


section \<open>A starter made of two files\<close>

definition no_fs_fault :: fs_faults where
  "no_fs_fault op path = None"

definition demo_disk :: disk where
  "demo_disk = \<lparr> dk_nodes = [(''/s/go.mod'', Regular (''module h/o'' @ [newline]) 420), (''/s/a.go'', Regular ''import h/o/x'' 493)],
     dk_dirs = [''/s''] \<rparr>"

definition demo_tools :: tools where
  "demo_tools = \<lparr> tl_ls_files = Inr (''a.go'' @ [CHR 0x00] @ ''go.mod'' @ [CHR 0x00]), tl_build = None, tl_init = None, tl_hooks = None \<rparr>"

definition demo_plan :: project_plan where
  "demo_plan = \<lparr> pp_Source = ''/s'', pp_Destination = ''/p'', pp_SocleModule = ''h/o'', pp_TargetModule = ''h/n'' \<rparr>"


section \<open>A target that contains the starter\<close>

lemma replace_all_leaves_new:
  "contains_str s old \<Longrightarrow> old \<noteq> [] \<Longrightarrow> contains_str (replace_all old new s) new"
proof (induction old new s rule: replace_all.induct)
  case (1 old new)
  then show ?case by simp
next
  case (2 old new c s)
  show ?case
  proof (cases "has_prefix (c # s) old")
    case True
    then show ?thesis using "2.prems"(2) by (auto simp: contains_str_iff)
  next
    case False
    then have "contains_str (replace_all old new s) new" using "2.IH"(2) "2.prems" by auto
    then show ?thesis using False by (auto simp: contains_str_iff) (metis append_Cons)
  qed
qed

text \<open>\<open>PlanProject\<close> accepts a module path that contains the one of the starter, and the creation then fails
  every time, with the project on the disk.\<close>

lemma containing_target_fails:
  assumes create: "CreateProject ff t p d = (Inr rep, d')" and files: "TrackedFiles (tl_ls_files t) (pp_Source p) = Inr fs"
    and target: "contains_str (pp_TargetModule p) (pp_SocleModule p)" "pp_SocleModule p \<noteq> []"
    and f: "map_get (dk_nodes d') (path_Join (pp_Destination p) f) = Some (Regular (rewritten p f content) perm)"
      "contains_str content (pp_SocleModule p)" "\<not> CitesSocleByHistory f"
    and at: "path_Join (pp_Destination p) f \<in> set (walk_files (pp_Destination p) d')"
      "relative_to (pp_Destination p) (path_Join (pp_Destination p) f) = f"
  shows False
proof -
  have "VerifyNoTrace ff p d' = Inr []"
    using create files by (auto simp: CreateProject_def split: prod.splits option.splits sum.splits if_splits)
  then have "verify_files ff p d' (walk_files (pp_Destination p) d') [] = Inr []"
    by (auto simp: VerifyNoTrace_def split: option.splits sum.splits)
  from verify_files_clean [OF this] at f(3)
  obtain content' where "os_ReadFile ff (path_Join (pp_Destination p) f) d' = Inr content'" "\<not> contains_str content' (pp_SocleModule p)"
    by auto
  then have "\<not> contains_str (rewritten p f content) (pp_SocleModule p)"
    using f(1) by (auto simp: os_ReadFile_def split: option.splits)
  moreover have "contains_str (rewritten p f content) (pp_TargetModule p)"
    using replace_all_leaves_new [OF f(2) target(2)] f(3) by (simp add: rewritten_def)
  ultimately show False using target(1) by (auto simp: contains_str_iff) (metis append.assoc)
qed

lemma containing_target_example:
  "\<not> isl (PlanProject no_fs_fault (Inr ''/w'') ''/p'' ''h/o-shop'' ''/s'' demo_disk)
     \<and> isl (fst (CreateProject no_fs_fault demo_tools (demo_plan\<lparr> pp_TargetModule := ''h/o-shop'' \<rparr>) demo_disk))
     \<and> map_get (dk_nodes (snd (CreateProject no_fs_fault demo_tools (demo_plan\<lparr> pp_TargetModule := ''h/o-shop'' \<rparr>) demo_disk))) ''/p/a.go''
       = Some (Regular ''import h/o-shop/x'' 493)"
  by (intro conjI) code_simp+

end
