(* ===== verification/Feature.thy ===== *)
theory Feature
  imports Generator
begin

text \<open>
  A business module created in a project (plan_feature.go, create_feature.go and isolation.go of
  internal/generator). Rendering a template and formatting Go are arguments, as is what the Go tool chain answers.
\<close>

section \<open>The sealing rule\<close>

definition name_byte :: "char \<Rightarrow> bool" where
  "name_byte c \<longleftrightarrow> c \<in> set ''abcdefghijklmnopqrstuvwxyz0123456789''"

text \<open>\<open>\s\<close> of a regular expression.\<close>

definition re_space :: "char \<Rightarrow> bool" where
  "re_space c \<longleftrightarrow> c \<in> {CHR '' '', CHR 0x09, CHR 0x0A, CHR 0x0C, CHR 0x0D}"

definition sealing_head :: str where "sealing_head = ''- \"**.internal.modules.!(''"
definition sealing_tail :: str where "sealing_tail = '').**\"''"

text \<open>\<open>isolationPattern\<close> matches up to the end of this line: the item after white space, which may be that of a
  blank line before it. The line feed belongs to \<open>\s\<close> and not to the lines.\<close>

definition sealing_item :: "str \<Rightarrow> bool" where
  "sealing_item s \<longleftrightarrow>
     (case cut_prefix s sealing_head of
        None \<Rightarrow> False
      | Some rest \<Rightarrow>
          (let name = takeWhile (\<lambda>c. name_byte c \<or> c = CHR ''_'') rest
           in name \<noteq> [] \<and> drop (length name) rest = sealing_tail))"

definition sealing_line :: "bool \<Rightarrow> str \<Rightarrow> bool" where
  "sealing_line after_blank l \<longleftrightarrow>
     sealing_item (dropWhile re_space l) \<and> (after_blank \<or> (l \<noteq> [] \<and> re_space (hd l)))"

text \<open>The end of the last match, at \<open>pos\<close> bytes into the file.\<close>

fun last_sealing :: "nat \<Rightarrow> bool \<Rightarrow> str list \<Rightarrow> nat option \<Rightarrow> nat option" where
  "last_sealing pos after_blank [] found = found"
| "last_sealing pos after_blank (l # ls) found =
     last_sealing (pos + length l + 1) (list_all re_space l) ls
       (if sealing_line after_blank l then Some (pos + length l) else found)"

record isolation_anchor =
  ia_path :: str
  ia_content :: str
  ia_after :: nat

definition IsolationRule :: "str \<Rightarrow> str" where
  "IsolationRule dir =
     ''  - package: \"**.internal.modules.'' @ dir @ ''.**\"'' @ newline #
     ''    shouldNotDependsOn:'' @ newline #
     ''      internal:'' @ newline #
     ''        '' @ sealing_head @ dir @ sealing_tail @ [newline]"

definition FindIsolationAnchor :: "fs_faults \<Rightarrow> str \<Rightarrow> str \<Rightarrow> disk \<Rightarrow> err + isolation_anchor" where
  "FindIsolationAnchor ff project dir d =
     (let path = path_Join project ''arch-go.yml'' in
      case os_ReadFile ff path d of
        Inl e \<Rightarrow> Inl (Errorf [Lit (path @ '' is unreadable '' @ em_dash
          @ '' is this really the root of a project made from the starter? ''), W e])
      | Inr content \<Rightarrow>
          if contains_str content (''internal.modules.'' @ dir @ ''.**'') then
            Inl (Opaque (''arch-go.yml already declares a rule for '' @ quote_text dir @ '' '' @ em_dash @ '' does the module exist elsewhere?''))
          else (case last_sealing 0 False (split_char newline content) None of
             None \<Rightarrow> Inl (Opaque (''no sealing rule in '' @ path @ '': cannot add the one for '' @ quote_text dir @ ''.'' @ newline #
                ''       Deliberate refusal '' @ em_dash @ '' creating a module NO rule guards would be worse'' @ newline #
                ''       than not creating it. Add it by hand, under `dependenciesRules:`:'' @ newline # newline # IsolationRule dir))
           | Some after \<Rightarrow> Inr \<lparr> ia_path = path, ia_content = content, ia_after = after \<rparr>))"

text \<open>\<open>strings.TrimRight(s, "\n")\<close>.\<close>

definition trim_newlines :: "str \<Rightarrow> str" where
  "trim_newlines s = rev (dropWhile (\<lambda>c. c = newline) (rev s))"

definition DeclareIsolation :: "fs_faults \<Rightarrow> isolation_anchor \<Rightarrow> str \<Rightarrow> disk \<Rightarrow> err option \<times> disk" where
  "DeclareIsolation ff a dir d =
     (let merged = take (ia_after a) (ia_content a) @ [newline, newline] @ trim_newlines (IsolationRule dir)
            @ drop (ia_after a) (ia_content a) in
      case os_WriteFile ff (ia_path a) merged 384 d of
        (Some e, d1) \<Rightarrow> (Some (Errorf [Lit (''writing '' @ ia_path a @ '': ''), W e]), d1)
      | (None, d1) \<Rightarrow> (None, d1))"

section \<open>Planning a module\<close>

text \<open>\<open>^[a-z][a-z0-9]*(_[a-z0-9]+)*$\<close>: words of letters and digits between underscores, the first of which
  starts with a letter.\<close>

definition validFeatureName :: "str \<Rightarrow> bool" where
  "validFeatureName name \<longleftrightarrow>
     (let words = split_char CHR ''_'' name in
      list_all (\<lambda>w. w \<noteq> [] \<and> list_all name_byte w) words \<and> hd (hd words) \<notin> set ''0123456789'')"

record feature_plan =
  fp_Root :: str
  fp_Destination :: str
  fp_Module :: str
  fp_Dir :: str
  fp_Package :: str
  fp_anchor :: isolation_anchor

definition PlanFeature :: "fs_faults \<Rightarrow> err + str \<Rightarrow> str \<Rightarrow> str \<Rightarrow> disk \<Rightarrow> err + feature_plan" where
  "PlanFeature ff cwd name project d =
     (if \<not> validFeatureName name then
        Inl (Opaque (''invalid module name '' @ quote_text name @ '' '' @ em_dash @ '' snake_case expected: `billing`, `order_tracking`''))
      else case path_Abs cwd project of
        Inl e \<Rightarrow> Inl (Errorf [Lit ''project path: '', W e])
      | Inr absRoot \<Rightarrow>
     (case ModulePathOf ff absRoot d of
        Inl e \<Rightarrow> Inl e
      | Inr md \<Rightarrow>
          (let destination = path_Join absRoot (''internal/modules/'' @ name) in
           case EmptyDestination ff destination d of
             Some occupied \<Rightarrow> Inl (Errorf [Lit ''the module already exists: '', W occupied])
           | None \<Rightarrow>
          (case FindIsolationAnchor ff absRoot name d of
             Inl e \<Rightarrow> Inl e
           | Inr anchor \<Rightarrow> Inr \<lparr> fp_Root = absRoot, fp_Destination = destination, fp_Module = md, fp_Dir = name,
               fp_Package = replace_all ''_'' [] name, fp_anchor = anchor \<rparr>))))"

section \<open>Creating a module\<close>

text \<open>The embedded templates, in the order of the walk: a path below the root of the templates, and what reading,
  executing and formatting it gives for a plan.\<close>

type_synonym templates = "(str \<times> (feature_plan \<Rightarrow> err + bytes)) list"

definition renderOne :: "fs_faults \<Rightarrow> (feature_plan \<Rightarrow> err + bytes) \<Rightarrow> str \<Rightarrow> feature_plan \<Rightarrow> disk \<Rightarrow> err option \<times> disk" where
  "renderOne ff render target p d =
     (case render p of
        Inl e \<Rightarrow> (Some e, d)
      | Inr rendered \<Rightarrow>
     (case os_MkdirAll ff (path_Dir target) d of
        (Some e, d1) \<Rightarrow> (Some (Errorf [Lit (''creating '' @ path_Dir target @ '': ''), W e]), d1)
      | (None, d1) \<Rightarrow>
     (case os_WriteFile ff target rendered 384 d1 of
        (Some e, d2) \<Rightarrow> (Some (Errorf [Lit (''writing '' @ target @ '': ''), W e]), d2)
      | (None, d2) \<Rightarrow> (None, d2))))"

fun render_all :: "fs_faults \<Rightarrow> templates \<Rightarrow> feature_plan \<Rightarrow> disk \<Rightarrow> err option \<times> disk" where
  "render_all ff [] p d = (None, d)"
| "render_all ff ((relative, render) # ts) p d =
     (case renderOne ff render (path_Join (fp_Destination p) (trim_suffix relative ''.tmpl'')) p d of
        (Some e, d1) \<Rightarrow> (Some e, d1)
      | (None, d1) \<Rightarrow> render_all ff ts p d1)"

definition RenderFeature :: "fs_faults \<Rightarrow> templates \<Rightarrow> feature_plan \<Rightarrow> disk \<Rightarrow> err option \<times> disk" where
  "RenderFeature ff ts p d =
     (case render_all ff ts p d of
        (Some e, d1) \<Rightarrow> (Some (Errorf [Lit ''rendering the module template: '', W e]), d1)
      | (None, d1) \<Rightarrow> (None, d1))"

text \<open>What \<open>go build ./...\<close> and \<open>go test ./...\<close> print when they fail.\<close>

definition proveFeature :: "str option \<Rightarrow> str option \<Rightarrow> err option" where
  "proveFeature build test =
     (let failed = (\<lambda>cmd out. Some (Opaque (''the generated module does not pass `'' @ cmd @ ''` '' @ em_dash
            @ '' the generation is at fault, not the module:'' @ newline # out))) in
      case build of
        Some out \<Rightarrow> failed ''go build ./...'' out
      | None \<Rightarrow> (case test of Some out \<Rightarrow> failed ''go test ./...'' out | None \<Rightarrow> None))"

definition CreateFeature :: "fs_faults \<Rightarrow> templates \<Rightarrow> str option \<Rightarrow> str option \<Rightarrow> feature_plan \<Rightarrow> disk \<Rightarrow> err option \<times> disk" where
  "CreateFeature ff ts build test p d =
     (case RenderFeature ff ts p d of
        (Some e, d1) \<Rightarrow> (Some e, d1)
      | (None, d1) \<Rightarrow>
          (case DeclareIsolation ff (fp_anchor p) (fp_Dir p) d1 of
             (Some e, d2) \<Rightarrow> (Some e, d2)
           | (None, d2) \<Rightarrow> (proveFeature build test, d2)))"

section \<open>Where a rule goes\<close>

definition span :: "str list \<Rightarrow> nat" where
  "span ls = sum_list (map (\<lambda>l. length l + 1) ls)"

lemma span_split: "span (split_char c s) = Suc (length s)"
  by (induction s) (auto simp: span_def split: list.splits)

lemma split_char_cut: "split_char c (a @ c # b) = split_char c a @ split_char c b"
  by (induction a) (auto split: list.splits)

lemma split_char_first:
  "split_char c s = l # ys \<Longrightarrow> c \<notin> set l \<and> take (length l) s = l
     \<and> (ys = [] \<and> drop (length l) s = [] \<or> (\<exists>r. drop (length l) s = c # r \<and> split_char c r = ys))"
proof (induction s arbitrary: l)
  case (Cons x s)
  show ?case
  proof (cases "x = c")
    case False
    obtain l1 ys1 where sp: "split_char c s = l1 # ys1" using split_char_nonempty by (meson list.exhaust)
    then have "l = x # l1" "ys = ys1" using Cons.prems False by simp_all
    then show ?thesis using Cons.IH [OF sp [unfolded \<open>ys = ys1\<close> [symmetric]]] False by auto
  qed (use Cons.prems in auto)
qed simp

lemma split_char_take:
  assumes "split_char c s = xs @ l # ys"
  shows "split_char c (take (span xs + length l) s) = xs @ [l]
     \<and> (ys = [] \<and> drop (span xs + length l) s = [] \<or> (\<exists>r. drop (span xs + length l) s = c # r \<and> split_char c r = ys))"
  using assms
proof (induction xs arbitrary: s)
  case Nil
  then show ?case using split_char_first [of c s l ys] split_char_none [of c l] by (auto simp: span_def)
next
  case (Cons x xs)
  from split_char_first [of c s x "xs @ l # ys"] Cons.prems
  obtain r where x: "c \<notin> set x" "take (length x) s = x" "drop (length x) s = c # r" "split_char c r = xs @ l # ys" by auto
  then have s: "s = x @ c # r" by (metis append_take_drop_id)
  have n: "span (x # xs) = length x + 1 + span xs" by (simp add: span_def)
  have "take (span (x # xs) + length l) s = x @ c # take (span xs + length l) r"
    and "drop (span (x # xs) + length l) s = drop (span xs + length l) r"
    by (simp_all add: s n)
  then show ?case using Cons.IH [OF x(4)] split_char_cut [of c x] split_char_none [OF x(1)] by simp
qed

lemma last_sealing_append:
  "last_sealing pos b (xs @ ys) f
     = last_sealing (pos + span xs) (if xs = [] then b else list_all re_space (last xs)) ys (last_sealing pos b xs f)"
  by (induction xs arbitrary: pos b f) (auto simp: span_def add.assoc)

lemma last_sealing_found: "last_sealing pos b ls (Some n) \<noteq> None"
  by (induction ls arbitrary: pos b n) auto

lemma last_sealing_none:
  "last_sealing pos b ls None = None \<Longrightarrow> last_sealing pos' b ls f = f"
proof (induction ls arbitrary: pos pos' b f)
  case (Cons l ls)
  then show ?case by (auto split: if_splits simp: last_sealing_found)
qed simp

lemma sealing_line_not_blank: "sealing_line b l \<Longrightarrow> \<not> list_all re_space l"
proof
  assume s: "sealing_line b l" and blank: "list_all re_space l"
  have "dropWhile re_space l = []" using blank by (simp add: list_all_iff)
  then have "sealing_item []" using s unfolding sealing_line_def by metis
  then show False by (simp add: sealing_item_def cut_prefix_def has_prefix_def sealing_head_def)
qed

lemma last_sealing_some:
  "last_sealing pos b ls None = Some n \<Longrightarrow>
     \<exists>xs l ys. ls = xs @ l # ys \<and> n = pos + span xs + length l \<and> \<not> list_all re_space l \<and> last_sealing 0 False ys None = None"
proof (induction ls arbitrary: pos b)
  case (Cons l ls)
  show ?case
  proof (cases "last_sealing (pos + length l + 1) (list_all re_space l) ls None")
    case None
    then have m: "sealing_line b l" "n = pos + length l"
      using Cons.prems last_sealing_none [OF None] by (auto split: if_splits)
    have nb: "\<not> list_all re_space l" by (rule sealing_line_not_blank) (rule m(1))
    have "last_sealing 0 False ls None = None"
      using last_sealing_none [OF None] nb by (metis (full_types))
    then show ?thesis using m nb by (intro exI [of _ "[]"] exI [of _ l] exI [of _ ls]) (simp add: span_def)
  next
    case (Some k)
    have later: "last_sealing q b1 ms (Some x) = (case last_sealing q b1 ms None of None \<Rightarrow> Some x | Some y \<Rightarrow> Some y)" for q b1 ms x
    proof (induction ms arbitrary: q b1 x)
      case (Cons m ms)
      then show ?case by (simp split: option.split)
    qed simp
    have "k = n" using Cons.prems Some by (auto simp: later split: if_splits)
    from Cons.IH [OF Some [unfolded this]] obtain xs l1 ys where
      "ls = xs @ l1 # ys" "n = pos + length l + 1 + span xs + length l1" "\<not> list_all re_space l1" "last_sealing 0 False ys None = None"
      by blast
    then show ?thesis by (intro exI [of _ "l # xs"] exI [of _ l1] exI [of _ ys]) (simp add: span_def)
  qed
qed simp

lemma last_sealing_within:
  assumes "last_sealing 0 False (split_char newline content) None = Some n"
  shows "n \<le> length content"
proof -
  from last_sealing_some [OF assms] obtain xs l ys where ls: "split_char newline content = xs @ l # ys" "n = span xs + length l"
    by auto
  show ?thesis
  proof (rule ccontr)
    assume "\<not> n \<le> length content"
    then have "split_char newline content = xs @ [l]" using split_char_take [OF ls(1)] ls(2) by simp
    then have "span (split_char newline content) = Suc n" using ls(2) by (simp add: span_def)
    moreover have "span (split_char newline content) = Suc (length content)" by (rule span_split)
    ultimately show False using \<open>\<not> n \<le> length content\<close> by simp
  qed
qed

text \<open>The lines of a rule, and where the anchor of a file is once the rule stands behind it.\<close>

definition rule_lines :: "str \<Rightarrow> str list" where
  "rule_lines dir = [''  - package: \"**.internal.modules.'' @ dir @ ''.**\"'', ''    shouldNotDependsOn:'', ''      internal:'',
     ''        '' @ sealing_head @ dir @ sealing_tail]"

definition rule_text :: "str \<Rightarrow> str" where
  "rule_text dir = trim_newlines (IsolationRule dir)"

lemma rule_text_eq:
  "rule_text dir = ''  - package: \"**.internal.modules.'' @ dir @ ''.**\"'' @ newline # ''    shouldNotDependsOn:'' @ newline #
     ''      internal:'' @ newline # ''        '' @ sealing_head @ dir @ sealing_tail"
  by (simp add: rule_text_def trim_newlines_def IsolationRule_def sealing_tail_def)

lemma valid_name_bytes:
  assumes "validFeatureName name"
  shows "name \<noteq> [] \<and> (\<forall>c \<in> set name. name_byte c \<or> c = CHR ''_'')"
proof -
  have words: "w \<noteq> [] \<and> list_all name_byte w" if "w \<in> set (split_char CHR ''_'' name)" for w
    using assms that by (auto simp: validFeatureName_def Let_def list_all_iff)
  have "c \<in> set name \<Longrightarrow> c = CHR ''_'' \<or> (\<exists>w \<in> set (split_char CHR ''_'' name). c \<in> set w)" for c
  proof (induction name)
    case (Cons x xs)
    then show ?case by (cases "split_char CHR ''_'' xs") auto
  qed simp
  moreover have "name \<noteq> []" using words [of "[]"] by auto
  ultimately show ?thesis using words by (auto simp: list_all_iff)
qed

lemma name_byte_no_newline: "name_byte newline = False" "newline \<noteq> CHR ''_''"
  by (simp_all add: name_byte_def)

lemma name_byte_no_paren: "name_byte CHR '')'' = False" "CHR '')'' \<noteq> CHR ''_''"
  by (simp_all add: name_byte_def)

lemma name_no_newline: "validFeatureName name \<Longrightarrow> newline \<notin> set name"
  using valid_name_bytes [of name] name_byte_no_newline by blast

lemma split_rule_text:
  assumes "validFeatureName dir"
  shows "split_char newline (rule_text dir @ rest) = butlast (rule_lines dir) @ split_char newline (last (rule_lines dir) @ rest)"
proof -
  have "newline \<notin> set (''  - package: \"**.internal.modules.'' @ dir @ ''.**\"'')" using name_no_newline [OF assms] by simp
  note first = split_char_none [OF this]
  show ?thesis
    using split_char_cut [of newline "''  - package: \"**.internal.modules.'' @ dir @ ''.**\"''"]
    by (simp add: rule_text_eq rule_lines_def first [simplified])
qed

lemma rule_item_seals:
  assumes "validFeatureName dir"
  shows "sealing_line b (last (rule_lines dir))"
proof -
  have bytes: "dir \<noteq> []" "\<forall>c \<in> set dir. name_byte c \<or> c = CHR ''_''" using valid_name_bytes [OF assms] by simp_all
  have tw: "takeWhile (\<lambda>c. name_byte c \<or> c = CHR ''_'') (dir @ sealing_tail) = dir"
    using bytes(2) by (simp add: takeWhile_append sealing_tail_def name_byte_no_paren)
  have dw: "dropWhile re_space (last (rule_lines dir)) = sealing_head @ dir @ sealing_tail"
    by (simp add: rule_lines_def re_space_def sealing_head_def)
  have "cut_prefix (sealing_head @ dir @ sealing_tail) sealing_head = Some (dir @ sealing_tail)"
    by (simp add: cut_prefix_def)
  then have "sealing_item (sealing_head @ dir @ sealing_tail)" using tw bytes(1) by (simp add: sealing_item_def Let_def)
  then show ?thesis using dw by (simp add: sealing_line_def) (simp add: rule_lines_def re_space_def)
qed

lemma anchor_after_rule:
  assumes valid: "validFeatureName dir" and anchor: "last_sealing 0 False (split_char newline content) None = Some n"
  shows "last_sealing 0 False (split_char newline (take n content @ newline # newline # rule_text dir @ drop n content)) None
     = Some (n + 2 + length (rule_text dir))"
proof -
  from last_sealing_some [OF anchor] obtain xs l ys where ls: "split_char newline content = xs @ l # ys"
      "n = span xs + length l" "last_sealing 0 False ys None = None" by auto
  let ?rest = "drop n content" and ?r = "rule_text dir" and ?item = "last (rule_lines dir)"
  note parts = split_char_take [OF ls(1), folded ls(2)]
  have noline: "newline \<notin> set ?item" using name_no_newline [OF valid] by (simp add: rule_lines_def sealing_head_def sealing_tail_def)
  have rest: "split_char newline (?item @ ?rest) = ?item # ys"
    using parts split_char_cut [of newline ?item] split_char_none [OF noline] by auto
  have "split_char newline (take n content @ newline # newline # ?r @ ?rest) = (xs @ [l]) @ [[]] @ butlast (rule_lines dir) @ ?item # ys"
    using parts split_char_cut [of newline "take n content"] split_rule_text [OF valid, of ?rest] rest by simp
  then have lines: "split_char newline (take n content @ newline # newline # ?r @ ?rest) = ((xs @ [l]) @ [[]] @ rule_lines dir) @ ys"
    by (simp add: rule_lines_def)
  have len: "span ((xs @ [l]) @ [[]] @ butlast (rule_lines dir)) + length ?item = n + 2 + length ?r"
    by (simp add: span_def ls(2) rule_lines_def rule_text_eq)
  have blank: "\<not> list_all re_space ?item" by (rule sealing_line_not_blank) (rule rule_item_seals [OF valid, of False])
  have rl: "(xs @ [l]) @ [[]] @ rule_lines dir = ((xs @ [l]) @ [[]] @ butlast (rule_lines dir)) @ [?item]"
    by (simp add: rule_lines_def)
  have found: "last_sealing 0 False ((xs @ [l]) @ [[]] @ rule_lines dir) None = Some (n + 2 + length ?r)"
    unfolding rl last_sealing_append [where ys = "[?item]"] using rule_item_seals [OF valid] len by simp
  have state: "(if (xs @ [l]) @ [[]] @ rule_lines dir = [] then False else list_all re_space (last ((xs @ [l]) @ [[]] @ rule_lines dir))) = False"
    using blank by (simp add: rule_lines_def)
  show ?thesis
    unfolding lines last_sealing_append [where ys = ys] found state by (rule last_sealing_none) (rule ls(3))
qed

section \<open>Where the files of a module go\<close>

text \<open>The names of an embedded file system: no empty component, and none that stands for a directory.\<close>

definition template_names :: "templates \<Rightarrow> bool" where
  "template_names ts \<longleftrightarrow> list_all (\<lambda>t. list_all plain (split_char slash (trim_suffix (fst t) ''.tmpl''))) ts"

lemma valid_name_plain: "validFeatureName name \<Longrightarrow> plain name"
proof -
  assume "validFeatureName name"
  then have bytes: "name \<noteq> []" "\<forall>c \<in> set name. name_byte c \<or> c = CHR ''_''" using valid_name_bytes by simp_all
  have "\<not> name_byte CHR ''.''" "\<not> name_byte slash" "CHR ''.'' \<noteq> CHR ''_''" "slash \<noteq> CHR ''_''"
    by (simp_all add: name_byte_def)
  then have "CHR ''.'' \<notin> set name" "slash \<notin> set name" using bytes(2) by blast+
  then show "plain name" using bytes(1) by (auto simp: plain_def)
qed

lemma join_below:
  assumes "dest = path_Clean x" and "clean_components x \<noteq> []" and "list_all plain (split_char slash rel)"
  shows "below dest (path_Join dest rel)"
proof -
  let ?cs = "split_char slash rel"
  have rel: "rel = join_path ?cs" by (rule join_split_path [symmetric])
  have dest: "dest \<noteq> []" "clean_components dest = clean_components x" "is_rooted dest = is_rooted x"
    using assms(1) Clean_nonempty Clean_again by auto
  have "rel \<noteq> []" using assms(3) by (auto simp: plain_def)
  then have joined: "path_Join dest rel = path_Clean (dest @ slash # rel)" using dest(1) by (simp add: path_Join_def)
  note res = resolve_below [OF assms(3) split_char_nonempty dest(1), folded rel]
  have "clean_components (dest @ slash # rel) = clean_components x @ ?cs" "is_rooted (dest @ slash # rel) = is_rooted x"
    using res dest joined Clean_again by simp_all
  then have cleaned: "path_Clean (dest @ slash # rel) = (if is_rooted x then [slash] else []) @ join_path (clean_components x @ ?cs)"
    using assms(2) by (simp add: path_Clean_def Let_def join_path_append)
  have "dest = (if is_rooted x then [slash] else []) @ join_path (clean_components x)"
    using assms(1,2) by (simp add: path_Clean_def Let_def join_clean_empty)
  then have "path_Join dest rel = dest @ slash # rel"
    using joined cleaned join_path_append [OF assms(2) split_char_nonempty, of slash rel] rel by simp
  then show ?thesis by (simp add: below_def has_prefix_def)
qed

lemma joined_components:
  assumes "list_all plain cs" and "cs \<noteq> []"
  shows "\<exists>x. path_Join d (join_path cs) = path_Clean x \<and> clean_components x \<noteq> []"
proof (cases "d = []")
  case True
  have "join_path cs \<noteq> []" using assms by (cases cs rule: join_path.cases) (auto simp: plain_def)
  then have "path_Join d (join_path cs) = path_Clean (join_path cs)" using True by (simp add: path_Join_def)
  moreover have "clean_components (join_path cs) = cs" using clean_components_relative [OF assms(1), of 0] assms(2) by (metis append_Nil replicate_0)
  ultimately show ?thesis using assms(2) by auto
next
  case False
  note res = resolve_below [OF assms False, THEN conjunct2]
  let ?x = "if join_path cs = [] then d else d @ slash # join_path cs"
  have "path_Join d (join_path cs) = path_Clean ?x" using False by (simp add: path_Join_def)
  moreover from this have "clean_components ?x \<noteq> []" using res assms(2) Clean_again [of ?x] by simp
  ultimately show ?thesis by blast
qed

lemma PlanFeature_destination:
  assumes "PlanFeature ff cwd name project d = Inr p"
  shows "\<exists>x. fp_Destination p = path_Clean x \<and> clean_components x \<noteq> []"
proof -
  obtain absRoot where valid: "validFeatureName name" and dest: "fp_Destination p = path_Join absRoot (''internal/modules/'' @ name)"
    using assms by (auto simp: PlanFeature_def Let_def split: if_splits sum.splits option.splits)
  let ?cs = "[''internal'', ''modules'', name]"
  have cs: "list_all plain ?cs" "join_path ?cs = ''internal/modules/'' @ name" using valid_name_plain [OF valid] by (simp_all add: plain_def)
  show ?thesis unfolding dest cs(2) [symmetric] by (rule joined_components [OF cs(1)]) simp
qed

lemma templates_below:
  assumes "PlanFeature ff cwd name project d = Inr p" and "template_names ts"
  shows "list_all (\<lambda>t. below (fp_Destination p) (path_Join (fp_Destination p) (trim_suffix (fst t) ''.tmpl''))) ts"
  using PlanFeature_destination [OF assms(1)] assms(2) join_below by (auto simp: template_names_def list_all_iff)

section \<open>What a created module leaves\<close>

lemma PlanFeature_cases:
  assumes "PlanFeature ff cwd name project d = Inr p"
  shows "validFeatureName name" and "fp_Dir p = name" and "FindIsolationAnchor ff (fp_Root p) name d = Inr (fp_anchor p)"
  using assms by (auto simp: PlanFeature_def Let_def split: if_splits sum.splits option.splits)

lemma FindIsolationAnchor_cases:
  assumes "FindIsolationAnchor ff project dir d = Inr a"
  shows "os_ReadFile ff (path_Join project ''arch-go.yml'') d = Inr (ia_content a)" and "ia_path a = path_Join project ''arch-go.yml''"
    and "last_sealing 0 False (split_char newline (ia_content a)) None = Some (ia_after a)"
  using assms by (auto simp: FindIsolationAnchor_def Let_def split: if_splits sum.splits option.splits)

lemma WriteFile_reads:
  assumes "os_WriteFile ff path content perm d = (None, d')" and "os_ReadFile ff path d0 = Inr c"
  shows "os_ReadFile ff path d' = Inr content"
    and "q \<noteq> path \<Longrightarrow> map_get (dk_nodes d') q = map_get (dk_nodes d) q"
  using assms by (auto simp: os_WriteFile_def os_ReadFile_def update_conv split: option.splits if_splits)

lemma render_all_stays:
  "render_all ff ts p d = (r, d') \<Longrightarrow>
     list_all (\<lambda>t. below (fp_Destination p) (path_Join (fp_Destination p) (trim_suffix (fst t) ''.tmpl''))) ts \<Longrightarrow>
     \<not> below (fp_Destination p) path \<Longrightarrow> map_get (dk_nodes d') path = map_get (dk_nodes d) path"
proof (induction ts arbitrary: d)
  case (Cons t ts)
  obtain relative render where t: "t = (relative, render)" by fastforce
  let ?target = "path_Join (fp_Destination p) (trim_suffix relative ''.tmpl'')"
  obtain q d1 where one: "renderOne ff render ?target p d = (q, d1)" by fastforce
  have "?target \<noteq> path" using Cons.prems(2,3) t by auto
  then have same: "map_get (dk_nodes d1) path = map_get (dk_nodes d) path"
    using one by (auto simp: renderOne_def os_MkdirAll_def os_WriteFile_def update_conv
        split: sum.splits prod.splits option.splits if_splits)
  show ?case using Cons one same t by (cases q) auto
qed simp

lemma RenderFeature_stays:
  assumes "RenderFeature ff ts p d = (r, d')" and "\<not> below (fp_Destination p) path"
    and "list_all (\<lambda>t. below (fp_Destination p) (path_Join (fp_Destination p) (trim_suffix (fst t) ''.tmpl''))) ts"
  shows "map_get (dk_nodes d') path = map_get (dk_nodes d) path"
proof -
  obtain q d1 where "render_all ff ts p d = (q, d1)" by fastforce
  then show ?thesis using assms render_all_stays [of ff ts p d q d1 path] by (cases q) (auto simp: RenderFeature_def)
qed

lemma rule_mentions: "contains_str (xs @ rule_text dir @ ys) (''internal.modules.'' @ dir @ ''.**'')"
  unfolding contains_str_iff rule_text_eq by (rule exI [of _ "xs @ ''  - package: \"**.''"]) simp

text \<open>A module whose rule cannot be written is on the disk, and nothing guards it.\<close>

lemma unwritable_rule_leaves_module:
  assumes "RenderFeature ff ts p d = (None, d1)" and "ff WriteOp (ia_path (fp_anchor p)) = Some e"
  shows "CreateFeature ff ts build test p d = (Some (Errorf [Lit (''writing '' @ ia_path (fp_anchor p) @ '': ''), W e]), d1)"
  using assms by (simp add: CreateFeature_def DeclareIsolation_def os_WriteFile_def Let_def)

text \<open>C25: A module \<open>hexa make:feature\<close> reports as created is sealed: arch-go.yml is the file that was read,
  byte for byte, with the rule of the module after the last sealing rule; nothing else outside the module's own
  directory has changed; the same name is refused from then on; and any other name the file does not mention
  finds its place right after the new rule.\<close>

theorem feature_is_sealed:
  assumes plan: "PlanFeature ff cwd name project d = Inr p" and create: "CreateFeature ff ts build test p d = (None, d')"
    and embedded: "template_names ts"
  shows "\<exists>before after merged. os_ReadFile ff (path_Join (fp_Root p) ''arch-go.yml'') d = Inr (before @ after)
     \<and> merged = before @ newline # newline # rule_text name @ after
     \<and> os_ReadFile ff (path_Join (fp_Root p) ''arch-go.yml'') d' = Inr merged
     \<and> (\<forall>path. \<not> below (fp_Destination p) path \<and> path \<noteq> path_Join (fp_Root p) ''arch-go.yml''
          \<longrightarrow> map_get (dk_nodes d') path = map_get (dk_nodes d) path)
     \<and> isl (FindIsolationAnchor ff (fp_Root p) name d')
     \<and> (\<forall>other. \<not> contains_str merged (''internal.modules.'' @ other @ ''.**'') \<longrightarrow>
          FindIsolationAnchor ff (fp_Root p) other d' = Inr \<lparr> ia_path = path_Join (fp_Root p) ''arch-go.yml'', ia_content = merged,
            ia_after = length before + 2 + length (rule_text name) \<rparr>)"
proof -
  let ?path = "path_Join (fp_Root p) ''arch-go.yml''" and ?a = "fp_anchor p"
  let ?n = "ia_after ?a" and ?c = "ia_content ?a"
  let ?merged = "take ?n ?c @ newline # newline # rule_text name @ drop ?n ?c"
  note planned = PlanFeature_cases [OF plan]
  note anchor = FindIsolationAnchor_cases [OF planned(3)]
  obtain d1 where render: "RenderFeature ff ts p d = (None, d1)" and sealing: "DeclareIsolation ff ?a (fp_Dir p) d1 = (None, d')"
    using create by (auto simp: CreateFeature_def split: prod.splits option.splits)
  have stored: "os_WriteFile ff ?path ?merged 384 d1 = (None, d')"
    using sealing planned(2) anchor(2) by (auto simp: DeclareIsolation_def rule_text_def Let_def split: prod.splits option.splits)
  note written = WriteFile_reads [OF stored anchor(1)]
  have elsewhere: "map_get (dk_nodes d') path = map_get (dk_nodes d) path" if "\<not> below (fp_Destination p) path" "path \<noteq> ?path" for path
    using written(2) [OF that(2)] RenderFeature_stays [OF render that(1) templates_below [OF plan embedded]] by simp
  have "contains_str ?merged (''internal.modules.'' @ name @ ''.**'')"
    using rule_mentions [of "take ?n ?c @ [newline, newline]" name "drop ?n ?c"] by simp
  then have refused: "isl (FindIsolationAnchor ff (fp_Root p) name d')"
    using written(1) by (simp add: FindIsolationAnchor_def Let_def)
  note next_anchor = anchor_after_rule [OF planned(1) anchor(3)]
  have n: "length (take ?n ?c) = ?n"
    using last_sealing_within [OF anchor(3)] by simp
  have following: "FindIsolationAnchor ff (fp_Root p) other d' = Inr \<lparr> ia_path = ?path, ia_content = ?merged,
      ia_after = ?n + 2 + length (rule_text name) \<rparr>"
    if "\<not> contains_str ?merged (''internal.modules.'' @ other @ ''.**'')" for other
    using written(1) that next_anchor by (simp add: FindIsolationAnchor_def Let_def)
  show ?thesis
    using anchor(1) written(1) elsewhere refused following n
    by (intro exI [of _ "take ?n ?c"] exI [of _ "drop ?n ?c"] exI [of _ ?merged]) simp
qed

section \<open>A project with one module\<close>

definition demo_project :: disk where
  "demo_project = \<lparr> dk_nodes =
       [(''/p/go.mod'', Regular (''module h/n'' @ [newline]) 384),
        (''/p/arch-go.yml'', Regular (''dependenciesRules:'' @ newline # trim_newlines (IsolationRule ''users'') @ newline # ''# end'') 384)],
     dk_dirs = [] \<rparr>"

definition demo_templates :: templates where
  "demo_templates = [(''module.go.tmpl'', \<lambda>p. Inr (''package '' @ fp_Package p)), (''domain/order.go.tmpl'', \<lambda>p. Inr ''package domain'')]"

definition demo_feature :: feature_plan where
  "demo_feature = \<lparr> fp_Root = ''/p'', fp_Destination = ''/p/internal/modules/order_tracking'', fp_Module = ''h/n'',
     fp_Dir = ''order_tracking'', fp_Package = ''ordertracking'',
     fp_anchor = \<lparr> ia_path = ''/p/arch-go.yml'',
       ia_content = ''dependenciesRules:'' @ newline # trim_newlines (IsolationRule ''users'') @ newline # ''# end'', ia_after = 146 \<rparr> \<rparr>"

lemma demo_feature_runs:
  "PlanFeature no_fs_fault (Inr ''/p'') ''order_tracking'' ''.'' demo_project = Inr demo_feature"
  "fst (CreateFeature no_fs_fault demo_templates None None demo_feature demo_project) = None"
  "map_get (dk_nodes (snd (CreateFeature no_fs_fault demo_templates None None demo_feature demo_project)))
     ''/p/internal/modules/order_tracking/module.go'' = Some (Regular ''package ordertracking'' 384)"
  by code_simp+

theorem feature_is_sealed_witness:
  "\<exists>d'. CreateFeature no_fs_fault demo_templates None None demo_feature demo_project = (None, d')
     \<and> isl (FindIsolationAnchor no_fs_fault ''/p'' ''order_tracking'' d')
     \<and> map_get (dk_nodes d') ''/p/go.mod'' = Some (Regular (''module h/n'' @ [newline]) 384)
     \<and> (\<exists>before after. os_ReadFile no_fs_fault ''/p/arch-go.yml'' d' = Inr (before @ newline # newline # rule_text ''order_tracking'' @ after))"
proof -
  obtain d' where create: "CreateFeature no_fs_fault demo_templates None None demo_feature demo_project = (None, d')"
    using demo_feature_runs(2) by (metis prod.collapse)
  have embedded: "template_names demo_templates" by code_simp
  have paths: "\<not> below (fp_Destination demo_feature) ''/p/go.mod''" "fp_Root demo_feature = ''/p''" "path_Join ''/p'' ''arch-go.yml'' = ''/p/arch-go.yml''"
    by code_simp+
  have before: "map_get (dk_nodes demo_project) ''/p/go.mod'' = Some (Regular (''module h/n'' @ [newline]) 384)" by (simp add: demo_project_def)
  from feature_is_sealed [OF demo_feature_runs(1) create embedded] paths(1)
  have "isl (FindIsolationAnchor no_fs_fault ''/p'' ''order_tracking'' d')"
      "map_get (dk_nodes d') ''/p/go.mod'' = map_get (dk_nodes demo_project) ''/p/go.mod''"
      "\<exists>before after. os_ReadFile no_fs_fault ''/p/arch-go.yml'' d' = Inr (before @ newline # newline # rule_text ''order_tracking'' @ after)"
    unfolding paths(2,3) by auto
  then show ?thesis using create before by auto
qed

end
