(* ===== verification/Hexa.thy ===== *)
theory Hexa
  imports Feature User_Surfaces
begin

text \<open>
  The \<open>hexa\<close> command (cmd/hexa/main.go): the flag sets, the subcommands and what they print, over the
  generator. The state is the console and the disk; what the process is given is an argument.
\<close>

section \<open>Flags\<close>

text \<open>\<open>flag.FlagSet.Parse\<close> on a set of string flags: their values, the message of a usage error, or no message
  when help was asked for.\<close>

fun parse_flags :: "str list \<Rightarrow> (str, str) gomap \<Rightarrow> str option + (str, str) gomap" where
  "parse_flags [] vs = Inr vs"
| "parse_flags (s # args) vs =
     (if length s < 2 \<or> hd s \<noteq> CHR ''-'' \<or> s = ''--'' then Inr vs
      else (let body = (if s ! 1 = CHR ''-'' then drop 2 s else drop 1 s) in
        if hd body = CHR ''-'' \<or> hd body = CHR ''='' then Inl (Some (''bad flag syntax: '' @ s))
        else (case cut (CHR ''='') body of (nm, given, has) \<Rightarrow>
          if map_get vs nm = None then
            Inl (if nm = ''help'' \<or> nm = ''h'' then None else Some (''flag provided but not defined: -'' @ nm))
          else if has then parse_flags args (map_set nm given vs)
          else (case args of
              [] \<Rightarrow> Inl (Some (''flag needs an argument: -'' @ nm))
            | a # rest \<Rightarrow> parse_flags rest (map_set nm a vs)))))"

definition flag_value :: "str \<Rightarrow> (str, str) gomap \<Rightarrow> str" where
  "flag_value nm vs = (case map_get vs nm of Some v \<Rightarrow> v | None \<Rightarrow> [])"

text \<open>What the process is given: the failures of the disk, its working directory, what the tools answer, the
  embedded templates, its version and what a flag set prints of itself.\<close>

record hexa_env =
  hx_faults :: fs_faults
  hx_cwd :: "err + str"
  hx_tools :: tools
  hx_templates :: templates
  hx_build :: "str option"
  hx_test :: "str option"
  hx_version :: str
  hx_defaults :: "str \<Rightarrow> console \<Rightarrow> console"

type_synonym hexa_state = "console \<times> disk"

definition parse_set :: "hexa_env \<Rightarrow> str \<Rightarrow> (str, str) gomap \<Rightarrow> str list \<Rightarrow> console \<Rightarrow> (err + (str, str) gomap) \<times> console" where
  "parse_set he set_name defaults opts con =
     (case parse_flags opts defaults of
        Inr vs \<Rightarrow> (Inr vs, con)
      | Inl None \<Rightarrow> (Inl (Opaque ''flag: help requested''), hx_defaults he set_name con)
      | Inl (Some m) \<Rightarrow> (Inl (Opaque m), hx_defaults he set_name (say_err m con)))"

section \<open>Announcements\<close>

definition hexa_usage :: "console \<Rightarrow> console" where
  "hexa_usage con = fold say_out
     [''hexa '' @ em_dash @ '' tool of the hexagonal starter'',
      [],
      ''  hexa new <destination> --module <module/path>   creates a project'',
      ''  hexa make:feature <module_name>                 creates a business module'',
      ''  hexa version                                    prints the version'',
      [],
      ''Examples:'',
      ''  hexa new ./my-project --module github.com/impactone/facturation'',
      ''  hexa make:feature order_tracking'',
      [],
      ''Options of \"new\":'',
      ''  --module   REQUIRED. The Go module path of the created project.'',
      ''  --from     Root of the starter to copy (default: the current directory).'',
      ''             It must be a git repository: it is the TRACKED files that define'',
      ''             the starter, which rules out .git/, bin/ and .env.'',
      [],
      ''Options of \"make:feature\":'',
      ''  --into     Root of the project in which to create the module (default: the'',
      ''             current directory). The name is in snake_case: it becomes a'',
      ''             directory, a config/modules.yaml key, and '' @ em_dash @ '' without its'',
      ''             underscores '' @ em_dash @ '' a Go package.''] con"

definition announceProject :: "project_plan \<Rightarrow> project_report \<Rightarrow> console \<Rightarrow> console" where
  "announceProject p r con =
     (let con1 = fold say_out [''Project created in '' @ pp_Destination p, ''  module '' @ pp_TargetModule p,
            ''  files  '' @ show_nat (prp_Files r)] con;
          con2 = (if \<not> prp_GitInitialised r then
              say_err (''hexa: git repository not initialised '' @ em_dash @ '' run `git init` and ''
                @ ''`git config core.hooksPath .githooks` by hand'') con1
            else con1)
      in fold say_out
     [[],
      ''Next:'',
      ''  cd <destination>'',
      ''  task init          # .env and tooling'',
      ''  task check         # the quality gate, identical to the CI'',
      [],
      ''The demonstration module `internal/modules/user_registration` is the'',
      ''REFERENCE SLICE: its shape is the one to copy to write a business module.'',
      ''Removing it requires removing its mounting from cmd/server.''] con2)"

definition announceFeature :: "feature_plan \<Rightarrow> console \<Rightarrow> console" where
  "announceFeature p con = fold say_out
     [''Module '' @ fp_Dir p @ '' created in '' @ fp_Destination p, [],
      ''Three lines remain to be written, and they are NOT written for you:'',
      ''mounting a module is a decision per binary (ADR 014), not a consequence of its'',
      ''creation. A generator wiring everything on its own would produce mounted'',
      ''modules nobody chose to mount.'',
      [],
      ''1. internal/modules/catalog.go '' @ em_dash @ '' make the module DECLARABLE'',
      [],
      ''       '' @ fp_Package p @ ''.Catalog(),'',
      [],
      ''2. config/modules.yaml '' @ em_dash @ '' enable it'',
      [],
      ''       '' @ fp_Dir p @ '':'',
      ''         driver: memory'',
      [],
      ''3. cmd/server/main.go '' @ em_dash @ '' mount it'',
      [],
      ''       module, err := '' @ fp_Package p @ ''.New(cfg.Modules.DriverOf('' @ fp_Package p @ ''.Name), '' @ fp_Package p @ ''.Deps{'',
      ''           GenerateID: ...,'',
      ''           Now:        '' @ fp_Package p @ ''.SystemClock(),'',
      ''       })'',
      [],
      ''Then: task check''] con"

section \<open>Subcommands\<close>

definition commandNew :: "hexa_env \<Rightarrow> str list \<Rightarrow> hexa_state \<Rightarrow> err option \<times> hexa_state" where
  "commandNew he args = (\<lambda>(con, d).
     (let defaults = [(''module'', []), (''from'', ''.'')] in
      case SplitArguments args (FlagsWithValue (map fst defaults)) of (opts, positional) \<Rightarrow>
     (case parse_set he ''new'' defaults opts con of
        (Inl e, con1) \<Rightarrow> (Some (Errorf [Lit ''arguments: '', W e]), con1, d)
      | (Inr vs, con1) \<Rightarrow>
     (case positional of
        [destination] \<Rightarrow>
          (case PlanProject (hx_faults he) (hx_cwd he) destination (flag_value ''module'' vs) (flag_value ''from'' vs) d of
             Inl e \<Rightarrow> (Some (Errorf [Lit ''hexa new: '', W e]), con1, d)
           | Inr plan \<Rightarrow>
               (case CreateProject (hx_faults he) (hx_tools he) plan d of
                  (Inl e, d1) \<Rightarrow> (Some (Errorf [Lit ''hexa new: '', W e]), con1, d1)
                | (Inr report, d1) \<Rightarrow> (None, announceProject plan report con1, d1)))
      | _ \<Rightarrow> (Some (Opaque ''usage: hexa new <destination> --module <module/path>''), con1, d)))))"

definition commandFeature :: "hexa_env \<Rightarrow> str list \<Rightarrow> hexa_state \<Rightarrow> err option \<times> hexa_state" where
  "commandFeature he args = (\<lambda>(con, d).
     (let defaults = [(''into'', ''.'')] in
      case SplitArguments args (FlagsWithValue (map fst defaults)) of (opts, positional) \<Rightarrow>
     (case parse_set he ''make:feature'' defaults opts con of
        (Inl e, con1) \<Rightarrow> (Some (Errorf [Lit ''arguments: '', W e]), con1, d)
      | (Inr vs, con1) \<Rightarrow>
     (case positional of
        [name] \<Rightarrow>
          (case PlanFeature (hx_faults he) (hx_cwd he) name (flag_value ''into'' vs) d of
             Inl e \<Rightarrow> (Some (Errorf [Lit ''hexa make:feature: '', W e]), con1, d)
           | Inr plan \<Rightarrow>
               (case CreateFeature (hx_faults he) (hx_templates he) (hx_build he) (hx_test he) plan d of
                  (Some e, d1) \<Rightarrow> (Some (Errorf [Lit ''hexa make:feature: '', W e]), con1, d1)
                | (None, d1) \<Rightarrow> (None, announceFeature plan con1, d1)))
      | _ \<Rightarrow> (Some (Opaque ''usage: hexa make:feature <module_name>''), con1, d)))))"

definition hexa_run :: "hexa_env \<Rightarrow> str list \<Rightarrow> hexa_state \<Rightarrow> err option \<times> hexa_state" where
  "hexa_run he args = (\<lambda>(con, d).
     (case args of
        [] \<Rightarrow> (None, hexa_usage con, d)
      | command # rest \<Rightarrow>
          if command = ''new'' then commandNew he rest (con, d)
          else if command = ''make:feature'' then commandFeature he rest (con, d)
          else if command = ''version'' then (None, say_out (hx_version he) con, d)
          else if command \<in> {''help'', ''-h'', ''--help''} then (None, hexa_usage con, d)
          else (Some (Opaque (''unknown subcommand '' @ quote_text command @ '' '' @ em_dash @ '' `hexa help` lists what exists'')), con, d)))"

text \<open>The exit status, with the state.\<close>

definition hexa_main :: "hexa_env \<Rightarrow> str list \<Rightarrow> hexa_state \<Rightarrow> nat \<times> hexa_state" where
  "hexa_main he args s =
     (case hexa_run he args s of
        (None, s1) \<Rightarrow> (0, s1)
      | (Some e, con1, d1) \<Rightarrow> (1, say_err (''hexa: '' @ err_text e) con1, d1))"

section \<open>Options and positional arguments\<close>

text \<open>One option as it is written: alone, or with the value that follows it.\<close>

definition option_group :: "str list \<Rightarrow> str list \<Rightarrow> bool" where
  "option_group names g \<longleftrightarrow>
     (case g of
        [opt] \<Rightarrow> has_prefix opt ''-'' \<and> map_get (FlagsWithValue names) opt \<noteq> Some True
      | [opt, v] \<Rightarrow> has_prefix opt ''-'' \<and> map_get (FlagsWithValue names) opt = Some True
      | _ \<Rightarrow> False)"

lemma SplitArguments_option:
  assumes "option_group names g"
  shows "SplitArguments (g @ args) (FlagsWithValue names)
     = (g @ fst (SplitArguments args (FlagsWithValue names)), snd (SplitArguments args (FlagsWithValue names)))"
  using assms by (cases args) (auto simp: option_group_def split: list.splits prod.splits)

lemma SplitArguments_positional:
  "\<not> has_prefix arg ''-'' \<Longrightarrow> SplitArguments (arg # args) wv = (fst (SplitArguments args wv), arg # snd (SplitArguments args wv))"
  by (cases args) (auto split: prod.splits)

lemma SplitArguments_options:
  "list_all (option_group names) gs \<Longrightarrow>
     SplitArguments (concat gs @ args) (FlagsWithValue names)
       = (concat gs @ fst (SplitArguments args (FlagsWithValue names)), snd (SplitArguments args (FlagsWithValue names)))"
  by (induction gs) (simp_all add: SplitArguments_option)

lemma SplitArguments_anywhere:
  assumes "list_all (option_group names) gs" and "list_all (option_group names) hs" and "\<not> has_prefix arg ''-''"
  shows "SplitArguments (concat gs @ arg # concat hs) (FlagsWithValue names) = (concat gs @ concat hs, [arg])"
  using SplitArguments_options [OF assms(2), of "[]"] assms
  by (simp add: SplitArguments_options SplitArguments_positional)

lemma hexa_run_command:
  "hexa_run he (''new'' # rest) s = commandNew he rest s"
  "hexa_run he (''make:feature'' # rest) s = commandFeature he rest s"
  by (cases s, simp add: hexa_run_def)+

text \<open>The positional argument stands anywhere. Between whatever options of its flag set, in either
  spelling, with their values joined or following, the destination of \<open>hexa new\<close> and the name of
  \<open>hexa make:feature\<close> give the same run as before them all, with the same output and the same disk.\<close>

theorem options_stand_anywhere:
  assumes "\<not> has_prefix arg ''-''"
    and "list_all (option_group [''module'', ''from'']) gs" and "list_all (option_group [''module'', ''from'']) hs"
    and "list_all (option_group [''into'']) ks" and "list_all (option_group [''into'']) js"
  shows "hexa_main he (''new'' # concat gs @ arg # concat hs) s = hexa_main he (''new'' # arg # concat (gs @ hs)) s
     \<and> hexa_main he (''make:feature'' # concat ks @ arg # concat js) s = hexa_main he (''make:feature'' # arg # concat (ks @ js)) s"
proof -
  have "SplitArguments (concat gs @ arg # concat hs) (FlagsWithValue [''module'', ''from''])
      = SplitArguments (arg # concat (gs @ hs)) (FlagsWithValue [''module'', ''from''])"
    using SplitArguments_anywhere [OF assms(2,3,1)] SplitArguments_anywhere [of "[''module'', ''from'']" "[]" "gs @ hs" arg] assms
    by simp
  then have new: "commandNew he (concat gs @ arg # concat hs) = commandNew he (arg # concat (gs @ hs))"
    by (simp only: commandNew_def Let_def list.map fst_conv)
  have "SplitArguments (concat ks @ arg # concat js) (FlagsWithValue [''into''])
      = SplitArguments (arg # concat (ks @ js)) (FlagsWithValue [''into''])"
    using SplitArguments_anywhere [OF assms(4,5,1)] SplitArguments_anywhere [of "[''into'']" "[]" "ks @ js" arg] assms
    by simp
  then have feature: "commandFeature he (concat ks @ arg # concat js) = commandFeature he (arg # concat (ks @ js))"
    by (simp only: commandFeature_def Let_def list.map fst_conv)
  show ?thesis by (simp add: hexa_main_def hexa_run_command new feature)
qed

section \<open>What a run may touch\<close>

lemma CreateProject_stays:
  assumes "CreateProject ff t p d = (r, d')" and "\<not> below (pp_Destination p) path"
  shows "map_get (dk_nodes d') path = map_get (dk_nodes d) path"
proof (cases "TrackedFiles (tl_ls_files t) (pp_Source p)")
  case (Inl e)
  then show ?thesis using assms by (simp add: CreateProject_def)
next
  case (Inr fs)
  obtain q d1 where copy: "CopyProject ff p fs d = (q, d1)" by fastforce
  then have "d' = d1" using assms(1) Inr
    by (auto simp: CreateProject_def split: option.splits sum.splits if_splits)
  then show ?thesis using CopyProject_stays [OF copy assms(2)] by simp
qed

lemma CreateFeature_stays:
  assumes "CreateFeature ff ts build test p d = (r, d')" and "\<not> below (fp_Destination p) path" and "path \<noteq> ia_path (fp_anchor p)"
    and "list_all (\<lambda>t. below (fp_Destination p) (path_Join (fp_Destination p) (trim_suffix (fst t) ''.tmpl''))) ts"
  shows "map_get (dk_nodes d') path = map_get (dk_nodes d) path"
proof -
  obtain q d1 where render: "RenderFeature ff ts p d = (q, d1)" by fastforce
  have "map_get (dk_nodes d') path = map_get (dk_nodes d1) path"
    using assms(1,3) render
    by (auto simp: CreateFeature_def DeclareIsolation_def os_WriteFile_def Let_def update_conv split: option.splits prod.splits if_splits)
  then show ?thesis using RenderFeature_stays [OF render assms(2,4)] by simp
qed


section \<open>A run over a project\<close>

definition demo_hexa :: hexa_env where
  "demo_hexa = \<lparr> hx_faults = no_fs_fault, hx_cwd = Inr ''/w'', hx_tools = demo_tools, hx_templates = demo_templates, hx_build = None,
     hx_test = None, hx_version = ''dev'', hx_defaults = (\<lambda>_ con. con) \<rparr>"

definition quiet :: console where
  "quiet = \<lparr> con_out = [], con_err = [] \<rparr>"

theorem options_stand_anywhere_witness:
  "hexa_main demo_hexa [''new'', ''--from=/s'', ''/p'', ''--module'', ''h/n''] (quiet, demo_disk)
       = hexa_main demo_hexa [''new'', ''/p'', ''--from=/s'', ''--module'', ''h/n''] (quiet, demo_disk)
     \<and> hexa_main demo_hexa [''make:feature'', ''--into=/p'', ''/p''] (quiet, demo_disk)
       = hexa_main demo_hexa [''make:feature'', ''/p'', ''--into=/p''] (quiet, demo_disk)"
proof -
  have "\<not> has_prefix ''/p'' ''-''" "list_all (option_group [''module'', ''from'']) [[''--from=/s'']]"
      "list_all (option_group [''module'', ''from'']) [[''--module'', ''h/n'']]"
      "list_all (option_group [''into'']) [[''--into=/p'']]" "list_all (option_group [''into'']) []"
    by code_simp+
  from options_stand_anywhere [OF this, of demo_hexa "(quiet, demo_disk)"] show ?thesis by simp
qed

lemma demo_hexa_runs:
  "fst (hexa_main demo_hexa [''make:feature'', ''--into=/p'', ''order_tracking''] (quiet, demo_project)) = 0"
  "map_get (dk_nodes (snd (snd (hexa_main demo_hexa [''make:feature'', ''--into=/p'', ''order_tracking''] (quiet, demo_project)))))
     ''/p/internal/modules/order_tracking/module.go'' = Some (Regular ''package ordertracking'' 384)"
  "fst (hexa_main demo_hexa [''new'', ''/p'', ''--from=/s'', ''--module'', ''h/n''] (quiet, demo_disk)) = 0"
  by code_simp+


end
