(* ===== verification/Spec2Isabelle.thy ===== *)
theory Spec2Isabelle
  imports Outbox_Properties Outbox_Runs Outbox_Liveness Idempotency_Module Auth_Http Config_Loader Scheduler_Module
    Pagination Database_Errors Relays Modulebus User_Surfaces Storage_Module Dynconf_Module Audit_Trail
    Notification Security Http_Stack Covergate Delivery Process Cli Hexa
begin

text \<open>
  A model of the hexagonal starter (the Go program under src/) and what holds of it. The program is three
  binaries over one configuration, \<open>cmd/server\<close>, \<open>cmd/worker\<close> and \<open>cmd/cli\<close>, which mount modules of the core
  (\<open>internal/core\<close>) and one business module (\<open>internal/modules/user_registration\<close>), and two tools, the
  generator \<open>cmd/hexa\<close> and the coverage gate \<open>tools/covergate\<close>. A module has a domain, use cases over ports,
  drivers that provide the ports and a constructor that chooses a driver from the configuration. The modules
  call one another through ports, an outbox, and a bus of messages.

  How the code is written down. A Go value is the HOL value of its shape: a struct a record, an enumeration a
  datatype, a map an association list with the operations of \<open>Go_Prelude\<close> where its order matters, a string
  or a byte slice a list of bytes (\<open>char\<close>), a fixed width integer a word where it can wrap. An error is a
  value of \<open>err\<close>, with \<open>errors.Is\<close> over what it wraps. A function that may fail returns a sum or an option;
  one that acts takes the state it acts on and returns the state it leaves. What a function is given from
  outside (clock, random source, environment, the failure of a call, the answer of a library) is an argument
  or a field of a record of arguments. A lock that covers a method makes the method one step; replicas and
  consumers that run side by side are step relations or sequences of interleaved steps.

  The theories, in the order they build on each other.

  The language: \<open>Go_Prelude\<close> (strings, errors, maps, panics), \<open>Go_Text\<close>, \<open>Go_Path\<close>, \<open>Go_Runes\<close>, \<open>Go_Base64\<close>,
  \<open>Go_Float\<close> (the parts used of strings, strconv, bufio, path, base64 and of float64), \<open>Logging\<close> (slog).
  \<open>Result\<close> and \<open>Pagination\<close> are internal/pkg/result, fp and pagination.

  The configuration (internal/config): \<open>Config_Module\<close> the modules and their catalogue, \<open>Config_Core\<close> the groups,
  their defaults and their validation, \<open>Config_Loader\<close> the layers, the references to the environment and
  \<open>Load\<close>. The lemmas say which configurations are valid, which layer decides, and that what is loaded is valid.

  The outbox (internal/core/outbox): \<open>Outbox_Domain\<close> the message and the retry policy, \<open>Outbox_Contract\<close> the
  promises of a driver as locales, \<open>Outbox_Memory\<close> and \<open>Outbox_Postgres\<close> the drivers, each an interpretation,
  \<open>Outbox_Dispatcher\<close> the dispatcher over any ports, \<open>Outbox_Fate\<close> the dispatcher wired on a driver and what
  becomes of every message, \<open>Outbox_Properties\<close>, \<open>Outbox_Runs\<close> and \<open>Outbox_Liveness\<close> the guarantees with the
  memory driver: nothing is lost, every message of a batch is settled, the outbox empties. \<open>Outbox_Module\<close> is
  the construction.

  Idempotency (internal/core/idempotency): \<open>Idempotency_Contract\<close> a locale, \<open>Idempotency_Drivers\<close> its three
  interpretations, \<open>Idempotency_Once\<close> the guard of internal/infrastructure/subscriber and consumers that
  interleave, \<open>Idempotency_Module\<close> the construction.

  Authentication (internal/core/auth): \<open>Auth_Domain\<close>, \<open>Auth_Store\<close> (the contract of the ports as a locale, the
  memory driver as its interpretation), \<open>Auth_Application\<close> the use cases, \<open>Auth_Properties\<close> what they guarantee,
  \<open>Auth_Module\<close> the construction and the bootstrap, \<open>Auth_Http\<close> the routes and their guard.

  The other modules of the core: \<open>Scheduler\<close>, \<open>Scheduler_Electors\<close> (a locale for the election, interpreted on
  both electors, and replicas that crash) and \<open>Scheduler_Module\<close>; \<open>Storage\<close> and \<open>Storage_Module\<close>; \<open>Dynconf\<close>,
  \<open>Dynconf_Postgres\<close> (replicas with caches, refining a specification of bounded staleness) and
  \<open>Dynconf_Module\<close>; \<open>Audit_Trail\<close>; \<open>Notification\<close>.

  The infrastructure (internal/infrastructure): \<open>Database\<close> and \<open>Database_Errors\<close> the unit of work, the locks and
  the errors of the driver, \<open>Messaging\<close>, \<open>Relay\<close> and \<open>Relays\<close> the bus, the retries and the relays over kafka
  and rabbitmq, \<open>Modulebus\<close> calls between modules, \<open>Security\<close> hashing and encryption, \<open>Middleware\<close> and
  \<open>Http_Stack\<close> what stands in front of the handlers, \<open>Connections\<close> what is opened, \<open>Telemetry\<close> the logger and
  the providers.

  The business module: \<open>User_Domain\<close>, \<open>User_Registration\<close>, \<open>User_Surfaces\<close>.

  The binaries: \<open>Application\<close> the shared catalogue, \<open>Server\<close> and \<open>Worker\<close> what cmd/server and cmd/worker mount,
  \<open>Process\<close> their life from the configuration to the exit code, \<open>Delivery\<close> both over one database, \<open>Cli\<close> the
  command line. The lemmas say when a binary starts, what it opens and gives back, what it answers, and that a
  registration accepted by the server is welcomed once by the dispatcher.

  The tools: \<open>Generator\<close> and \<open>Feature\<close> are internal/generator, \<open>Hexa\<close> is cmd/hexa, over a disk whose calls may
  fail; \<open>Covergate\<close> is tools/covergate.

  Bounds. The recursion of the model ends by its data, with two exceptions: the reader of durations takes the
  length of the text as fuel, and each component of a duration consumes a byte; \<open>walk\<close> of \<open>Pagination\<close>, which
  asks page after page, takes fuel, and its theorem gives every row as soon as the fuel exceeds the number of
  rows left. The loops that wait for a signal are lists of what they are given: the ticks of the dispatcher,
  the deliveries of a broker, the requests of a client.

  Parameters: argon2, AES-GCM, HMAC and SHA-256, JSON, YAML (the loader works on decoded trees), the drivers of
  PostgreSQL (the statements are modelled by the rows they select and change, with row locks, advisory locks
  and transactions), Redis (its commands on one key space), kafka-go, amqp091, OpenTelemetry, text/template,
  go/format, git and the Go tool chain. A theorem that needs a law of one of them names it as a hypothesis.

  Not modelled: the SQL migrations and the text of the statements; the router of chi and the listening socket
  (a handler is called directly); the concurrency inside one process where no property depends on it (the
  readers of a broker, one per event type; the requests of a server); the templates of a module and what they
  render; the schedule of signals (the end of a context is an argument); the formatting of the numbers the
  coverage gate prints; the ports packages, which only name function types; test code, scripts and documents.
\<close>

end
